(* ===== verification/Prelude.thy ===== *)
theory Prelude
  imports
    Main
    "HOL-Library.Word"
    "HOL-Library.Char_ord"
    "HOL-Library.List_Lexorder"
    "HOL-Library.Product_Lexorder"
    "HOL-Library.Sublist"
    "HOL-Library.Code_Target_Nat"
begin

text \<open>
  What every component of the model shares: results (Rust's \<^verbatim>\<open>Result\<close> as a sum, its \<^verbatim>\<open>?\<close>
  operator as \<open>rbind\<close>, a loop that stops at the first error as \<open>try_fold\<close>), machine integers
  with the checked and saturating additions the code uses, ordered sets and maps
  (\<^verbatim>\<open>BTreeSet\<close> and \<^verbatim>\<open>BTreeMap\<close> as strictly sorted lists), and the collections of rewrite rules
  the component theories extend.
\<close>

named_theorems res_simps \<open>results: when a composed computation returns\<close>
named_theorems str_simps \<open>bytes and strings\<close>
named_theorems bset_simps \<open>ordered sets and maps\<close>

section \<open>Types of the source\<close>

type_synonym u8 = "8 word"
type_synonym u16 = "16 word"
type_synonym u32 = "32 word"
type_synonym u64 = "64 word"
type_synonym usize = nat
type_synonym bytes = "char list"

section \<open>Results\<close>

definition rbind :: "'e + 'a \<Rightarrow> ('a \<Rightarrow> 'e + 'b) \<Rightarrow> 'e + 'b" where
  "rbind m f = (case m of Inl e \<Rightarrow> Inl e | Inr x \<Rightarrow> f x)"

definition ok_or :: "'e \<Rightarrow> 'a option \<Rightarrow> 'e + 'a" where
  "ok_or e m = (case m of None \<Rightarrow> Inl e | Some x \<Rightarrow> Inr x)"

definition map_err :: "('e \<Rightarrow> 'f) \<Rightarrow> 'e + 'a \<Rightarrow> 'f + 'a" where
  "map_err g m = (case m of Inl e \<Rightarrow> Inl (g e) | Inr x \<Rightarrow> Inr x)"

definition is_ok :: "'e + 'a \<Rightarrow> bool" where
  "is_ok m = (case m of Inl _ \<Rightarrow> False | Inr _ \<Rightarrow> True)"

lemma rbind_simps [simp]:
  "rbind (Inl e) f = Inl e"
  "rbind (Inr x) f = f x"
  by (simp_all add: rbind_def)

lemma rbind_Inr_iff [res_simps]: "rbind m f = Inr y \<longleftrightarrow> (\<exists>x. m = Inr x \<and> f x = Inr y)"
  by (cases m) auto

lemma rbind_Inl_iff: "rbind m f = Inl e \<longleftrightarrow> m = Inl e \<or> (\<exists>x. m = Inr x \<and> f x = Inl e)"
  by (cases m) auto

lemma ok_or_simps [simp]: "ok_or e None = Inl e" "ok_or e (Some x) = Inr x"
  by (simp_all add: ok_or_def)

lemma ok_or_Inr_iff [res_simps]: "ok_or e m = Inr x \<longleftrightarrow> m = Some x"
  by (cases m) auto

lemma map_err_simps [simp]: "map_err g (Inl e) = Inl (g e)" "map_err g (Inr x) = Inr x"
  by (simp_all add: map_err_def)

lemma map_err_Inr_iff [res_simps]: "map_err g m = Inr x \<longleftrightarrow> m = Inr x"
  by (cases m) auto

lemma is_ok_simps [simp]: "is_ok (Inl e) = False" "is_ok (Inr x) = True"
  by (simp_all add: is_ok_def)

lemma is_ok_iff [res_simps]: "is_ok m \<longleftrightarrow> (\<exists>x. m = Inr x)"
  by (cases m) auto

lemma if_Inl_eq_Inr [res_simps]: "(if b then Inl e else m) = Inr x \<longleftrightarrow> \<not> b \<and> m = Inr x"
  by auto

text \<open>A loop over a list that threads a state and returns at the first error.\<close>

fun try_fold :: "('s \<Rightarrow> 'a \<Rightarrow> 'e + 's) \<Rightarrow> 's \<Rightarrow> 'a list \<Rightarrow> 'e + 's" where
  "try_fold f s [] = Inr s"
| "try_fold f s (x # xs) = rbind (f s x) (\<lambda>s'. try_fold f s' xs)"

lemma try_fold_append:
  "try_fold f s (xs @ ys) = rbind (try_fold f s xs) (\<lambda>s'. try_fold f s' ys)"
  by (induction xs arbitrary: s) (auto simp: rbind_def split: sum.splits)

lemma try_fold_Cons_Inr:
  "try_fold f s (x # xs) = Inr t \<longleftrightarrow> (\<exists>s'. f s x = Inr s' \<and> try_fold f s' xs = Inr t)"
  by (simp add: res_simps)

lemma try_fold_snoc_Inr:
  "try_fold f s (xs @ [x]) = Inr t \<longleftrightarrow> (\<exists>s'. try_fold f s xs = Inr s' \<and> f s' x = Inr t)"
  by (auto simp: try_fold_append res_simps)

text \<open>A loop that only checks: the first error of the elements, in order.\<close>

fun check_all :: "('a \<Rightarrow> 'e + unit) \<Rightarrow> 'a list \<Rightarrow> 'e + unit" where
  "check_all f [] = Inr ()"
| "check_all f (x # xs) = rbind (f x) (\<lambda>_. check_all f xs)"

lemma check_all_Inr_iff [res_simps]: "check_all f xs = Inr () \<longleftrightarrow> (\<forall>x\<in>set xs. f x = Inr ())"
  by (induction xs) (auto simp: res_simps)

text \<open>\<^verbatim>\<open>collect::<Result<Vec<_>, _>>\<close>: the results in order, or the first error.\<close>

fun collect_res :: "('a \<Rightarrow> 'e + 'b) \<Rightarrow> 'a list \<Rightarrow> 'e + 'b list" where
  "collect_res f [] = Inr []"
| "collect_res f (x # xs) = rbind (f x) (\<lambda>y. rbind (collect_res f xs) (\<lambda>ys. Inr (y # ys)))"

lemma collect_res_Inr_iff [res_simps]:
  "collect_res f xs = Inr ys \<longleftrightarrow> list_all2 (\<lambda>x y. f x = Inr y) xs ys"
proof (induction xs arbitrary: ys)
  case (Cons x xs)
  then show ?case by (cases ys) (auto simp: res_simps)
qed auto

section \<open>The loop contract\<close>

text \<open>
  Every validator of the code is such a loop, and its state is what it has to remember of the
  elements it has read. The contract relates the two: the state after an accepted list is the
  \<open>cursor\<close> of that list, and one more element is accepted exactly when the longer list is \<open>good\<close>.
  The client then knows which lists the loop accepts, and of every state on the way.
\<close>

locale cursor_loop =
  fixes step :: "'s \<Rightarrow> 'a \<Rightarrow> 'e + 's"
    and cursor :: "'a list \<Rightarrow> 's"
    and good :: "'a list \<Rightarrow> bool"
  assumes good_Nil: "good []"
    and good_snocD: "good (xs @ [x]) \<Longrightarrow> good xs"
    and step_snoc: "good xs \<Longrightarrow> step (cursor xs) x = Inr t \<longleftrightarrow> good (xs @ [x]) \<and> t = cursor (xs @ [x])"
begin

lemma accepts_iff: "try_fold step (cursor []) xs = Inr t \<longleftrightarrow> good xs \<and> t = cursor xs"
proof (induction xs arbitrary: t rule: rev_induct)
  case (snoc x xs)
  have "try_fold step (cursor []) (xs @ [x]) = Inr t \<longleftrightarrow> good xs \<and> step (cursor xs) x = Inr t"
    by (simp add: try_fold_snoc_Inr snoc)
  then show ?case using step_snoc [of xs x t] good_snocD [of xs x] by blast
qed (auto simp: good_Nil)

lemma good_prefix: "good xs \<Longrightarrow> prefix ys xs \<Longrightarrow> good ys"
proof (induction xs rule: rev_induct)
  case (snoc x xs)
  then show ?case by (auto simp: prefix_snoc dest: good_snocD)
qed simp

lemma good_snoc_step: "good (xs @ [x]) \<Longrightarrow> step (cursor xs) x = Inr (cursor (xs @ [x]))"
  using step_snoc good_snocD by blast

end

section \<open>Machine integers\<close>

definition sat_add :: "'w::len word \<Rightarrow> 'w word \<Rightarrow> 'w word" where
  "sat_add a b = (if a \<le> - 1 - b then a + b else - 1)"

definition checked_add :: "'w::len word \<Rightarrow> 'w word \<Rightarrow> 'w word option" where
  "checked_add a b = (if a \<le> - 1 - b then Some (a + b) else None)"

definition sat_sub :: "'w::len word \<Rightarrow> 'w word \<Rightarrow> 'w word" where
  "sat_sub a b = (if b \<le> a then a - b else 0)"

definition abs_diff :: "'w::len word \<Rightarrow> 'w word \<Rightarrow> 'w word" where
  "abs_diff a b = (if a \<le> b then b - a else a - b)"

text \<open>\<^verbatim>\<open>usize\<close> is a count of list elements; its checked addition overflows at the 64-bit width.\<close>

definition usize_checked_add :: "usize \<Rightarrow> usize \<Rightarrow> usize option" where
  "usize_checked_add a b = (if a + b < 2 ^ 64 then Some (a + b) else None)"

definition usize_sat_add :: "usize \<Rightarrow> usize \<Rightarrow> usize" where
  "usize_sat_add a b = min (a + b) (2 ^ 64 - 1)"

lemma unat_max_word: "unat (- 1 :: 'w::len word) = 2 ^ LENGTH('w) - 1"
  by (simp add: unsigned_minus_1_eq_mask mask_eq_exp_minus_1)

lemma no_overflow_iff:
  fixes a b :: "'w::len word"
  shows "a \<le> - 1 - b \<longleftrightarrow> unat a + unat b < 2 ^ LENGTH('w)"
proof -
  have "unat (- 1 - b) = unat (- 1 :: 'w word) - unat b"
    by (rule unat_sub) simp
  then have "unat (- 1 - b) = 2 ^ LENGTH('w) - 1 - unat b"
    by (simp add: unat_max_word)
  moreover have "unat b < 2 ^ LENGTH('w)" by (rule unsigned_less)
  ultimately show ?thesis
    by (simp add: word_le_nat_alt le_diff_conv2 less_eq_Suc_le)
qed

lemma unat_sat_add:
  fixes a b :: "'w::len word"
  shows "unat (sat_add a b) = min (unat a + unat b) (2 ^ LENGTH('w) - 1)"
proof (cases "unat a + unat b < 2 ^ LENGTH('w)")
  case True
  then show ?thesis
    by (simp add: sat_add_def no_overflow_iff unat_word_ariths min_absorb1)
next
  case False
  then show ?thesis
    by (simp add: sat_add_def no_overflow_iff unat_max_word min_absorb2 not_less diff_le_self le_trans)
qed

lemma checked_add_Some_iff [res_simps]:
  fixes a b c :: "'w::len word"
  shows "checked_add a b = Some c \<longleftrightarrow> unat c = unat a + unat b"
proof -
  have "unat c < 2 ^ LENGTH('w)" by (rule unsigned_less)
  then have "\<not> unat a + unat b < 2 ^ LENGTH('w) \<Longrightarrow> unat c \<noteq> unat a + unat b" by linarith
  then show ?thesis
    by (cases "unat a + unat b < 2 ^ LENGTH('w)")
      (auto simp: checked_add_def no_overflow_iff unat_word_ariths word_unat_eq_iff)
qed

lemma unat_sat_sub: "unat (sat_sub a b) = unat a - unat b"
  by (simp add: sat_sub_def word_le_nat_alt unat_sub)

lemma sat_sub_self [simp]: "sat_sub a a = 0"
  by (simp add: sat_sub_def)

lemma abs_diff_self [simp]: "abs_diff a a = 0"
  by (simp add: abs_diff_def)

lemma abs_diff_commute: "abs_diff a b = abs_diff b a"
  by (auto simp: abs_diff_def)

lemma usize_checked_add_Some_iff [res_simps]:
  "usize_checked_add a b = Some c \<longleftrightarrow> a + b < 2 ^ 64 \<and> c = a + b"
  by (auto simp: usize_checked_add_def)

text \<open>Comparing a saturated count with a limit compares the count itself.\<close>

lemma usize_sat_add_less: "n < 2 ^ 64 - 1 \<Longrightarrow> n < usize_sat_add a b \<longleftrightarrow> n < a + b"
  by (auto simp: usize_sat_add_def)

lemma usize_sat_add_id: "a + b < 2 ^ 64 \<Longrightarrow> usize_sat_add a b = a + b"
  by (simp add: usize_sat_add_def)

section \<open>Ordered sets and maps\<close>

definition bset_insert :: "'a::linorder \<Rightarrow> 'a list \<Rightarrow> 'a list" where
  "bset_insert x s = (if x \<in> set s then s else insort x s)"

definition bset_extend :: "'a::linorder list \<Rightarrow> 'a list \<Rightarrow> 'a list" where
  "bset_extend s xs = fold bset_insert xs s"

definition bset_of_list :: "'a::linorder list \<Rightarrow> 'a list" where
  "bset_of_list xs = bset_extend [] xs"

definition bset_wf :: "'a::linorder list \<Rightarrow> bool" where
  "bset_wf s \<longleftrightarrow> sorted s \<and> distinct s"

lemma set_bset_insert [simp, bset_simps]: "set (bset_insert x s) = insert x (set s)"
  by (auto simp: bset_insert_def set_insort_key)

lemma bset_wf_insert [simp, intro]: "bset_wf s \<Longrightarrow> bset_wf (bset_insert x s)"
  by (auto simp: bset_wf_def bset_insert_def sorted_insort distinct_insort)

lemma set_bset_extend [simp, bset_simps]: "set (bset_extend s xs) = set s \<union> set xs"
  unfolding bset_extend_def by (induction xs arbitrary: s) auto

lemma bset_wf_extend [simp, intro]: "bset_wf s \<Longrightarrow> bset_wf (bset_extend s xs)"
  unfolding bset_extend_def by (induction xs arbitrary: s) auto

lemma bset_wf_Nil [simp]: "bset_wf []"
  by (simp add: bset_wf_def)

lemma set_bset_of_list [simp, bset_simps]: "set (bset_of_list xs) = set xs"
  by (simp add: bset_of_list_def)

lemma bset_wf_of_list [simp, intro]: "bset_wf (bset_of_list xs)"
  by (simp add: bset_of_list_def)

text \<open>Two ordered sets with the same elements are the same list: the order is canonical.\<close>

lemma bset_eqI: "bset_wf s \<Longrightarrow> bset_wf t \<Longrightarrow> set s = set t \<Longrightarrow> s = t"
  by (auto simp: bset_wf_def intro: sorted_distinct_set_unique)

text \<open>
  A \<^verbatim>\<open>BTreeMap<String, Vec<V>>\<close> filled by \<^verbatim>\<open>entry(k).or_insert_with(Vec::new).push(v)\<close>: the
  entries in key order, each with its values in insertion order.
\<close>

fun bmap_push :: "'k::linorder \<Rightarrow> 'v \<Rightarrow> ('k \<times> 'v list) list \<Rightarrow> ('k \<times> 'v list) list" where
  "bmap_push k v [] = [(k, [v])]"
| "bmap_push k v ((k', vs) # m) =
     (if k = k' then (k', vs @ [v]) # m
      else if k < k' then (k, [v]) # (k', vs) # m
      else (k', vs) # bmap_push k v m)"

definition bmap_get :: "('k \<times> 'v list) list \<Rightarrow> 'k \<Rightarrow> 'v list" where
  "bmap_get m k = (case map_of m k of None \<Rightarrow> [] | Some vs \<Rightarrow> vs)"

definition bmap_wf :: "('k::linorder \<times> 'v list) list \<Rightarrow> bool" where
  "bmap_wf m \<longleftrightarrow> sorted_wrt (<) (map fst m) \<and> (\<forall>kv\<in>set m. snd kv \<noteq> [])"

lemma keys_bmap_push [simp, bset_simps]: "fst ` set (bmap_push k v m) = insert k (fst ` set m)"
  by (induction k v m rule: bmap_push.induct) auto

lemma bmap_wf_Nil [simp]: "bmap_wf []"
  by (simp add: bmap_wf_def)

lemma bmap_wf_Cons: "bmap_wf ((k, vs) # m) \<longleftrightarrow> vs \<noteq> [] \<and> (\<forall>k'\<in>fst ` set m. k < k') \<and> bmap_wf m"
  by (auto simp: bmap_wf_def)

lemma bmap_wf_push [simp, intro]: "bmap_wf m \<Longrightarrow> bmap_wf (bmap_push k v m)"
  by (induction k v m rule: bmap_push.induct) (auto simp: bmap_wf_Cons)

lemma bmap_get_push:
  "bmap_wf m \<Longrightarrow> bmap_get (bmap_push k v m) k' = bmap_get m k' @ (if k' = k then [v] else [])"
proof (induction k v m rule: bmap_push.induct)
  case (2 k v k1 vs m)
  then show ?case
  proof (cases "k < k1")
    case True
    with 2 have "map_of m k = None"
      by (force simp: bmap_wf_Cons map_of_eq_None_iff)
    with True 2 show ?thesis by (auto simp: bmap_get_def bmap_wf_Cons)
  qed (auto simp: bmap_get_def bmap_wf_Cons)
qed (simp add: bmap_get_def)

lemma bmap_get_Nil_iff: "bmap_wf m \<Longrightarrow> bmap_get m k = [] \<longleftrightarrow> k \<notin> fst ` set m"
  by (auto simp: bmap_get_def bmap_wf_def map_of_eq_None_iff dest: map_of_SomeD split: option.splits)
    (metis image_eqI map_of_SomeD fst_conv snd_conv)+

lemma map_of_nth_fst: "distinct (map fst m) \<Longrightarrow> i < length m \<Longrightarrow> map_of m (fst (m ! i)) = Some (snd (m ! i))"
  by (intro map_of_is_SomeI) (auto simp: prod.collapse)

lemma map_of_self: "distinct (map fst m) \<Longrightarrow> map (\<lambda>k. (k, the (map_of m k))) (map fst m) = m"
  by (rule nth_equalityI) (auto simp: map_of_nth_fst)

lemma bmap_ext:
  assumes "bmap_wf m" and "bmap_wf n" and "\<And>k. bmap_get m k = bmap_get n k"
  shows "m = n"
proof -
  have "k \<in> fst ` set m \<longleftrightarrow> k \<in> fst ` set n" for k
    using bmap_get_Nil_iff [OF assms(1), of k] bmap_get_Nil_iff [OF assms(2), of k] assms(3) [of k]
    by argo
  then have keys: "fst ` set m = fst ` set n" by (rule set_eqI)
  have sm: "sorted (map fst m) \<and> distinct (map fst m)" and sn: "sorted (map fst n) \<and> distinct (map fst n)"
    using assms(1,2) by (auto simp: bmap_wf_def strict_sorted_iff)
  then have fsts: "map fst m = map fst n"
    using keys by (auto intro!: sorted_distinct_set_unique)
  have "map_of m k = map_of n k" for k
  proof (cases "k \<in> fst ` set m")
    case True
    then obtain v w where "map_of m k = Some v" and "map_of n k = Some w"
      using keys by (metis not_None_eq map_of_eq_None_iff)
    then show ?thesis using assms(3) [of k] by (simp add: bmap_get_def)
  next
    case False
    then show ?thesis using keys map_of_eq_None_iff by metis
  qed
  then have *: "map (\<lambda>k. (k, the (map_of m k))) (map fst m) = map (\<lambda>k. (k, the (map_of n k))) (map fst n)"
    using fsts by simp
  have "m = map (\<lambda>k. (k, the (map_of m k))) (map fst m)"
    using sm by (intro map_of_self [symmetric]) simp
  also note *
  also have "map (\<lambda>k. (k, the (map_of n k))) (map fst n) = n"
    using sn by (intro map_of_self) simp
  finally show ?thesis .
qed

text \<open>The map a loop fills that pushes the value of each selected element under its key.\<close>

definition bmap_group :: "('x \<Rightarrow> bool) \<Rightarrow> ('x \<Rightarrow> 'k::linorder) \<Rightarrow> ('x \<Rightarrow> 'v) \<Rightarrow> 'x list
    \<Rightarrow> ('k \<times> 'v list) list \<Rightarrow> ('k \<times> 'v list) list" where
  "bmap_group P f g xs m = fold (\<lambda>x m. if P x then bmap_push (f x) (g x) m else m) xs m"

lemma bmap_wf_group [simp, intro]: "bmap_wf m \<Longrightarrow> bmap_wf (bmap_group P f g xs m)"
  unfolding bmap_group_def by (induction xs arbitrary: m) auto

lemma bmap_get_group:
  "bmap_wf m \<Longrightarrow>
     bmap_get (bmap_group P f g xs m) k = bmap_get m k @ map g (filter (\<lambda>x. P x \<and> f x = k) xs)"
  unfolding bmap_group_def by (induction xs arbitrary: m) (auto simp: bmap_get_push)

lemma keys_group: "fst ` set (bmap_group P f g xs m) = fst ` set m \<union> f ` {x \<in> set xs. P x}"
  unfolding bmap_group_def by (induction xs arbitrary: m) auto

lemma bmap_group_eq_iff:
  "bmap_group P f g xs [] = bmap_group Q f g ys [] \<longleftrightarrow>
     (\<forall>k. map g (filter (\<lambda>x. P x \<and> f x = k) xs) = map g (filter (\<lambda>x. Q x \<and> f x = k) ys))"
  (is "?l \<longleftrightarrow> ?r")
proof
  assume ?l
  then have "bmap_get (bmap_group P f g xs []) k = bmap_get (bmap_group Q f g ys []) k" for k by simp
  then show ?r by (simp add: bmap_get_group)
next
  assume ?r
  then show ?l by (intro bmap_ext) (simp_all add: bmap_get_group)
qed

section \<open>Picking from a pool\<close>

text \<open>A sequence of picks, each available when it is made.\<close>

fun legal_picks :: "('s \<Rightarrow> 'i \<Rightarrow> bool) \<Rightarrow> ('s \<Rightarrow> 'i \<Rightarrow> 's) \<Rightarrow> 's \<Rightarrow> 'i list \<Rightarrow> bool" where
  "legal_picks avail pick s [] = True"
| "legal_picks avail pick s (i # is) = (avail s i \<and> legal_picks avail pick (pick s i) is)"

text \<open>
  What a consumption policy promises: picking never makes anything available but what was picked.
  A single-use policy withdraws exactly what was picked; a sticky one leaves nothing else.
\<close>

locale pool =
  fixes avail :: "'s \<Rightarrow> 'i \<Rightarrow> bool"
    and pick :: "'s \<Rightarrow> 'i \<Rightarrow> 's"
  assumes avail_pickD: "avail (pick s i) j \<Longrightarrow> avail s j \<or> j = i"
begin

lemma picks_available: "legal_picks avail pick s is \<Longrightarrow> i \<in> set is \<Longrightarrow> avail s i"
  by (induction "is" arbitrary: s) (auto dest: avail_pickD)

end

locale single_use_pool = pool +
  assumes picked_gone: "\<not> avail (pick s i) i"
begin

lemma picks_distinct: "legal_picks avail pick s is \<Longrightarrow> distinct is"
  by (induction "is" arbitrary: s) (auto dest: picks_available simp: picked_gone)

end

locale sticky_pool = pool +
  assumes only_picked: "avail (pick s i) j \<Longrightarrow> j = i"
begin

lemma picks_constant: "legal_picks avail pick s (i # is) \<Longrightarrow> j \<in> set is \<Longrightarrow> j = i"
  by (auto dest: picks_available only_picked)

end

end
