(* ===== verification/Strings.thy ===== *)
theory Strings
  imports Prelude
begin

text \<open>
  Rust strings. A \<^verbatim>\<open>String\<close>, a \<^verbatim>\<open>&str\<close> and a \<^verbatim>\<open>&[u8]\<close> are all a list of bytes here (a
  \<open>char\<close> of HOL is exactly a byte), so \<open>length\<close> is \<^verbatim>\<open>len()\<close>. What distinguishes a string is that
  its bytes are UTF-8, which \<open>utf8_valid\<close> decides as \<^verbatim>\<open>std::str::from_utf8\<close> does. The functions
  below are the standard library operations the modelled code calls.
\<close>

section \<open>ASCII\<close>

definition byte_val :: "char \<Rightarrow> nat" where
  "byte_val c = of_char c"

definition byte_in :: "nat \<Rightarrow> nat \<Rightarrow> char \<Rightarrow> bool" where
  "byte_in lo hi c \<longleftrightarrow> lo \<le> byte_val c \<and> byte_val c \<le> hi"

definition is_ascii_digit :: "char \<Rightarrow> bool" where
  "is_ascii_digit c \<longleftrightarrow> byte_in 48 57 c"

definition is_ascii_upper :: "char \<Rightarrow> bool" where
  "is_ascii_upper c \<longleftrightarrow> byte_in 65 90 c"

definition is_ascii_lower :: "char \<Rightarrow> bool" where
  "is_ascii_lower c \<longleftrightarrow> byte_in 97 122 c"

definition is_ascii_alnum :: "char \<Rightarrow> bool" where
  "is_ascii_alnum c \<longleftrightarrow> is_ascii_digit c \<or> is_ascii_upper c \<or> is_ascii_lower c"

definition is_ascii_hexdigit :: "char \<Rightarrow> bool" where
  "is_ascii_hexdigit c \<longleftrightarrow> is_ascii_digit c \<or> byte_in 65 70 c \<or> byte_in 97 102 c"

definition is_ascii :: "string \<Rightarrow> bool" where
  "is_ascii s \<longleftrightarrow> (\<forall>c\<in>set s. byte_val c < 128)"

definition lower_char :: "char \<Rightarrow> char" where
  "lower_char c = (if is_ascii_upper c then char_of (byte_val c + 32) else c)"

definition to_lower :: "string \<Rightarrow> string" where
  "to_lower s = map lower_char s"

definition eq_ignore_case :: "string \<Rightarrow> string \<Rightarrow> bool" where
  "eq_ignore_case a b \<longleftrightarrow> to_lower a = to_lower b"

lemma byte_val_less [simp]: "byte_val c < 256"
  by (simp add: byte_val_def)

lemma byte_val_char_of: "n < 256 \<Longrightarrow> byte_val (char_of n) = n"
  by (simp add: byte_val_def)

lemma byte_val_inject: "byte_val a = byte_val b \<longleftrightarrow> a = b"
  by (simp add: byte_val_def)

lemma byte_val_lower_char: "byte_val (lower_char c) = (if is_ascii_upper c then byte_val c + 32 else byte_val c)"
  by (auto simp: lower_char_def is_ascii_upper_def byte_in_def byte_val_char_of)

lemma lower_char_idem [simp, str_simps]: "lower_char (lower_char c) = lower_char c"
  unfolding byte_val_inject [symmetric]
  by (auto simp: byte_val_lower_char is_ascii_upper_def byte_in_def)

lemma to_lower_idem [simp, str_simps]: "to_lower (to_lower s) = to_lower s"
  by (simp add: to_lower_def)

lemma length_to_lower [simp, str_simps]: "length (to_lower s) = length s"
  by (simp add: to_lower_def)

lemma to_lower_Nil_iff [simp]: "to_lower s = [] \<longleftrightarrow> s = []"
  by (simp add: to_lower_def)

lemma to_lower_Nil [simp]: "to_lower [] = []"
  by (simp add: to_lower_def)

lemma to_lower_append [simp]: "to_lower (s @ t) = to_lower s @ to_lower t"
  by (simp add: to_lower_def)

lemma eq_ignore_case_refl [simp]: "eq_ignore_case s s"
  by (simp add: eq_ignore_case_def)

lemma lower_char_not_upper [simp]: "\<not> is_ascii_upper (lower_char c)"
  by (auto simp: is_ascii_upper_def byte_in_def byte_val_lower_char)

lemma is_ascii_alnum_lower [simp]: "is_ascii_alnum (lower_char c) = is_ascii_alnum c"
  by (auto simp: is_ascii_alnum_def is_ascii_upper_def is_ascii_lower_def is_ascii_digit_def
      byte_in_def byte_val_lower_char)

lemma is_ascii_to_lower [simp]: "is_ascii (to_lower s) = is_ascii s"
  by (auto simp: is_ascii_def to_lower_def byte_val_lower_char is_ascii_upper_def byte_in_def)

section \<open>UTF-8\<close>

definition is_cont :: "char \<Rightarrow> bool" where
  "is_cont c \<longleftrightarrow> byte_in 128 191 c"

text \<open>The well-formed byte sequences of the Unicode standard, table 3-7, as \<^verbatim>\<open>core::str\<close> checks them.\<close>

fun utf8_valid :: "bytes \<Rightarrow> bool" where
  "utf8_valid [] = True"
| "utf8_valid (a # s) =
     (if byte_in 0 127 a then utf8_valid s
      else if byte_in 194 223 a then
        (case s of b # t \<Rightarrow> is_cont b \<and> utf8_valid t | _ \<Rightarrow> False)
      else if byte_in 224 239 a then
        (case s of b # c # t \<Rightarrow>
             (if byte_val a = 224 then byte_in 160 191 b
              else if byte_val a = 237 then byte_in 128 159 b
              else is_cont b) \<and> is_cont c \<and> utf8_valid t
         | _ \<Rightarrow> False)
      else if byte_in 240 244 a then
        (case s of b # c # d # t \<Rightarrow>
             (if byte_val a = 240 then byte_in 144 191 b
              else if byte_val a = 244 then byte_in 128 143 b
              else is_cont b) \<and> is_cont c \<and> is_cont d \<and> utf8_valid t
         | _ \<Rightarrow> False)
      else False)"

lemma utf8_valid_ascii: "is_ascii s \<Longrightarrow> utf8_valid s"
  by (induction s) (auto simp: is_ascii_def byte_in_def)

section \<open>Substrings\<close>

definition starts_with :: "string \<Rightarrow> string \<Rightarrow> bool" where
  "starts_with p s \<longleftrightarrow> prefix p s"

definition ends_with :: "string \<Rightarrow> string \<Rightarrow> bool" where
  "ends_with p s \<longleftrightarrow> suffix p s"

definition strip_prefix :: "string \<Rightarrow> string \<Rightarrow> string option" where
  "strip_prefix p s = (if prefix p s then Some (drop (length p) s) else None)"

definition strip_suffix :: "string \<Rightarrow> string \<Rightarrow> string option" where
  "strip_suffix p s = (if suffix p s then Some (take (length s - length p) s) else None)"

definition unwrap_or :: "'a option \<Rightarrow> 'a \<Rightarrow> 'a" where
  "unwrap_or m d = (case m of None \<Rightarrow> d | Some x \<Rightarrow> x)"

text \<open>\<^verbatim>\<open>str::find\<close> with a string pattern: the offset of its first occurrence.\<close>

fun find_sub :: "string \<Rightarrow> string \<Rightarrow> nat option" where
  "find_sub p [] = (if p = [] then Some 0 else None)"
| "find_sub p (c # s) = (if prefix p (c # s) then Some 0 else map_option Suc (find_sub p s))"

lemma find_sub_free: "d \<notin> set s \<Longrightarrow> find_sub (d # p) s = None"
  by (induction s) auto

lemma find_sub_at: "d \<notin> set pre \<Longrightarrow> find_sub (d # p) (pre @ d # p @ s) = Some (length pre)"
  by (induction pre) (auto simp: prefix_def)

text \<open>\<^verbatim>\<open>str::split(char)\<close>: never empty, and the separators are the only bytes dropped.\<close>

fun split_on :: "char \<Rightarrow> string \<Rightarrow> string list" where
  "split_on d [] = [[]]"
| "split_on d (c # s) =
     (if c = d then [] # split_on d s
      else (case split_on d s of [] \<Rightarrow> [[c]] | w # ws \<Rightarrow> (c # w) # ws))"

fun join_on :: "char \<Rightarrow> string list \<Rightarrow> string" where
  "join_on d [] = []"
| "join_on d [w] = w"
| "join_on d (w # v # ws) = w @ d # join_on d (v # ws)"

definition split_once :: "char \<Rightarrow> string \<Rightarrow> (string \<times> string) option" where
  "split_once d s = (if d \<in> set s
     then Some (takeWhile (\<lambda>c. c \<noteq> d) s, tl (dropWhile (\<lambda>c. c \<noteq> d) s)) else None)"

definition rsplit_once :: "char \<Rightarrow> string \<Rightarrow> (string \<times> string) option" where
  "rsplit_once d s = (case split_once d (rev s) of None \<Rightarrow> None | Some (b, a) \<Rightarrow> Some (rev a, rev b))"

lemma strip_prefix_Some_iff [str_simps]: "strip_prefix p s = Some t \<longleftrightarrow> s = p @ t"
  by (auto simp: strip_prefix_def prefix_def)

lemma strip_prefix_append [simp]: "strip_prefix p (p @ t) = Some t"
  by (simp add: str_simps)

lemma strip_suffix_Some_iff [str_simps]: "strip_suffix p s = Some t \<longleftrightarrow> s = t @ p"
  by (auto simp: strip_suffix_def suffix_def)

lemma unwrap_or_simps [simp]: "unwrap_or None d = d" "unwrap_or (Some x) d = x"
  by (simp_all add: unwrap_or_def)

lemma find_sub_SomeD: "find_sub p s = Some n \<Longrightarrow> n + length p \<le> length s \<and> prefix p (drop n s)"
proof (induction p s arbitrary: n rule: find_sub.induct)
  case (2 p c s)
  then show ?case
  proof (cases "prefix p (c # s)")
    case True
    with 2 show ?thesis by (auto dest: prefix_length_le)
  qed auto
qed (auto split: if_splits)

lemma find_sub_NoneD: "find_sub p s = None \<Longrightarrow> \<not> sublist p s"
  by (induction p s rule: find_sub.induct) (auto split: if_splits simp: sublist_Cons_right)

lemma split_on_not_Nil [simp]: "split_on d s \<noteq> []"
  by (induction s) (auto split: list.splits)

lemma join_on_Cons_Cons: "join_on d ((c # w) # ws) = c # join_on d (w # ws)"
  by (cases ws) auto

lemma join_split [simp]: "join_on d (split_on d s) = s"
proof (induction s)
  case (Cons c s)
  then show ?case by (cases "split_on d s") (auto simp: join_on_Cons_Cons neq_Nil_conv)
qed simp

lemma split_on_free: "w \<in> set (split_on d s) \<Longrightarrow> d \<notin> set w"
  by (induction s arbitrary: w) (auto split: list.splits if_splits)

lemma split_on_append: "d \<notin> set w \<Longrightarrow> split_on d (w @ d # s) = w # split_on d s"
  by (induction w) auto

lemma set_join_onI: "x \<in> set w \<Longrightarrow> w \<in> set ws \<Longrightarrow> x \<in> set (join_on d ws)"
  by (induction d ws rule: join_on.induct) auto

lemma split_on_append2: "split_on d (a @ d # b) = split_on d a @ split_on d b"
  by (induction a) (auto split: list.splits)

lemma join_on_append: "us \<noteq> [] \<Longrightarrow> vs \<noteq> [] \<Longrightarrow> join_on d (us @ vs) = join_on d us @ d # join_on d vs"
  by (induction d us rule: join_on.induct) (auto simp: neq_Nil_conv)

text \<open>A string ends with another after a separator exactly when its pieces end with the other's pieces.\<close>

lemma suffix_split_on: "suffix (split_on d p) (split_on d s) \<longleftrightarrow> s = p \<or> suffix (d # p) s"
proof
  assume "suffix (split_on d p) (split_on d s)"
  then obtain us where us: "split_on d s = us @ split_on d p" by (auto simp: suffix_def)
  then have s: "s = join_on d (us @ split_on d p)" by (metis join_split)
  show "s = p \<or> suffix (d # p) s"
  proof (cases "us = []")
    case False
    then have "s = join_on d us @ d # p" using s by (simp add: join_on_append)
    then show ?thesis by (simp add: suffix_def)
  qed (use s in simp)
qed (auto simp: suffix_def split_on_append2)

lemma split_on_id: "d \<notin> set w \<Longrightarrow> split_on d w = [w]"
  by (induction w) auto

lemma split_join: "ws \<noteq> [] \<Longrightarrow> \<forall>w\<in>set ws. d \<notin> set w \<Longrightarrow> split_on d (join_on d ws) = ws"
  by (induction d ws rule: join_on.induct) (auto simp: split_on_id split_on_append)

lemma split_once_append: "d \<notin> set a \<Longrightarrow> split_once d (a @ d # b) = Some (a, b)"
  by (auto simp: split_once_def takeWhile_append dropWhile_append)

lemma split_once_SomeD: "split_once d s = Some (a, b) \<Longrightarrow> s = a @ d # b \<and> d \<notin> set a"
proof -
  assume *: "split_once d s = Some (a, b)"
  then obtain u v where "s = u @ d # v" and "d \<notin> set u"
    by (auto simp: split_once_def split: if_splits dest: split_list_first)
  with * show ?thesis by (simp add: split_once_append)
qed

lemma rsplit_once_append: "d \<notin> set b \<Longrightarrow> rsplit_once d (a @ d # b) = Some (a, b)"
  by (simp add: rsplit_once_def split_once_append)

section \<open>White space\<close>

text \<open>
  The UTF-8 encodings of the code points with the property \<^verbatim>\<open>White_Space\<close>, which \<^verbatim>\<open>str::trim\<close> and
  \<^verbatim>\<open>char::is_whitespace\<close> use. UTF-8 is self-synchronising, so looking for an encoding at the ends
  of a byte string, or anywhere in it, is looking for the character.
\<close>

definition ws_encodings :: "nat list list" where
  "ws_encodings =
     [[9], [10], [11], [12], [13], [32], [194, 133], [194, 160], [225, 154, 128]]
     @ map (\<lambda>n. [226, 128, n]) [128, 129, 130, 131, 132, 133, 134, 135, 136, 137, 138, 168, 169, 175]
     @ [[226, 129, 159], [227, 128, 128]]"

definition ws_at :: "string \<Rightarrow> nat option" where
  "ws_at s = map_option length (find (\<lambda>w. prefix w (map byte_val s)) ws_encodings)"

definition ws_at_end :: "string \<Rightarrow> nat option" where
  "ws_at_end s = map_option length (find (\<lambda>w. suffix w (map byte_val s)) ws_encodings)"

lemma ws_encodings_ne: "w \<in> set ws_encodings \<Longrightarrow> w \<noteq> []"
  by (auto simp: ws_encodings_def)

lemma ws_at_SomeD: "ws_at s = Some n \<Longrightarrow> 0 < n \<and> n \<le> length s"
  by (auto simp: ws_at_def find_Some_iff dest!: ws_encodings_ne nth_mem prefix_length_le
      intro: Nat.gr0I)

lemma ws_at_end_SomeD: "ws_at_end s = Some n \<Longrightarrow> 0 < n \<and> n \<le> length s"
  by (auto simp: ws_at_end_def find_Some_iff dest!: ws_encodings_ne nth_mem suffix_length_le
      intro: Nat.gr0I)

function trim_start :: "string \<Rightarrow> string" where
  "trim_start s = (case ws_at s of None \<Rightarrow> s | Some n \<Rightarrow> trim_start (drop n s))"
  by pat_completeness auto
termination
  by (relation "measure length") (auto dest: ws_at_SomeD)

function trim_end :: "string \<Rightarrow> string" where
  "trim_end s = (case ws_at_end s of None \<Rightarrow> s | Some n \<Rightarrow> trim_end (take (length s - n) s))"
  by pat_completeness auto
termination
  by (relation "measure length") (auto dest: ws_at_end_SomeD)

declare trim_start.simps [simp del] trim_end.simps [simp del]

definition trim :: "string \<Rightarrow> string" where
  "trim s = trim_end (trim_start s)"

fun has_whitespace :: "string \<Rightarrow> bool" where
  "has_whitespace [] = False"
| "has_whitespace (c # s) = (ws_at (c # s) \<noteq> None \<or> has_whitespace s)"

lemma ws_at_end_trim_end: "ws_at_end (trim_end s) = None"
proof (induction s rule: trim_end.induct)
  case (1 s)
  then show ?case by (subst trim_end.simps) (auto split: option.splits)
qed

text \<open>Visible ASCII neither starts nor ends an encoding of white space, so trimming leaves it alone.\<close>

definition visible :: "string \<Rightarrow> bool" where
  "visible s \<longleftrightarrow> (\<forall>c\<in>set s. byte_in 33 127 c)"

lemma ws_encodings_ends: "\<forall>w\<in>set ws_encodings. \<not> (33 \<le> hd w \<and> hd w \<le> 127) \<and> \<not> (33 \<le> last w \<and> last w \<le> 127)"
  by code_simp

lemma ws_at_visible: "visible s \<Longrightarrow> ws_at s = None"
proof -
  assume v: "visible s"
  have "\<not> prefix w (map byte_val s)" if w: "w \<in> set ws_encodings" for w
  proof
    assume "prefix w (map byte_val s)"
    then have "hd w \<in> byte_val ` set s" using ws_encodings_ne [OF w] by (cases w; cases s) auto
    then show False using v w ws_encodings_ends by (auto simp: visible_def byte_in_def)
  qed
  then show "ws_at s = None" by (auto simp: ws_at_def find_None_iff)
qed

lemma ws_at_end_visible: "visible s \<Longrightarrow> ws_at_end s = None"
proof -
  assume v: "visible s"
  have "\<not> suffix w (map byte_val s)" if w: "w \<in> set ws_encodings" for w
  proof
    assume "suffix w (map byte_val s)"
    then obtain u where "map byte_val s = u @ w" by (auto simp: suffix_def)
    then have "last w \<in> set (map byte_val s)" using ws_encodings_ne [OF w] by simp
    then show False using v w ws_encodings_ends by (auto simp: visible_def byte_in_def)
  qed
  then show "ws_at_end s = None" by (auto simp: ws_at_end_def find_None_iff)
qed

lemma trim_visible: "visible s \<Longrightarrow> trim s = s"
  by (simp add: trim_def trim_start.simps [of s] trim_end.simps [of s] ws_at_visible ws_at_end_visible)

lemma has_whitespace_visible: "visible s \<Longrightarrow> \<not> has_whitespace s"
proof (induction s)
  case (Cons c s)
  then show ?case using ws_at_visible [of "c # s"] by (simp add: visible_def)
qed simp

section \<open>Decimal numbers\<close>

definition digit_char :: "nat \<Rightarrow> char" where
  "digit_char d = char_of (48 + d)"

fun to_dec :: "nat \<Rightarrow> string" where
  "to_dec n = (if n < 10 then [digit_char n] else to_dec (n div 10) @ [digit_char (n mod 10)])"

declare to_dec.simps [simp del]

definition dec_value :: "string \<Rightarrow> nat" where
  "dec_value s = foldl (\<lambda>n c. 10 * n + (byte_val c - 48)) 0 s"

text \<open>
  \<^verbatim>\<open>str::parse\<close> of an unsigned integer of the given number of values: one leading \<open>+\<close> is accepted,
  then at least one digit, and the value must fit.
\<close>

definition parse_uint :: "nat \<Rightarrow> string \<Rightarrow> nat option" where
  "parse_uint bound s =
     (let d = unwrap_or (strip_prefix ''+'' s) s
      in if d \<noteq> [] \<and> (\<forall>c\<in>set d. is_ascii_digit c) \<and> dec_value d < bound
         then Some (dec_value d) else None)"

lemma byte_val_digit_char: "d < 10 \<Longrightarrow> byte_val (digit_char d) = 48 + d"
  by (simp add: digit_char_def byte_val_char_of)

lemma to_dec_digits: "c \<in> set (to_dec n) \<Longrightarrow> is_ascii_digit c"
proof (induction n rule: to_dec.induct)
  case (1 n)
  then show ?case
    by (subst (asm) (2) to_dec.simps)
      (auto simp: is_ascii_digit_def byte_in_def byte_val_digit_char split: if_splits)
qed

lemma to_dec_not_Nil [simp]: "to_dec n \<noteq> []"
  by (subst to_dec.simps) simp

lemma dec_value_to_dec: "dec_value (to_dec n) = n"
proof (induction n rule: to_dec.induct)
  case (1 n)
  then show ?case
    by (subst to_dec.simps) (auto simp: dec_value_def byte_val_digit_char)
qed

lemma digit_not_plus: "is_ascii_digit c \<Longrightarrow> c \<noteq> CHR ''+''"
  by (auto simp: is_ascii_digit_def byte_in_def byte_val_def)

lemma strip_plus_digits: "\<forall>c\<in>set s. is_ascii_digit c \<Longrightarrow> strip_prefix ''+'' s = None"
  by (cases s) (auto simp: strip_prefix_def dest: digit_not_plus)

lemma parse_to_dec: "n < bound \<Longrightarrow> parse_uint bound (to_dec n) = Some n"
  by (simp add: parse_uint_def strip_plus_digits to_dec_digits dec_value_to_dec)

lemma to_dec_inject: "to_dec m = to_dec n \<longleftrightarrow> m = n"
  by (metis dec_value_to_dec)

end
