(* ===== verification/Record_Config.thy ===== *)
theory Record_Config
  imports Strings
begin

text \<open>
  The recording policy and the configuration records of \<^verbatim>\<open>crates/eggreplay-core/src/config.rs\<close>:
  \<open>resolve\<close> decides from the requested mode, the existence of the fixture and the presence of an
  upstream whether the process may reach the network at all.
\<close>

datatype record_mode = Sealed | Once | AppendNew | ReRecord

record record_policy =
  rp_mode :: record_mode
  rp_upstream_enabled :: bool

datatype resolve_error =
    RequiresExplicitUpstream record_mode
  | SealedRejectsUpstream

definition resolve :: "record_mode \<Rightarrow> bool \<Rightarrow> bool \<Rightarrow> resolve_error + record_policy" where
  "resolve self fixture_exists upstream_configured =
     (let existing_once = (self = Once \<and> fixture_exists);
          mode = (if existing_once then Sealed else self);
          requires_upstream = (mode = Once \<or> mode = AppendNew \<or> mode = ReRecord)
      in if requires_upstream \<and> \<not> upstream_configured
         then Inl (RequiresExplicitUpstream mode)
         else if \<not> requires_upstream \<and> upstream_configured \<and> \<not> existing_once
         then Inl SealedRejectsUpstream
         else Inr \<lparr>rp_mode = mode, rp_upstream_enabled = requires_upstream\<rparr>)"

fun record_mode_display :: "record_mode \<Rightarrow> string" where
  "record_mode_display Sealed = ''sealed''"
| "record_mode_display Once = ''once''"
| "record_mode_display AppendNew = ''append-new''"
| "record_mode_display ReRecord = ''re-record''"

record limits =
  max_body_bytes :: u64
  max_line_bytes :: u64
  max_flows :: usize
  max_candidates :: usize

definition limits_default :: limits where
  "limits_default =
     \<lparr>max_body_bytes = 64 * 1024 * 1024, max_line_bytes = 4 * 1024 * 1024,
      max_flows = 100000, max_candidates = 8\<rparr>"

record redaction_profile =
  rprof_id :: string
  sensitive_headers :: "string list"
  sensitive_query_keys :: "string list"
  sensitive_json_paths :: "string list"

definition redaction_profile_default :: redaction_profile where
  "redaction_profile_default =
     \<lparr>rprof_id = ''default-v1'',
      sensitive_headers = [''authorization'', ''cookie'', ''set-cookie'', ''proxy-authorization''],
      sensitive_query_keys = [], sensitive_json_paths = []\<rparr>"

datatype matcher_profile = Strict | Practical

section \<open>The network is reached only when asked for\<close>

lemma resolve_cases:
  "resolve m ex up = Inr p \<longleftrightarrow>
     (case m of
        Sealed \<Rightarrow> \<not> up \<and> p = \<lparr>rp_mode = Sealed, rp_upstream_enabled = False\<rparr>
      | Once \<Rightarrow> (if ex then p = \<lparr>rp_mode = Sealed, rp_upstream_enabled = False\<rparr>
                 else up \<and> p = \<lparr>rp_mode = Once, rp_upstream_enabled = True\<rparr>)
      | _ \<Rightarrow> up \<and> p = \<lparr>rp_mode = m, rp_upstream_enabled = True\<rparr>)"
  by (cases m) (auto simp: resolve_def Let_def)

lemma resolve_upstream:
  assumes "resolve m ex up = Inr p" and "rp_upstream_enabled p"
  shows "up \<and> rp_mode p \<noteq> Sealed \<and> rp_mode p = m \<and> \<not> (m = Once \<and> ex)"
  using assms by (auto simp: resolve_cases split: record_mode.splits if_splits)

lemma record_mode_display_inject: "record_mode_display a = record_mode_display b \<longleftrightarrow> a = b"
  by (cases a; cases b) auto

end
