(* ===== verification/Flow_Model.thy ===== *)
theory Flow_Model
  imports Strings
begin

text \<open>
  The semantic flow of \<^verbatim>\<open>crates/eggreplay-core/src/flow.rs\<close> and the errors of
  \<^verbatim>\<open>crates/eggreplay-core/src/error.rs\<close>: a recorded HTTP transaction, the references to its
  stored bodies, and the checks a flow passes before it is written to a fixture. Every other
  component works on these types.
\<close>

section \<open>Errors\<close>

datatype error_phase =
    Phase_Request | Phase_Connect | Phase_Tls | Phase_Headers | Phase_Body
  | Phase_Timeout | Phase_Cancelled | Phase_Policy | Phase_Other

datatype error_category =
    Cat_Dns | Cat_ConnectionRefused | Cat_Unreachable | Cat_Tls | Cat_Protocol
  | Cat_Policy | Cat_Timeout | Cat_Cancelled | Cat_Other

record flow_error =
  fe_category :: error_category
  fe_phase :: error_phase
  fe_message :: string

fun category_as_str :: "error_category \<Rightarrow> string" where
  "category_as_str Cat_Dns = ''dns''"
| "category_as_str Cat_ConnectionRefused = ''connection_refused''"
| "category_as_str Cat_Unreachable = ''unreachable''"
| "category_as_str Cat_Tls = ''tls''"
| "category_as_str Cat_Protocol = ''protocol''"
| "category_as_str Cat_Policy = ''policy''"
| "category_as_str Cat_Timeout = ''timeout''"
| "category_as_str Cat_Cancelled = ''cancelled''"
| "category_as_str Cat_Other = ''other''"

fun phase_as_str :: "error_phase \<Rightarrow> string" where
  "phase_as_str Phase_Request = ''request''"
| "phase_as_str Phase_Connect = ''connect''"
| "phase_as_str Phase_Tls = ''tls''"
| "phase_as_str Phase_Headers = ''headers''"
| "phase_as_str Phase_Body = ''body''"
| "phase_as_str Phase_Timeout = ''timeout''"
| "phase_as_str Phase_Cancelled = ''cancelled''"
| "phase_as_str Phase_Policy = ''policy''"
| "phase_as_str Phase_Other = ''other''"

text \<open>
  \<^verbatim>\<open>String::truncate\<close> panics when the new length is inside a character. The result of the
  constructor is an option for that: \<open>None\<close> is the panic.
\<close>

definition is_char_boundary :: "string \<Rightarrow> nat \<Rightarrow> bool" where
  "is_char_boundary s n \<longleftrightarrow> n = 0 \<or> n = length s \<or> (n < length s \<and> \<not> is_cont (s ! n))"

definition truncate_str :: "nat \<Rightarrow> string \<Rightarrow> string option" where
  "truncate_str n s =
     (if n \<le> length s then (if is_char_boundary s n then Some (take n s) else None) else Some s)"

definition flow_error_new :: "error_category \<Rightarrow> error_phase \<Rightarrow> string \<Rightarrow> flow_error option" where
  "flow_error_new category phase message =
     (case (if length message > 512 then truncate_str 512 message else Some message) of
        None \<Rightarrow> None
      | Some m \<Rightarrow> Some \<lparr>fe_category = category, fe_phase = phase, fe_message = m\<rparr>)"

lemma category_as_str_inject: "category_as_str a = category_as_str b \<longleftrightarrow> a = b"
  by (cases a; cases b) auto

lemma phase_as_str_inject: "phase_as_str a = phase_as_str b \<longleftrightarrow> a = b"
  by (cases a; cases b) auto

lemma category_as_str_length: "length (category_as_str a) \<le> 64"
  by (cases a) auto

lemma phase_as_str_length: "length (phase_as_str a) \<le> 64"
  by (cases a) auto

lemma flow_error_new_bounded: "flow_error_new c p m = Some e \<Longrightarrow> length (fe_message e) \<le> 512"
  by (auto simp: flow_error_new_def truncate_str_def split: if_splits)

text \<open>The constructor is total on messages of ASCII, in particular on every literal of the code.\<close>

lemma flow_error_new_ascii:
  assumes "is_ascii m"
  shows "flow_error_new c p m = Some \<lparr>fe_category = c, fe_phase = p, fe_message = take 512 m\<rparr>"
proof -
  have "\<not> is_cont (m ! 512)" if l: "512 < length m"
    using assms nth_mem [OF l] by (auto simp: is_ascii_def is_cont_def byte_in_def)
  then show ?thesis
    by (auto simp: flow_error_new_def truncate_str_def is_char_boundary_def)
qed

section \<open>Flows\<close>

record header_entry =
  h_name :: string
  h_value :: string

record query_pair =
  q_key :: string
  q_value :: string

record blob_ref =
  blob_sha256 :: string
  blob_length :: u64

datatype body_ref = BodyAbsent | BodyEmpty | BodyBlob blob_ref

record http_request =
  req_method :: string
  req_scheme :: string
  req_authority :: string
  req_path :: string
  req_query :: "query_pair list"
  req_headers :: "header_entry list"
  req_body :: body_ref
  req_trailers :: "header_entry list"

record http_response =
  resp_status :: u16
  resp_headers :: "header_entry list"
  resp_body :: body_ref
  resp_trailers :: "header_entry list"

datatype flow_outcome = OutResponse http_response | OutError flow_error

record physical_route =
  route_kind :: string
  route_description :: "string option"

record provenance =
  prov_mode :: string
  prov_observer :: string

record redaction_marker =
  m_field :: string
  m_profile :: string

record flow =
  fl_schema_version :: u16
  fl_id :: string
  fl_started_at_ms :: u64
  fl_completed_at_ms :: "u64 option"
  fl_request :: http_request
  fl_outcome :: flow_outcome
  fl_physical_route :: "physical_route option"
  fl_provenance :: provenance
  fl_annotations :: "(string \<times> string) list"
  fl_redactions :: "redaction_marker list"

definition FLOW_SCHEMA_VERSION :: u16 where "FLOW_SCHEMA_VERSION = 1"
definition SESSION_SCHEMA_V1 :: u16 where "SESSION_SCHEMA_V1 = 1"
definition SESSION_SCHEMA_VERSION :: u16 where "SESSION_SCHEMA_VERSION = 2"
definition REPORT_SCHEMA_VERSION :: u16 where "REPORT_SCHEMA_VERSION = 3"

fun body_ref_len :: "body_ref \<Rightarrow> u64 option" where
  "body_ref_len BodyAbsent = None"
| "body_ref_len BodyEmpty = Some 0"
| "body_ref_len (BodyBlob blob) = Some (blob_length blob)"

fun body_ref_is_empty :: "body_ref \<Rightarrow> bool" where
  "body_ref_is_empty BodyEmpty = True"
| "body_ref_is_empty _ = False"

text \<open>
  \<^verbatim>\<open>FlowError::new\<close> with a literal message of the code, which is short ASCII: the constructor
  above cannot fail on it (\<open>flow_error_new_ascii\<close>).
\<close>

definition literal_error :: "error_category \<Rightarrow> error_phase \<Rightarrow> string \<Rightarrow> flow_error" where
  "literal_error category phase message =
     \<lparr>fe_category = category, fe_phase = phase, fe_message = take 512 message\<rparr>"

definition blob_ref_new :: "string \<Rightarrow> u64 \<Rightarrow> flow_error + blob_ref" where
  "blob_ref_new sha256 len =
     (if length sha256 \<noteq> 64 \<or> \<not> (\<forall>c\<in>set sha256. is_ascii_hexdigit c)
      then Inl (literal_error Cat_Policy Phase_Policy ''blob digest must be 64 hexadecimal characters'')
      else Inr \<lparr>blob_sha256 = to_lower sha256, blob_length = len\<rparr>)"

text \<open>The random part of the identifier comes from the \<^verbatim>\<open>uuid\<close> crate and is an argument here.\<close>

definition flow_new :: "string \<Rightarrow> http_request \<Rightarrow> flow_outcome \<Rightarrow> u64 \<Rightarrow> flow" where
  "flow_new uuid request outcome started_at_ms =
     \<lparr>fl_schema_version = FLOW_SCHEMA_VERSION,
      fl_id = ''flow-'' @ to_dec (unat started_at_ms) @ ''-'' @ uuid,
      fl_started_at_ms = started_at_ms,
      fl_completed_at_ms = None,
      fl_request = request,
      fl_outcome = outcome,
      fl_physical_route = None,
      fl_provenance = \<lparr>prov_mode = ''unknown'', prov_observer = ''eggreplay''\<rparr>,
      fl_annotations = [],
      fl_redactions = []\<rparr>"

definition status_in_range :: "u16 \<Rightarrow> bool" where
  "status_in_range status \<longleftrightarrow> 100 \<le> status \<and> status \<le> 599"

definition flow_validate :: "flow \<Rightarrow> flow_error + unit" where
  "flow_validate fl =
     (if fl_schema_version fl \<noteq> FLOW_SCHEMA_VERSION
      then Inl (literal_error Cat_Policy Phase_Policy ''unsupported flow schema'')
      else if fl_id fl = [] \<or> length (fl_id fl) > 256
          \<or> CHR ''/'' \<in> set (fl_id fl) \<or> CHR 0x5C \<in> set (fl_id fl)
      then Inl (literal_error Cat_Policy Phase_Policy ''invalid flow identifier'')
      else if req_method (fl_request fl) = [] \<or> req_path (fl_request fl) = []
          \<or> \<not> starts_with ''/'' (req_path (fl_request fl))
      then Inl (literal_error Cat_Protocol Phase_Request ''invalid request line fields'')
      else if (case fl_completed_at_ms fl of None \<Rightarrow> False | Some end \<Rightarrow> end < fl_started_at_ms fl)
      then Inl (literal_error Cat_Policy Phase_Policy ''flow completion precedes start'')
      else if (case fl_outcome fl of
                 OutResponse response \<Rightarrow> \<not> status_in_range (resp_status response)
               | OutError _ \<Rightarrow> False)
      then Inl (literal_error Cat_Protocol Phase_Headers ''invalid response status'')
      else Inr ())"

section \<open>What a validated flow and a blob reference promise\<close>

definition blob_ref_ok :: "blob_ref \<Rightarrow> bool" where
  "blob_ref_ok b \<longleftrightarrow> length (blob_sha256 b) = 64
     \<and> (\<forall>c\<in>set (blob_sha256 b). is_ascii_hexdigit c \<and> \<not> is_ascii_upper c)"

lemma hexdigit_lower: "is_ascii_hexdigit c \<Longrightarrow> is_ascii_hexdigit (lower_char c)"
  by (auto simp: is_ascii_hexdigit_def is_ascii_digit_def byte_in_def byte_val_lower_char is_ascii_upper_def)

lemma blob_ref_new_Inr_iff [res_simps]:
  "blob_ref_new s n = Inr b \<longleftrightarrow>
     length s = 64 \<and> (\<forall>c\<in>set s. is_ascii_hexdigit c) \<and> b = \<lparr>blob_sha256 = to_lower s, blob_length = n\<rparr>"
  by (auto simp: blob_ref_new_def)

lemma blob_ref_new_ok: "blob_ref_new s n = Inr b \<Longrightarrow> blob_ref_ok b"
  by (auto simp: res_simps blob_ref_ok_def to_lower_def hexdigit_lower)

lemma blob_ref_new_canonical:
  assumes "blob_ref_ok b"
  shows "blob_ref_new (blob_sha256 b) (blob_length b) = Inr b"
proof -
  have "to_lower (blob_sha256 b) = blob_sha256 b"
    using assms by (auto simp: blob_ref_ok_def to_lower_def lower_char_def intro: map_idI)
  with assms show ?thesis by (simp add: res_simps blob_ref_ok_def)
qed

lemma flow_validate_iff [res_simps]:
  "flow_validate fl = Inr () \<longleftrightarrow>
     fl_schema_version fl = 1
     \<and> fl_id fl \<noteq> [] \<and> length (fl_id fl) \<le> 256 \<and> CHR ''/'' \<notin> set (fl_id fl) \<and> CHR 0x5C \<notin> set (fl_id fl)
     \<and> req_method (fl_request fl) \<noteq> [] \<and> starts_with ''/'' (req_path (fl_request fl))
     \<and> (\<forall>end. fl_completed_at_ms fl = Some end \<longrightarrow> fl_started_at_ms fl \<le> end)
     \<and> (\<forall>response. fl_outcome fl = OutResponse response \<longrightarrow> status_in_range (resp_status response))"
  by (auto simp: flow_validate_def res_simps FLOW_SCHEMA_VERSION_def starts_with_def not_less
      split: option.splits flow_outcome.splits)

text \<open>A fresh flow is valid when its request line and status are and the random part is a UUID.\<close>

lemma to_dec_length_aux: "n < 10 ^ Suc k \<Longrightarrow> length (to_dec n) \<le> Suc k"
proof (induction k arbitrary: n)
  case 0
  then show ?case by (subst to_dec.simps) simp
next
  case (Suc k)
  then have "n div 10 < 10 ^ Suc k" by (simp add: less_mult_imp_div_less)
  then have "length (to_dec (n div 10)) \<le> Suc k" by (rule Suc.IH)
  then show ?case by (subst to_dec.simps) simp
qed

lemma to_dec_length_u64: "length (to_dec (unat (n :: u64))) \<le> 20"
proof -
  have "unat n < 2 ^ 64" using unsigned_less [of n] by simp
  also have "(2::nat) ^ 64 < 10 ^ Suc 19" by simp
  finally show ?thesis using to_dec_length_aux [of "unat n" 19] by simp
qed

lemma to_dec_no_slash: "CHR ''/'' \<notin> set (to_dec n)" "CHR 0x5C \<notin> set (to_dec n)"
proof -
  have "\<not> is_ascii_digit CHR ''/''" and "\<not> is_ascii_digit CHR 0x5C"
    by (simp_all add: is_ascii_digit_def byte_in_def byte_val_def)
  then show "CHR ''/'' \<notin> set (to_dec n)" and "CHR 0x5C \<notin> set (to_dec n)"
    using to_dec_digits by blast+
qed

lemma flow_new_valid:
  assumes "length uuid = 32" and "\<forall>c\<in>set uuid. is_ascii_hexdigit c"
    and "req_method request \<noteq> []" and "starts_with ''/'' (req_path request)"
    and "\<And>response. outcome = OutResponse response \<Longrightarrow> status_in_range (resp_status response)"
  shows "flow_validate (flow_new uuid request outcome t) = Inr ()"
proof -
  have hex: "\<not> is_ascii_hexdigit CHR ''/''" "\<not> is_ascii_hexdigit CHR 0x5C"
    by (simp_all add: is_ascii_hexdigit_def is_ascii_digit_def byte_in_def byte_val_def)
  have uuid: "CHR ''/'' \<notin> set uuid" "CHR 0x5C \<notin> set uuid"
    using assms(2) hex by blast+
  show ?thesis
    using assms uuid to_dec_no_slash [of "unat t"] to_dec_length_u64 [of t]
    by (auto simp: res_simps flow_new_def FLOW_SCHEMA_VERSION_def)
qed

text \<open>The values of a header, in order, its name compared without case.\<close>

definition header_values :: "header_entry list \<Rightarrow> string \<Rightarrow> string list" where
  "header_values headers name = map h_value (filter (\<lambda>h. to_lower (h_name h) = name) headers)"

section \<open>A sample flow\<close>

text \<open>A small recorded exchange, at which the properties of the other theories are evaluated.\<close>

definition sample_request :: http_request where
  "sample_request =
     \<lparr>req_method = ''GET'', req_scheme = ''http'', req_authority = ''example.test'', req_path = ''/cart/abc'',
      req_query = [\<lparr>q_key = ''token'', q_value = ''x''\<rparr>],
      req_headers = [\<lparr>h_name = ''Authorization'', h_value = ''Bearer 1''\<rparr>, \<lparr>h_name = ''X-Id'', h_value = ''7''\<rparr>],
      req_body = BodyEmpty, req_trailers = []\<rparr>"

definition sample_response :: http_response where
  "sample_response =
     \<lparr>resp_status = 200, resp_headers = [\<lparr>h_name = ''Date'', h_value = ''Mon''\<rparr>],
      resp_body = BodyEmpty, resp_trailers = []\<rparr>"

definition sample_flow :: flow where
  "sample_flow =
     flow_new ''0123456789abcdef0123456789abcdef'' sample_request (OutResponse sample_response) 1000"

end
