(* ===== verification/External.thy ===== *)
theory External
  imports Strings
begin

text \<open>
  The third-party code the modelled components call. None of it is under \<^verbatim>\<open>src/\<close>, so it is a
  parameter: a record \<open>ext_lib\<close> of functions every definition that needs one takes as its first
  argument. What a property relies on is a named hypothesis about that record
  (\<open>pointer_lawful\<close>, \<open>sha256_lawful\<close>), stating documented behaviour.

  A \<^verbatim>\<open>serde_json::Value\<close> is the datatype \<open>json\<close>: its variants are public and the code matches on
  them. An object is its entries in key order, as the \<^verbatim>\<open>BTreeMap\<close> behind it iterates; a number,
  which the code never looks into, is represented by its rendering.
\<close>

datatype json =
    JNull
  | JBool bool
  | JNumber string
  | JString string
  | JArray "json list"
  | JObject "(string \<times> json) list"

text \<open>
  \<open>x_json_pointer_mut X v p f\<close> is \<^verbatim>\<open>if let Some(target) = v.pointer_mut(p) { *target = f(target) }\<close>:
  the document with the value \<open>p\<close> refers to replaced, or \<open>None\<close> where \<open>p\<close> refers to nothing.
\<close>

record ext_lib =
  x_sha256 :: "bytes \<Rightarrow> string"
  x_json_parse :: "bytes \<Rightarrow> json option"
  x_json_print :: "json \<Rightarrow> string option"
  x_json_display :: "json \<Rightarrow> string"
  x_json_as_u64 :: "json \<Rightarrow> u64 option"
  x_json_pointer :: "json \<Rightarrow> string \<Rightarrow> json option"
  x_json_pointer_mut :: "json \<Rightarrow> string \<Rightarrow> (json \<Rightarrow> json) \<Rightarrow> json option"
  x_form_parse :: "bytes \<Rightarrow> (string \<times> string) list"
  x_form_print :: "(string \<times> string) list \<Rightarrow> string"

text \<open>
  Documented behaviour of \<^verbatim>\<open>Value::pointer\<close> and \<^verbatim>\<open>Value::pointer_mut\<close>: the empty pointer is the
  whole document, both resolve the same pointers, and what was written is what is read back.
\<close>

definition pointer_lawful :: "ext_lib \<Rightarrow> bool" where
  "pointer_lawful X \<longleftrightarrow>
     (\<forall>v. x_json_pointer X v [] = Some v)
     \<and> (\<forall>v f. x_json_pointer_mut X v [] f = Some (f v))
     \<and> (\<forall>v p f. x_json_pointer_mut X v p f = None \<longleftrightarrow> x_json_pointer X v p = None)
     \<and> (\<forall>v p f w. x_json_pointer_mut X v p f = Some w \<longrightarrow>
          (\<exists>t. x_json_pointer X v p = Some t \<and> x_json_pointer X w p = Some (f t)))"

text \<open>A SHA-256 digest in lowercase hexadecimal.\<close>

definition sha256_lawful :: "ext_lib \<Rightarrow> bool" where
  "sha256_lawful X \<longleftrightarrow>
     (\<forall>b. length (x_sha256 X b) = 64 \<and> (\<forall>c\<in>set (x_sha256 X b). is_ascii_hexdigit c \<and> \<not> is_ascii_upper c))"

lemma pointer_lawful_root:
  "pointer_lawful X \<Longrightarrow> x_json_pointer X v [] = Some v"
  "pointer_lawful X \<Longrightarrow> x_json_pointer_mut X v [] f = Some (f v)"
  by (simp_all add: pointer_lawful_def)

lemma pointer_lawful_None:
  "pointer_lawful X \<Longrightarrow> x_json_pointer_mut X v p f = None \<longleftrightarrow> x_json_pointer X v p = None"
  by (simp add: pointer_lawful_def)

lemma pointer_lawful_written:
  "pointer_lawful X \<Longrightarrow> x_json_pointer_mut X v p f = Some w \<Longrightarrow>
     \<exists>t. x_json_pointer X v p = Some t \<and> x_json_pointer X w p = Some (f t)"
  by (simp add: pointer_lawful_def)

section \<open>A concrete instance\<close>

text \<open>
  Concrete functions with the hypotheses above, at which the properties that rest on them are
  evaluated: JSON Pointer as RFC 6901 describes it, a digest of the right shape, and parsers that
  know a few documents.
\<close>

fun unescape_token :: "string \<Rightarrow> string" where
  "unescape_token [] = []"
| "unescape_token [c] = [c]"
| "unescape_token (c # d # s) =
     (if c = CHR ''~'' \<and> d = CHR ''1'' then CHR ''/'' # unescape_token s
      else if c = CHR ''~'' \<and> d = CHR ''0'' then CHR ''~'' # unescape_token s
      else c # unescape_token (d # s))"

fun json_walk :: "json \<Rightarrow> string list \<Rightarrow> json option" where
  "json_walk v [] = Some v"
| "json_walk (JObject m) (t # ts) =
     (case map_of m t of None \<Rightarrow> None | Some w \<Rightarrow> json_walk w ts)"
| "json_walk (JArray xs) (t # ts) =
     (case parse_uint (2 ^ 64) t of None \<Rightarrow> None
      | Some i \<Rightarrow> if i < length xs then json_walk (xs ! i) ts else None)"
| "json_walk _ (t # ts) = None"

fun json_walk_mut :: "json \<Rightarrow> string list \<Rightarrow> (json \<Rightarrow> json) \<Rightarrow> json option" where
  "json_walk_mut v [] f = Some (f v)"
| "json_walk_mut (JObject m) (t # ts) f =
     (case map_of m t of None \<Rightarrow> None
      | Some w \<Rightarrow> map_option (\<lambda>w'. JObject (map (\<lambda>(k, x). if k = t then (k, w') else (k, x)) m))
                   (json_walk_mut w ts f))"
| "json_walk_mut (JArray xs) (t # ts) f =
     (case parse_uint (2 ^ 64) t of None \<Rightarrow> None
      | Some i \<Rightarrow> if i < length xs
                  then map_option (\<lambda>w'. JArray (xs[i := w'])) (json_walk_mut (xs ! i) ts f) else None)"
| "json_walk_mut _ (t # ts) f = None"

definition pointer_tokens :: "string \<Rightarrow> string list option" where
  "pointer_tokens p =
     (if p = [] then Some []
      else if starts_with ''/'' p then Some (map unescape_token (tl (split_on CHR ''/'' p)))
      else None)"

definition hex_digit :: "nat \<Rightarrow> char" where
  "hex_digit n = (if n < 10 then char_of (48 + n) else char_of (87 + n))"

definition demo_digest :: "bytes \<Rightarrow> string" where
  "demo_digest b = take 64 (concat (map (\<lambda>c. [hex_digit (byte_val c div 16), hex_digit (byte_val c mod 16)]) b)
     @ replicate 64 CHR ''0'')"

definition demo_json_parse :: "bytes \<Rightarrow> json option" where
  "demo_json_parse b = map_of
     [(''null'', JNull), (''{}'', JObject []),
      (''[id]'', JObject [(''id'', JNumber ''42'')]),
      (''[secret]'', JObject [(''id'', JNumber ''42''), (''secret'', JString ''hunter2'')])] b"

definition demo_lib :: ext_lib where
  "demo_lib =
     \<lparr>x_sha256 = demo_digest,
      x_json_parse = demo_json_parse,
      x_json_print = (\<lambda>v. case v of JObject [] \<Rightarrow> Some ''{}'' | _ \<Rightarrow> Some ''null''),
      x_json_display = (\<lambda>v. case v of JObject [(k, JString s)] \<Rightarrow> k @ '':'' @ s | JNumber n \<Rightarrow> n | _ \<Rightarrow> ''null''),
      x_json_as_u64 = (\<lambda>v. case v of JNumber n \<Rightarrow> map_option of_nat (parse_uint (2 ^ 64) n) | _ \<Rightarrow> None),
      x_json_pointer = (\<lambda>v p. case pointer_tokens p of None \<Rightarrow> None | Some ts \<Rightarrow> json_walk v ts),
      x_json_pointer_mut = (\<lambda>v p f. case pointer_tokens p of None \<Rightarrow> None | Some ts \<Rightarrow> json_walk_mut v ts f),
      x_form_parse = (\<lambda>b. map (\<lambda>w. unwrap_or (split_once CHR ''='' w) (w, [])) (split_on CHR ''&'' b)),
      x_form_print = (\<lambda>ps. join_on CHR ''&'' (map (\<lambda>(k, v). k @ ''='' @ v) ps))\<rparr>"

lemma map_of_replace:
  "map_of m t = Some w \<Longrightarrow> map_of (map (\<lambda>(k, x). if k = t then (k, w') else (k, x)) m) t = Some w'"
  by (induction m) (auto split: if_splits)

lemma json_walk_mut_None: "json_walk_mut v ts f = None \<longleftrightarrow> json_walk v ts = None"
  by (induction v ts f rule: json_walk_mut.induct) (auto split: option.splits)

lemma json_walk_mut_Some:
  "json_walk_mut v ts f = Some w \<Longrightarrow> \<exists>t. json_walk v ts = Some t \<and> json_walk w ts = Some (f t)"
  by (induction v ts f arbitrary: w rule: json_walk_mut.induct)
    (auto split: option.splits if_splits simp: map_of_replace)

lemma demo_pointer_lawful: "pointer_lawful demo_lib"
  by (auto simp: pointer_lawful_def demo_lib_def pointer_tokens_def json_walk_mut_None
      dest: json_walk_mut_Some split: option.splits)

lemma hex_digit_ok: "n < 16 \<Longrightarrow> is_ascii_hexdigit (hex_digit n) \<and> \<not> is_ascii_upper (hex_digit n)"
  by (auto simp: hex_digit_def is_ascii_hexdigit_def is_ascii_digit_def is_ascii_upper_def byte_in_def
      byte_val_char_of)

lemma hex_bytes_ok:
  "c \<in> set (concat (map (\<lambda>c. [hex_digit (byte_val c div 16), hex_digit (byte_val c mod 16)]) b)) \<Longrightarrow>
     is_ascii_hexdigit c \<and> \<not> is_ascii_upper c"
  by (auto simp: hex_digit_ok less_mult_imp_div_less)

lemma demo_sha256_lawful: "sha256_lawful demo_lib"
proof -
  have "is_ascii_hexdigit CHR ''0'' \<and> \<not> is_ascii_upper CHR ''0''"
    by (simp add: is_ascii_hexdigit_def is_ascii_digit_def is_ascii_upper_def byte_in_def byte_val_def)
  then show ?thesis
    by (auto simp: sha256_lawful_def demo_lib_def demo_digest_def dest!: in_set_takeD hex_bytes_ok)
qed

end
