(* ===== verification/Matching.thy ===== *)
theory Matching
  imports Flow_Model Record_Config External
begin

text \<open>
  Request matching, \<^verbatim>\<open>crates/eggreplay-core/src/matching.rs\<close>: the normalisation of a request, the
  comparison of a candidate flow dimension by dimension, the comparison of bodies with redaction
  wildcards, the selection loop with its near-miss diagnostics, and the consumption state of a
  replay session. The body loader is a stateful closure of the source: it is a function that
  takes and returns a state of its own, so that its calls can be observed.
\<close>

section \<open>Data\<close>

datatype body_match_mode = ExactBytes | ExactText | SemanticJson

datatype consumption_mode = Consume_Once | Consume_RepeatLast | Consume_Unlimited

record normalized_request =
  nr_scheme :: string
  nr_authority :: string
  nr_path :: string
  nr_query :: "query_pair list"
  nr_headers :: "(string \<times> string list) list"

datatype candidate_body =
    CandAbsent
  | CandEmpty
  | CandDigest string u64
  | CandInline bytes

fun candidate_body_from_ref :: "body_ref \<Rightarrow> candidate_body" where
  "candidate_body_from_ref BodyAbsent = CandAbsent"
| "candidate_body_from_ref BodyEmpty = CandEmpty"
| "candidate_body_from_ref (BodyBlob blob) = CandDigest (blob_sha256 blob) (blob_length blob)"

fun candidate_body_len :: "candidate_body \<Rightarrow> u64 option" where
  "candidate_body_len CandAbsent = None"
| "candidate_body_len CandEmpty = Some 0"
| "candidate_body_len (CandDigest _ len) = Some len"
| "candidate_body_len (CandInline bs) = Some (of_nat (length bs))"

record match_candidate =
  mc_flow :: flow
  mc_body :: candidate_body
  mc_request_body :: bytes

definition match_candidate_new :: "flow \<Rightarrow> bytes \<Rightarrow> match_candidate" where
  "match_candidate_new fl request_body =
     \<lparr>mc_flow = fl, mc_body = CandInline request_body, mc_request_body = request_body\<rparr>"

definition match_candidate_from_flow :: "flow \<Rightarrow> match_candidate" where
  "match_candidate_from_flow fl =
     \<lparr>mc_flow = fl, mc_body = candidate_body_from_ref (req_body (fl_request fl)), mc_request_body = []\<rparr>"

datatype match_dimension = DimMethod | DimAuthority | DimPath | DimQuery | DimHeaders | DimBody

record near_miss =
  nm_candidate_index :: usize
  nm_cost :: u8
  nm_dimensions :: "match_dimension list"
  nm_summary :: string

datatype match_result =
    Matched usize
  | NoMatch "near_miss list"
  | Exhausted "near_miss list"

record matcher =
  mt_profile :: matcher_profile
  mt_body_mode :: body_match_mode
  mt_ignored_headers :: "string list"
  mt_ignored_json_paths :: "string list"
  mt_max_near_misses :: usize

definition matcher_new :: "matcher_profile \<Rightarrow> body_match_mode \<Rightarrow> usize \<Rightarrow> matcher" where
  "matcher_new profile body_mode max_near =
     \<lparr>mt_profile = profile, mt_body_mode = body_mode, mt_ignored_headers = [],
      mt_ignored_json_paths = [], mt_max_near_misses = max_near\<rparr>"

definition matcher_strict :: "usize \<Rightarrow> matcher" where
  "matcher_strict max_near = matcher_new Strict ExactBytes max_near"

definition matcher_practical :: "usize \<Rightarrow> matcher" where
  "matcher_practical max_near =
     (let m = matcher_new Practical ExactBytes max_near
      in m\<lparr>mt_ignored_headers :=
             bset_extend (mt_ignored_headers m) [''date'', ''user-agent'', ''x-request-id'']\<rparr>)"

definition ignore_header :: "matcher \<Rightarrow> string \<Rightarrow> matcher" where
  "ignore_header m name = m\<lparr>mt_ignored_headers := bset_insert (to_lower name) (mt_ignored_headers m)\<rparr>"

definition ignore_json_path :: "matcher \<Rightarrow> string \<Rightarrow> matcher" where
  "ignore_json_path m path = m\<lparr>mt_ignored_json_paths := bset_insert path (mt_ignored_json_paths m)\<rparr>"

section \<open>Normalisation\<close>

definition normalize_headers :: "header_entry list \<Rightarrow> string list \<Rightarrow> (string \<times> string list) list" where
  "normalize_headers headers ignored =
     fold (\<lambda>header normalized.
             let name = to_lower (h_name header)
             in if name \<notin> set ignored then bmap_push name (h_value header) normalized else normalized)
       headers []"

definition normalize :: "matcher \<Rightarrow> http_request \<Rightarrow> normalized_request" where
  "normalize m request =
     \<lparr>nr_scheme = to_lower (req_scheme request),
      nr_authority = to_lower (req_authority request),
      nr_path = (if req_path request = [] then ''/'' else req_path request),
      nr_query = req_query request,
      nr_headers = normalize_headers (req_headers request) (mt_ignored_headers m)\<rparr>"

section \<open>Redaction markers\<close>

definition marker_suffixes :: "string \<Rightarrow> (string \<Rightarrow> string) \<Rightarrow> redaction_marker list \<Rightarrow> string list" where
  "marker_suffixes p f markers =
     bset_of_list (concat (map (\<lambda>marker. case strip_prefix p (m_field marker) of
                                            None \<Rightarrow> [] | Some t \<Rightarrow> [f t]) markers))"

definition redacted_request_headers :: "redaction_marker list \<Rightarrow> string list" where
  "redacted_request_headers markers = marker_suffixes ''request.headers.'' to_lower markers"

definition redacted_request_query :: "redaction_marker list \<Rightarrow> string list" where
  "redacted_request_query markers = marker_suffixes ''request.query.'' (\<lambda>s. s) markers"

definition BODY_JSON_MARKER_PREFIX :: string where
  "BODY_JSON_MARKER_PREFIX = ''request.body.json:''"

definition RESPONSE_BODY_JSON_MARKER_PREFIX :: string where
  "RESPONSE_BODY_JSON_MARKER_PREFIX = ''response.body.json:''"

definition redacted_body_json_paths :: "redaction_marker list \<Rightarrow> bool \<Rightarrow> string list" where
  "redacted_body_json_paths markers response =
     marker_suffixes (if response then RESPONSE_BODY_JSON_MARKER_PREFIX else BODY_JSON_MARKER_PREFIX)
       (\<lambda>s. s) markers"

definition redacted_body_form_keys :: "redaction_marker list \<Rightarrow> string list" where
  "redacted_body_form_keys markers = marker_suffixes ''request.body.form:'' (\<lambda>s. s) markers"

definition filter_query :: "query_pair list \<Rightarrow> string list \<Rightarrow> query_pair list" where
  "filter_query query redacted =
     (if redacted = [] then query else filter (\<lambda>pair. q_key pair \<notin> set redacted) query)"

section \<open>Bodies\<close>

definition remove_nth :: "nat \<Rightarrow> 'a list \<Rightarrow> 'a list" where
  "remove_nth i xs = take i xs @ drop (Suc i) xs"

fun remove_token :: "string \<Rightarrow> json \<Rightarrow> json" where
  "remove_token token (JObject entries) = JObject (filter (\<lambda>(k, _). k \<noteq> token) entries)"
| "remove_token token (JArray items) =
     (case parse_uint (2 ^ 64) token of
        Some index \<Rightarrow> (if index < length items then JArray (remove_nth index items) else JArray items)
      | None \<Rightarrow> JArray items)"
| "remove_token token v = v"

definition remove_json_pointer :: "ext_lib \<Rightarrow> json \<Rightarrow> string \<Rightarrow> json" where
  "remove_json_pointer X v pointer =
     (if pointer = [] then v
      else case rsplit_once CHR ''/'' pointer of
        None \<Rightarrow> v
      | Some (parent, token) \<Rightarrow> unwrap_or (x_json_pointer_mut X v parent (remove_token token)) v)"

definition remove_json_pointers :: "ext_lib \<Rightarrow> string list \<Rightarrow> json \<Rightarrow> json" where
  "remove_json_pointers X paths v = fold (\<lambda>path v. remove_json_pointer X v path) paths v"

definition json_equal_ignoring :: "ext_lib \<Rightarrow> bytes \<Rightarrow> bytes \<Rightarrow> string list \<Rightarrow> bool" where
  "json_equal_ignoring X actual expected ignored =
     (case (x_json_parse X actual, x_json_parse X expected) of
        (Some a, Some e) \<Rightarrow> remove_json_pointers X ignored a = remove_json_pointers X ignored e
      | _ \<Rightarrow> False)"

definition body_match :: "ext_lib \<Rightarrow> body_match_mode \<Rightarrow> bytes \<Rightarrow> bytes \<Rightarrow> string list \<Rightarrow> bool" where
  "body_match X mode actual expected ignored_paths =
     (case mode of
        ExactBytes \<Rightarrow> actual = expected
      | ExactText \<Rightarrow> actual = expected \<and> utf8_valid actual
      | SemanticJson \<Rightarrow> json_equal_ignoring X actual expected ignored_paths)"

definition body_match_with_json :: "ext_lib \<Rightarrow> bytes \<Rightarrow> bytes \<Rightarrow> string list \<Rightarrow> bool" where
  "body_match_with_json X actual expected ignored_paths = json_equal_ignoring X actual expected ignored_paths"

definition looks_like_form :: "string \<Rightarrow> bool" where
  "looks_like_form text \<longleftrightarrow> CHR ''='' \<in> set text \<and> \<not> starts_with ''{'' (trim_start text)"

definition try_form_wildcard :: "ext_lib \<Rightarrow> bytes \<Rightarrow> bytes \<Rightarrow> string list \<Rightarrow> bool option" where
  "try_form_wildcard X actual expected redacted_keys =
     (if \<not> utf8_valid actual \<or> \<not> utf8_valid expected then None
      else if \<not> looks_like_form actual \<or> \<not> looks_like_form expected then None
      else let keep = filter (\<lambda>(key, _). key \<notin> set redacted_keys)
           in Some (keep (x_form_parse X actual) = keep (x_form_parse X expected)))"

type_synonym 's loader = "'s \<Rightarrow> usize \<Rightarrow> match_candidate \<Rightarrow> bytes option \<times> 's"

text \<open>The bytes a redacted candidate is compared with; the second component is the loader's new state.\<close>

definition redacted_expected ::
  "'s loader \<Rightarrow> 's \<Rightarrow> usize \<Rightarrow> match_candidate \<Rightarrow> bytes option \<times> 's" where
  "redacted_expected loader s index candidate =
     (case mc_body candidate of
        CandDigest _ _ \<Rightarrow> loader s index candidate
      | CandInline bs \<Rightarrow>
          (if bs \<noteq> [] then (Some bs, s)
           else if mc_request_body candidate \<noteq> [] then (Some (mc_request_body candidate), s)
           else loader s index candidate)
      | CandAbsent \<Rightarrow> (Some [], s)
      | CandEmpty \<Rightarrow> (Some [], s))"

definition body_matches_lazy ::
  "ext_lib \<Rightarrow> matcher \<Rightarrow> bytes \<Rightarrow> string \<Rightarrow> u64 \<Rightarrow> bool \<Rightarrow> usize \<Rightarrow> match_candidate \<Rightarrow> 's loader \<Rightarrow> 's
     \<Rightarrow> bool \<times> 's" where
  "body_matches_lazy X m actual_body actual_digest actual_len narrowed index candidate loader s =
     (let redacted_json = redacted_body_json_paths (fl_redactions (mc_flow candidate)) False;
          redacted_form = redacted_body_form_keys (fl_redactions (mc_flow candidate));
          has_body_redaction = (redacted_json \<noteq> [] \<or> redacted_form \<noteq> [])
      in if has_body_redaction then
           (if \<not> narrowed then (False, s)
            else case redacted_expected loader s index candidate of
              (None, s') \<Rightarrow> (False, s')
            | (Some expected, s') \<Rightarrow>
                (case (if redacted_form \<noteq> [] then try_form_wildcard X actual_body expected redacted_form
                       else None) of
                   Some result \<Rightarrow> (result, s')
                 | None \<Rightarrow>
                     (body_match_with_json X actual_body expected
                        (bset_extend (mt_ignored_json_paths m) redacted_json), s')))
         else case mc_body candidate of
           CandAbsent \<Rightarrow> (actual_body = [], s)
         | CandEmpty \<Rightarrow> (actual_body = [], s)
         | CandDigest sha256 len \<Rightarrow>
             (case mt_body_mode m of
                ExactBytes \<Rightarrow> (actual_len = len \<and> actual_digest = sha256, s)
              | ExactText \<Rightarrow> (actual_len = len \<and> actual_digest = sha256 \<and> utf8_valid actual_body, s)
              | SemanticJson \<Rightarrow>
                  (if \<not> narrowed then (False, s)
                   else case loader s index candidate of
                     (Some expected, s') \<Rightarrow>
                       (body_match X (mt_body_mode m) actual_body expected (mt_ignored_json_paths m), s')
                   | (None, s') \<Rightarrow> (False, s')))
         | CandInline expected \<Rightarrow>
             (let legacy = mc_request_body candidate;
                  bs = (if expected = [] \<and> legacy \<noteq> [] then legacy
                        else if expected \<noteq> [] then expected else legacy)
              in (body_match X (mt_body_mode m) actual_body bs (mt_ignored_json_paths m), s)))"

section \<open>Session state\<close>

record matcher_session =
  ms_consumed :: "nat set"
  ms_last :: "nat option"

definition matcher_session_new :: matcher_session where
  "matcher_session_new = \<lparr>ms_consumed = {}, ms_last = None\<rparr>"

definition is_available :: "consumption_mode \<Rightarrow> matcher_session \<Rightarrow> nat \<Rightarrow> bool" where
  "is_available mode session index =
     (case mode of
        Consume_Once \<Rightarrow> index \<notin> ms_consumed session
      | Consume_RepeatLast \<Rightarrow>
          (case ms_last session of Some previous \<Rightarrow> previous = index | None \<Rightarrow> index \<notin> ms_consumed session)
      | Consume_Unlimited \<Rightarrow> True)"

definition consume :: "consumption_mode \<Rightarrow> matcher_session \<Rightarrow> nat \<Rightarrow> matcher_session" where
  "consume mode session index =
     (let s1 = (if mode \<noteq> Consume_Unlimited
                then session\<lparr>ms_consumed := insert index (ms_consumed session)\<rparr> else session)
      in if mode = Consume_RepeatLast then s1\<lparr>ms_last := Some index\<rparr> else s1)"

section \<open>Selection\<close>

text \<open>The dimensions, other than the body, in which a candidate differs from the request.\<close>

definition candidate_dimensions :: "matcher \<Rightarrow> http_request \<Rightarrow> match_candidate \<Rightarrow> match_dimension list" where
  "candidate_dimensions m actual candidate =
     (let markers = fl_redactions (mc_flow candidate);
          recorded = fl_request (mc_flow candidate);
          redacted_headers = redacted_request_headers markers;
          redacted_query = redacted_request_query markers;
          combined_ignored = bset_extend (mt_ignored_headers m) redacted_headers;
          actual_headers = normalize_headers (req_headers actual) combined_ignored;
          expected_headers = normalize_headers (req_headers recorded) combined_ignored;
          actual_normalized = normalize m actual;
          expected_normalized = normalize m recorded
      in (if nr_scheme actual_normalized \<noteq> nr_scheme expected_normalized
             \<or> nr_authority actual_normalized \<noteq> nr_authority expected_normalized
          then [DimAuthority] else [])
         @ (if nr_path actual_normalized \<noteq> nr_path expected_normalized then [DimPath] else [])
         @ (if filter_query (req_query actual) redacted_query
               \<noteq> filter_query (req_query recorded) redacted_query then [DimQuery] else [])
         @ (if actual_headers \<noteq> expected_headers then [DimHeaders] else [])
         @ (if req_method actual \<noteq> req_method recorded then [DimMethod] else []))"

definition near_miss_of :: "nat \<Rightarrow> match_dimension list \<Rightarrow> near_miss" where
  "near_miss_of index dims =
     \<lparr>nm_candidate_index = index, nm_cost = of_nat (min (length dims) 255), nm_dimensions = dims,
      nm_summary = ''candidate differs in explicit request dimensions''\<rparr>"

fun select_loop ::
  "ext_lib \<Rightarrow> matcher \<Rightarrow> http_request \<Rightarrow> bytes \<Rightarrow> consumption_mode \<Rightarrow> 's loader
     \<Rightarrow> matcher_session \<Rightarrow> 's \<Rightarrow> near_miss list \<Rightarrow> bool \<Rightarrow> nat \<Rightarrow> match_candidate list
     \<Rightarrow> match_result \<times> matcher_session \<times> 's" where
  "select_loop X m actual actual_body mode loader session s near matching_consumed index [] =
     (let sorted_near = sort_key (\<lambda>item. (nm_cost item, nm_candidate_index item)) near
      in (if matching_consumed then Exhausted sorted_near else NoMatch sorted_near, session, s))"
| "select_loop X m actual actual_body mode loader session s near matching_consumed index (candidate # rest) =
     (let dims = candidate_dimensions m actual candidate;
          narrowed = (dims = []);
          (matches, s') = body_matches_lazy X m actual_body (x_sha256 X actual_body)
             (of_nat (length actual_body)) narrowed index candidate loader s
      in if narrowed \<and> matches then
           (if is_available mode session index then (Matched index, consume mode session index, s')
            else select_loop X m actual actual_body mode loader session s' near True (Suc index) rest)
         else
           (let all = dims @ (if \<not> matches then [DimBody] else []);
                near' = (if all \<noteq> [] \<and> length near < mt_max_near_misses m
                         then near @ [near_miss_of index all] else near)
            in select_loop X m actual actual_body mode loader session s' near' matching_consumed
                 (Suc index) rest))"

definition select_with_loader ::
  "ext_lib \<Rightarrow> matcher \<Rightarrow> http_request \<Rightarrow> bytes \<Rightarrow> match_candidate list \<Rightarrow> consumption_mode
     \<Rightarrow> matcher_session \<Rightarrow> 's loader \<Rightarrow> 's \<Rightarrow> match_result \<times> matcher_session \<times> 's" where
  "select_with_loader X m actual actual_body candidates mode session loader s =
     select_loop X m actual actual_body mode loader session s [] False 0 candidates"

definition select ::
  "ext_lib \<Rightarrow> matcher \<Rightarrow> http_request \<Rightarrow> bytes \<Rightarrow> match_candidate list \<Rightarrow> consumption_mode
     \<Rightarrow> matcher_session \<Rightarrow> match_result \<times> matcher_session" where
  "select X m actual actual_body candidates mode session =
     (case select_with_loader X m actual actual_body candidates mode session (\<lambda>s _ _. (None, s)) () of
        (result, session', _) \<Rightarrow> (result, session'))"

definition has_redaction_marker :: "redaction_marker list \<Rightarrow> string \<Rightarrow> bool" where
  "has_redaction_marker markers field \<longleftrightarrow> (\<exists>marker\<in>set markers. m_field marker = field)"

section \<open>What a candidate has to satisfy\<close>

text \<open>
  The specification of one comparison, over a loader that only answers: \<open>answers g\<close> never changes
  its state, \<open>logging g\<close> gives the same answers and records which candidate each call was for.
\<close>

definition answers :: "(usize \<Rightarrow> match_candidate \<Rightarrow> bytes option) \<Rightarrow> unit loader" where
  "answers g s index candidate = (g index candidate, s)"

definition logging :: "(usize \<Rightarrow> match_candidate \<Rightarrow> bytes option) \<Rightarrow> usize list loader" where
  "logging g log index candidate = (g index candidate, log @ [index])"

definition body_agrees ::
  "ext_lib \<Rightarrow> matcher \<Rightarrow> bytes \<Rightarrow> (usize \<Rightarrow> match_candidate \<Rightarrow> bytes option) \<Rightarrow> usize
     \<Rightarrow> match_candidate \<Rightarrow> bool" where
  "body_agrees X m body g index candidate =
     fst (body_matches_lazy X m body (x_sha256 X body) (of_nat (length body)) True index candidate
            (answers g) ())"

definition candidate_matches ::
  "ext_lib \<Rightarrow> matcher \<Rightarrow> http_request \<Rightarrow> bytes \<Rightarrow> (usize \<Rightarrow> match_candidate \<Rightarrow> bytes option)
     \<Rightarrow> usize \<Rightarrow> match_candidate \<Rightarrow> bool" where
  "candidate_matches X m actual body g index candidate \<longleftrightarrow>
     candidate_dimensions m actual candidate = [] \<and> body_agrees X m body g index candidate"

lemmas body_lazy_defs =
  body_matches_lazy_def redacted_expected_def answers_def logging_def Let_def

lemma body_lazy_logging:
  assumes "body_matches_lazy X m body d n narrowed i c (logging g) log = (b, log')"
  shows "b = fst (body_matches_lazy X m body d n narrowed i c (answers g) ())"
    and "log' = log \<or> narrowed \<and> log' = log @ [i]"
  using assms
  by (auto simp: body_lazy_defs split: if_splits option.splits candidate_body.splits body_match_mode.splits)

lemma answers_none: "(\<lambda>s _ _. (None, s)) = answers (\<lambda>_ _. None)"
  by (simp add: fun_eq_iff answers_def)

section \<open>The selection loop\<close>

lemma select_loop_step:
  assumes "body_matches_lazy X m body (x_sha256 X body) (of_nat (length body))
             (candidate_dimensions m actual c = []) k c (logging g) log = (b, log1)"
  shows "select_loop X m actual body mode (logging g) session log near consumed k (c # cs) =
     (if candidate_matches X m actual body g k c then
        (if is_available mode session k then (Matched k, consume mode session k, log1)
         else select_loop X m actual body mode (logging g) session log1 near True (Suc k) cs)
      else
        (let all = candidate_dimensions m actual c @ (if \<not> b then [DimBody] else [])
         in select_loop X m actual body mode (logging g) session log1
              (if length near < mt_max_near_misses m then near @ [near_miss_of k all] else near)
              consumed (Suc k) cs))"
  using assms body_lazy_logging(1) [OF assms]
  by (auto simp: candidate_matches_def body_agrees_def Let_def)

lemma select_loop_result:
  assumes "select_loop X m actual body mode (logging g) session log near consumed k cs = (r, session', log')"
  shows "case r of
      Matched i \<Rightarrow> (\<exists>c. (i, c) \<in> set (enumerate k cs) \<and> candidate_matches X m actual body g i c)
        \<and> is_available mode session i \<and> session' = consume mode session i
        \<and> (\<forall>(j, c)\<in>set (enumerate k cs). j < i \<longrightarrow> candidate_matches X m actual body g j c
             \<longrightarrow> \<not> is_available mode session j)
    | Exhausted _ \<Rightarrow> session' = session
        \<and> (consumed \<or> (\<exists>(j, c)\<in>set (enumerate k cs). candidate_matches X m actual body g j c))
        \<and> (\<forall>(j, c)\<in>set (enumerate k cs). candidate_matches X m actual body g j c
             \<longrightarrow> \<not> is_available mode session j)
    | NoMatch _ \<Rightarrow> session' = session \<and> \<not> consumed
        \<and> (\<forall>(j, c)\<in>set (enumerate k cs). \<not> candidate_matches X m actual body g j c)"
  using assms
proof (induction cs arbitrary: k log near consumed)
  case Nil
  then show ?case by (auto simp: Let_def split: if_splits)
next
  case (Cons c cs)
  obtain b log1 where step: "body_matches_lazy X m body (x_sha256 X body) (of_nat (length body))
      (candidate_dimensions m actual c = []) k c (logging g) log = (b, log1)"
    by fastforce
  note eq = Cons.prems [unfolded select_loop_step [OF step]]
  show ?case
  proof (cases "candidate_matches X m actual body g k c")
    case True
    show ?thesis
    proof (cases "is_available mode session k")
      case True
      with \<open>candidate_matches X m actual body g k c\<close> eq show ?thesis
        by (auto simp: in_set_enumerate_eq)
    next
      case False
      with True eq Cons.IH [of log1 near True "Suc k"] show ?thesis
        by (auto split: match_result.splits)
    qed
  next
    case False
    with eq obtain near1 where
      "select_loop X m actual body mode (logging g) session log1 near1 consumed (Suc k) cs = (r, session', log')"
      by (auto simp: Let_def)
    from Cons.IH [OF this] False show ?thesis
      by (auto split: match_result.splits)
  qed
qed

lemma select_loop_log:
  assumes "select_loop X m actual body mode (logging g) session log near consumed k cs = (r, session', log')"
  shows "\<exists>calls. log' = log @ calls \<and> sorted_wrt (<) calls
     \<and> (\<forall>i\<in>set calls. \<exists>c. (i, c) \<in> set (enumerate k cs) \<and> candidate_dimensions m actual c = [])"
  using assms
proof (induction cs arbitrary: k log near consumed)
  case Nil
  then show ?case by (auto simp: Let_def)
next
  case (Cons c cs)
  obtain b log1 where step: "body_matches_lazy X m body (x_sha256 X body) (of_nat (length body))
      (candidate_dimensions m actual c = []) k c (logging g) log = (b, log1)"
    by fastforce
  note eq = Cons.prems [unfolded select_loop_step [OF step]]
  have here: "log1 = log \<or> candidate_dimensions m actual c = [] \<and> log1 = log @ [k]"
    using body_lazy_logging(2) [OF step] .
  have "log' = log1 \<or> (\<exists>near1 consumed1.
      select_loop X m actual body mode (logging g) session log1 near1 consumed1 (Suc k) cs = (r, session', log'))"
    using eq by (auto simp: Let_def split: if_splits)
  then obtain calls where calls: "log' = log1 @ calls" "sorted_wrt (<) calls"
    "\<forall>i\<in>set calls. \<exists>c. (i, c) \<in> set (enumerate (Suc k) cs) \<and> candidate_dimensions m actual c = []"
    using Cons.IH [of log1 _ _ "Suc k"] by (metis append_Nil2 empty_iff list.set(1) sorted_wrt.simps(1))
  moreover from calls(3) have "\<forall>i\<in>set calls. k < i"
    by (auto simp: in_set_enumerate_eq)
  ultimately show ?case
    using here by (intro exI [of _ "(if log1 = log then [] else [k]) @ calls"]) auto
qed

lemma select_loop_near:
  assumes "select_loop X m actual body mode (logging g) session log near consumed k cs = (r, session', log')"
    and "length near \<le> mt_max_near_misses m"
    and "\<forall>n\<in>set near. nm_dimensions n \<noteq> [] \<and> nm_candidate_index n < k + length cs"
    and "r = NoMatch ns \<or> r = Exhausted ns"
  shows "length ns \<le> mt_max_near_misses m
    \<and> sorted (map (\<lambda>n. (nm_cost n, nm_candidate_index n)) ns)
    \<and> (\<forall>n\<in>set ns. nm_dimensions n \<noteq> [] \<and> nm_candidate_index n < k + length cs)"
  using assms
proof (induction cs arbitrary: k log near consumed)
  case Nil
  then show ?case by (auto simp: Let_def split: if_splits)
next
  case (Cons c cs)
  obtain b log1 where step: "body_matches_lazy X m body (x_sha256 X body) (of_nat (length body))
      (candidate_dimensions m actual c = []) k c (logging g) log = (b, log1)"
    by fastforce
  let ?all = "candidate_dimensions m actual c @ (if \<not> b then [DimBody] else [])"
  have all: "\<not> candidate_matches X m actual body g k c \<Longrightarrow> ?all \<noteq> []"
    using body_lazy_logging(1) [OF step] by (auto simp: candidate_matches_def body_agrees_def)
  have "\<exists>near1 consumed1.
      select_loop X m actual body mode (logging g) session log1 near1 consumed1 (Suc k) cs = (r, session', log')
      \<and> length near1 \<le> mt_max_near_misses m
      \<and> (\<forall>n\<in>set near1. nm_dimensions n \<noteq> [] \<and> nm_candidate_index n < Suc k + length cs)"
  proof (cases "candidate_matches X m actual body g k c")
    case True
    with Cons.prems show ?thesis
      unfolding select_loop_step [OF step] by (intro exI [of _ near] exI [of _ True]) (auto split: if_splits)
  next
    case False
    let ?near = "if length near < mt_max_near_misses m then near @ [near_miss_of k ?all] else near"
    have "length ?near \<le> mt_max_near_misses m" using Cons.prems(2) by simp
    moreover have "\<forall>n\<in>set ?near. nm_dimensions n \<noteq> [] \<and> nm_candidate_index n < Suc k + length cs"
      using Cons.prems(3) all [OF False] by (auto simp: near_miss_of_def)
    ultimately show ?thesis
      using Cons.prems(1) False unfolding select_loop_step [OF step] Let_def by (simp only: if_False) blast
  qed
  then show ?case using Cons.IH [OF _ _ _ Cons.prems(4)] by fastforce
qed

lemma select_loop_answers:
  "select_loop X m actual body mode (answers g) session () near consumed k cs =
     (case select_loop X m actual body mode (logging g) session log near consumed k cs of
        (r, session', _) \<Rightarrow> (r, session', ()))"
proof (induction cs arbitrary: k log near consumed)
  case Nil
  then show ?case by (simp add: Let_def)
next
  case (Cons c cs)
  obtain b log1 where step: "body_matches_lazy X m body (x_sha256 X body) (of_nat (length body))
      (candidate_dimensions m actual c = []) k c (logging g) log = (b, log1)"
    by fastforce
  have "body_matches_lazy X m body (x_sha256 X body) (of_nat (length body))
      (candidate_dimensions m actual c = []) k c (answers g) () = (b, ())"
    using body_lazy_logging(1) [OF step] by (auto simp: prod_eq_iff)
  with step show ?case
    by (simp add: Let_def Cons.IH [of _ _ _ log1])
qed

section \<open>Consumption\<close>

interpretation once: single_use_pool "is_available Consume_Once" "consume Consume_Once"
  by unfold_locales (auto simp: is_available_def consume_def)

interpretation repeat_last: sticky_pool "is_available Consume_RepeatLast" "consume Consume_RepeatLast"
  by unfold_locales (auto simp: is_available_def consume_def)

interpretation unlimited: pool "is_available Consume_Unlimited" "consume Consume_Unlimited"
  by unfold_locales (auto simp: is_available_def consume_def)

text \<open>A replay session answers one request after the other from the same candidates.\<close>

fun replay_run ::
  "ext_lib \<Rightarrow> matcher \<Rightarrow> match_candidate list \<Rightarrow> consumption_mode
     \<Rightarrow> (usize \<Rightarrow> match_candidate \<Rightarrow> bytes option) \<Rightarrow> matcher_session
     \<Rightarrow> (http_request \<times> bytes) list \<Rightarrow> match_result list \<times> matcher_session" where
  "replay_run X m cands mode g session [] = ([], session)"
| "replay_run X m cands mode g session ((request, body) # rest) =
     (case select_with_loader X m request body cands mode session (answers g) () of
        (r, session1, _) \<Rightarrow>
          (case replay_run X m cands mode g session1 rest of (rs, session2) \<Rightarrow> (r # rs, session2)))"

fun matched_indices :: "match_result list \<Rightarrow> usize list" where
  "matched_indices [] = []"
| "matched_indices (Matched i # rs) = i # matched_indices rs"
| "matched_indices (_ # rs) = matched_indices rs"

lemma select_answers_result:
  assumes "select_with_loader X m actual body cs mode session (answers g) () = (r, session', u)"
  shows "case r of
      Matched i \<Rightarrow> i < length cs \<and> candidate_matches X m actual body g i (cs ! i)
        \<and> is_available mode session i \<and> session' = consume mode session i
        \<and> (\<forall>j<i. candidate_matches X m actual body g j (cs ! j) \<longrightarrow> \<not> is_available mode session j)
    | Exhausted _ \<Rightarrow> session' = session
        \<and> (\<exists>j<length cs. candidate_matches X m actual body g j (cs ! j))
        \<and> (\<forall>j<length cs. candidate_matches X m actual body g j (cs ! j)
             \<longrightarrow> \<not> is_available mode session j)
    | NoMatch _ \<Rightarrow> session' = session
        \<and> (\<forall>j<length cs. \<not> candidate_matches X m actual body g j (cs ! j))"
proof -
  obtain log' where
    "select_loop X m actual body mode (logging g) session [] [] False 0 cs = (r, session', log')"
    using assms by (auto simp: select_with_loader_def select_loop_answers [of _ _ _ _ _ _ _ _ _ _ _ "[]"]
        split: prod.splits)
  from select_loop_result [OF this] show ?thesis
    by (fastforce simp: in_set_enumerate_eq split: match_result.splits)
qed

lemma replay_run_picks:
  "legal_picks (is_available mode) (consume mode) session
     (matched_indices (fst (replay_run X m cands mode g session reqs)))"
proof (induction reqs arbitrary: session)
  case (Cons q reqs)
  obtain request body where q: "q = (request, body)" by fastforce
  obtain r session1 u where sel:
    "select_with_loader X m request body cands mode session (answers g) () = (r, session1, u)"
    using prod_cases3 by blast
  show ?case
    using select_answers_result [OF sel] Cons.IH [of session1]
    by (auto simp: q sel split: prod.splits match_result.splits)
qed simp

section \<open>The dimensions of a candidate\<close>

lemma normalize_headers_group:
  "normalize_headers hs ignored =
     bmap_group (\<lambda>h. to_lower (h_name h) \<notin> set ignored) (\<lambda>h. to_lower (h_name h)) h_value hs []"
  by (simp add: normalize_headers_def bmap_group_def Let_def)

lemma normalize_headers_eq_iff:
  "normalize_headers hs ignored = normalize_headers hs' ignored \<longleftrightarrow>
     (\<forall>name. name \<notin> set ignored \<longrightarrow> header_values hs name = header_values hs' name)"
proof -
  have "map h_value (filter (\<lambda>h. to_lower (h_name h) \<notin> set ignored \<and> to_lower (h_name h) = k) hs) =
      (if k \<in> set ignored then [] else header_values hs k)" for k and hs :: "header_entry list"
    unfolding header_values_def by (induction hs) auto
  then show ?thesis
    by (auto simp: normalize_headers_group bmap_group_eq_iff)
qed

lemma candidate_dimensions_Nil_iff:
  "candidate_dimensions m actual c = [] \<longleftrightarrow>
     (let recorded = fl_request (mc_flow c); markers = fl_redactions (mc_flow c);
          path = (\<lambda>r. if req_path r = [] then ''/'' else req_path r);
          query = (\<lambda>r. filter (\<lambda>p. q_key p \<notin> set (redacted_request_query markers)) (req_query r))
      in req_method actual = req_method recorded
         \<and> eq_ignore_case (req_scheme actual) (req_scheme recorded)
         \<and> eq_ignore_case (req_authority actual) (req_authority recorded)
         \<and> path actual = path recorded
         \<and> query actual = query recorded
         \<and> (\<forall>name. name \<notin> set (mt_ignored_headers m) \<longrightarrow> name \<notin> set (redacted_request_headers markers)
              \<longrightarrow> header_values (req_headers actual) name = header_values (req_headers recorded) name))"
proof -
  have "filter_query q redacted = filter (\<lambda>p. q_key p \<notin> set redacted) q" for q redacted
    by (simp add: filter_query_def)
  then show ?thesis
    by (auto simp: candidate_dimensions_def Let_def normalize_def eq_ignore_case_def normalize_headers_eq_iff)
qed

section \<open>Properties\<close>

text \<open>
  Property C2: selection answers a request with the first candidate, in fixture order, that
  matches it and is available under the consumption mode, and consumes exactly that one; it
  answers exhausted when candidates match but none is available, no-match when none matches, and
  leaves the session untouched in both cases.
\<close>

theorem select_first_available:
  assumes "select_with_loader X m actual body cands mode session (answers g) () = (r, session', u)"
  shows "case r of
      Matched i \<Rightarrow> i < length cands \<and> candidate_matches X m actual body g i (cands ! i)
        \<and> is_available mode session i \<and> session' = consume mode session i
        \<and> (\<forall>j<i. candidate_matches X m actual body g j (cands ! j) \<longrightarrow> \<not> is_available mode session j)
    | Exhausted _ \<Rightarrow> session' = session
        \<and> (\<exists>j<length cands. candidate_matches X m actual body g j (cands ! j))
        \<and> (\<forall>j<length cands. candidate_matches X m actual body g j (cands ! j)
             \<longrightarrow> \<not> is_available mode session j)
    | NoMatch _ \<Rightarrow> session' = session
        \<and> (\<forall>j<length cands. \<not> candidate_matches X m actual body g j (cands ! j))"
  using select_answers_result [OF assms] .

definition sample_candidates :: "match_candidate list" where
  "sample_candidates =
     [match_candidate_from_flow (sample_flow\<lparr>fl_request := sample_request\<lparr>req_path := ''/other''\<rparr>\<rparr>),
      match_candidate_from_flow sample_flow, match_candidate_from_flow sample_flow]"

lemma sample_select:
  "select_with_loader demo_lib (matcher_strict 4) sample_request [] sample_candidates Consume_Once
     (consume Consume_Once matcher_session_new 1) (answers (\<lambda>_ _. None)) ()
   = (Matched 2, consume Consume_Once (consume Consume_Once matcher_session_new 1) 2, ())"
  by code_simp

lemma sample_select_miss:
  "select_with_loader demo_lib (matcher_strict 4) sample_request ''x'' sample_candidates Consume_Once
     matcher_session_new (logging (\<lambda>_ _. None)) []
   = (NoMatch [near_miss_of 1 [DimBody], near_miss_of 2 [DimBody], near_miss_of 0 [DimPath, DimBody]],
      matcher_session_new, [])"
  by code_simp

theorem select_first_available_witness:
  "is_available Consume_Once (consume Consume_Once matcher_session_new 1) 2
   \<and> candidate_matches demo_lib (matcher_strict 4) sample_request [] (\<lambda>_ _. None) 2 (sample_candidates ! 2)"
  using select_first_available [OF sample_select] by simp

text \<open>
  The body of a candidate is loaded only after every other dimension has matched, in
  fixture order, and at most once per candidate.
\<close>

theorem select_loads_narrowed_once:
  assumes "select_with_loader X m actual body cands mode session (logging g) [] = (r, session', calls)"
  shows "sorted_wrt (<) calls
    \<and> (\<forall>i\<in>set calls. i < length cands \<and> candidate_dimensions m actual (cands ! i) = [])"
  using select_loop_log [OF assms [unfolded select_with_loader_def]] by (auto simp: in_set_enumerate_eq)

lemma sample_select_load:
  "select_with_loader demo_lib (matcher_new Practical SemanticJson 4) sample_request ''null''
     (map (\<lambda>c. c\<lparr>mc_body := CandDigest [] 4\<rparr>) sample_candidates) Consume_Once
     matcher_session_new (logging (\<lambda>_ _. Some ''null'')) []
   = (Matched 1, consume Consume_Once matcher_session_new 1, [1])"
  by code_simp

theorem select_loads_narrowed_once_witness:
  "candidate_dimensions (matcher_new Practical SemanticJson 4) sample_request
     (map (\<lambda>c. c\<lparr>mc_body := CandDigest [] 4\<rparr>) sample_candidates ! 1) = []"
  using select_loads_narrowed_once [OF sample_select_load] by (metis list.set_intros(1))

text \<open>
  The diagnostics of a failed selection are bounded by the matcher's limit, ordered by
  the number of differing dimensions and then by fixture order, and each names a real candidate
  and at least one dimension in which it differs.
\<close>

theorem near_misses_bounded_and_ordered:
  assumes "select_with_loader X m actual body cands mode session (logging g) log = (r, session', log')"
    and "r = NoMatch ns \<or> r = Exhausted ns"
  shows "length ns \<le> mt_max_near_misses m
    \<and> sorted (map (\<lambda>n. (nm_cost n, nm_candidate_index n)) ns)
    \<and> (\<forall>n\<in>set ns. nm_dimensions n \<noteq> [] \<and> nm_candidate_index n < length cands)"
  using select_loop_near [OF assms(1) [unfolded select_with_loader_def] _ _ assms(2)] by simp

theorem near_misses_bounded_and_ordered_witness:
  "length [near_miss_of 1 [DimBody], near_miss_of 2 [DimBody], near_miss_of 0 [DimPath, DimBody]] \<le> 4"
  using near_misses_bounded_and_ordered [OF sample_select_miss disjI1 [OF refl]]
  by (simp add: matcher_strict_def matcher_new_def)

text \<open>
  Over any sequence of requests served from a fresh session in the once mode, no
  recorded flow is ever served twice.
\<close>

theorem once_never_serves_twice:
  "distinct (matched_indices (fst (replay_run X m cands Consume_Once g matcher_session_new reqs)))"
  by (rule once.picks_distinct) (rule replay_run_picks)

text \<open>
  In the repeat-last mode the first flow a session serves is the only one it ever
  serves, whatever the later requests are.
\<close>

theorem repeat_last_sticks_to_first:
  assumes "matched_indices (fst (replay_run X m cands Consume_RepeatLast g matcher_session_new reqs)) = i # rest"
  shows "set rest \<subseteq> {i}"
proof -
  have picks: "legal_picks (is_available Consume_RepeatLast) (consume Consume_RepeatLast)
      matcher_session_new (i # rest)"
    using replay_run_picks [of Consume_RepeatLast matcher_session_new X m cands g reqs] assms by simp
  show ?thesis using repeat_last.picks_constant [OF picks] by blast
qed

theorem repeat_last_sticks_to_first_witness: "set [1, 1 :: nat] \<subseteq> {1}"
  by (rule repeat_last_sticks_to_first [of demo_lib "matcher_strict 4" sample_candidates "\<lambda>_ _. None"
        "[(sample_request, []), (sample_request, []), (sample_request\<lparr>req_path := ''/other''\<rparr>, []),
          (sample_request, [])]"]) code_simp

text \<open>
  A candidate agrees with a request in everything but the body exactly when the
  methods and paths are equal (an empty path standing for the root), the schemes and authorities
  are equal up to case, the query pairs outside the redacted keys are the same list, and every
  header name that is neither ignored nor redacted has the same values in the same order. Redacted
  fields are wildcards, and nothing else is.
\<close>

theorem dimensions_agree_iff:
  "candidate_dimensions m actual c = [] \<longleftrightarrow>
     (let recorded = fl_request (mc_flow c); markers = fl_redactions (mc_flow c);
          path = (\<lambda>r. if req_path r = [] then ''/'' else req_path r);
          query = (\<lambda>r. filter (\<lambda>p. q_key p \<notin> set (redacted_request_query markers)) (req_query r))
      in req_method actual = req_method recorded
         \<and> eq_ignore_case (req_scheme actual) (req_scheme recorded)
         \<and> eq_ignore_case (req_authority actual) (req_authority recorded)
         \<and> path actual = path recorded
         \<and> query actual = query recorded
         \<and> (\<forall>name. name \<in> set (mt_ignored_headers m) \<or> name \<in> set (redacted_request_headers markers)
              \<or> header_values (req_headers actual) name = header_values (req_headers recorded) name))"
  unfolding candidate_dimensions_Nil_iff by (auto simp: Let_def)

text \<open>
  A pointer with an escaped token is resolved by the library but not removed by the
  comparison, which looks the token up unescaped: the redacted value stays part of the comparison.
\<close>

theorem escaped_pointer_not_removed:
  assumes "pointer_lawful X"
  shows "remove_json_pointer X (JObject [(''a/b'', v)]) ''/a~1b'' = JObject [(''a/b'', v)]"
proof -
  have "rsplit_once CHR ''/'' ''/a~1b'' = Some ([], ''a~1b'')" by code_simp
  then show ?thesis
    by (simp add: remove_json_pointer_def pointer_lawful_root(2) [OF assms])
qed

theorem escaped_pointer_not_removed_witness:
  "remove_json_pointer demo_lib (JObject [(''a/b'', JString ''<redacted>'')]) ''/a~1b''
     = JObject [(''a/b'', JString ''<redacted>'')]"
  by (rule escaped_pointer_not_removed) (rule demo_pointer_lawful)

end
