(* ===== verification/Redaction.thy ===== *)
theory Redaction
  imports Flow_Model Record_Config External Matching
begin

text \<open>
  Redaction before publication, \<^verbatim>\<open>crates/eggreplay-core/src/security.rs\<close>: header and query values
  are replaced and every replacement leaves a marker, structured bodies are rewritten, and the
  headers that describe the old body are reconciled with the new one. \<^verbatim>\<open>redact_url\<close> only calls the
  \<^verbatim>\<open>url\<close> crate and is not modelled.
\<close>

section \<open>Configuration\<close>

record redaction_config =
  rc_headers :: "string list"
  rc_query_keys :: "string list"
  rc_json_paths :: "string list"

definition default_secure :: redaction_config where
  "default_secure =
     \<lparr>rc_headers = bset_of_list [''authorization'', ''proxy-authorization'', ''cookie'', ''set-cookie''],
      rc_query_keys = [], rc_json_paths = []\<rparr>"

definition from_profile :: "redaction_profile \<Rightarrow> redaction_config" where
  "from_profile profile =
     \<lparr>rc_headers = bset_of_list (map to_lower (sensitive_headers profile)),
      rc_query_keys = bset_of_list (sensitive_query_keys profile),
      rc_json_paths = bset_of_list (sensitive_json_paths profile)\<rparr>"

definition wants_body_redaction :: "redaction_config \<Rightarrow> bool" where
  "wants_body_redaction config \<longleftrightarrow> rc_json_paths config \<noteq> [] \<or> rc_query_keys config \<noteq> []"

definition REDACTED :: string where
  "REDACTED = ''<redacted>''"

section \<open>Headers and query\<close>

definition redact_header ::
  "header_entry \<Rightarrow> string list \<Rightarrow> redaction_marker list \<Rightarrow> string \<Rightarrow> string
     \<Rightarrow> header_entry \<times> redaction_marker list" where
  "redact_header header names markers pfx profile =
     (if to_lower (h_name header) \<in> set names
      then (header\<lparr>h_value := REDACTED\<rparr>,
            markers @ [\<lparr>m_field = pfx @ ''.'' @ h_name header, m_profile = profile\<rparr>])
      else (header, markers))"

fun redact_headers ::
  "header_entry list \<Rightarrow> string list \<Rightarrow> redaction_marker list \<Rightarrow> string \<Rightarrow> string
     \<Rightarrow> header_entry list \<times> redaction_marker list" where
  "redact_headers [] names markers pfx profile = ([], markers)"
| "redact_headers (h # hs) names markers pfx profile =
     (case redact_header h names markers pfx profile of
        (h', markers1) \<Rightarrow>
          (case redact_headers hs names markers1 pfx profile of
             (hs', markers2) \<Rightarrow> (h' # hs', markers2)))"

fun redact_query ::
  "query_pair list \<Rightarrow> string list \<Rightarrow> redaction_marker list \<Rightarrow> string
     \<Rightarrow> query_pair list \<times> redaction_marker list" where
  "redact_query [] keys markers profile = ([], markers)"
| "redact_query (p # ps) keys markers profile =
     (case (if q_key p \<in> set keys
            then (p\<lparr>q_value := REDACTED\<rparr>,
                  markers @ [\<lparr>m_field = ''request.query.'' @ q_key p, m_profile = profile\<rparr>])
            else (p, markers)) of
        (p', markers1) \<Rightarrow>
          (case redact_query ps keys markers1 profile of (ps', markers2) \<Rightarrow> (p' # ps', markers2)))"

definition redact_flow :: "flow \<Rightarrow> redaction_config \<Rightarrow> string \<Rightarrow> flow" where
  "redact_flow fl config profile =
     (let request = fl_request fl;
          (headers, m1) = redact_headers (req_headers request) (rc_headers config)
                            (fl_redactions fl) ''request.headers'' profile;
          (trailers, m2) = redact_headers (req_trailers request) (rc_headers config) m1
                            ''request.trailers'' profile;
          (outcome, m4) =
            (case fl_outcome fl of
               OutResponse response \<Rightarrow>
                 (let (rheaders, m3) = redact_headers (resp_headers response) (rc_headers config) m2
                                         ''response.headers'' profile;
                      (rtrailers, m4) = redact_headers (resp_trailers response) (rc_headers config) m3
                                         ''response.trailers'' profile
                  in (OutResponse (response\<lparr>resp_headers := rheaders, resp_trailers := rtrailers\<rparr>), m4))
             | OutError e \<Rightarrow> (OutError e, m2));
          (query, m5) = redact_query (req_query request) (rc_query_keys config) m4 profile
      in fl\<lparr>fl_request := request\<lparr>req_headers := headers, req_trailers := trailers, req_query := query\<rparr>,
            fl_outcome := outcome, fl_redactions := m5\<rparr>)"

definition push_body_markers ::
  "redaction_marker list \<Rightarrow> string list \<Rightarrow> string \<Rightarrow> bool \<Rightarrow> redaction_marker list" where
  "push_body_markers markers paths profile is_response =
     (let pfx = (if is_response then RESPONSE_BODY_JSON_MARKER_PREFIX else BODY_JSON_MARKER_PREFIX)
      in markers @ map (\<lambda>path. \<lparr>m_field = pfx @ path, m_profile = profile\<rparr>) paths)"

section \<open>Structured bodies\<close>

datatype redaction_error =
    MalformedJson | ReencodeFailed | FormNotUtf8 | MalformedForm

definition redact_path :: "ext_lib \<Rightarrow> json \<times> bool \<Rightarrow> string \<Rightarrow> json \<times> bool" where
  "redact_path X vm path =
     (case x_json_pointer_mut X (fst vm) path (\<lambda>_. JString REDACTED) of
        Some v' \<Rightarrow> (v', True) | None \<Rightarrow> vm)"

definition apply_json_redaction :: "ext_lib \<Rightarrow> bytes \<Rightarrow> string list \<Rightarrow> redaction_error + bytes \<times> bool" where
  "apply_json_redaction X body paths =
     (case x_json_parse X body of
        None \<Rightarrow> Inl MalformedJson
      | Some v \<Rightarrow>
          (case foldl (redact_path X) (v, False) paths of
             (v', matched) \<Rightarrow>
               (case x_json_print X v' of None \<Rightarrow> Inl ReencodeFailed | Some b \<Rightarrow> Inr (b, matched))))"

definition redact_json :: "ext_lib \<Rightarrow> json \<Rightarrow> string list \<Rightarrow> json" where
  "redact_json X v paths =
     foldl (\<lambda>v path. unwrap_or (x_json_pointer_mut X v path (\<lambda>_. JString REDACTED)) v) v paths"

fun redact_pairs :: "(string \<times> string) list \<Rightarrow> string list \<Rightarrow> bool \<Rightarrow> (string \<times> string) list \<times> bool" where
  "redact_pairs [] keys matched = ([], matched)"
| "redact_pairs ((k, v) # ps) keys matched =
     (let hit = k \<in> set keys;
          (ps', matched') = redact_pairs ps keys (matched \<or> hit)
      in ((k, if hit then REDACTED else v) # ps', matched'))"

definition apply_form_redaction :: "ext_lib \<Rightarrow> bytes \<Rightarrow> string list \<Rightarrow> redaction_error + bytes \<times> bool" where
  "apply_form_redaction X body query_keys =
     (if \<not> utf8_valid body then Inl FormNotUtf8
      else let pairs = x_form_parse X body
           in if pairs = [] \<and> body \<noteq> [] then Inl MalformedForm
              else case redact_pairs pairs query_keys False of
                     (pairs', matched) \<Rightarrow> Inr (x_form_print X pairs', matched))"

section \<open>Representation headers\<close>

definition digest_headers :: "string list" where
  "digest_headers = [''content-md5'', ''content-digest'', ''digest'', ''signature'', ''signature-input'']"

text \<open>One call of the closure of \<^verbatim>\<open>retain\<close>: whether the header stays, and what it records.\<close>

definition reconcile_header ::
  "string \<Rightarrow> header_entry \<Rightarrow> bool \<times> redaction_marker list \<times> (string \<times> string) list" where
  "reconcile_header profile header =
     (let name = to_lower (h_name header)
      in if name = ''content-length'' then (False, [], [])
         else if name \<in> set digest_headers then
           (False, [\<lparr>m_field = ''headers.'' @ name @ ''.removed-after-redaction'', m_profile = profile\<rparr>], [])
         else if name = ''etag'' then
           (if starts_with ''W/'' (trim_start (h_value header))
            then (True, [], [(''redaction'', ''weak-etag-preserved-after-redaction'')])
            else (False, [\<lparr>m_field = ''headers.etag.removed-after-redaction'', m_profile = profile\<rparr>], []))
         else (True, [], []))"

definition reconcile_headers_after_body_redaction ::
  "header_entry list \<Rightarrow> u64 \<Rightarrow> string
     \<Rightarrow> header_entry list \<times> redaction_marker list \<times> (string \<times> string) list" where
  "reconcile_headers_after_body_redaction headers new_len profile =
     (filter (\<lambda>h. fst (reconcile_header profile h)) headers
        @ [\<lparr>h_name = ''content-length'', h_value = to_dec (unat new_len)\<rparr>],
      concat (map (\<lambda>h. fst (snd (reconcile_header profile h))) headers),
      concat (map (\<lambda>h. snd (snd (reconcile_header profile h))) headers))"

section \<open>Facts about one list\<close>

definition mask_header :: "string list \<Rightarrow> header_entry \<Rightarrow> header_entry" where
  "mask_header names h = (if to_lower (h_name h) \<in> set names then h\<lparr>h_value := REDACTED\<rparr> else h)"

definition header_markers :: "string list \<Rightarrow> string \<Rightarrow> string \<Rightarrow> header_entry list \<Rightarrow> redaction_marker list" where
  "header_markers names pfx profile hs =
     map (\<lambda>h. \<lparr>m_field = pfx @ ''.'' @ h_name h, m_profile = profile\<rparr>)
       (filter (\<lambda>h. to_lower (h_name h) \<in> set names) hs)"

definition mask_pair :: "string list \<Rightarrow> query_pair \<Rightarrow> query_pair" where
  "mask_pair keys p = (if q_key p \<in> set keys then p\<lparr>q_value := REDACTED\<rparr> else p)"

definition query_markers :: "string list \<Rightarrow> string \<Rightarrow> query_pair list \<Rightarrow> redaction_marker list" where
  "query_markers keys profile ps =
     map (\<lambda>p. \<lparr>m_field = ''request.query.'' @ q_key p, m_profile = profile\<rparr>)
       (filter (\<lambda>p. q_key p \<in> set keys) ps)"

lemma redact_headers_eq:
  "redact_headers hs names ms pfx profile = (map (mask_header names) hs, ms @ header_markers names pfx profile hs)"
  by (induction hs arbitrary: ms) (auto simp: redact_header_def mask_header_def header_markers_def)

lemma redact_query_eq:
  "redact_query ps keys ms profile = (map (mask_pair keys) ps, ms @ query_markers keys profile ps)"
  by (induction ps arbitrary: ms) (auto simp: mask_pair_def query_markers_def)

lemma redact_pairs_eq:
  "redact_pairs ps keys matched =
     (map (\<lambda>(k, v). (k, if k \<in> set keys then REDACTED else v)) ps, matched \<or> (\<exists>p\<in>set ps. fst p \<in> set keys))"
  by (induction ps keys matched rule: redact_pairs.induct) auto

fun outcome_masked :: "string list \<Rightarrow> flow_outcome \<Rightarrow> flow_outcome" where
  "outcome_masked names (OutResponse r) =
     OutResponse (r\<lparr>resp_headers := map (mask_header names) (resp_headers r),
                    resp_trailers := map (mask_header names) (resp_trailers r)\<rparr>)"
| "outcome_masked names (OutError e) = OutError e"

fun outcome_markers :: "string list \<Rightarrow> string \<Rightarrow> flow_outcome \<Rightarrow> redaction_marker list" where
  "outcome_markers names profile (OutResponse r) =
     header_markers names ''response.headers'' profile (resp_headers r)
     @ header_markers names ''response.trailers'' profile (resp_trailers r)"
| "outcome_markers names profile (OutError e) = []"

lemma redact_flow_eq:
  "redact_flow fl config profile =
     fl\<lparr>fl_request := (fl_request fl)
          \<lparr>req_headers := map (mask_header (rc_headers config)) (req_headers (fl_request fl)),
           req_trailers := map (mask_header (rc_headers config)) (req_trailers (fl_request fl)),
           req_query := map (mask_pair (rc_query_keys config)) (req_query (fl_request fl))\<rparr>,
        fl_outcome := outcome_masked (rc_headers config) (fl_outcome fl),
        fl_redactions := fl_redactions fl
          @ header_markers (rc_headers config) ''request.headers'' profile (req_headers (fl_request fl))
          @ header_markers (rc_headers config) ''request.trailers'' profile (req_trailers (fl_request fl))
          @ outcome_markers (rc_headers config) profile (fl_outcome fl)
          @ query_markers (rc_query_keys config) profile (req_query (fl_request fl))\<rparr>"
  by (cases "fl_outcome fl") (simp_all add: redact_flow_def redact_headers_eq redact_query_eq Let_def)

lemma mask_header_simps [simp]:
  "h_name (mask_header names h) = h_name h"
  "mask_header names (mask_header names h) = mask_header names h"
  by (simp_all add: mask_header_def)

lemma mask_pair_simps [simp]:
  "q_key (mask_pair keys p) = q_key p"
  "mask_pair keys (mask_pair keys p) = mask_pair keys p"
  by (simp_all add: mask_pair_def)

lemma outcome_masked_idem [simp]: "outcome_masked names (outcome_masked names out) = outcome_masked names out"
  by (cases out) simp_all

section \<open>Two flows that differ in secrets only\<close>

definition headers_agree :: "string list \<Rightarrow> header_entry list \<Rightarrow> header_entry list \<Rightarrow> bool" where
  "headers_agree names hs hs' \<longleftrightarrow>
     list_all2 (\<lambda>h h'. h_name h = h_name h'
       \<and> (to_lower (h_name h) \<in> set names \<or> h_value h = h_value h')) hs hs'"

definition query_agree :: "string list \<Rightarrow> query_pair list \<Rightarrow> query_pair list \<Rightarrow> bool" where
  "query_agree keys ps ps' \<longleftrightarrow>
     list_all2 (\<lambda>p p'. q_key p = q_key p' \<and> (q_key p \<in> set keys \<or> q_value p = q_value p')) ps ps'"

fun outcome_agree :: "string list \<Rightarrow> flow_outcome \<Rightarrow> flow_outcome \<Rightarrow> bool" where
  "outcome_agree names (OutResponse r) (OutResponse r') =
     (headers_agree names (resp_headers r) (resp_headers r')
      \<and> headers_agree names (resp_trailers r) (resp_trailers r')
      \<and> r' = r\<lparr>resp_headers := resp_headers r', resp_trailers := resp_trailers r'\<rparr>)"
| "outcome_agree names a b = (a = b)"

definition flows_agree :: "redaction_config \<Rightarrow> flow \<Rightarrow> flow \<Rightarrow> bool" where
  "flows_agree config a b \<longleftrightarrow>
     headers_agree (rc_headers config) (req_headers (fl_request a)) (req_headers (fl_request b))
     \<and> headers_agree (rc_headers config) (req_trailers (fl_request a)) (req_trailers (fl_request b))
     \<and> query_agree (rc_query_keys config) (req_query (fl_request a)) (req_query (fl_request b))
     \<and> outcome_agree (rc_headers config) (fl_outcome a) (fl_outcome b)
     \<and> b = a\<lparr>fl_request := (fl_request a)\<lparr>req_headers := req_headers (fl_request b),
                                           req_trailers := req_trailers (fl_request b),
                                           req_query := req_query (fl_request b)\<rparr>,
            fl_outcome := fl_outcome b\<rparr>"

lemma headers_agree_mask:
  "headers_agree names hs hs' \<Longrightarrow>
     map (mask_header names) hs = map (mask_header names) hs'
     \<and> header_markers names pfx profile hs = header_markers names pfx profile hs'"
  unfolding headers_agree_def
  by (induction rule: list_all2_induct) (auto simp: mask_header_def header_markers_def)

lemma query_agree_mask:
  "query_agree keys ps ps' \<Longrightarrow>
     map (mask_pair keys) ps = map (mask_pair keys) ps' \<and> query_markers keys profile ps = query_markers keys profile ps'"
  unfolding query_agree_def
  by (induction rule: list_all2_induct) (auto simp: mask_pair_def query_markers_def)

lemma outcome_agree_mask:
  "outcome_agree names a b \<Longrightarrow>
     outcome_masked names a = outcome_masked names b \<and> outcome_markers names profile a = outcome_markers names profile b"
proof (induction names a b rule: outcome_agree.induct)
  case (1 names r r')
  then have h: "headers_agree names (resp_headers r) (resp_headers r')"
    and t: "headers_agree names (resp_trailers r) (resp_trailers r')"
    and "r' = r\<lparr>resp_headers := resp_headers r', resp_trailers := resp_trailers r'\<rparr>"
    by simp_all
  then show ?case
    using headers_agree_mask [OF h, of "''response.headers''" profile]
      headers_agree_mask [OF t, of "''response.trailers''" profile]
    by (cases r; cases r') auto
qed auto

section \<open>Body redaction\<close>

lemma redact_paths_unmatched:
  "foldl (redact_path X) (v, b) paths = (w, False) \<longleftrightarrow>
     \<not> b \<and> w = v \<and> (\<forall>p\<in>set paths. x_json_pointer_mut X v p (\<lambda>_. JString REDACTED) = None)"
proof (induction paths arbitrary: v b)
  case (Cons p paths)
  then show ?case
    by (cases "x_json_pointer_mut X v p (\<lambda>_. JString REDACTED)") (auto simp: redact_path_def)
qed auto

lemma redact_path_written:
  "pointer_lawful X \<Longrightarrow> x_json_pointer X v p \<noteq> None \<Longrightarrow>
     x_json_pointer X (fst (redact_path X (v, b) p)) p = Some (JString REDACTED)"
  using pointer_lawful_None [of X v p "\<lambda>_. JString REDACTED"]
  by (auto simp: redact_path_def dest: pointer_lawful_written split: option.splits)

section \<open>A redacted recording and the request it was made from\<close>

lemma marker_suffixes_iff:
  "x \<in> set (marker_suffixes p f markers) \<longleftrightarrow> (\<exists>m\<in>set markers. \<exists>t. m_field m = p @ t \<and> x = f t)"
proof -
  have "y \<in> set (case q of None \<Rightarrow> [] | Some t \<Rightarrow> [f t]) \<longleftrightarrow> (\<exists>t. q = Some t \<and> y = f t)" for y q
    by (cases q) auto
  then show ?thesis by (simp add: marker_suffixes_def str_simps)
qed

lemma marker_suffixes_Nil_iff:
  "marker_suffixes p f markers = [] \<longleftrightarrow> (\<forall>m\<in>set markers. \<not> prefix p (m_field m))"
proof -
  have "marker_suffixes p f markers = [] \<longleftrightarrow> (\<forall>x. x \<notin> set (marker_suffixes p f markers))"
    by auto
  then show ?thesis by (auto simp: marker_suffixes_iff prefix_def)
qed

lemma masked_header_values:
  assumes "\<forall>h\<in>set hs. to_lower (h_name h) \<in> set names \<longrightarrow> to_lower (h_name h) \<noteq> name"
  shows "header_values (map (mask_header names) hs) name = header_values hs name"
  using assms by (induction hs) (auto simp: header_values_def mask_header_def)

lemma masked_query_values:
  assumes "\<forall>p\<in>set ps. q_key p \<in> set keys \<longrightarrow> q_key p \<in> R"
  shows "filter (\<lambda>p. q_key p \<notin> R) (map (mask_pair keys) ps) = filter (\<lambda>p. q_key p \<notin> R) ps"
  using assms by (induction ps) (auto simp: mask_pair_def)

lemma redacted_dimensions:
  "candidate_dimensions m (fl_request fl) (match_candidate_from_flow (redact_flow fl config profile)) = []"
proof -
  let ?ms = "fl_redactions (redact_flow fl config profile)"
  have query: "\<forall>p\<in>set (req_query (fl_request fl)). q_key p \<in> set (rc_query_keys config) \<longrightarrow>
      q_key p \<in> set (redacted_request_query ?ms)"
    by (auto simp: redacted_request_query_def marker_suffixes_iff redact_flow_eq query_markers_def image_iff
        intro!: bexI)
  have headers: "\<forall>h\<in>set (req_headers (fl_request fl)). to_lower (h_name h) \<in> set (rc_headers config) \<longrightarrow>
      to_lower (h_name h) \<in> set (redacted_request_headers ?ms)"
  proof (intro ballI impI)
    fix h assume "h \<in> set (req_headers (fl_request fl))" and "to_lower (h_name h) \<in> set (rc_headers config)"
    then have "\<lparr>m_field = ''request.headers'' @ ''.'' @ h_name h, m_profile = profile\<rparr> \<in> set ?ms"
      by (auto simp: redact_flow_eq header_markers_def)
    then show "to_lower (h_name h) \<in> set (redacted_request_headers ?ms)"
      by (auto simp: redacted_request_headers_def marker_suffixes_iff intro!: bexI)
  qed
  have vals: "header_values (map (mask_header (rc_headers config)) (req_headers (fl_request fl))) name
      = header_values (req_headers (fl_request fl)) name"
    if "name \<notin> set (redacted_request_headers ?ms)" for name
    using headers that by (intro masked_header_values) blast
  show ?thesis
    using masked_query_values [OF query] vals
    by (auto simp: candidate_dimensions_Nil_iff Let_def match_candidate_from_flow_def redact_flow_eq)
qed

lemma redaction_markers_not_body:
  assumes "fl_redactions fl = []"
  shows "redacted_body_json_paths (fl_redactions (redact_flow fl config profile)) False = []"
    and "redacted_body_form_keys (fl_redactions (redact_flow fl config profile)) = []"
  using assms
  by (cases "fl_outcome fl"; auto simp: redacted_body_json_paths_def redacted_body_form_keys_def
      marker_suffixes_Nil_iff redact_flow_eq header_markers_def query_markers_def BODY_JSON_MARKER_PREFIX_def)+

text \<open>The body a recorded request was made with: its digest and length, or nothing.\<close>

definition recorded_body :: "ext_lib \<Rightarrow> http_request \<Rightarrow> bytes \<Rightarrow> bool" where
  "recorded_body X request body \<longleftrightarrow>
     (case req_body request of
        BodyBlob blob \<Rightarrow> blob_sha256 blob = x_sha256 X body \<and> blob_length blob = of_nat (length body)
      | _ \<Rightarrow> body = [])"

lemma redacted_body_matches:
  assumes "fl_redactions fl = []" and "mt_body_mode m = ExactBytes" and "recorded_body X (fl_request fl) body"
  shows "body_matches_lazy X m body (x_sha256 X body) (of_nat (length body)) True index
      (match_candidate_from_flow (redact_flow fl config profile)) loader s = (True, s)"
proof -
  let ?c = "match_candidate_from_flow (redact_flow fl config profile)"
  have flow: "mc_flow ?c = redact_flow fl config profile"
    and body: "mc_body ?c = candidate_body_from_ref (req_body (fl_request fl))"
    by (simp_all add: match_candidate_from_flow_def redact_flow_eq)
  show ?thesis
    using assms by (cases "req_body (fl_request fl)")
      (auto simp: body_matches_lazy_def flow body redaction_markers_not_body recorded_body_def)
qed

lemma redacted_candidate_matches:
  assumes "fl_redactions fl = []" and "mt_body_mode m = ExactBytes" and "recorded_body X (fl_request fl) body"
  shows "candidate_matches X m (fl_request fl) body g index
           (match_candidate_from_flow (redact_flow fl config profile))"
  by (simp add: candidate_matches_def body_agrees_def redacted_dimensions redacted_body_matches [OF assms])

section \<open>Properties\<close>

text \<open>
  Property C3: redaction depends on nothing secret. Two flows that differ only in the values of
  sensitive headers, trailers and query pairs, of request or response, are redacted to the same
  flow, markers included, so a published fixture carries no information about those values.
\<close>

theorem redaction_hides_secrets:
  assumes "flows_agree config a b"
  shows "redact_flow a config profile = redact_flow b config profile"
proof -
  let ?n = "rc_headers config"
  note h = headers_agree_mask [where names = ?n and profile = profile]
  from assms have b: "b = a\<lparr>fl_request := (fl_request a)\<lparr>req_headers := req_headers (fl_request b),
      req_trailers := req_trailers (fl_request b), req_query := req_query (fl_request b)\<rparr>,
      fl_outcome := fl_outcome b\<rparr>"
    by (simp add: flows_agree_def)
  from assms have "headers_agree ?n (req_headers (fl_request a)) (req_headers (fl_request b))"
    and "headers_agree ?n (req_trailers (fl_request a)) (req_trailers (fl_request b))"
    and q: "query_agree (rc_query_keys config) (req_query (fl_request a)) (req_query (fl_request b))"
    and o: "outcome_agree ?n (fl_outcome a) (fl_outcome b)"
    by (simp_all add: flows_agree_def)
  note eqs = h [OF this(1), of "''request.headers''"] h [OF this(2), of "''request.trailers''"]
    query_agree_mask [OF q, of profile] outcome_agree_mask [OF o, of profile]
  obtain v i s c r out p pr an rm where a': "a = \<lparr>fl_schema_version = v, fl_id = i, fl_started_at_ms = s,
      fl_completed_at_ms = c, fl_request = r, fl_outcome = out, fl_physical_route = p, fl_provenance = pr,
      fl_annotations = an, fl_redactions = rm\<rparr>" by (cases a)
  obtain r' out' where b': "b = a\<lparr>fl_request := r', fl_outcome := out'\<rparr>"
    and r': "r' = r\<lparr>req_headers := req_headers r', req_trailers := req_trailers r', req_query := req_query r'\<rparr>"
    using b a' by simp
  show ?thesis
    using eqs unfolding redact_flow_eq b' a' by (cases r; cases r') (use r' in simp)
qed

definition sample_config :: redaction_config where
  "sample_config = default_secure\<lparr>rc_query_keys := [''token'']\<rparr>"

theorem redaction_hides_secrets_witness:
  "redact_flow sample_flow sample_config ''p''
   = redact_flow (sample_flow\<lparr>fl_request := sample_request
       \<lparr>req_query := [\<lparr>q_key = ''token'', q_value = ''y''\<rparr>],
        req_headers := [\<lparr>h_name = ''Authorization'', h_value = ''Bearer 2''\<rparr>,
                        \<lparr>h_name = ''X-Id'', h_value = ''7''\<rparr>]\<rparr>\<rparr>) sample_config ''p''"
  by (rule redaction_hides_secrets) code_simp

text \<open>
  After redaction every request header with a sensitive name and every query pair
  with a sensitive key carries the placeholder, and a marker of the flow names the field, so that
  matching can treat it as a wildcard.
\<close>

theorem redaction_marks_every_field:
  "let r = redact_flow fl config profile
   in (\<forall>h\<in>set (req_headers (fl_request r)). to_lower (h_name h) \<in> set (rc_headers config) \<longrightarrow>
         h_value h = REDACTED
         \<and> \<lparr>m_field = ''request.headers.'' @ h_name h, m_profile = profile\<rparr> \<in> set (fl_redactions r))
    \<and> (\<forall>p\<in>set (req_query (fl_request r)). q_key p \<in> set (rc_query_keys config) \<longrightarrow>
         q_value p = REDACTED
         \<and> \<lparr>m_field = ''request.query.'' @ q_key p, m_profile = profile\<rparr> \<in> set (fl_redactions r))"
  unfolding redact_flow_eq Let_def
  by (auto simp: header_markers_def query_markers_def mask_header_def mask_pair_def)

theorem redaction_marks_every_field_witness:
  "h_value (req_headers (fl_request (redact_flow sample_flow sample_config ''p'')) ! 0) = REDACTED"
proof -
  have "req_headers (fl_request (redact_flow sample_flow sample_config ''p'')) ! 0
      \<in> set (req_headers (fl_request (redact_flow sample_flow sample_config ''p'')))"
    and "to_lower (h_name (req_headers (fl_request (redact_flow sample_flow sample_config ''p'')) ! 0))
      \<in> set (rc_headers sample_config)"
    by code_simp+
  then show ?thesis
    using redaction_marks_every_field [where fl = sample_flow and config = sample_config and profile = "''p''"]
    unfolding Let_def by blast
qed

text \<open>
  A redacted recording still answers the request it was made from. Whatever headers
  and query keys the configuration hides, replaying the original request with the original body
  against the published flow selects it.
\<close>

theorem redacted_flow_still_matches:
  assumes "fl_redactions fl = []" and "mt_body_mode m = ExactBytes"
    and "case req_body (fl_request fl) of
           BodyBlob blob \<Rightarrow> blob_sha256 blob = x_sha256 X body \<and> blob_length blob = of_nat (length body)
         | _ \<Rightarrow> body = []"
  shows "select X m (fl_request fl) body [match_candidate_from_flow (redact_flow fl config profile)]
           mode matcher_session_new
         = (Matched 0, consume mode matcher_session_new 0)"
proof -
  have body: "recorded_body X (fl_request fl) body"
    using assms(3) by (simp add: recorded_body_def)
  have "body_matches_lazy X m body (x_sha256 X body) (of_nat (length body)) True 0
      (match_candidate_from_flow (redact_flow fl config profile)) (\<lambda>s _ _. (None, s)) () = (True, ())"
    by (rule redacted_body_matches [OF assms(1,2) body])
  moreover have "is_available mode matcher_session_new 0"
    by (cases mode) (auto simp: is_available_def matcher_session_new_def)
  ultimately show ?thesis
    by (simp add: select_def select_with_loader_def redacted_dimensions)
qed

theorem redacted_flow_still_matches_witness:
  "select demo_lib (matcher_strict 4) (fl_request sample_flow) []
     [match_candidate_from_flow (redact_flow sample_flow sample_config ''p'')] Consume_Once matcher_session_new
   = (Matched 0, consume Consume_Once matcher_session_new 0)"
  by (rule redacted_flow_still_matches) code_simp+

text \<open>
  After a body was rewritten its headers describe the new body. The result has one
  content-length, the last header, with the new length; no digest, signature or strong entity tag
  of the old body is left; every other header is kept in order, weak entity tags included.
\<close>

theorem reconciled_headers:
  "fst (reconcile_headers_after_body_redaction headers new_len profile) =
     filter (\<lambda>h. let name = to_lower (h_name h)
                  in if name = ''content-length'' then False
                     else if name \<in> set digest_headers then False
                     else if name = ''etag'' then starts_with ''W/'' (trim_start (h_value h))
                     else True) headers
     @ [\<lparr>h_name = ''content-length'', h_value = to_dec (unat new_len)\<rparr>]"
  unfolding reconcile_headers_after_body_redaction_def
  by (auto simp: reconcile_header_def Let_def intro!: filter_cong)

text \<open>
  Redacting a JSON body fails closed on a document that does not parse; it reports that
  nothing matched exactly when none of the pointers resolves in the document, and then the document
  is printed unchanged.
\<close>

theorem json_redaction_reports:
  "apply_json_redaction X body paths =
     (case x_json_parse X body of
        None \<Rightarrow> Inl MalformedJson
      | Some v \<Rightarrow>
          if \<forall>p\<in>set paths. x_json_pointer_mut X v p (\<lambda>_. JString REDACTED) = None
          then (case x_json_print X v of None \<Rightarrow> Inl ReencodeFailed | Some b \<Rightarrow> Inr (b, False))
          else (case x_json_print X (fst (foldl (redact_path X) (v, False) paths)) of
                  None \<Rightarrow> Inl ReencodeFailed | Some b \<Rightarrow> Inr (b, True)))"
proof (cases "x_json_parse X body")
  case (Some v)
  obtain w b where wb: "foldl (redact_path X) (v, False) paths = (w, b)" by fastforce
  show ?thesis
    using redact_paths_unmatched [of X v False paths w] redact_paths_unmatched [of X v False paths v] wb Some
    by (cases b) (auto simp: apply_json_redaction_def)
qed (simp add: apply_json_redaction_def)

theorem json_redaction_reports_witness:
  "apply_json_redaction demo_lib ''[id]'' [''/missing''] = Inr (''null'', False)"
  unfolding json_redaction_reports by code_simp

end
