(* ===== verification/Streams.thy ===== *)
theory Streams
  imports Flow_Model
begin

text \<open>
  Stream timelines and Server-Sent Events, \<^verbatim>\<open>crates/eggreplay-core/src/stream.rs\<close>: the validator of
  recorded body events with its per-direction cursor, the order and the delays of a timed replay,
  and the bounded SSE parser with its comparison. Floating-point scaling is a parameter: the code
  parses a factor and scales a delay with it, and nothing here depends on how it rounds.
\<close>

definition STREAM_EVENTS_SCHEMA_VERSION :: u16 where "STREAM_EVENTS_SCHEMA_VERSION = 1"
definition MAX_STREAM_EVENTS_PER_FLOW :: usize where "MAX_STREAM_EVENTS_PER_FLOW = 4096"
definition MAX_STREAM_EVENTS_PER_SESSION :: usize where "MAX_STREAM_EVENTS_PER_SESSION = 1000000"
definition MAX_STREAM_EVENTS_BYTES :: usize where "MAX_STREAM_EVENTS_BYTES = 16 * 1024 * 1024"
definition MAX_STREAM_DELAY_NS :: u64 where "MAX_STREAM_DELAY_NS = 60000000000"
definition MAX_STREAM_TOTAL_DELAY_NS :: u64 where "MAX_STREAM_TOTAL_DELAY_NS = 300000000000"
definition MAX_SSE_LINE_BYTES :: usize where "MAX_SSE_LINE_BYTES = 64 * 1024"
definition MAX_SSE_EVENTS :: usize where "MAX_SSE_EVENTS = 100000"
definition MAX_SSE_BODY_BYTES :: usize where "MAX_SSE_BODY_BYTES = 16 * 1024 * 1024"

section \<open>Timelines\<close>

datatype stream_event_kind =
    SData u64 u64
  | STrailers "header_entry list"
  | SEnd
  | SError u64 string string

record stream_event =
  se_delta_ns :: u64
  se_event :: stream_event_kind

record flow_stream_events =
  fse_flow_id :: string
  fse_start_offset_ns :: u64
  fse_request :: "stream_event list"
  fse_response :: "stream_event list"

record stream_events =
  ses_schema_version :: u16
  ses_flows :: "flow_stream_events list"

definition stream_events_default :: stream_events where
  "stream_events_default = \<lparr>ses_schema_version = STREAM_EVENTS_SCHEMA_VERSION, ses_flows = []\<rparr>"

datatype stream_error =
    UnsupportedStreamSchema u16 | StreamFlowCountLimit | StreamFlowIdInvalid | StreamFlowEventLimit
  | StreamAggregateLimit | StreamOrderOrDelay | StreamDataNotContiguous | StreamTerminalErrorInvalid
  | StreamTrailersLimit | TimelineConcurrency | TimelineOffsetLimit | TimingModeUnknown
  | TimingScaleInvalid | TimingScaleRange | StreamDelayLimit | StreamTotalDelayLimit

definition timeline_order_offsets :: "u64 list \<Rightarrow> usize \<Rightarrow> stream_error + usize list" where
  "timeline_order_offsets offsets_ns max_concurrency =
     (if max_concurrency = 0 \<or> max_concurrency > 1024 then Inl TimelineConcurrency
      else if \<exists>offset\<in>set offsets_ns. offset > MAX_STREAM_TOTAL_DELAY_NS then Inl TimelineOffsetLimit
      else Inr (sort_key (\<lambda>index. (offsets_ns ! index, index)) [0..<length offsets_ns]))"

text \<open>The local variables of the loop over one direction of one flow.\<close>

record stream_cursor =
  last_delta :: u64
  last_offset :: u64
  terminal :: bool
  trailers_seen :: bool

definition stream_cursor_start :: stream_cursor where
  "stream_cursor_start = \<lparr>last_delta = 0, last_offset = 0, terminal = False, trailers_seen = False\<rparr>"

definition validate_stream_event :: "stream_cursor \<Rightarrow> stream_event \<Rightarrow> stream_error + stream_cursor" where
  "validate_stream_event cursor event =
     (if terminal cursor \<or> se_delta_ns event < last_delta cursor \<or> se_delta_ns event > MAX_STREAM_DELAY_NS
      then Inl StreamOrderOrDelay
      else let cursor = cursor\<lparr>last_delta := se_delta_ns event\<rparr>
           in case se_event event of
                SData offset len \<Rightarrow>
                  (if trailers_seen cursor \<or> offset \<noteq> last_offset cursor \<or> len = 0
                   then Inl StreamDataNotContiguous
                   else Inr (cursor\<lparr>last_offset := sat_add offset len\<rparr>))
              | SError offset category phase \<Rightarrow>
                  (if offset \<noteq> last_offset cursor \<or> length category > 64 \<or> length phase > 64
                   then Inl StreamTerminalErrorInvalid
                   else Inr (cursor\<lparr>terminal := True\<rparr>))
              | STrailers trailer_fields \<Rightarrow>
                  (if trailers_seen cursor \<or> length trailer_fields > 256
                      \<or> (\<exists>field\<in>set trailer_fields. length (h_name field) > 256 \<or> length (h_value field) > 8192)
                   then Inl StreamTrailersLimit
                   else Inr (cursor\<lparr>trailers_seen := True\<rparr>))
              | SEnd \<Rightarrow> Inr (cursor\<lparr>terminal := True\<rparr>))"

text \<open>One iteration of the outer loop: its state is the running total and the identifiers seen.\<close>

definition validate_flow_events ::
  "usize \<times> string list \<Rightarrow> flow_stream_events \<Rightarrow> stream_error + usize \<times> string list" where
  "validate_flow_events st fl =
     (let (total, ids) = st;
          count = usize_sat_add (length (fse_request fl)) (length (fse_response fl));
          total' = usize_sat_add total count
      in if fse_flow_id fl = [] \<or> length (fse_flow_id fl) > 256 \<or> fse_flow_id fl \<in> set ids
         then Inl StreamFlowIdInvalid
         else if count > MAX_STREAM_EVENTS_PER_FLOW then Inl StreamFlowEventLimit
         else if total' > MAX_STREAM_EVENTS_PER_SESSION then Inl StreamAggregateLimit
         else rbind (try_fold validate_stream_event stream_cursor_start (fse_request fl)) (\<lambda>_.
              rbind (try_fold validate_stream_event stream_cursor_start (fse_response fl)) (\<lambda>_.
              Inr (total', fse_flow_id fl # ids))))"

definition validate_stream_events :: "stream_events \<Rightarrow> stream_error + unit" where
  "validate_stream_events self =
     (if ses_schema_version self \<noteq> STREAM_EVENTS_SCHEMA_VERSION
      then Inl (UnsupportedStreamSchema (ses_schema_version self))
      else if length (ses_flows self) > MAX_STREAM_EVENTS_PER_SESSION then Inl StreamFlowCountLimit
      else rbind (try_fold validate_flow_events (0, []) (ses_flows self)) (\<lambda>_. Inr ()))"

section \<open>Timed replay\<close>

record 'f float_ops =
  f64_parse :: "string \<Rightarrow> 'f option"
  f64_finite_in_range :: "'f \<Rightarrow> bool"
  f64_scale_ceil :: "u64 \<Rightarrow> 'f \<Rightarrow> u64"

datatype 'f stream_timing_mode = Immediate | Recorded | Scaled 'f

definition timing_parse :: "'f float_ops \<Rightarrow> string \<Rightarrow> stream_error + 'f stream_timing_mode" where
  "timing_parse ops val =
     (if val = ''immediate'' then Inr Immediate
      else if val = ''recorded'' then Inr Recorded
      else rbind (ok_or TimingModeUnknown (strip_prefix ''scaled:'' val)) (\<lambda>text.
           rbind (ok_or TimingScaleInvalid (f64_parse ops text)) (\<lambda>factor.
           if \<not> f64_finite_in_range ops factor then Inl TimingScaleRange else Inr (Scaled factor))))"

definition delay_ns :: "'f float_ops \<Rightarrow> 'f stream_timing_mode \<Rightarrow> u64 \<Rightarrow> u64 \<Rightarrow> stream_error + u64" where
  "delay_ns ops self delta_ns accumulated_ns =
     (if delta_ns > MAX_STREAM_DELAY_NS then Inl StreamDelayLimit
      else let scaled = (case self of
                           Immediate \<Rightarrow> 0
                         | Recorded \<Rightarrow> delta_ns
                         | Scaled factor \<Rightarrow> f64_scale_ceil ops delta_ns factor)
           in if sat_add accumulated_ns scaled > MAX_STREAM_TOTAL_DELAY_NS
              then Inl StreamTotalDelayLimit else Inr scaled)"

section \<open>Server-Sent Events\<close>

record sse_event =
  sse_data :: string
  sse_type :: "string option"
  sse_id :: "string option"
  sse_retry :: "u64 option"
  sse_comments :: "string list"

datatype sse_error = SseBodyLimit | SseNotUtf8 | SseLineLimit | SseEventLimit | SseInvalidField

record sse_parse_result =
  spr_events :: "sse_event list"
  spr_error :: "sse_error option"

text \<open>The result under construction and the fields of the event being read.\<close>

record sse_state =
  st_events :: "sse_event list"
  st_error :: "sse_error option"
  st_data :: "string list"
  st_type :: "string option"
  st_id :: "string option"
  st_retry :: "u64 option"
  st_comments :: "string list"

definition sse_start :: sse_state where
  "sse_start = \<lparr>st_events = [], st_error = None, st_data = [], st_type = None, st_id = None,
                st_retry = None, st_comments = []\<rparr>"

definition sse_pending :: "sse_state \<Rightarrow> bool" where
  "sse_pending st \<longleftrightarrow> st_data st \<noteq> [] \<or> st_type st \<noteq> None \<or> st_id st \<noteq> None \<or> st_retry st \<noteq> None
     \<or> st_comments st \<noteq> []"

text \<open>Dispatch: the last piece of the data is the separator pushed after its last line.\<close>

definition sse_dispatch :: "sse_state \<Rightarrow> sse_state" where
  "sse_dispatch st =
     st\<lparr>st_events := st_events st @
          [\<lparr>sse_data = concat (butlast (st_data st)), sse_type = st_type st, sse_id = st_id st,
            sse_retry = st_retry st, sse_comments = st_comments st\<rparr>],
        st_data := [], st_type := None, st_id := None, st_retry := None, st_comments := []\<rparr>"

definition sse_field :: "string \<Rightarrow> string \<Rightarrow> sse_state \<Rightarrow> sse_state" where
  "sse_field field val st =
     (if field = ''data'' then st\<lparr>st_data := st_data st @ [val, [CHR 0x0A]]\<rparr>
      else if field = ''event'' then st\<lparr>st_type := Some val\<rparr>
      else if field = ''id'' then
        (if CHR 0x00 \<in> set val then st\<lparr>st_error := Some SseInvalidField\<rparr> else st\<lparr>st_id := Some val\<rparr>)
      else if field = ''retry'' then
        (if val \<noteq> [] \<and> (\<forall>c\<in>set val. is_ascii_digit c)
         then (case parse_uint (2 ^ 64) val of
                 Some n \<Rightarrow> st\<lparr>st_retry := Some (of_nat n)\<rparr>
               | None \<Rightarrow> st\<lparr>st_error := Some SseInvalidField\<rparr>)
         else st\<lparr>st_error := Some SseInvalidField\<rparr>)
      else st)"

text \<open>One line of the loop; the flag tells whether the loop goes on.\<close>

definition sse_line :: "bool \<Rightarrow> string \<Rightarrow> sse_state \<Rightarrow> sse_state \<times> bool" where
  "sse_line include_comments raw st =
     (let line = unwrap_or (strip_suffix [CHR 0x0D] raw) raw
      in if length line > MAX_SSE_LINE_BYTES then (st\<lparr>st_error := Some SseLineLimit\<rparr>, False)
         else if line = [] then
           (if sse_pending st then
              (if length (st_events st) \<ge> MAX_SSE_EVENTS then (st\<lparr>st_error := Some SseEventLimit\<rparr>, False)
               else (sse_dispatch st, True))
            else (st, True))
         else case strip_prefix '':'' line of
             Some comment \<Rightarrow>
               (if include_comments
                then st\<lparr>st_comments := st_comments st @ [unwrap_or (strip_prefix '' '' comment) comment]\<rparr>
                else st, True)
           | None \<Rightarrow>
               (let (field, val) = unwrap_or (split_once CHR '':'' line) (line, []);
                    val = unwrap_or (strip_prefix '' '' val) val
                in (sse_field field val st, True)))"

fun sse_loop :: "bool \<Rightarrow> string list \<Rightarrow> sse_state \<Rightarrow> sse_state" where
  "sse_loop include_comments [] st = st"
| "sse_loop include_comments (raw # lines) st =
     (case sse_line include_comments raw st of
        (st', go_on) \<Rightarrow> if go_on then sse_loop include_comments lines st' else st')"

definition sse_finish :: "sse_state \<Rightarrow> sse_parse_result" where
  "sse_finish st =
     (let st' = (if st_error st = None \<and> sse_pending st then
                   (if length (st_events st) \<ge> MAX_SSE_EVENTS then st\<lparr>st_error := Some SseEventLimit\<rparr>
                    else sse_dispatch st)
                 else st)
      in \<lparr>spr_events = st_events st', spr_error = st_error st'\<rparr>)"

definition parse_sse :: "bytes \<Rightarrow> bool \<Rightarrow> sse_parse_result" where
  "parse_sse body include_comments =
     (if length body > MAX_SSE_BODY_BYTES then \<lparr>spr_events = [], spr_error = Some SseBodyLimit\<rparr>
      else if \<not> utf8_valid body then \<lparr>spr_events = [], spr_error = Some SseNotUtf8\<rparr>
      else sse_finish (sse_loop include_comments (split_on CHR 0x0A body) sse_start))"

definition compare_sse :: "sse_event list \<Rightarrow> sse_event list \<Rightarrow> string list \<Rightarrow> bool" where
  "compare_sse expected actual ignored \<longleftrightarrow>
     length expected = length actual
     \<and> (\<forall>(l, r)\<in>set (zip expected actual).
          (''data'' \<in> set ignored \<or> sse_data l = sse_data r)
          \<and> (''event'' \<in> set ignored \<or> sse_type l = sse_type r)
          \<and> (''id'' \<in> set ignored \<or> sse_id l = sse_id r)
          \<and> (''retry'' \<in> set ignored \<or> sse_retry l = sse_retry r)
          \<and> (''comments'' \<in> set ignored \<or> sse_comments l = sse_comments r))"

section \<open>Accepted timelines\<close>

text \<open>
  What the validator means, without its cursor: an event is judged against the events before it.
  The bytes delivered so far are the lengths of the data events added up (saturating), the events
  are in time order, a terminal event is the last one, and no data follows the trailers.
\<close>

definition is_terminal :: "stream_event \<Rightarrow> bool" where
  "is_terminal e = (case se_event e of SEnd \<Rightarrow> True | SError _ _ _ \<Rightarrow> True | _ \<Rightarrow> False)"

definition is_trailers :: "stream_event \<Rightarrow> bool" where
  "is_trailers e = (case se_event e of STrailers _ \<Rightarrow> True | _ \<Rightarrow> False)"

definition data_length :: "stream_event \<Rightarrow> u64" where
  "data_length e = (case se_event e of SData _ n \<Rightarrow> n | _ \<Rightarrow> 0)"

definition delivered :: "stream_event list \<Rightarrow> u64" where
  "delivered es = foldl (\<lambda>n e. sat_add n (data_length e)) 0 es"

definition event_ok :: "stream_event list \<Rightarrow> stream_event \<Rightarrow> bool" where
  "event_ok before e = (case se_event e of
       SData offset len \<Rightarrow> offset = delivered before \<and> len \<noteq> 0 \<and> (\<forall>b\<in>set before. \<not> is_trailers b)
     | SError offset category phase \<Rightarrow>
         offset = delivered before \<and> length category \<le> 64 \<and> length phase \<le> 64
     | STrailers fs \<Rightarrow>
         (\<forall>b\<in>set before. \<not> is_trailers b) \<and> length fs \<le> 256
         \<and> (\<forall>f\<in>set fs. length (h_name f) \<le> 256 \<and> length (h_value f) \<le> 8192)
     | SEnd \<Rightarrow> True)"

definition timeline_ok :: "stream_event list \<Rightarrow> bool" where
  "timeline_ok es \<longleftrightarrow>
     sorted (map se_delta_ns es)
     \<and> (\<forall>e\<in>set es. se_delta_ns e \<le> MAX_STREAM_DELAY_NS)
     \<and> (\<forall>e\<in>set (butlast es). \<not> is_terminal e)
     \<and> (\<forall>i<length es. event_ok (take i es) (es ! i))"

definition cursor_of :: "stream_event list \<Rightarrow> stream_cursor" where
  "cursor_of es =
     \<lparr>last_delta = (if es = [] then 0 else se_delta_ns (last es)),
      last_offset = delivered es,
      terminal = (\<exists>e\<in>set es. is_terminal e),
      trailers_seen = (\<exists>e\<in>set es. is_trailers e)\<rparr>"

lemma delivered_snoc [simp]: "delivered (es @ [e]) = sat_add (delivered es) (data_length e)"
  by (simp add: delivered_def)

lemma sat_add_0 [simp]: "sat_add a 0 = (a :: 'w::len word)"
  by (simp add: word_unat_eq_iff unat_sat_add min_absorb1) 
    (metis Suc_pred less_Suc_eq_le min_absorb1 unsigned_less zero_less_numeral zero_less_power)

lemma sorted_snoc_last:
  "sorted (map f (xs @ [x])) \<longleftrightarrow> sorted (map f xs) \<and> (xs \<noteq> [] \<longrightarrow> f (last xs) \<le> (f x :: 'b::linorder))"
proof (cases xs rule: rev_cases)
  case (snoc ys y)
  then show ?thesis by (force simp: sorted_append)
qed simp

lemma timeline_ok_snoc:
  "timeline_ok (es @ [e]) \<longleftrightarrow>
     timeline_ok es \<and> \<not> terminal (cursor_of es) \<and> last_delta (cursor_of es) \<le> se_delta_ns e
     \<and> se_delta_ns e \<le> MAX_STREAM_DELAY_NS \<and> event_ok es e"
proof -
  have "(\<forall>i<length (es @ [e]). event_ok (take i (es @ [e])) ((es @ [e]) ! i)) \<longleftrightarrow>
      (\<forall>i<length es. event_ok (take i es) (es ! i)) \<and> event_ok es e"
    by (auto simp: less_Suc_eq nth_append)
  moreover have "(\<forall>b\<in>set (butlast (es @ [e])). \<not> is_terminal b) \<longleftrightarrow>
      (\<forall>b\<in>set (butlast es). \<not> is_terminal b) \<and> \<not> terminal (cursor_of es)"
    by (auto simp: cursor_of_def dest: in_set_butlastD)
  ultimately show ?thesis
    unfolding timeline_ok_def sorted_snoc_last by (auto simp: cursor_of_def)
qed

lemma cursor_of_sel:
  "last_offset (cursor_of es) = delivered es"
  "trailers_seen (cursor_of es) = (\<exists>e\<in>set es. is_trailers e)"
  by (simp_all add: cursor_of_def)

lemma cursor_of_snoc:
  "cursor_of (es @ [e]) =
     \<lparr>last_delta = se_delta_ns e, last_offset = sat_add (delivered es) (data_length e),
      terminal = terminal (cursor_of es) \<or> is_terminal e,
      trailers_seen = trailers_seen (cursor_of es) \<or> is_trailers e\<rparr>"
  by (auto simp: cursor_of_def)

lemmas timeline_defs = event_ok_def is_terminal_def is_trailers_def data_length_def

lemma validate_snoc:
  "validate_stream_event (cursor_of es) e = Inr t \<longleftrightarrow>
     (\<not> terminal (cursor_of es) \<and> last_delta (cursor_of es) \<le> se_delta_ns e
      \<and> se_delta_ns e \<le> MAX_STREAM_DELAY_NS \<and> event_ok es e) \<and> t = cursor_of (es @ [e])"
proof -
  define c where "c = cursor_of es"
  have c: "delivered es = last_offset c" "(\<forall>b\<in>set es. \<not> is_trailers b) = (\<not> trailers_seen c)"
    by (auto simp: c_def cursor_of_sel)
  show ?thesis
    unfolding cursor_of_snoc c_def [symmetric] event_ok_def c validate_stream_event_def
    by (cases "se_event e"; cases c; auto simp: timeline_defs not_less split: if_splits; fastforce)
qed

interpretation timeline: cursor_loop validate_stream_event cursor_of timeline_ok
  by unfold_locales (simp_all add: timeline_ok_snoc validate_snoc, simp add: timeline_ok_def)

lemma cursor_of_Nil: "cursor_of [] = stream_cursor_start"
  by (simp add: cursor_of_def stream_cursor_start_def delivered_def)

lemmas direction_iff = timeline.accepts_iff [unfolded cursor_of_Nil]

definition flow_events_ok :: "flow_stream_events \<Rightarrow> bool" where
  "flow_events_ok fl \<longleftrightarrow>
     fse_flow_id fl \<noteq> [] \<and> length (fse_flow_id fl) \<le> 256
     \<and> length (fse_request fl) + length (fse_response fl) \<le> MAX_STREAM_EVENTS_PER_FLOW
     \<and> timeline_ok (fse_request fl) \<and> timeline_ok (fse_response fl)"

definition events_total :: "flow_stream_events list \<Rightarrow> nat" where
  "events_total fls = sum_list (map (\<lambda>fl. length (fse_request fl) + length (fse_response fl)) fls)"

definition flows_ok :: "flow_stream_events list \<Rightarrow> bool" where
  "flows_ok fls \<longleftrightarrow> distinct (map fse_flow_id fls) \<and> (\<forall>fl\<in>set fls. flow_events_ok fl)
     \<and> events_total fls \<le> MAX_STREAM_EVENTS_PER_SESSION"

lemma validate_flow_snoc:
  assumes "flows_ok fls"
  shows "validate_flow_events (events_total fls, rev (map fse_flow_id fls)) fl = Inr t \<longleftrightarrow>
     flows_ok (fls @ [fl]) \<and> t = (events_total (fls @ [fl]), rev (map fse_flow_id (fls @ [fl])))"
proof -
  let ?n = "length (fse_request fl) + length (fse_response fl)"
  let ?total = "usize_sat_add (events_total fls) (usize_sat_add (length (fse_request fl)) (length (fse_response fl)))"
  have small: "events_total fls \<le> 1000000" using assms by (simp add: flows_ok_def MAX_STREAM_EVENTS_PER_SESSION_def)
  have count: "4096 < usize_sat_add (length (fse_request fl)) (length (fse_response fl)) \<longleftrightarrow> 4096 < ?n"
    by (rule usize_sat_add_less) simp
  have total: "?total = events_total fls + ?n" if "?n \<le> 4096"
    using small that by (simp add: usize_sat_add_id)
  show ?thesis
  proof (cases "?n \<le> 4096")
    case True
    then show ?thesis
      using assms total [OF True] count
      by (auto simp: validate_flow_events_def Let_def flows_ok_def flow_events_ok_def res_simps
          direction_iff MAX_STREAM_EVENTS_PER_FLOW_def MAX_STREAM_EVENTS_PER_SESSION_def events_total_def)
  next
    case False
    then show ?thesis
      using assms count
      by (auto simp: validate_flow_events_def Let_def flows_ok_def flow_events_ok_def res_simps
          MAX_STREAM_EVENTS_PER_FLOW_def)
  qed
qed

interpretation flow_timelines: cursor_loop validate_flow_events
    "\<lambda>fls. (events_total fls, rev (map fse_flow_id fls))" flows_ok
  by unfold_locales (simp_all add: validate_flow_snoc, auto simp: flows_ok_def events_total_def)

lemmas flows_iff = flow_timelines.accepts_iff [unfolded events_total_def [of "[]"], simplified]

lemma validate_stream_events_Inr_iff:
  "validate_stream_events doc = Inr () \<longleftrightarrow>
     ses_schema_version doc = STREAM_EVENTS_SCHEMA_VERSION
     \<and> length (ses_flows doc) \<le> MAX_STREAM_EVENTS_PER_SESSION \<and> flows_ok (ses_flows doc)"
  by (auto simp: validate_stream_events_def res_simps flows_iff)

text \<open>
  Property C33: A stream-events document is accepted exactly when it has the known schema, distinct
  usable flow identifiers, at most 4096 events a flow and a million in all, and each direction of
  each flow is a legal timeline: time-ordered, its data contiguous from offset zero and nonempty,
  no data after the trailers and nothing after the end or the error.
\<close>

theorem stream_events_accepted_iff:
  "is_ok (validate_stream_events doc) \<longleftrightarrow>
     ses_schema_version doc = STREAM_EVENTS_SCHEMA_VERSION
     \<and> length (ses_flows doc) \<le> MAX_STREAM_EVENTS_PER_SESSION \<and> flows_ok (ses_flows doc)"
  by (auto simp: is_ok_iff validate_stream_events_Inr_iff)

text \<open>The offsets of an accepted direction, counted without wrap-around.\<close>

lemma unat_delivered:
  "unat (delivered es) = min (sum_list (map (\<lambda>e. unat (data_length e)) es)) (2 ^ 64 - 1)"
  by (induction es rule: rev_induct) (auto simp: delivered_def unat_sat_add)

lemma accepted_direction:
  assumes "validate_stream_events doc = Inr ()" and "fl \<in> set (ses_flows doc)"
    and "es = fse_request fl \<or> es = fse_response fl"
  shows "timeline_ok es"
  using assms by (auto simp: validate_stream_events_Inr_iff flows_ok_def flow_events_ok_def)

definition sample_event_doc :: stream_events where
  "sample_event_doc = \<lparr>ses_schema_version = 1, ses_flows =
     [\<lparr>fse_flow_id = ''f1'', fse_start_offset_ns = 0, fse_request = [],
       fse_response = [\<lparr>se_delta_ns = 5, se_event = SData 0 3\<rparr>, \<lparr>se_delta_ns = 9, se_event = SData 3 4\<rparr>,
                       \<lparr>se_delta_ns = 9, se_event = SEnd\<rparr>]\<rparr>]\<rparr>"

text \<open>
  In an accepted direction the events are the story of one body: the clock never runs
  backwards, every data event starts at the number of bytes delivered before it (the saturated sum
  of the earlier lengths, so the frames tile the body without gap or overlap), an error is
  reported at exactly that offset, and whatever has something after it is not terminal.
\<close>

theorem accepted_frames_tile_the_body:
  assumes "validate_stream_events doc = Inr ()" and "fl \<in> set (ses_flows doc)"
    and "es = fse_request fl \<or> es = fse_response fl" and "i < length es"
  shows "(\<forall>j<i. se_delta_ns (es ! j) \<le> se_delta_ns (es ! i) \<and> \<not> is_terminal (es ! j))
    \<and> (case se_event (es ! i) of
          SData offset len \<Rightarrow>
            unat offset = min (\<Sum>e\<leftarrow>take i es. unat (data_length e)) (2 ^ 64 - 1) \<and> 0 < unat len
        | SError offset _ _ \<Rightarrow> unat offset = min (\<Sum>e\<leftarrow>take i es. unat (data_length e)) (2 ^ 64 - 1)
        | _ \<Rightarrow> True)"
proof -
  have ok: "timeline_ok es" by (rule accepted_direction [OF assms(1-3)])
  then have "event_ok (take i es) (es ! i)" using assms(4) by (simp add: timeline_ok_def)
  moreover have "se_delta_ns (es ! j) \<le> se_delta_ns (es ! i)" if "j < i" for j
    using ok assms(4) that sorted_nth_mono [of "map se_delta_ns es" j i] by (simp add: timeline_ok_def)
  moreover have "\<not> is_terminal (es ! j)" if "j < i" for j
  proof -
    have "es ! j \<in> set (butlast es)"
      using that assms(4) by (auto simp: in_set_conv_nth nth_butlast intro!: exI [of _ j])
    then show ?thesis using ok by (simp add: timeline_ok_def)
  qed
  ultimately show ?thesis
    by (auto simp: event_ok_def unat_delivered unat_gt_0 simp flip: word_neq_0_conv
        split: stream_event_kind.splits)
qed

lemma accepted_frames_tile_the_body_witness:
  "unat (3::u64) = min (\<Sum>e\<leftarrow>[\<lparr>se_delta_ns = 5, se_event = SData 0 3\<rparr>]. unat (data_length e)) (2 ^ 64 - 1)"
  using accepted_frames_tile_the_body [of sample_event_doc "ses_flows sample_event_doc ! 0"
      "fse_response (ses_flows sample_event_doc ! 0)" 1]
  by (simp add: sample_event_doc_def validate_stream_events_def STREAM_EVENTS_SCHEMA_VERSION_def
      MAX_STREAM_EVENTS_PER_SESSION_def MAX_STREAM_EVENTS_PER_FLOW_def validate_flow_events_def usize_sat_add_def
      validate_stream_event_def stream_cursor_start_def MAX_STREAM_DELAY_NS_def sat_add_def)

section \<open>Delays and order\<close>

text \<open>
  The response of a timed replay, \<^verbatim>\<open>crates/eggreplay-http/src/replay.rs\<close>: each event becomes a
  step to sleep and then emit, or sets the delay before the trailers or the end.
\<close>

datatype timed_stream_step = TData u64 u64 | TError u64 string

record schedule_state =
  sch_steps :: "timed_stream_step list"
  previous_delta :: u64
  accumulated_delay :: u64
  trailer_delay :: u64
  terminal_delay :: u64
  terminal_error :: bool

definition schedule_start :: schedule_state where
  "schedule_start = \<lparr>sch_steps = [], previous_delta = 0, accumulated_delay = 0, trailer_delay = 0,
                     terminal_delay = 0, terminal_error = False\<rparr>"

definition schedule_event ::
  "'f float_ops \<Rightarrow> 'f stream_timing_mode \<Rightarrow> schedule_state \<Rightarrow> stream_event \<Rightarrow> stream_error + schedule_state" where
  "schedule_event ops timing_mode st event =
     rbind (delay_ns ops timing_mode (sat_sub (se_delta_ns event) (previous_delta st)) (accumulated_delay st))
       (\<lambda>delay.
          let st = st\<lparr>previous_delta := se_delta_ns event,
                      accumulated_delay := sat_add (accumulated_delay st) delay\<rparr>
          in Inr (case se_event event of
                    SData offset len \<Rightarrow> st\<lparr>sch_steps := sch_steps st @ [TData delay len]\<rparr>
                  | STrailers trailer_fields \<Rightarrow> st\<lparr>trailer_delay := delay\<rparr>
                  | SError offset category phase \<Rightarrow>
                      st\<lparr>terminal_error := True,
                         sch_steps := sch_steps st @
                           [TError delay (''recorded stream error: '' @ category @ ''/'' @ phase)]\<rparr>
                  | SEnd \<Rightarrow> st\<lparr>terminal_delay := delay\<rparr>))"

definition timed_schedule ::
  "'f float_ops \<Rightarrow> 'f stream_timing_mode \<Rightarrow> stream_event list \<Rightarrow> stream_error + schedule_state" where
  "timed_schedule ops timing_mode events = try_fold (schedule_event ops timing_mode) schedule_start events"

lemma delay_ns_Inr_iff:
  "delay_ns ops mode d acc = Inr s \<longleftrightarrow>
     d \<le> MAX_STREAM_DELAY_NS \<and> unat acc + unat s \<le> unat MAX_STREAM_TOTAL_DELAY_NS
     \<and> s = (case mode of Immediate \<Rightarrow> 0 | Recorded \<Rightarrow> d | Scaled f \<Rightarrow> f64_scale_ceil ops d f)"
proof -
  have le: "sat_add acc s > MAX_STREAM_TOTAL_DELAY_NS \<longleftrightarrow> \<not> unat acc + unat s \<le> unat MAX_STREAM_TOTAL_DELAY_NS" for s
    by (auto simp: word_less_nat_alt unat_sat_add MAX_STREAM_TOTAL_DELAY_NS_def)
  show ?thesis unfolding delay_ns_def Let_def le by (auto simp: not_less)
qed

lemma unat_sat_add_small:
  fixes a b :: u64
  shows "unat a + unat b \<le> unat MAX_STREAM_TOTAL_DELAY_NS \<Longrightarrow> unat (sat_add a b) = unat a + unat b"
  by (simp add: unat_sat_add MAX_STREAM_TOTAL_DELAY_NS_def)

definition step_delay :: "timed_stream_step \<Rightarrow> u64" where
  "step_delay st = (case st of TData d _ \<Rightarrow> d | TError d _ \<Rightarrow> d)"

definition total_sleep :: "schedule_state \<Rightarrow> nat" where
  "total_sleep st = (\<Sum>x\<leftarrow>sch_steps st. unat (step_delay x)) + unat (trailer_delay st) + unat (terminal_delay st)"

definition step_data :: "timed_stream_step \<Rightarrow> u64 list" where
  "step_data st = (case st of TData _ n \<Rightarrow> [n] | TError _ _ \<Rightarrow> [])"

definition event_data :: "stream_event \<Rightarrow> u64 list" where
  "event_data e = (case se_event e of SData _ n \<Rightarrow> [n] | _ \<Rightarrow> [])"

text \<open>What the schedule of an accepted timeline holds.\<close>

definition schedule_inv :: "stream_event list \<Rightarrow> schedule_state \<Rightarrow> bool" where
  "schedule_inv es st \<longleftrightarrow>
     previous_delta st = last_delta (cursor_of es)
     \<and> concat (map step_data (sch_steps st)) = concat (map event_data es)
     \<and> unat (accumulated_delay st) = total_sleep st
     \<and> total_sleep st \<le> unat MAX_STREAM_TOTAL_DELAY_NS
     \<and> (\<not> trailers_seen (cursor_of es) \<longrightarrow> trailer_delay st = 0)
     \<and> (\<not> terminal (cursor_of es) \<longrightarrow> terminal_delay st = 0)"

lemma schedule_event_inv:
  assumes "schedule_inv es st" and "timeline_ok (es @ [e])"
    and "schedule_event ops mode st e = Inr st'"
  shows "schedule_inv (es @ [e]) st'"
proof -
  from assms(3) obtain delay where d: "delay_ns ops mode (sat_sub (se_delta_ns e) (previous_delta st))
      (accumulated_delay st) = Inr delay"
    by (auto simp: schedule_event_def res_simps)
  then have sum: "unat (accumulated_delay st) + unat delay \<le> unat MAX_STREAM_TOTAL_DELAY_NS"
    unfolding delay_ns_Inr_iff by blast
  have ok: "\<not> terminal (cursor_of es)" "event_ok es e"
    using assms(2) by (simp_all add: timeline_ok_snoc)
  have tr: "trailers_seen (cursor_of es) = (\<exists>b\<in>set es. is_trailers b)" by (rule cursor_of_sel)
  note st' = assms(3) [unfolded schedule_event_def d rbind_simps Let_def sum.inject(2), symmetric]
  show ?thesis
    using assms(1) ok sum unat_sat_add_small [OF sum]
    by (cases "se_event e")
      (auto simp: schedule_inv_def st' cursor_of_snoc total_sleep_def step_delay_def
        step_data_def event_data_def is_terminal_def is_trailers_def event_ok_def tr)
qed

lemma schedule_inv_start: "schedule_inv [] schedule_start"
  by (simp add: schedule_inv_def schedule_start_def cursor_of_def total_sleep_def)

lemma timed_schedule_inv:
  "timeline_ok es \<Longrightarrow> timed_schedule ops mode es = Inr st \<Longrightarrow> schedule_inv es st"
proof (induction es arbitrary: st rule: rev_induct)
  case (snoc e es)
  then show ?case
    by (auto simp: timed_schedule_def try_fold_snoc_Inr timeline_ok_snoc intro: schedule_event_inv)
qed (simp add: timed_schedule_def schedule_inv_start)

lemma recorded_schedule:
  assumes "timeline_ok es"
  shows "\<exists>st. timed_schedule ops Recorded es = Inr st \<and> accumulated_delay st = last_delta (cursor_of es)"
  using assms
proof (induction es rule: rev_induct)
  case (snoc e es)
  then obtain st where st: "timed_schedule ops Recorded es = Inr st"
      "accumulated_delay st = last_delta (cursor_of es)" and ok: "timeline_ok es"
    by (auto simp: timeline_ok_snoc)
  have prev: "previous_delta st = last_delta (cursor_of es)"
    using timed_schedule_inv [OF ok st(1)] by (simp add: schedule_inv_def)
  let ?d = "sat_sub (se_delta_ns e) (last_delta (cursor_of es))"
  have le: "last_delta (cursor_of es) \<le> se_delta_ns e" "se_delta_ns e \<le> MAX_STREAM_DELAY_NS"
    using snoc.prems by (simp_all add: timeline_ok_snoc)
  then have sum: "unat (last_delta (cursor_of es)) + unat ?d = unat (se_delta_ns e)"
    by (simp add: unat_sat_sub word_le_nat_alt)
  moreover have "unat (se_delta_ns e) \<le> unat MAX_STREAM_DELAY_NS" using le(2) by (simp add: word_le_nat_alt)
  ultimately have small: "unat (last_delta (cursor_of es)) + unat ?d \<le> unat MAX_STREAM_TOTAL_DELAY_NS"
    by (simp add: MAX_STREAM_TOTAL_DELAY_NS_def MAX_STREAM_DELAY_NS_def)
  have "unat ?d \<le> unat MAX_STREAM_DELAY_NS"
    using le(2) by (simp add: unat_sat_sub word_le_nat_alt)
  with small have delay: "delay_ns ops Recorded ?d (last_delta (cursor_of es)) = Inr ?d"
    by (simp add: delay_ns_Inr_iff word_le_nat_alt)
  have "sat_add (last_delta (cursor_of es)) ?d = se_delta_ns e"
    using unat_sat_add_small [OF small] sum by (simp add: word_unat_eq_iff)
  then show ?case
    using st
    by (cases "se_event e")
      (auto simp: timed_schedule_def try_fold_append schedule_event_def prev delay cursor_of_snoc)
qed (simp add: timed_schedule_def schedule_start_def cursor_of_def)

lemma immediate_schedule:
  "timed_schedule ops Immediate es = Inr st \<Longrightarrow> accumulated_delay st = 0"
proof (induction es arbitrary: st rule: rev_induct)
  case (snoc e es)
  then show ?case
    by (cases "se_event e")
      (force simp: timed_schedule_def try_fold_append schedule_event_def res_simps delay_ns_Inr_iff)+
qed (simp add: timed_schedule_def schedule_start_def)

definition no_floats :: "unit float_ops" where
  "no_floats = \<lparr>f64_parse = (\<lambda>_. None), f64_finite_in_range = (\<lambda>_. False), f64_scale_ceil = (\<lambda>_ _. 0)\<rparr>"

definition sample_timeline :: "stream_event list" where
  "sample_timeline = [\<lparr>se_delta_ns = 5, se_event = SData 0 3\<rparr>, \<lparr>se_delta_ns = 9, se_event = SData 3 4\<rparr>,
                      \<lparr>se_delta_ns = 9, se_event = SEnd\<rparr>]"

definition sample_cursor :: stream_cursor where
  "sample_cursor = \<lparr>last_delta = 9, last_offset = 7, terminal = True, trailers_seen = False\<rparr>"

lemma sample_accepted: "try_fold validate_stream_event stream_cursor_start sample_timeline = Inr sample_cursor"
  by code_simp

text \<open>
  A timed replay of an accepted direction emits exactly the recorded frames in their
  order, whatever the timing mode, and never sleeps more than five minutes in all; the immediate
  mode never sleeps.
\<close>

theorem timed_replay_is_faithful_and_bounded:
  assumes "try_fold validate_stream_event stream_cursor_start es = Inr c"
    and "timed_schedule ops mode es = Inr st"
  shows "concat (map step_data (sch_steps st)) = concat (map event_data es)
    \<and> total_sleep st \<le> 300000000000 \<and> (mode = Immediate \<longrightarrow> total_sleep st = 0)"
proof -
  have inv: "schedule_inv es st"
    using assms by (simp add: direction_iff timed_schedule_inv)
  moreover have "mode = Immediate \<Longrightarrow> accumulated_delay st = 0"
    using assms(2) immediate_schedule by blast
  ultimately show ?thesis by (auto simp: schedule_inv_def MAX_STREAM_TOTAL_DELAY_NS_def)
qed

lemma timed_replay_is_faithful_and_bounded_witness:
  "case timed_schedule no_floats Immediate sample_timeline of
     Inl _ \<Rightarrow> False | Inr st \<Rightarrow> concat (map step_data (sch_steps st)) = [3, 4] \<and> total_sleep st = 0"
proof -
  have "\<exists>st. timed_schedule no_floats Immediate sample_timeline = Inr st"
    by (simp add: timed_schedule_def schedule_event_def sample_timeline_def delay_ns_Inr_iff delay_ns_def
        MAX_STREAM_DELAY_NS_def MAX_STREAM_TOTAL_DELAY_NS_def schedule_start_def sat_sub_def)
  then obtain st where "timed_schedule no_floats Immediate sample_timeline = Inr st" by blast
  with timed_replay_is_faithful_and_bounded [OF sample_accepted this] show ?thesis
    by (simp add: sample_timeline_def event_data_def)
qed



text \<open>
  The replay order of the flows of a session is a permutation of the fixture order,
  sorted by start offset, with ties kept in fixture order.
\<close>

theorem timeline_order_is_stable_sort:
  assumes "timeline_order_offsets offsets n = Inr order"
  shows "distinct order \<and> set order = {..<length offsets}
    \<and> sorted (map (\<lambda>i. (offsets ! i, i)) order)"
proof -
  have "order = sort_key (\<lambda>i. (offsets ! i, i)) [0..<length offsets]"
    using assms by (auto simp: timeline_order_offsets_def split: if_splits)
  then show ?thesis by (simp add: atLeast0LessThan)
qed

lemma timeline_order_is_stable_sort_witness:
  "timeline_order_offsets [7, 3, 7] 4 = Inr [1, 0, 2] \<and> sorted [(3 :: u64, 1 :: nat), (7, 0), (7, 2)]"
proof -
  have *: "timeline_order_offsets [7, 3, 7] 4 = Inr [1, 0, 2]" by code_simp
  then show ?thesis using timeline_order_is_stable_sort [OF *] by (simp add: numeral_2_eq_2)
qed

section \<open>The SSE parser\<close>

definition sse_state_ok :: "sse_state \<Rightarrow> bool" where
  "sse_state_ok st \<longleftrightarrow> length (st_events st) \<le> MAX_SSE_EVENTS
     \<and> st_error st \<notin> {Some SseBodyLimit, Some SseNotUtf8}"

lemma sse_line_ok: "sse_state_ok st \<Longrightarrow> sse_state_ok (fst (sse_line comments raw st))"
  by (auto simp: sse_state_ok_def sse_line_def sse_dispatch_def sse_field_def Let_def
      split: option.splits prod.splits)

lemma sse_loop_ok: "sse_state_ok st \<Longrightarrow> sse_state_ok (sse_loop comments lines st)"
proof (induction lines arbitrary: st)
  case (Cons raw lines)
  then show ?case
    using sse_line_ok [OF Cons.prems, of comments raw] by (cases "sse_line comments raw st") auto
qed simp

lemma sse_finish_ok:
  "sse_state_ok st \<Longrightarrow> length (spr_events (sse_finish st)) \<le> MAX_SSE_EVENTS
     \<and> spr_error (sse_finish st) \<notin> {Some SseBodyLimit, Some SseNotUtf8}"
  by (auto simp: sse_state_ok_def sse_finish_def sse_dispatch_def)

text \<open>
  Parsing any bytes yields at most the configured number of events; it reports a body
  that is too long, or not UTF-8, for exactly such bodies, and then with no events.
\<close>

theorem parse_sse_bounded:
  "length (spr_events (parse_sse body comments)) \<le> MAX_SSE_EVENTS
   \<and> (length body > MAX_SSE_BODY_BYTES) = (parse_sse body comments = \<lparr>spr_events = [], spr_error = Some SseBodyLimit\<rparr>)
   \<and> (length body \<le> MAX_SSE_BODY_BYTES \<and> \<not> utf8_valid body) =
       (parse_sse body comments = \<lparr>spr_events = [], spr_error = Some SseNotUtf8\<rparr>)"
proof -
  let ?r = "sse_finish (sse_loop comments (split_on CHR 0x0A body) sse_start)"
  have "sse_state_ok sse_start" by (simp add: sse_state_ok_def sse_start_def)
  note ok = sse_finish_ok [OF sse_loop_ok [OF this, of comments "split_on CHR 0x0A body"]]
  then have "?r \<noteq> \<lparr>spr_events = [], spr_error = Some SseBodyLimit\<rparr>"
    and "?r \<noteq> \<lparr>spr_events = [], spr_error = Some SseNotUtf8\<rparr>"
    by auto
  with ok show ?thesis by (auto simp: parse_sse_def)
qed

text \<open>
  The inverse of the parser: an event as the lines a server sends for it, closed by an empty line.
\<close>

definition sse_encode :: "sse_event \<Rightarrow> string list" where
  "sse_encode e =
     map (\<lambda>c. '': '' @ c) (sse_comments e)
     @ (case sse_type e of None \<Rightarrow> [] | Some v \<Rightarrow> [''event: '' @ v])
     @ (case sse_id e of None \<Rightarrow> [] | Some v \<Rightarrow> [''id: '' @ v])
     @ (case sse_retry e of None \<Rightarrow> [] | Some n \<Rightarrow> [''retry: '' @ to_dec (unat n)])
     @ (if sse_data e = [] then [] else map (\<lambda>l. ''data: '' @ l) (split_on CHR 0x0A (sse_data e)))
     @ [[]]"

definition sse_body :: "sse_event list \<Rightarrow> bytes" where
  "sse_body es = concat (map (\<lambda>l. l @ [CHR 0x0A]) (concat (map sse_encode es)))"

definition one_line :: "string \<Rightarrow> bool" where
  "one_line s \<longleftrightarrow> CHR 0x0A \<notin> set s \<and> CHR 0x0D \<notin> set s"

definition sse_event_ok :: "sse_event \<Rightarrow> bool" where
  "sse_event_ok e \<longleftrightarrow>
     (\<forall>c\<in>set (sse_comments e). one_line c)
     \<and> (\<forall>v\<in>set_option (sse_type e). one_line v)
     \<and> (\<forall>v\<in>set_option (sse_id e). one_line v \<and> CHR 0x00 \<notin> set v)
     \<and> CHR 0x0D \<notin> set (sse_data e)
     \<and> (sse_data e \<noteq> [] \<or> sse_type e \<noteq> None \<or> sse_id e \<noteq> None \<or> sse_retry e \<noteq> None \<or> sse_comments e \<noteq> [])
     \<and> (\<forall>l\<in>set (sse_encode e). length l \<le> MAX_SSE_LINE_BYTES)"

lemma split_lines: "\<forall>l\<in>set ls. d \<notin> set l \<Longrightarrow> split_on d (concat (map (\<lambda>l. l @ [d]) ls)) = ls @ [[]]"
  by (induction ls) (auto simp: split_on_append)

lemma no_cr_suffix: "CHR 0x0D \<notin> set l \<Longrightarrow> strip_suffix [CHR 0x0D] l = None"
  by (auto simp: strip_suffix_def suffix_def)

lemma sse_line_comment:
  assumes "one_line c" and "length ('': '' @ c) \<le> MAX_SSE_LINE_BYTES"
  shows "sse_line True ('': '' @ c) st = (st\<lparr>st_comments := st_comments st @ [c]\<rparr>, True)"
proof -
  have "CHR 0x0D \<notin> set ('': '' @ c)" using assms(1) by (simp add: one_line_def)
  then show ?thesis using assms(2)
    by (simp add: sse_line_def no_cr_suffix strip_prefix_def)
qed

lemma sse_line_field:
  assumes "f \<in> {''data'', ''event'', ''id'', ''retry''}" and "one_line v"
    and "length (f @ '': '' @ v) \<le> MAX_SSE_LINE_BYTES"
  shows "sse_line True (f @ '': '' @ v) st = (sse_field f v st, True)"
proof -
  have f: "CHR '':'' \<notin> set f" "f \<noteq> []" "CHR 0x0D \<notin> set (f @ '': '' @ v)"
    using assms(1,2) by (auto simp: one_line_def)
  then have "strip_prefix '':'' (f @ '': '' @ v) = None" by (cases f) (auto simp: strip_prefix_def)
  moreover have "split_once CHR '':'' (f @ '': '' @ v) = Some (f, '' '' @ v)"
    using split_once_append [OF f(1), of "'' '' @ v"] by simp
  ultimately show ?thesis
    using f assms(3) by (simp add: sse_line_def no_cr_suffix del: append_Cons)
qed

lemma sse_loop_comments:
  "\<forall>c\<in>set cs. one_line c \<and> length ('': '' @ c) \<le> MAX_SSE_LINE_BYTES \<Longrightarrow>
     sse_loop True (map (\<lambda>c. '': '' @ c) cs @ rest) st = sse_loop True rest (st\<lparr>st_comments := st_comments st @ cs\<rparr>)"
proof (induction cs arbitrary: st)
  case (Cons c cs)
  then show ?case using sse_line_comment [of c st] by simp
qed simp

definition data_pieces :: "string list \<Rightarrow> string list" where
  "data_pieces ls = concat (map (\<lambda>l. [l, [CHR 0x0A]]) ls)"

lemma sse_loop_data:
  "\<forall>l\<in>set ls. one_line l \<and> length (''data: '' @ l) \<le> MAX_SSE_LINE_BYTES \<Longrightarrow>
     sse_loop True (map (\<lambda>l. ''data: '' @ l) ls @ rest) st
       = sse_loop True rest (st\<lparr>st_data := st_data st @ data_pieces ls\<rparr>)"
proof (induction ls arbitrary: st)
  case (Cons l ls)
  then show ?case using sse_line_field [of "''data''" l st] by (simp add: sse_field_def data_pieces_def)
qed (simp add: data_pieces_def)

lemma concat_data_pieces: "ls \<noteq> [] \<Longrightarrow> concat (butlast (data_pieces ls)) = join_on CHR 0x0A ls"
proof (induction "CHR 0x0A" ls rule: join_on.induct)
  case (3 w v ws)
  have "data_pieces (v # ws) \<noteq> []" by (simp add: data_pieces_def)
  then have "butlast (data_pieces (w # v # ws)) = w # [CHR 0x0A] # butlast (data_pieces (v # ws))"
    by (simp add: data_pieces_def)
  with 3 show ?case by simp
qed (simp_all add: data_pieces_def)

lemma sse_loop_field:
  assumes "f \<in> {''data'', ''event'', ''id'', ''retry''}" and "one_line v"
    and "length (f @ '': '' @ v) \<le> MAX_SSE_LINE_BYTES"
  shows "sse_loop True ((f @ '': '' @ v) # rest) st = sse_loop True rest (sse_field f v st)"
  using sse_line_field [OF assms] by simp

lemma one_line_to_dec: "one_line (to_dec n)"
proof -
  have "\<not> is_ascii_digit CHR 0x0A" "\<not> is_ascii_digit CHR 0x0D" by code_simp+
  then show ?thesis using to_dec_digits by (auto simp: one_line_def)
qed

lemma sse_field_simps:
  "sse_field ''event'' v st = st\<lparr>st_type := Some v\<rparr>"
  "CHR 0x00 \<notin> set v \<Longrightarrow> sse_field ''id'' v st = st\<lparr>st_id := Some v\<rparr>"
  "sse_field ''retry'' (to_dec (unat (n :: u64))) st = st\<lparr>st_retry := Some n\<rparr>"
proof -
  have "unat n < 2 ^ 64" using unsigned_less [of n] by simp
  then show "sse_field ''retry'' (to_dec (unat n)) st = st\<lparr>st_retry := Some n\<rparr>"
    by (auto simp: sse_field_def parse_to_dec to_dec_digits)
qed (simp_all add: sse_field_def)

text \<open>The state between two events.\<close>

definition sse_idle :: "sse_event list \<Rightarrow> sse_state" where
  "sse_idle es = sse_start\<lparr>st_events := es\<rparr>"

text \<open>The lines of one event's fields, before the empty line that dispatches it.\<close>

lemma sse_loop_fields:
  assumes "sse_event_ok e"
  shows "sse_loop True (sse_encode e @ rest) (sse_idle es) =
    sse_loop True ([[]] @ rest)
      \<lparr>st_events = es, st_error = None,
       st_data = (if sse_data e = [] then [] else data_pieces (split_on CHR 0x0A (sse_data e))),
       st_type = sse_type e, st_id = sse_id e, st_retry = sse_retry e, st_comments = sse_comments e\<rparr>"
proof -
  have len: "l \<in> set (sse_encode e) \<Longrightarrow> length l \<le> MAX_SSE_LINE_BYTES" for l
    using assms by (simp add: sse_event_ok_def)
  have data: "\<forall>l\<in>set (split_on CHR 0x0A (sse_data e)). one_line l \<and> length (''data: '' @ l) \<le> MAX_SSE_LINE_BYTES"
    if "sse_data e \<noteq> []"
  proof
    fix l assume l: "l \<in> set (split_on CHR 0x0A (sse_data e))"
    then have "CHR 0x0A \<notin> set l" by (rule split_on_free)
    moreover have "set l \<subseteq> set (sse_data e)"
    proof
      fix x assume "x \<in> set l"
      then have "x \<in> set (join_on CHR 0x0A (split_on CHR 0x0A (sse_data e)))" using l
        by (rule set_join_onI)
      then show "x \<in> set (sse_data e)" by simp
    qed
    ultimately have "one_line l" using assms by (auto simp: one_line_def sse_event_ok_def)
    moreover have "''data: '' @ l \<in> set (sse_encode e)" using l that by (simp add: sse_encode_def)
    ultimately show "one_line l \<and> length (''data: '' @ l) \<le> MAX_SSE_LINE_BYTES" using len by blast
  qed
  have comments: "\<forall>c\<in>set (sse_comments e). one_line c \<and> length ('': '' @ c) \<le> MAX_SSE_LINE_BYTES"
  proof
    fix c assume "c \<in> set (sse_comments e)"
    moreover from this have "'': '' @ c \<in> set (sse_encode e)" by (simp add: sse_encode_def)
    then have "length ('': '' @ c) \<le> MAX_SSE_LINE_BYTES" by (rule len)
    ultimately show "one_line c \<and> length ('': '' @ c) \<le> MAX_SSE_LINE_BYTES"
      using assms by (simp add: sse_event_ok_def)
  qed
  have field: "sse_loop True ((f @ '': '' @ v) # rest) st = sse_loop True rest (sse_field f v st)"
    if "f \<in> {''data'', ''event'', ''id'', ''retry''}" and "one_line v" and "f @ '': '' @ v \<in> set (sse_encode e)"
    for f v rest st
    using that len by (intro sse_loop_field) blast+
  have type: "sse_loop True ((case sse_type e of None \<Rightarrow> [] | Some v \<Rightarrow> [''event: '' @ v]) @ rest) st =
      sse_loop True rest (if sse_type e = None then st else st\<lparr>st_type := sse_type e\<rparr>)" for rest st
    using assms field [of "''event''" "the (sse_type e)" rest st]
    by (cases "sse_type e") (simp_all add: sse_event_ok_def sse_encode_def sse_field_simps)
  have id: "sse_loop True ((case sse_id e of None \<Rightarrow> [] | Some v \<Rightarrow> [''id: '' @ v]) @ rest) st =
      sse_loop True rest (if sse_id e = None then st else st\<lparr>st_id := sse_id e\<rparr>)" for rest st
    using assms field [of "''id''" "the (sse_id e)" rest st]
    by (cases "sse_id e") (simp_all add: sse_event_ok_def sse_encode_def sse_field_simps)
  have retry: "sse_loop True ((case sse_retry e of None \<Rightarrow> [] | Some n \<Rightarrow> [''retry: '' @ to_dec (unat n)]) @ rest) st =
      sse_loop True rest (if sse_retry e = None then st else st\<lparr>st_retry := sse_retry e\<rparr>)" for rest st
    using field [of "''retry''" "to_dec (unat (the (sse_retry e)))" rest st]
    by (cases "sse_retry e") (simp_all add: one_line_to_dec sse_encode_def sse_field_simps)
  show ?thesis
    unfolding sse_encode_def append_assoc sse_loop_comments [OF comments] type id retry
    using sse_loop_data [OF data, of "[[]] @ rest"]
    by (cases "sse_data e = []"; cases "sse_type e"; cases "sse_id e"; cases "sse_retry e")
      (simp_all add: sse_idle_def sse_start_def del: sse_loop.simps append_Cons)
qed

text \<open>One event, and with it every later one.\<close>

lemma sse_loop_event:
  assumes "sse_event_ok e" and "length es < MAX_SSE_EVENTS"
  shows "sse_loop True (sse_encode e @ rest) (sse_idle es) = sse_loop True rest (sse_idle (es @ [e]))"
proof -
  have "concat (butlast (data_pieces (split_on CHR 0x0A d))) = d" for d
    by (simp add: concat_data_pieces)
  moreover have "strip_suffix [CHR 0x0D] [] = None" by (simp add: no_cr_suffix)
  moreover have "data_pieces (split_on CHR 0x0A d) \<noteq> []" for d
    by (simp add: data_pieces_def)
  ultimately show ?thesis
    unfolding sse_loop_fields [OF assms(1)] using assms
    by (cases e)
      (auto simp: sse_line_def sse_pending_def sse_dispatch_def sse_idle_def sse_start_def sse_event_ok_def)
qed

lemma sse_loop_events:
  "\<forall>e\<in>set es. sse_event_ok e \<Longrightarrow> length ds + length es \<le> MAX_SSE_EVENTS \<Longrightarrow>
     sse_loop True (concat (map sse_encode es) @ rest) (sse_idle ds) = sse_loop True rest (sse_idle (ds @ es))"
proof (induction es arbitrary: ds)
  case (Cons e es)
  then show ?case using sse_loop_event [of e ds "concat (map sse_encode es) @ rest"] by simp
qed simp

lemma sse_encode_lines: "sse_event_ok e \<Longrightarrow> l \<in> set (sse_encode e) \<Longrightarrow> CHR 0x0A \<notin> set l"
  using one_line_to_dec
  by (auto simp: sse_encode_def sse_event_ok_def one_line_def split_on_free split: option.splits if_splits)

definition sample_sse :: "sse_event list" where
  "sample_sse =
     [\<lparr>sse_data = ''first'' @ [CHR 0x0A] @ ''second'', sse_type = Some ''update'', sse_id = Some ''7'',
       sse_retry = Some 1500, sse_comments = [''heartbeat'']\<rparr>,
      \<lparr>sse_data = ''x'', sse_type = None, sse_id = None, sse_retry = None, sse_comments = []\<rparr>]"

text \<open>
  Property C37: Parsing what a conforming server sends returns the events it sent: for every list
  of events whose text fields are single lines, within the size limits, the body made of their
  field lines and separating empty lines parses back to exactly those events, without error.
\<close>

theorem sse_round_trip:
  assumes "\<forall>e\<in>set es. sse_event_ok e" and "length es \<le> MAX_SSE_EVENTS"
    and "length (sse_body es) \<le> MAX_SSE_BODY_BYTES" and "utf8_valid (sse_body es)"
  shows "parse_sse (sse_body es) True = \<lparr>spr_events = es, spr_error = None\<rparr>"
proof -
  have "split_on CHR 0x0A (sse_body es) = concat (map sse_encode es) @ [[]]"
    unfolding sse_body_def using assms(1) by (intro split_lines) (auto dest: sse_encode_lines)
  moreover have "sse_loop True (concat (map sse_encode es) @ [[]]) (sse_idle []) = sse_loop True [[]] (sse_idle es)"
    using sse_loop_events [of es "[]" "[[]]"] assms(1,2) by simp
  moreover have "sse_loop True [[]] (sse_idle es) = sse_idle es"
    by (simp add: sse_line_def no_cr_suffix sse_pending_def sse_idle_def sse_start_def)
  moreover have "sse_start = sse_idle []" by (simp add: sse_idle_def sse_start_def)
  ultimately show ?thesis
    using assms(3,4) by (simp add: parse_sse_def sse_finish_def sse_pending_def sse_idle_def sse_start_def)
qed

lemma sse_round_trip_witness: "parse_sse (sse_body sample_sse) True = \<lparr>spr_events = sample_sse, spr_error = None\<rparr>"
proof -
  have "\<forall>e\<in>set sample_sse. sse_event_ok e" by code_simp
  moreover have "length sample_sse \<le> MAX_SSE_EVENTS" by code_simp
  moreover have "length (sse_body sample_sse) \<le> MAX_SSE_BODY_BYTES" by code_simp
  moreover have "utf8_valid (sse_body sample_sse)" by code_simp
  ultimately show ?thesis by (rule sse_round_trip)
qed

text \<open>
  Comparing two event streams compares them event by event after blanking the ignored fields.
\<close>

definition mask_sse :: "string list \<Rightarrow> sse_event \<Rightarrow> sse_event" where
  "mask_sse ignored e =
     \<lparr>sse_data = if ''data'' \<in> set ignored then [] else sse_data e,
      sse_type = if ''event'' \<in> set ignored then None else sse_type e,
      sse_id = if ''id'' \<in> set ignored then None else sse_id e,
      sse_retry = if ''retry'' \<in> set ignored then None else sse_retry e,
      sse_comments = if ''comments'' \<in> set ignored then [] else sse_comments e\<rparr>"

lemma mask_sse_eq_iff:
  "mask_sse ignored l = mask_sse ignored r \<longleftrightarrow>
     (''data'' \<in> set ignored \<or> sse_data l = sse_data r) \<and> (''event'' \<in> set ignored \<or> sse_type l = sse_type r)
     \<and> (''id'' \<in> set ignored \<or> sse_id l = sse_id r) \<and> (''retry'' \<in> set ignored \<or> sse_retry l = sse_retry r)
     \<and> (''comments'' \<in> set ignored \<or> sse_comments l = sse_comments r)"
  by (simp add: mask_sse_def)

lemma compare_sse_iff:
  "compare_sse expected actual ignored \<longleftrightarrow> map (mask_sse ignored) expected = map (mask_sse ignored) actual"
proof -
  have "compare_sse expected actual ignored \<longleftrightarrow> list_all2 (\<lambda>l r. mask_sse ignored l = mask_sse ignored r) expected actual"
    unfolding compare_sse_def list_all2_iff mask_sse_eq_iff ..
  also have "\<dots> \<longleftrightarrow> map (mask_sse ignored) expected = map (mask_sse ignored) actual"
    by (simp add: list_all2_map1 list_all2_map2 list_all2_eq)
  finally show ?thesis .
qed

end
