(* ===== verification/Scenario.thy ===== *)
theory Scenario
  imports Redaction "HOL-Library.AList"
begin

text \<open>
  Authored replay scenarios, \<^verbatim>\<open>crates/eggreplay-core/src/scenario.rs\<close>: the rules document and its
  validation, the finite state machine a replay server runs, the extraction of variables from
  requests and the rendering of responses. Error messages are constructors of \<open>scenario_error\<close>;
  a \<^verbatim>\<open>BTreeMap\<close> of variables, which is only looked up and counted, is an association list with
  distinct keys.
\<close>

definition MAX_SCENARIOS :: usize where "MAX_SCENARIOS = 128"
definition MAX_STATES :: usize where "MAX_STATES = 128"
definition MAX_TRANSITIONS :: usize where "MAX_TRANSITIONS = 1024"
definition MAX_VARIABLES :: usize where "MAX_VARIABLES = 64"
definition MAX_NAME_BYTES :: usize where "MAX_NAME_BYTES = 128"
definition MAX_TEMPLATE_BYTES :: usize where "MAX_TEMPLATE_BYTES = 16 * 1024"
definition MAX_VALUE_BYTES :: usize where "MAX_VALUE_BYTES = 4096"
definition MAX_JSON_BYTES :: usize where "MAX_JSON_BYTES = 1024 * 1024"
definition RULES_SCHEMA_VERSION :: u16 where "RULES_SCHEMA_VERSION = 1"
definition MAX_FAULT_DELAY_MS :: u64 where "MAX_FAULT_DELAY_MS = 30000"
definition MAX_FAULT_CHUNK_BYTES :: u64 where "MAX_FAULT_CHUNK_BYTES = 16 * 1024 * 1024"

section \<open>The rules document\<close>

datatype extraction_failure_behavior = Abort | Skip

datatype request_predicate =
    PredMethod string
  | PredPath string
  | PredQuery string string
  | PredHeader string string

datatype variable_source =
    PathSegment usize
  | SourceQuery string
  | SourceHeader string
  | JsonPointer string
  | PriorVariable string

record variable_extraction =
  ve_name :: string
  ve_source :: variable_source

datatype scenario_fault =
    ResponseHeadDelay u64
  | BodyChunkDelay u64 u64
  | CloseBeforeResponse
  | CloseAfterBytes u64
  | TransportError error_category error_phase

record json_pointer_replacement =
  jr_pointer :: string
  jr_value_template :: string

record scenario_response =
  sr_status :: u16
  sr_headers :: "header_entry list"
  sr_body_template :: string
  sr_replacements :: "json_pointer_replacement list"
  sr_fault :: "scenario_fault option"

record scenario_transition =
  tr_from :: string
  tr_when :: "request_predicate list"
  tr_extract :: "variable_extraction list"
  tr_extraction_failure :: extraction_failure_behavior
  tr_response :: scenario_response
  tr_next_state :: string

record scenario =
  sc_id :: string
  sc_initial_state :: string
  sc_states :: "string list"
  sc_transitions :: "scenario_transition list"

record scenario_rules =
  rules_schema_version :: u16
  rules_scenarios :: "scenario list"

record rendered_scenario_response =
  rr_status :: u16
  rr_headers :: "header_entry list"
  rr_body :: bytes
  rr_fault :: "scenario_fault option"

record scenario_step =
  step_scenario_id :: string
  step_previous_state :: string
  step_next_state :: string
  step_response :: rendered_scenario_response

record scenario_runtime =
  rt_scenario :: scenario
  rt_state :: string
  rt_variables :: "(string \<times> string) list"
  rt_redaction :: redaction_config

datatype scenario_error =
    FaultDelayLimit | FaultChunkBounds
  | InvalidName string
  | UnsupportedRulesSchema u16 | ScenarioCountLimit | DuplicateScenarioId | StateCountBounds
  | DuplicateState | InitialStateUndeclared | TransitionCountLimit | UndeclaredState
  | TransitionVariableLimit | TemplateLimit | TransformCountLimit | InvalidTransform
  | InvalidStatus | HeaderLimit | MalformedHeader | DuplicateVariable | InvalidPointer
  | SegmentIndexLimit | PredicateLimit
  | ScenarioNotFound string
  | VariableCountLimit | JsonBodyLimit | JsonBodyInvalid | ExtractionRedacted
  | ExtractionMissing string | ValueLimit
  | UnterminatedVariable | MissingVariable string | RenderedLimit
  | TransformBodyInvalid | TransformTargetMissing | TransformSerialization | RenderedJsonLimit

section \<open>Validation\<close>

fun fault_validate :: "scenario_fault \<Rightarrow> scenario_error + unit" where
  "fault_validate (ResponseHeadDelay delay_ms) =
     (if delay_ms > MAX_FAULT_DELAY_MS then Inl FaultDelayLimit else Inr ())"
| "fault_validate (BodyChunkDelay delay_ms chunk_bytes) =
     (if delay_ms > MAX_FAULT_DELAY_MS then Inl FaultDelayLimit
      else if chunk_bytes = 0 \<or> chunk_bytes > MAX_FAULT_CHUNK_BYTES then Inl FaultChunkBounds
      else Inr ())"
| "fault_validate _ = Inr ()"

definition validate_name :: "string \<Rightarrow> string \<Rightarrow> scenario_error + unit" where
  "validate_name val label =
     (if val = [] \<or> length val > MAX_NAME_BYTES
         \<or> \<not> (\<forall>c\<in>set val. is_ascii_alnum c \<or> c \<in> set ''_-.'')
      then Inl (InvalidName label) else Inr ())"

definition header_name_byte :: "char \<Rightarrow> bool" where
  "header_name_byte c \<longleftrightarrow> is_ascii_alnum c \<or> c \<in> set (''!#$%&'' @ [CHR 0x27] @ ''*+-.^_'' @ [CHR 0x60] @ ''|~'')"

definition validate_replacement :: "json_pointer_replacement \<Rightarrow> scenario_error + unit" where
  "validate_replacement r =
     (if length (jr_pointer r) > MAX_NAME_BYTES
         \<or> (jr_pointer r \<noteq> [] \<and> \<not> starts_with ''/'' (jr_pointer r))
         \<or> length (jr_value_template r) > MAX_TEMPLATE_BYTES
      then Inl InvalidTransform else Inr ())"

definition validate_response_header :: "header_entry \<Rightarrow> scenario_error + unit" where
  "validate_response_header h =
     (if length (h_name h) > 256 \<or> length (h_value h) > MAX_VALUE_BYTES then Inl HeaderLimit
      else if h_name h = [] \<or> \<not> (\<forall>c\<in>set (h_name h). header_name_byte c)
         \<or> (\<exists>c\<in>set (h_value h). c = CHR 0x0D \<or> c = CHR 0x0A \<or> (byte_val c < 32 \<and> c \<noteq> CHR 0x09))
      then Inl MalformedHeader else Inr ())"

definition validate_extraction :: "string list \<Rightarrow> variable_extraction \<Rightarrow> scenario_error + string list" where
  "validate_extraction names e =
     rbind (validate_name (ve_name e) ''variable name'') (\<lambda>_.
       if ve_name e \<in> set names then Inl DuplicateVariable
       else rbind
         (case ve_source e of
            SourceQuery key \<Rightarrow> validate_name key ''extraction key''
          | SourceHeader key \<Rightarrow> validate_name key ''extraction key''
          | JsonPointer pointer \<Rightarrow>
              (if length pointer > MAX_NAME_BYTES \<or> (pointer \<noteq> [] \<and> \<not> starts_with ''/'' pointer)
               then Inl InvalidPointer else Inr ())
          | PriorVariable name \<Rightarrow> validate_name name ''prior variable''
          | PathSegment index \<Rightarrow> (if index > 1024 then Inl SegmentIndexLimit else Inr ()))
         (\<lambda>_. Inr (ve_name e # names)))"

definition check_value :: "string \<Rightarrow> scenario_error + unit" where
  "check_value val = (if length val > MAX_VALUE_BYTES then Inl PredicateLimit else Inr ())"

fun validate_predicate :: "request_predicate \<Rightarrow> scenario_error + unit" where
  "validate_predicate (PredMethod val) = check_value val"
| "validate_predicate (PredPath val) = check_value val"
| "validate_predicate (PredQuery key val) = rbind (check_value key) (\<lambda>_. check_value val)"
| "validate_predicate (PredHeader name val) = rbind (check_value name) (\<lambda>_. check_value val)"

definition validate_transition :: "scenario_transition \<Rightarrow> scenario_error + unit" where
  "validate_transition t =
     (if length (tr_extract t) > MAX_VARIABLES then Inl TransitionVariableLimit
      else if length (sr_body_template (tr_response t)) > MAX_TEMPLATE_BYTES then Inl TemplateLimit
      else if length (sr_replacements (tr_response t)) > 32 then Inl TransformCountLimit
      else rbind (check_all validate_replacement (sr_replacements (tr_response t))) (\<lambda>_.
        if \<not> status_in_range (sr_status (tr_response t)) then Inl InvalidStatus
        else rbind (case sr_fault (tr_response t) of None \<Rightarrow> Inr () | Some fault \<Rightarrow> fault_validate fault) (\<lambda>_.
          rbind (check_all validate_response_header (sr_headers (tr_response t))) (\<lambda>_.
          rbind (try_fold validate_extraction [] (tr_extract t)) (\<lambda>_.
          check_all validate_predicate (tr_when t))))))"

definition validate_state :: "string list \<Rightarrow> string \<Rightarrow> scenario_error + string list" where
  "validate_state states state =
     rbind (validate_name state ''state name'') (\<lambda>_.
       if state \<in> set states then Inl DuplicateState else Inr (state # states))"

definition validate_scenario :: "string list \<Rightarrow> scenario \<Rightarrow> scenario_error + string list" where
  "validate_scenario ids sc =
     rbind (validate_name (sc_id sc) ''scenario id'') (\<lambda>_.
       if sc_id sc \<in> set ids then Inl DuplicateScenarioId
       else if sc_states sc = [] \<or> length (sc_states sc) > MAX_STATES then Inl StateCountBounds
       else rbind (try_fold validate_state [] (sc_states sc)) (\<lambda>states.
         if sc_initial_state sc \<notin> set states then Inl InitialStateUndeclared
         else if length (sc_transitions sc) > MAX_TRANSITIONS then Inl TransitionCountLimit
         else rbind (check_all (\<lambda>t.
                 if tr_from t \<notin> set states \<or> tr_next_state t \<notin> set states then Inl UndeclaredState
                 else validate_transition t) (sc_transitions sc))
               (\<lambda>_. Inr (sc_id sc # ids))))"

definition rules_validate :: "scenario_rules \<Rightarrow> scenario_error + unit" where
  "rules_validate self =
     (if rules_schema_version self \<noteq> RULES_SCHEMA_VERSION
      then Inl (UnsupportedRulesSchema (rules_schema_version self))
      else if length (rules_scenarios self) > MAX_SCENARIOS then Inl ScenarioCountLimit
      else rbind (try_fold validate_scenario [] (rules_scenarios self)) (\<lambda>_. Inr ()))"

definition runtime_with_redaction ::
  "scenario_rules \<Rightarrow> string \<Rightarrow> redaction_config \<Rightarrow> scenario_error + scenario_runtime" where
  "runtime_with_redaction self scenario_id redaction =
     rbind (rules_validate self) (\<lambda>_.
       rbind (ok_or (ScenarioNotFound scenario_id)
                (find (\<lambda>sc. sc_id sc = scenario_id) (rules_scenarios self))) (\<lambda>sc.
         Inr \<lparr>rt_scenario = sc, rt_state = sc_initial_state sc, rt_variables = [], rt_redaction = redaction\<rparr>))"

definition scenario_runtime_of :: "scenario_rules \<Rightarrow> string \<Rightarrow> scenario_error + scenario_runtime" where
  "scenario_runtime_of self scenario_id = runtime_with_redaction self scenario_id default_secure"

section \<open>One request\<close>

fun predicate_matches :: "request_predicate \<Rightarrow> http_request \<Rightarrow> bool" where
  "predicate_matches (PredMethod val) request = (req_method request = val)"
| "predicate_matches (PredPath val) request = (req_path request = val)"
| "predicate_matches (PredQuery key val) request =
     (\<exists>pair\<in>set (req_query request). q_key pair = key \<and> q_value pair = val)"
| "predicate_matches (PredHeader name val) request =
     (\<exists>field\<in>set (req_headers request). eq_ignore_case (h_name field) name \<and> h_value field = val)"

definition nth_opt :: "'a list \<Rightarrow> nat \<Rightarrow> 'a option" where
  "nth_opt xs i = (if i < length xs then Some (xs ! i) else None)"

definition source_redacted :: "redaction_config \<Rightarrow> variable_source \<Rightarrow> bool" where
  "source_redacted redaction src = (case src of
       SourceQuery key \<Rightarrow> key \<in> set (rc_query_keys redaction)
     | SourceHeader name \<Rightarrow> to_lower name \<in> set (rc_headers redaction)
     | JsonPointer pointer \<Rightarrow> pointer \<in> set (rc_json_paths redaction)
     | _ \<Rightarrow> False)"

definition source_value ::
  "ext_lib \<Rightarrow> variable_source \<Rightarrow> http_request \<Rightarrow> json option \<Rightarrow> (string \<times> string) list \<Rightarrow> string option" where
  "source_value X src request json_body vars = (case src of
       PathSegment index \<Rightarrow>
         nth_opt (filter (\<lambda>part. part \<noteq> []) (split_on CHR ''/'' (req_path request))) index
     | SourceQuery key \<Rightarrow> map_option q_value (find (\<lambda>pair. q_key pair = key) (req_query request))
     | SourceHeader name \<Rightarrow>
         map_option h_value (find (\<lambda>field. eq_ignore_case (h_name field) name) (req_headers request))
     | JsonPointer pointer \<Rightarrow>
         map_option (\<lambda>v. case v of JString text \<Rightarrow> text | other \<Rightarrow> x_json_display X other)
           (Option.bind json_body (\<lambda>v. x_json_pointer X v pointer))
     | PriorVariable name \<Rightarrow> map_of vars name)"

definition extract_value ::
  "ext_lib \<Rightarrow> variable_extraction \<Rightarrow> http_request \<Rightarrow> json option \<Rightarrow> (string \<times> string) list
     \<Rightarrow> redaction_config \<Rightarrow> scenario_error + string" where
  "extract_value X extraction request json_body vars redaction =
     (if source_redacted redaction (ve_source extraction) then Inl ExtractionRedacted
      else ok_or (ExtractionMissing (ve_name extraction))
             (source_value X (ve_source extraction) request json_body vars))"

text \<open>The extraction loop: \<open>Inr None\<close> is the early \<^verbatim>\<open>return Ok(None)\<close> of the skip behaviour.\<close>

fun extract_variables ::
  "ext_lib \<Rightarrow> extraction_failure_behavior \<Rightarrow> http_request \<Rightarrow> json option \<Rightarrow> redaction_config
     \<Rightarrow> variable_extraction list \<Rightarrow> (string \<times> string) list \<Rightarrow> scenario_error + (string \<times> string) list option" where
  "extract_variables X failure request json_body redaction [] vars = Inr (Some vars)"
| "extract_variables X failure request json_body redaction (e # es) vars =
     (case extract_value X e request json_body vars redaction of
        Inl err \<Rightarrow> (case failure of Abort \<Rightarrow> Inl err | Skip \<Rightarrow> Inr None)
      | Inr val \<Rightarrow>
          (if length val > MAX_VALUE_BYTES then Inl ValueLimit
           else extract_variables X failure request json_body redaction es (AList.update (ve_name e) val vars)))"

text \<open>
  \<^verbatim>\<open>render\<close>: \<open>output\<close> is what has been rendered, \<open>rest\<close> the template still to read. The slices of
  the code start and end at braces, which are single bytes, so they never split a character.
\<close>

function render_loop :: "(string \<times> string) list \<Rightarrow> string \<Rightarrow> string \<Rightarrow> scenario_error + string" where
  "render_loop vars output rest =
     (case find_sub ''{{'' rest of
        None \<Rightarrow>
          (if length (output @ rest) > MAX_TEMPLATE_BYTES then Inl RenderedLimit else Inr (output @ rest))
      | Some start \<Rightarrow>
          (case find_sub ''}}'' (drop (start + 2) rest) of
             None \<Rightarrow> Inl UnterminatedVariable
           | Some end \<Rightarrow>
               (case validate_name (take end (drop (start + 2) rest)) ''template variable'' of
                  Inl e \<Rightarrow> Inl e
                | Inr _ \<Rightarrow>
                    (case map_of vars (take end (drop (start + 2) rest)) of
                       None \<Rightarrow> Inl (MissingVariable (take end (drop (start + 2) rest)))
                     | Some val \<Rightarrow>
                         (if length (output @ take start rest @ val) > MAX_TEMPLATE_BYTES
                          then Inl RenderedLimit
                          else render_loop vars (output @ take start rest @ val)
                                 (drop (end + 2) (drop (start + 2) rest)))))))"
  by pat_completeness auto
termination
  by (relation "measure (\<lambda>(vars, output, rest). length rest)") (auto dest!: find_sub_SomeD)

declare render_loop.simps [simp del]

definition render :: "string \<Rightarrow> (string \<times> string) list \<Rightarrow> scenario_error + string" where
  "render template vars =
     (if length template > MAX_TEMPLATE_BYTES then Inl TemplateLimit else render_loop vars [] template)"

definition replace_target ::
  "ext_lib \<Rightarrow> (string \<times> string) list \<Rightarrow> json \<Rightarrow> json_pointer_replacement \<Rightarrow> scenario_error + json" where
  "replace_target X vars v r =
     (case x_json_pointer_mut X v (jr_pointer r) (\<lambda>t. t) of
        None \<Rightarrow> Inl TransformTargetMissing
      | Some _ \<Rightarrow> rbind (render (jr_value_template r) vars) (\<lambda>text.
          ok_or TransformTargetMissing (x_json_pointer_mut X v (jr_pointer r) (\<lambda>_. JString text))))"

definition render_body :: "ext_lib \<Rightarrow> scenario_response \<Rightarrow> (string \<times> string) list \<Rightarrow> scenario_error + string" where
  "render_body X response vars =
     rbind (render (sr_body_template response) vars) (\<lambda>body.
       if sr_replacements response = [] then Inr body
       else rbind (ok_or TransformBodyInvalid (x_json_parse X body)) (\<lambda>v.
         rbind (try_fold (replace_target X vars) v (sr_replacements response)) (\<lambda>v'.
         rbind (ok_or TransformSerialization (x_json_print X v')) (\<lambda>body'.
         if length body' > MAX_TEMPLATE_BYTES then Inl RenderedJsonLimit else Inr body'))))"

definition render_headers :: "header_entry list \<Rightarrow> (string \<times> string) list \<Rightarrow> scenario_error + header_entry list" where
  "render_headers headers vars =
     collect_res (\<lambda>h. rbind (render (h_value h) vars) (\<lambda>v. Inr \<lparr>h_name = h_name h, h_value = v\<rparr>)) headers"

definition render_response ::
  "ext_lib \<Rightarrow> scenario_response \<Rightarrow> (string \<times> string) list \<Rightarrow> scenario_error + rendered_scenario_response" where
  "render_response X response vars =
     rbind (render_body X response vars) (\<lambda>body.
       if \<not> status_in_range (sr_status response) then Inl InvalidStatus
       else rbind (render_headers (sr_headers response) vars) (\<lambda>headers.
         Inr \<lparr>rr_status = sr_status response, rr_headers = headers, rr_body = body, rr_fault = sr_fault response\<rparr>))"

definition transition_matches :: "string \<Rightarrow> http_request \<Rightarrow> scenario_transition \<Rightarrow> bool" where
  "transition_matches state request t \<longleftrightarrow>
     tr_from t = state \<and> (\<forall>predicate\<in>set (tr_when t). predicate_matches predicate request)"

definition needs_json :: "scenario_transition \<Rightarrow> bool" where
  "needs_json t \<longleftrightarrow> (\<exists>e\<in>set (tr_extract t). case ve_source e of JsonPointer _ \<Rightarrow> True | _ \<Rightarrow> False)"

definition extraction_json :: "ext_lib \<Rightarrow> scenario_transition \<Rightarrow> bytes \<Rightarrow> scenario_error + json option" where
  "extraction_json X t body =
     (if needs_json t then
        (if length body > MAX_JSON_BYTES then Inl JsonBodyLimit
         else rbind (ok_or JsonBodyInvalid (x_json_parse X body)) (\<lambda>v. Inr (Some v)))
      else Inr None)"

definition advance ::
  "ext_lib \<Rightarrow> scenario_runtime \<Rightarrow> http_request \<Rightarrow> bytes
     \<Rightarrow> scenario_runtime \<times> (scenario_error + scenario_step option)" where
  "advance X self request body =
     (case find (transition_matches (rt_state self) request) (sc_transitions (rt_scenario self)) of
        None \<Rightarrow> (self, Inr None)
      | Some t \<Rightarrow>
          (if length (tr_extract t) + length (rt_variables self) > MAX_VARIABLES
           then (self, Inl VariableCountLimit)
           else case extraction_json X t body of
             Inl e \<Rightarrow> (self, Inl e)
           | Inr json_body \<Rightarrow>
               (case extract_variables X (tr_extraction_failure t) request json_body (rt_redaction self)
                       (tr_extract t) (rt_variables self) of
                  Inl e \<Rightarrow> (self, Inl e)
                | Inr None \<Rightarrow> (self, Inr None)
                | Inr (Some next_variables) \<Rightarrow>
                    (case render_response X (tr_response t) next_variables of
                       Inl e \<Rightarrow> (self, Inl e)
                     | Inr response \<Rightarrow>
                         (let previous_state = rt_state self;
                              self = self\<lparr>rt_state := tr_next_state t, rt_variables := next_variables\<rparr>
                          in (self, Inr (Some
                               \<lparr>step_scenario_id = sc_id (rt_scenario self),
                                step_previous_state = previous_state, step_next_state = rt_state self,
                                step_response = response\<rparr>)))))))"

section \<open>What validation accepts\<close>

definition name_ok :: "string \<Rightarrow> bool" where
  "name_ok val \<longleftrightarrow> val \<noteq> [] \<and> length val \<le> MAX_NAME_BYTES \<and> (\<forall>c\<in>set val. is_ascii_alnum c \<or> c \<in> set ''_-.'')"

definition pointer_ok :: "string \<Rightarrow> bool" where
  "pointer_ok p \<longleftrightarrow> length p \<le> MAX_NAME_BYTES \<and> (p = [] \<or> starts_with ''/'' p)"

definition source_ok :: "variable_source \<Rightarrow> bool" where
  "source_ok src = (case src of
       PathSegment index \<Rightarrow> index \<le> 1024 | SourceQuery key \<Rightarrow> name_ok key | SourceHeader name \<Rightarrow> name_ok name
     | JsonPointer p \<Rightarrow> pointer_ok p | PriorVariable name \<Rightarrow> name_ok name)"

definition extractions_ok :: "variable_extraction list \<Rightarrow> bool" where
  "extractions_ok es \<longleftrightarrow> distinct (map ve_name es) \<and> (\<forall>e\<in>set es. name_ok (ve_name e) \<and> source_ok (ve_source e))"

definition fault_ok :: "scenario_fault \<Rightarrow> bool" where
  "fault_ok f = (case f of
       ResponseHeadDelay d \<Rightarrow> unat d \<le> 30000
     | BodyChunkDelay d n \<Rightarrow> unat d \<le> 30000 \<and> 0 < unat n \<and> unat n \<le> 16777216
     | _ \<Rightarrow> True)"

lemma validate_name_iff [res_simps]: "validate_name val label = Inr u \<longleftrightarrow> name_ok val"
  by (auto simp: validate_name_def name_ok_def)

lemma fault_validate_iff [res_simps]: "fault_validate f = Inr u \<longleftrightarrow> fault_ok f"
  by (cases f)
    (auto simp: fault_ok_def MAX_FAULT_DELAY_MS_def MAX_FAULT_CHUNK_BYTES_def word_le_nat_alt word_less_nat_alt
      unat_gt_0)

lemma validate_extraction_snoc:
  "extractions_ok es \<Longrightarrow> validate_extraction (rev (map ve_name es)) e = Inr t \<longleftrightarrow>
     extractions_ok (es @ [e]) \<and> t = rev (map ve_name (es @ [e]))"
  by (cases "ve_source e")
    (auto simp: validate_extraction_def extractions_ok_def source_ok_def pointer_ok_def res_simps not_less
      split: if_splits)

interpretation extraction_names: cursor_loop validate_extraction "\<lambda>es. rev (map ve_name es)" extractions_ok
  by unfold_locales (simp_all add: validate_extraction_snoc, auto simp: extractions_ok_def)

definition states_ok :: "string list \<Rightarrow> bool" where
  "states_ok ss \<longleftrightarrow> distinct ss \<and> (\<forall>s\<in>set ss. name_ok s)"

lemma validate_state_snoc:
  "states_ok ss \<Longrightarrow> validate_state (rev ss) s = Inr t \<longleftrightarrow> states_ok (ss @ [s]) \<and> t = rev (ss @ [s])"
  by (auto simp: validate_state_def states_ok_def res_simps split: if_splits)

interpretation state_names: cursor_loop validate_state rev states_ok
  by unfold_locales (simp_all add: validate_state_snoc, auto simp: states_ok_def)

definition transition_ok :: "scenario_transition \<Rightarrow> bool" where
  "transition_ok t \<longleftrightarrow>
     length (tr_extract t) \<le> MAX_VARIABLES \<and> extractions_ok (tr_extract t)
     \<and> length (sr_body_template (tr_response t)) \<le> MAX_TEMPLATE_BYTES
     \<and> length (sr_replacements (tr_response t)) \<le> 32
     \<and> (\<forall>r\<in>set (sr_replacements (tr_response t)).
           pointer_ok (jr_pointer r) \<and> length (jr_value_template r) \<le> MAX_TEMPLATE_BYTES)
     \<and> status_in_range (sr_status (tr_response t))
     \<and> (\<forall>f\<in>set_option (sr_fault (tr_response t)). fault_ok f)
     \<and> (\<forall>h\<in>set (sr_headers (tr_response t)). validate_response_header h = Inr ())
     \<and> (\<forall>p\<in>set (tr_when t). validate_predicate p = Inr ())"

definition scenario_ok :: "scenario \<Rightarrow> bool" where
  "scenario_ok sc \<longleftrightarrow>
     name_ok (sc_id sc) \<and> sc_states sc \<noteq> [] \<and> length (sc_states sc) \<le> MAX_STATES \<and> states_ok (sc_states sc)
     \<and> sc_initial_state sc \<in> set (sc_states sc)
     \<and> length (sc_transitions sc) \<le> MAX_TRANSITIONS
     \<and> (\<forall>t\<in>set (sc_transitions sc).
           tr_from t \<in> set (sc_states sc) \<and> tr_next_state t \<in> set (sc_states sc) \<and> transition_ok t)"

lemma validate_replacement_iff [res_simps]:
  "validate_replacement r = Inr u \<longleftrightarrow> pointer_ok (jr_pointer r) \<and> length (jr_value_template r) \<le> MAX_TEMPLATE_BYTES"
  by (auto simp: validate_replacement_def pointer_ok_def)

lemma validate_transition_iff [res_simps]: "validate_transition t = Inr () \<longleftrightarrow> transition_ok t"
  using extraction_names.accepts_iff [of "tr_extract t"]
  by (cases "sr_fault (tr_response t)") (auto simp: validate_transition_def transition_ok_def res_simps not_less)

definition scenarios_ok :: "scenario list \<Rightarrow> bool" where
  "scenarios_ok scs \<longleftrightarrow> distinct (map sc_id scs) \<and> (\<forall>sc\<in>set scs. scenario_ok sc)"

lemma validate_scenario_snoc:
  "scenarios_ok scs \<Longrightarrow> validate_scenario (rev (map sc_id scs)) sc = Inr t \<longleftrightarrow>
     scenarios_ok (scs @ [sc]) \<and> t = rev (map sc_id (scs @ [sc]))"
  using state_names.accepts_iff [of "sc_states sc"]
  by (auto simp: validate_scenario_def scenarios_ok_def scenario_ok_def res_simps not_less split: if_splits)

interpretation scenario_ids: cursor_loop validate_scenario "\<lambda>scs. rev (map sc_id scs)" scenarios_ok
  by unfold_locales (simp_all add: validate_scenario_snoc, auto simp: scenarios_ok_def)

lemma rules_validate_iff [res_simps]:
  "rules_validate r = Inr () \<longleftrightarrow>
     rules_schema_version r = RULES_SCHEMA_VERSION \<and> length (rules_scenarios r) \<le> MAX_SCENARIOS
     \<and> scenarios_ok (rules_scenarios r)"
  using scenario_ids.accepts_iff [of "rules_scenarios r"]
  by (auto simp: rules_validate_def res_simps not_less)

section \<open>Templates\<close>

text \<open>A template as its author means it: literal text and variables.\<close>

datatype piece = Lit string | Var string

fun show_piece :: "piece \<Rightarrow> string" where
  "show_piece (Lit t) = t"
| "show_piece (Var n) = ''{{'' @ n @ ''}}''"

fun piece_value :: "(string \<times> string) list \<Rightarrow> piece \<Rightarrow> string" where
  "piece_value vars (Lit t) = t"
| "piece_value vars (Var n) = (case map_of vars n of None \<Rightarrow> [] | Some v \<Rightarrow> v)"

fun piece_ok :: "(string \<times> string) list \<Rightarrow> piece \<Rightarrow> bool" where
  "piece_ok vars (Lit t) = (CHR ''{'' \<notin> set t)"
| "piece_ok vars (Var n) = (name_ok n \<and> map_of vars n \<noteq> None)"

definition show_template :: "piece list \<Rightarrow> string" where
  "show_template ps = concat (map show_piece ps)"

lemma name_no_brace: "name_ok n \<Longrightarrow> CHR ''}'' \<notin> set n"
proof -
  have "\<not> is_ascii_alnum CHR ''}''" "CHR ''}'' \<notin> set ''_-.''" by code_simp+
  then show "name_ok n \<Longrightarrow> CHR ''}'' \<notin> set n" by (auto simp: name_ok_def)
qed

lemma render_loop_pieces:
  assumes "\<forall>p\<in>set ps. piece_ok vars p" and "CHR ''{'' \<notin> set pre"
    and "length (out @ pre @ concat (map (piece_value vars) ps)) \<le> MAX_TEMPLATE_BYTES"
  shows "render_loop vars out (pre @ show_template ps) = Inr (out @ pre @ concat (map (piece_value vars) ps))"
  using assms
proof (induction ps arbitrary: out pre)
  case Nil
  then show ?case
    by (subst render_loop.simps) (simp add: show_template_def find_sub_free)
next
  case (Cons p ps)
  show ?case
  proof (cases p)
    case (Lit t)
    then show ?thesis using Cons.IH [of "pre @ t" out] Cons.prems by (simp add: show_template_def)
  next
    case (Var n)
    then obtain v where n: "name_ok n" and v: "map_of vars n = Some v" using Cons.prems(1) by auto
    let ?tail = "show_template ps"
    have start: "find_sub ''{{'' (pre @ show_template (p # ps)) = Some (length pre)"
      using find_sub_at [OF Cons.prems(2), of "''{''" "n @ ''}}'' @ ?tail"] Var by (simp add: show_template_def)
    have after: "drop (length pre + 2) (pre @ show_template (p # ps)) = n @ ''}}'' @ ?tail"
      using Var by (simp add: show_template_def)
    have stop: "find_sub ''}}'' (n @ ''}}'' @ ?tail) = Some (length n)"
      using find_sub_at [OF name_no_brace [OF n], of "''}''" ?tail] by simp
    have "validate_name n ''template variable'' = Inr ()" using n by (simp add: res_simps)
    moreover have "length (out @ pre @ v) \<le> MAX_TEMPLATE_BYTES" using Cons.prems(3) Var v by simp
    moreover have "render_loop vars (out @ pre @ v) ([] @ ?tail) =
        Inr ((out @ pre @ v) @ [] @ concat (map (piece_value vars) ps))"
      using Cons.prems Var v by (intro Cons.IH) auto
    ultimately show ?thesis
      using start after stop Var v by (subst render_loop.simps) simp
  qed
qed

lemma render_loop_bounded: "render_loop vars out t = Inr s \<Longrightarrow> length s \<le> MAX_TEMPLATE_BYTES"
proof (induction vars out t rule: render_loop.induct)
  case (1 vars out t)
  show ?case
  proof (cases "find_sub ''{{'' t")
    case None
    then show ?thesis using "1.prems" by (subst (asm) render_loop.simps) (auto split: if_splits)
  next
    case (Some n)
    with "1.prems" show ?thesis
      by (subst (asm) render_loop.simps)
        (auto simp del: drop_drop append_assoc split: option.splits sum.splits if_splits
          intro: "1.IH" [OF Some, simplified not_less])
  qed
qed

lemma render_bounded: "render t vars = Inr s \<Longrightarrow> length s \<le> MAX_TEMPLATE_BYTES"
  by (auto simp: render_def dest: render_loop_bounded split: if_splits)

text \<open>
  Rendering substitutes each variable once and copies everything else: for a template
  made of brace-free text and valid, defined variables, the output is the text with the values in
  place, and a value is never itself expanded, even when it looks like a template.
\<close>

theorem render_substitutes:
  assumes "\<forall>p\<in>set ps. piece_ok vars p" and "length (show_template ps) \<le> MAX_TEMPLATE_BYTES"
    and "length (concat (map (piece_value vars) ps)) \<le> MAX_TEMPLATE_BYTES"
  shows "render (show_template ps) vars = Inr (concat (map (piece_value vars) ps))"
  using assms render_loop_pieces [of ps vars "[]" "[]"] by (simp add: render_def)

lemma render_substitutes_witness: "render ''id={{a}}!'' [(''a'', ''{{b}}'')] = Inr ''id={{b}}!''"
proof -
  let ?ps = "[Lit ''id='', Var ''a'', Lit ''!'']"
  let ?vars = "[(''a'', ''{{b}}'')]"
  have "\<forall>p\<in>set ?ps. piece_ok ?vars p" by code_simp
  moreover have "length (show_template ?ps) \<le> MAX_TEMPLATE_BYTES" by code_simp
  moreover have "length (concat (map (piece_value ?vars) ?ps)) \<le> MAX_TEMPLATE_BYTES" by code_simp
  ultimately have "render (show_template ?ps) ?vars = Inr (concat (map (piece_value ?vars) ?ps))"
    by (rule render_substitutes)
  then show ?thesis by (simp add: show_template_def)
qed

section \<open>One step\<close>

lemma extract_variables_inv:
  assumes "extract_variables X fb req jb red es vars = Inr (Some vars')"
    and "distinct (map fst vars)" and "\<forall>kv\<in>set vars. length (snd kv) \<le> MAX_VALUE_BYTES"
  shows "distinct (map fst vars') \<and> (\<forall>kv\<in>set vars'. length (snd kv) \<le> MAX_VALUE_BYTES)
    \<and> fst ` set vars' = fst ` set vars \<union> ve_name ` set es"
  using assms
proof (induction es arbitrary: vars)
  case (Cons e es)
  from Cons.prems(1) obtain v where len: "length v \<le> MAX_VALUE_BYTES"
      and rest: "extract_variables X fb req jb red es (AList.update (ve_name e) v vars) = Inr (Some vars')"
    by (auto simp: not_less split: sum.splits extraction_failure_behavior.splits if_splits)
  have "\<forall>kv\<in>set (AList.update (ve_name e) v vars). length (snd kv) \<le> MAX_VALUE_BYTES"
    using Cons.prems(3) len by (induction vars) auto
  moreover have "fst ` set (AList.update (ve_name e) v vars) = insert (ve_name e) (fst ` set vars)"
    by (induction vars) auto
  ultimately show ?case
    using Cons.IH [OF rest] Cons.prems(2) by (auto simp: distinct_update)
qed simp

lemma distinct_keys_length: "distinct (map fst vars) \<Longrightarrow> length vars = card (fst ` set vars)"
  by (metis distinct_card length_map set_map)

text \<open>The two ways a request can end: nothing changes, or the first matching transition is taken.\<close>

lemma advance_cases:
  assumes "advance X rt req body = (rt', res)"
  obtains (Stays) "rt' = rt" and "\<And>st. res \<noteq> Inr (Some st)"
  | (Moves) t json_body vars resp where
      "find (transition_matches (rt_state rt) req) (sc_transitions (rt_scenario rt)) = Some t"
      and "length (tr_extract t) + length (rt_variables rt) \<le> MAX_VARIABLES"
      and "extract_variables X (tr_extraction_failure t) req json_body (rt_redaction rt) (tr_extract t)
             (rt_variables rt) = Inr (Some vars)"
      and "render_response X (tr_response t) vars = Inr resp"
      and "rt' = rt\<lparr>rt_state := tr_next_state t, rt_variables := vars\<rparr>"
      and "res = Inr (Some \<lparr>step_scenario_id = sc_id (rt_scenario rt), step_previous_state = rt_state rt,
             step_next_state = tr_next_state t, step_response = resp\<rparr>)"
proof (cases "find (transition_matches (rt_state rt) req) (sc_transitions (rt_scenario rt))")
  case None
  with assms show thesis by (intro Stays) (auto simp: advance_def)
next
  case found: (Some t)
  show thesis
  proof (cases "length (tr_extract t) + length (rt_variables rt) > MAX_VARIABLES")
    case True
    with found assms show thesis by (intro Stays) (auto simp: advance_def)
  next
    case room: False
    show thesis
    proof (cases "extraction_json X t body")
      case (Inl e)
      with found room assms show thesis by (intro Stays) (auto simp: advance_def)
    next
      case json: (Inr jb)
      show thesis
      proof (cases "extract_variables X (tr_extraction_failure t) req jb (rt_redaction rt) (tr_extract t) (rt_variables rt)")
        case (Inl e)
        with found room json assms show thesis by (intro Stays) (auto simp: advance_def)
      next
        case vars: (Inr ov)
        show thesis
        proof (cases ov)
          case None
          with found room json vars assms show thesis by (intro Stays) (auto simp: advance_def)
        next
          case (Some vars')
          note facts = found room json vars this
          show thesis
          proof (cases "render_response X (tr_response t) vars'")
            case (Inl e)
            with facts assms show thesis by (intro Stays) (auto simp: advance_def)
          next
            case (Inr resp)
            with facts assms show thesis
              by (intro Moves [of t jb vars' resp]) (simp_all add: advance_def not_less)
          qed
        qed
      qed
    qed
  qed
qed

lemma render_response_fields:
  "render_response X r vars = Inr resp \<Longrightarrow>
     rr_status resp = sr_status r \<and> rr_fault resp = sr_fault r \<and> status_in_range (sr_status r)
     \<and> length (rr_body resp) \<le> MAX_TEMPLATE_BYTES
     \<and> map h_name (rr_headers resp) = map h_name (sr_headers r)"
proof -
  assume *: "render_response X r vars = Inr resp"
  then obtain body hs where body: "render_body X r vars = Inr body"
      and hs: "render_headers (sr_headers r) vars = Inr hs"
      and resp: "resp = \<lparr>rr_status = sr_status r, rr_headers = hs, rr_body = body, rr_fault = sr_fault r\<rparr>"
      and st: "status_in_range (sr_status r)"
    by (auto simp: render_response_def res_simps)
  have "length body \<le> MAX_TEMPLATE_BYTES"
    using body by (auto simp: render_body_def res_simps dest: render_bounded split: if_splits)
  moreover have "map h_name hs = map h_name (sr_headers r)"
    using hs unfolding render_headers_def collect_res_Inr_iff
    by (induction rule: list_all2_induct) (auto simp: res_simps)
  ultimately show ?thesis using st by (simp add: resp)
qed

section \<open>A replay server's scenario\<close>

text \<open>The runtimes a server can hold: a fresh one, and what any request makes of one.\<close>

inductive scenario_reach :: "ext_lib \<Rightarrow> scenario_rules \<Rightarrow> string \<Rightarrow> redaction_config \<Rightarrow> scenario_runtime \<Rightarrow> bool"
  for X rules sid redaction where
  start: "runtime_with_redaction rules sid redaction = Inr rt \<Longrightarrow> scenario_reach X rules sid redaction rt"
| request: "scenario_reach X rules sid redaction rt \<Longrightarrow>
     scenario_reach X rules sid redaction (fst (advance X rt req body))"

definition runtime_inv :: "scenario_rules \<Rightarrow> string \<Rightarrow> redaction_config \<Rightarrow> scenario_runtime \<Rightarrow> bool" where
  "runtime_inv rules sid redaction rt \<longleftrightarrow>
     rt_scenario rt \<in> set (rules_scenarios rules) \<and> sc_id (rt_scenario rt) = sid
     \<and> scenario_ok (rt_scenario rt)
     \<and> rt_state rt \<in> set (sc_states (rt_scenario rt))
     \<and> rt_redaction rt = redaction
     \<and> distinct (map fst (rt_variables rt)) \<and> length (rt_variables rt) \<le> MAX_VARIABLES
     \<and> (\<forall>kv\<in>set (rt_variables rt). length (snd kv) \<le> MAX_VALUE_BYTES)"

lemma find_SomeD: "find P xs = Some x \<Longrightarrow> x \<in> set xs \<and> P x"
  by (auto simp: find_Some_iff)

lemma runtime_start_inv:
  "runtime_with_redaction rules sid redaction = Inr rt \<Longrightarrow> runtime_inv rules sid redaction rt"
  by (auto simp: runtime_with_redaction_def runtime_inv_def res_simps scenarios_ok_def scenario_ok_def
      dest: find_SomeD)

lemma advance_inv:
  assumes "runtime_inv rules sid redaction rt"
  shows "runtime_inv rules sid redaction (fst (advance X rt req body))"
proof -
  obtain rt' res where adv: "advance X rt req body = (rt', res)" by (metis prod.exhaust)
  from adv show ?thesis
  proof (cases rule: advance_cases)
    case Stays
    then show ?thesis using adv assms by simp
  next
    case (Moves t jb vars resp)
    have t: "t \<in> set (sc_transitions (rt_scenario rt))" using Moves(1) by (auto dest: find_SomeD)
    have inv: "distinct (map fst vars)" "\<forall>kv\<in>set vars. length (snd kv) \<le> MAX_VALUE_BYTES"
        "fst ` set vars = fst ` set (rt_variables rt) \<union> ve_name ` set (tr_extract t)"
      using extract_variables_inv [OF Moves(3)] assms by (auto simp: runtime_inv_def)
    have "length vars \<le> length (rt_variables rt) + length (tr_extract t)"
      using inv distinct_keys_length [OF inv(1)]
      by (metis (no_types, lifting) card_Un_le card_length le_trans add_le_mono length_map set_map)
    then show ?thesis
      using assms t inv adv Moves(2,5) by (auto simp: runtime_inv_def scenario_ok_def)
  qed
qed

lemma scenario_reach_inv: "scenario_reach X rules sid redaction rt \<Longrightarrow> runtime_inv rules sid redaction rt"
  by (induction rule: scenario_reach.induct) (auto intro: runtime_start_inv advance_inv)

definition sample_transition :: scenario_transition where
  "sample_transition =
     \<lparr>tr_from = ''start'', tr_when = [PredMethod ''GET''],
      tr_extract = [\<lparr>ve_name = ''cart'', ve_source = PathSegment 1\<rparr>], tr_extraction_failure = Abort,
      tr_response = \<lparr>sr_status = 201, sr_headers = [\<lparr>h_name = ''X-Cart'', h_value = ''{{cart}}''\<rparr>],
                     sr_body_template = ''cart={{cart}}'', sr_replacements = [], sr_fault = None\<rparr>,
      tr_next_state = ''done''\<rparr>"

definition sample_rules :: scenario_rules where
  "sample_rules = \<lparr>rules_schema_version = 1, rules_scenarios =
     [\<lparr>sc_id = ''shop'', sc_initial_state = ''start'', sc_states = [''start'', ''done''],
       sc_transitions = [sample_transition]\<rparr>]\<rparr>"

definition sample_runtime :: scenario_runtime where
  "sample_runtime = \<lparr>rt_scenario = rules_scenarios sample_rules ! 0, rt_state = ''start'', rt_variables = [],
                     rt_redaction = default_secure\<rparr>"

definition sample_step :: scenario_step where
  "sample_step = \<lparr>step_scenario_id = ''shop'', step_previous_state = ''start'', step_next_state = ''done'',
     step_response = \<lparr>rr_status = 201, rr_headers = [\<lparr>h_name = ''X-Cart'', h_value = ''abc''\<rparr>],
                      rr_body = ''cart=abc'', rr_fault = None\<rparr>\<rparr>"

lemma sample_start: "runtime_with_redaction sample_rules ''shop'' default_secure = Inr sample_runtime"
  by code_simp

lemma sample_advance: "snd (advance demo_lib sample_runtime sample_request []) = Inr (Some sample_step)"
  by code_simp

text \<open>
  Property C30: Whatever requests a replay server answers, its scenario is the selected one, its
  state is one the scenario declares, and it holds at most 64 variables with distinct names, each
  at most 4096 bytes.
\<close>

theorem scenario_stays_well_formed:
  assumes "scenario_reach X rules sid redaction rt"
  shows "rt_scenario rt \<in> set (rules_scenarios rules) \<and> sc_id (rt_scenario rt) = sid
    \<and> rt_state rt \<in> set (sc_states (rt_scenario rt))
    \<and> distinct (map fst (rt_variables rt)) \<and> length (rt_variables rt) \<le> 64
    \<and> (\<forall>kv\<in>set (rt_variables rt). length (snd kv) \<le> 4096)"
  using scenario_reach_inv [OF assms] by (simp add: runtime_inv_def MAX_VARIABLES_def MAX_VALUE_BYTES_def)

lemma scenario_stays_well_formed_witness:
  "rt_state (fst (advance demo_lib sample_runtime sample_request [])) \<in> {''start'', ''done''}"
proof -
  have "scenario_reach demo_lib sample_rules ''shop'' default_secure (fst (advance demo_lib sample_runtime sample_request []))"
    by (intro scenario_reach.intros sample_start)
  from scenario_stays_well_formed [OF this] show ?thesis by (auto simp: sample_rules_def)
qed

text \<open>
  A request either leaves the runtime exactly as it was (no transition matches, the
  extraction skips, or anything fails), or takes the first transition that leaves the current state
  and whose predicates all hold; the answer then reports the two states truly, and its status,
  fault delays and sizes are within the documented bounds.
\<close>

theorem advance_is_transactional:
  assumes "scenario_reach X rules sid redaction rt" and "advance X rt req body = (rt', res)"
  shows "(rt' = rt \<and> res \<notin> range (Inr \<circ> Some))
    \<or> (\<exists>t st. find (transition_matches (rt_state rt) req) (sc_transitions (rt_scenario rt)) = Some t
         \<and> res = Inr (Some st) \<and> step_previous_state st = rt_state rt \<and> step_next_state st = rt_state rt'
         \<and> rt_state rt' = tr_next_state t \<and> rt_scenario rt' = rt_scenario rt
         \<and> status_in_range (rr_status (step_response st))
         \<and> length (rr_body (step_response st)) \<le> 16384
         \<and> (\<forall>f\<in>set_option (rr_fault (step_response st)). fault_ok f))"
  using assms(2)
proof (cases rule: advance_cases)
  case Stays
  then show ?thesis by auto
next
  case (Moves t jb vars resp)
  have "scenario_ok (rt_scenario rt)" using scenario_reach_inv [OF assms(1)] by (simp add: runtime_inv_def)
  moreover have "t \<in> set (sc_transitions (rt_scenario rt))" using Moves(1) by (auto dest: find_SomeD)
  ultimately have "transition_ok t" by (simp add: scenario_ok_def)
  then show ?thesis
    using Moves render_response_fields [OF Moves(4)] by (auto simp: transition_ok_def MAX_TEMPLATE_BYTES_def)
qed

lemma advance_is_transactional_witness:
  "rt_state (fst (advance demo_lib sample_runtime sample_request [])) = ''done''"
proof -
  have "scenario_reach demo_lib sample_rules ''shop'' default_secure sample_runtime"
    by (intro scenario_reach.intros sample_start)
  from advance_is_transactional [OF this prod.collapse [symmetric], of sample_request "[]"]
  show ?thesis unfolding sample_advance by (auto simp: sample_step_def)
qed

text \<open>
  Property C35: A rules document is accepted exactly when its schema is known, the scenario
  identifiers are distinct, and every scenario is closed: distinct named states, an initial state
  among them, and transitions between declared states whose names, pointers, templates, statuses,
  faults and predicates are within bounds.
\<close>

theorem rules_accepted_iff:
  "is_ok (rules_validate rules) \<longleftrightarrow>
     rules_schema_version rules = RULES_SCHEMA_VERSION \<and> length (rules_scenarios rules) \<le> 128
     \<and> scenarios_ok (rules_scenarios rules)"
  by (auto simp: is_ok_iff rules_validate_iff MAX_SCENARIOS_def)

section \<open>Sensitive values and scenarios\<close>

text \<open>Requests that differ in the values of sensitive headers and query keys only.\<close>

definition requests_agree :: "redaction_config \<Rightarrow> http_request \<Rightarrow> http_request \<Rightarrow> bool" where
  "requests_agree red a b \<longleftrightarrow>
     req_method a = req_method b \<and> req_path a = req_path b
     \<and> query_agree (rc_query_keys red) (req_query a) (req_query b)
     \<and> headers_agree (rc_headers red) (req_headers a) (req_headers b)"

definition predicate_sensitive :: "redaction_config \<Rightarrow> request_predicate \<Rightarrow> bool" where
  "predicate_sensitive red p = (case p of
       PredQuery key _ \<Rightarrow> key \<in> set (rc_query_keys red)
     | PredHeader name _ \<Rightarrow> to_lower name \<in> set (rc_headers red)
     | _ \<Rightarrow> False)"

lemma list_all2_Ex:
  assumes "list_all2 R xs ys" and "\<And>x y. R x y \<Longrightarrow> P x \<longleftrightarrow> Q y"
  shows "(\<exists>x\<in>set xs. P x) \<longleftrightarrow> (\<exists>y\<in>set ys. Q y)"
  using assms(1) by (induction rule: list_all2_induct) (auto simp: assms(2))

lemma list_all2_find:
  assumes "list_all2 R xs ys" and "\<And>x y. R x y \<Longrightarrow> P x \<longleftrightarrow> Q y" and "\<And>x y. R x y \<Longrightarrow> P x \<Longrightarrow> f x = g y"
  shows "map_option f (find P xs) = map_option g (find Q ys)"
  using assms(1) by (induction rule: list_all2_induct) (auto simp: assms(2,3))

lemma predicate_matches_agree:
  assumes "requests_agree red a b" and "\<not> predicate_sensitive red p"
  shows "predicate_matches p a = predicate_matches p b"
proof (cases p)
  case (PredQuery key val)
  then show ?thesis
    using assms by (auto simp: requests_agree_def predicate_sensitive_def query_agree_def intro!: list_all2_Ex)
next
  case (PredHeader name val)
  then show ?thesis
    using assms
    by (auto simp: requests_agree_def predicate_sensitive_def headers_agree_def eq_ignore_case_def intro!: list_all2_Ex)
qed (use assms in \<open>simp_all add: requests_agree_def\<close>)

lemma extract_value_agree:
  assumes "requests_agree red a b"
  shows "extract_value X e a jb vars red = extract_value X e b jb vars red"
proof (cases "source_redacted red (ve_source e)")
  case False
  have "source_value X (ve_source e) a jb vars = source_value X (ve_source e) b jb vars"
  proof (cases "ve_source e")
    case (SourceQuery key)
    then show ?thesis
      using assms False
      by (auto simp: source_value_def source_redacted_def requests_agree_def query_agree_def intro!: list_all2_find)
  next
    case (SourceHeader name)
    then show ?thesis
      using assms False
      by (auto simp: source_value_def source_redacted_def requests_agree_def headers_agree_def eq_ignore_case_def
          intro!: list_all2_find)
  qed (use assms in \<open>simp_all add: source_value_def requests_agree_def\<close>)
  then show ?thesis by (simp add: extract_value_def)
qed (simp add: extract_value_def)

lemma extract_variables_agree:
  assumes "requests_agree red a b"
  shows "extract_variables X fb a jb red es vars = extract_variables X fb b jb red es vars"
proof (induction es arbitrary: vars)
  case (Cons e es)
  then show ?case using extract_value_agree [OF assms, of X e jb vars]
    by (auto split: sum.splits extraction_failure_behavior.splits)
qed simp



text \<open>
  The block on sensitive JSON paths compares spellings, not the values they reach: an
  extraction of the whole document is allowed whenever the empty pointer itself is not listed, and
  yields the text of the document with everything in it, the values at listed paths included.
\<close>

theorem root_extraction_is_not_blocked:
  assumes "pointer_lawful X" and "[] \<notin> set (rc_json_paths red)"
    and "v = JObject entries"
  shows "extract_value X \<lparr>ve_name = name, ve_source = JsonPointer []\<rparr> request (Some v) vars red
    = Inr (x_json_display X v)"
  using assms by (simp add: extract_value_def source_redacted_def source_value_def pointer_lawful_root)

lemma root_extraction_is_not_blocked_witness:
  "extract_value demo_lib \<lparr>ve_name = ''all'', ve_source = JsonPointer []\<rparr> sample_request
     (Some (JObject [(''secret'', JString ''hunter2'')])) []
     \<lparr>rc_headers = [], rc_query_keys = [], rc_json_paths = [''/secret'']\<rparr> = Inr ''secret:hunter2''
   \<and> extract_value demo_lib \<lparr>ve_name = ''s'', ve_source = JsonPointer ''/secret''\<rparr> sample_request
     (Some (JObject [(''secret'', JString ''hunter2'')])) []
     \<lparr>rc_headers = [], rc_query_keys = [], rc_json_paths = [''/secret'']\<rparr> = Inl ExtractionRedacted"
proof
  show "extract_value demo_lib \<lparr>ve_name = ''all'', ve_source = JsonPointer []\<rparr> sample_request
     (Some (JObject [(''secret'', JString ''hunter2'')])) []
     \<lparr>rc_headers = [], rc_query_keys = [], rc_json_paths = [''/secret'']\<rparr> = Inr ''secret:hunter2''"
    unfolding root_extraction_is_not_blocked
      [where red = "\<lparr>rc_headers = [], rc_query_keys = [], rc_json_paths = [''/secret'']\<rparr>",
       OF demo_pointer_lawful _ refl, simplified]
    by (simp add: demo_lib_def)
qed (simp add: extract_value_def source_redacted_def)

section \<open>Extracting again\<close>

lemma advance_variables:
  assumes "scenario_reach X rules sid redaction rt" and "advance X rt req body = (rt', Inr (Some st))"
    and "find (transition_matches (rt_state rt) req) (sc_transitions (rt_scenario rt)) = Some t"
  shows "length (tr_extract t) \<le> length (rt_variables rt')"
  using assms(2)
proof (cases rule: advance_cases)
  case Stays
  then show ?thesis by blast
next
  case (Moves t' jb vars resp)
  have t': "t' = t" using Moves(1) assms(3) by simp
  have inv: "runtime_inv rules sid redaction rt" by (rule scenario_reach_inv [OF assms(1)])
  have "t \<in> set (sc_transitions (rt_scenario rt))" using assms(3) by (auto dest: find_SomeD)
  then have "distinct (map ve_name (tr_extract t))"
    using inv by (auto simp: runtime_inv_def scenario_ok_def transition_ok_def extractions_ok_def)
  then have "length (tr_extract t) = card (ve_name ` set (tr_extract t))"
    by (metis distinct_card length_map set_map)
  also have "\<dots> \<le> card (fst ` set vars)"
    using extract_variables_inv [OF Moves(3)] inv t' by (intro card_mono) (auto simp: runtime_inv_def)
  also have "\<dots> = length vars"
    using extract_variables_inv [OF Moves(3)] inv by (simp add: runtime_inv_def distinct_keys_length)
  finally show ?thesis using Moves(5) by simp
qed

text \<open>
  The variable limit counts an extraction even when it only overwrites: once a
  transition with more than 32 extractions has been taken, a request that would take it, or another
  such transition, again is refused for exceeding 64 variables, although no new name would be bound.
\<close>

theorem large_extraction_cannot_repeat:
  assumes "scenario_reach X rules sid redaction rt" and "advance X rt req body = (rt', Inr (Some st))"
    and "find (transition_matches (rt_state rt) req) (sc_transitions (rt_scenario rt)) = Some t"
    and "find (transition_matches (rt_state rt') req') (sc_transitions (rt_scenario rt')) = Some t'"
    and "length (tr_extract t) > 32" and "length (tr_extract t') > 32"
  shows "advance X rt' req' body' = (rt', Inl VariableCountLimit)"
  using advance_variables [OF assms(1-3)] assms(4-6) by (simp add: advance_def MAX_VARIABLES_def)

definition wide_transition :: scenario_transition where
  "wide_transition =
     \<lparr>tr_from = ''start'', tr_when = [],
      tr_extract = map (\<lambda>i. \<lparr>ve_name = to_dec i, ve_source = PathSegment 0\<rparr>) [0..<33], tr_extraction_failure = Abort,
      tr_response = \<lparr>sr_status = 200, sr_headers = [], sr_body_template = [], sr_replacements = [], sr_fault = None\<rparr>,
      tr_next_state = ''start''\<rparr>"

definition wide_rules :: scenario_rules where
  "wide_rules = \<lparr>rules_schema_version = 1, rules_scenarios =
     [\<lparr>sc_id = ''wide'', sc_initial_state = ''start'', sc_states = [''start''], sc_transitions = [wide_transition]\<rparr>]\<rparr>"

definition wide_runtime :: "(string \<times> string) list \<Rightarrow> scenario_runtime" where
  "wide_runtime vars = \<lparr>rt_scenario = rules_scenarios wide_rules ! 0, rt_state = ''start'', rt_variables = vars,
                        rt_redaction = default_secure\<rparr>"

lemma wide_start: "runtime_with_redaction wide_rules ''wide'' default_secure = Inr (wide_runtime [])"
  by code_simp

definition wide_variables :: "(string \<times> string) list" where
  "wide_variables = map (\<lambda>i. (to_dec i, ''cart'')) [0..<33]"

lemma wide_advance:
  "advance demo_lib (wide_runtime []) sample_request [] =
     (wide_runtime wide_variables, Inr (Some
        \<lparr>step_scenario_id = ''wide'', step_previous_state = ''start'', step_next_state = ''start'',
         step_response = \<lparr>rr_status = 200, rr_headers = [], rr_body = [], rr_fault = None\<rparr>\<rparr>))"
  by code_simp

lemma large_extraction_cannot_repeat_witness:
  "advance demo_lib (wide_runtime wide_variables) sample_request [] =
     (wide_runtime wide_variables, Inl VariableCountLimit)"
proof (rule large_extraction_cannot_repeat [OF _ wide_advance])
  show "scenario_reach demo_lib wide_rules ''wide'' default_secure (wide_runtime [])"
    by (intro scenario_reach.start wide_start)
  show "find (transition_matches (rt_state (wide_runtime [])) sample_request)
      (sc_transitions (rt_scenario (wide_runtime []))) = Some wide_transition"
    by (simp add: wide_runtime_def wide_rules_def wide_transition_def transition_matches_def)
  show "find (transition_matches (rt_state (wide_runtime wide_variables)) sample_request)
      (sc_transitions (rt_scenario (wide_runtime wide_variables))) = Some wide_transition"
    by (simp add: wide_runtime_def wide_rules_def wide_transition_def transition_matches_def)
qed (simp_all add: wide_transition_def)

end
