(* ===== verification/Websocket.thy ===== *)
theory Websocket
  imports Flow_Model External
begin

text \<open>
  WebSocket conversations, \<^verbatim>\<open>crates/eggreplay-core/src/websocket.rs\<close>: the transcript of a session,
  its limits, and the validator a transcript passes before it is stored or replayed. The validator
  keeps, per conversation, the directions already closed and, over the whole transcript, the
  identifiers seen and the running totals.
\<close>

definition WEBSOCKET_SCHEMA_VERSION :: u16 where "WEBSOCKET_SCHEMA_VERSION = 1"

record ws_limits =
  max_conversations :: usize
  max_messages_per_conversation :: usize
  max_messages_per_session :: usize
  max_message_bytes :: u64
  max_total_payload_bytes :: u64
  max_duration_ns :: u64
  max_extension_metadata_bytes :: usize
  max_handshake_header_count :: usize
  max_handshake_header_bytes :: usize
  max_diagnostic_bytes :: usize
  max_control_payload_bytes :: usize
  max_close_reason_bytes :: usize
  max_subprotocols :: usize
  max_subprotocol_bytes :: usize

definition ws_limits_default :: ws_limits where
  "ws_limits_default =
     \<lparr>max_conversations = 1024, max_messages_per_conversation = 100000,
      max_messages_per_session = 1000000, max_message_bytes = 16 * 1024 * 1024,
      max_total_payload_bytes = 1024 * 1024 * 1024, max_duration_ns = 24 * 60 * 60 * 1000000000,
      max_extension_metadata_bytes = 16 * 1024 * 1024, max_handshake_header_count = 128,
      max_handshake_header_bytes = 64 * 1024, max_diagnostic_bytes = 4096,
      max_control_payload_bytes = 125, max_close_reason_bytes = 123, max_subprotocols = 32,
      max_subprotocol_bytes = 128\<rparr>"

datatype ws_direction = ClientToServer | ServerToClient

datatype ws_kind = WText | WBinary | WPing | WPong | WClose

datatype ws_redaction = JsonPointers "string list" | WholeMessage | CloseReason

datatype ws_terminal = CleanClose "u16 option" "string option" | Abnormal string

record ws_message =
  wm_sequence :: u64
  wm_direction :: ws_direction
  wm_delta_ns :: u64
  wm_kind :: ws_kind
  wm_payload :: "body_ref option"
  wm_close_code :: "u16 option"
  wm_close_reason :: "string option"
  wm_redactions :: "ws_redaction list"

record ws_conversation =
  wc_id :: string
  wc_flow_id :: string
  wc_offered_subprotocols :: "string list"
  wc_selected_subprotocol :: "string option"
  wc_messages :: "ws_message list"
  wc_terminal :: ws_terminal

record ws_transcript =
  wt_schema_version :: u16
  wt_conversations :: "ws_conversation list"

datatype ws_error =
    WsUnsupportedSchema | WsConversationCount | WsInvalidId | WsInvalidFlowId | WsDuplicateId
  | WsDuplicateFlowId | WsTooManySubprotocols | WsInvalidSubprotocol | WsSubprotocolNotOffered
  | WsConversationMessages | WsMessageOverflow | WsSessionMessages | WsSequence | WsTiming
  | WsDuration | WsAfterTerminal | WsAfterClose | WsPayloadInvalid | WsPayloadLimit
  | WsPayloadOverflow | WsPayloadSession | WsControlLimit | WsCloseData | WsCloseCode
  | WsCloseReason | WsDuplicateClose | WsCloseMetadata | WsJsonRedaction | WsCloseReasonRedaction
  | WsCleanNeedsBoth | WsCleanNeedsClose | WsTerminalMetadata | WsAbnormalCause
  | WsHeaderCount | WsHeaderOverflow | WsHeaderBytes | WsExtensions | WsBlob flow_error

section \<open>One message\<close>

definition valid_close_code :: "u16 \<Rightarrow> bool" where
  "valid_close_code code \<longleftrightarrow>
     1000 \<le> code \<and> code \<le> 1014 \<and> \<not> (1004 \<le> code \<and> code \<le> 1006) \<or> 3000 \<le> code \<and> code \<le> 4999"

definition is_token_byte :: "char \<Rightarrow> bool" where
  "is_token_byte c \<longleftrightarrow> is_ascii_alnum c \<or> c \<in> set (''!#$%&'' @ [CHR 0x27] @ ''*+-.^_'' @ [CHR 0x60] @ ''|~'')"

fun validate_redaction :: "ws_kind \<Rightarrow> ws_redaction \<Rightarrow> ws_error + unit" where
  "validate_redaction kind (JsonPointers pointers) =
     (if kind \<noteq> WText \<or> length pointers > 256
         \<or> (\<exists>pointer\<in>set pointers. length pointer > 1024 \<or> \<not> starts_with ''/'' pointer)
      then Inl WsJsonRedaction else Inr ())"
| "validate_redaction kind WholeMessage = Inr ()"
| "validate_redaction kind CloseReason = (if kind \<noteq> WClose then Inl WsCloseReasonRedaction else Inr ())"

definition validate_redactions :: "ws_redaction list \<Rightarrow> ws_kind \<Rightarrow> ws_error + unit" where
  "validate_redactions redactions kind = check_all (validate_redaction kind) redactions"

text \<open>The loop variables: the message index, the delta before, the closed directions, the flag and
  the payload total of the session.\<close>

record ws_cursor =
  cur_index :: usize
  cur_prior_delta :: u64
  cur_closed :: "ws_direction list"
  cur_terminated :: bool
  cur_total_payload :: u64

definition payload_length :: "body_ref option \<Rightarrow> ws_error + u64" where
  "payload_length payload = (case payload of
       None \<Rightarrow> Inr 0
     | Some body \<Rightarrow> ok_or WsPayloadInvalid (body_ref_len body))"

definition validate_close :: "ws_limits \<Rightarrow> ws_message \<Rightarrow> ws_cursor \<Rightarrow> ws_error + ws_cursor" where
  "validate_close limits message cursor =
     (if wm_payload message \<noteq> None then Inl WsCloseData
      else if (case wm_close_code message of None \<Rightarrow> False | Some code \<Rightarrow> \<not> valid_close_code code)
      then Inl WsCloseCode
      else if (case wm_close_reason message of None \<Rightarrow> False
               | Some reason \<Rightarrow> length reason > min (max_close_reason_bytes limits) 123
                   \<or> wm_close_code message = None)
      then Inl WsCloseReason
      else if wm_direction message \<in> set (cur_closed cursor) then Inl WsDuplicateClose
      else let closed = wm_direction message # cur_closed cursor
           in Inr (cursor\<lparr>cur_closed := closed, cur_terminated := length closed = 2\<rparr>))"

definition validate_message :: "ws_limits \<Rightarrow> ws_cursor \<Rightarrow> ws_message \<Rightarrow> ws_error + ws_cursor" where
  "validate_message limits cursor message =
     (if wm_sequence message \<noteq> of_nat (cur_index cursor) then Inl WsSequence
      else if cur_index cursor > 0 \<and> wm_delta_ns message < cur_prior_delta cursor then Inl WsTiming
      else if wm_delta_ns message > max_duration_ns limits then Inl WsDuration
      else if cur_terminated cursor then Inl WsAfterTerminal
      else if wm_direction message \<in> set (cur_closed cursor) \<and> wm_kind message \<noteq> WClose then Inl WsAfterClose
      else rbind (payload_length (wm_payload message)) (\<lambda>len.
        if len > max_message_bytes limits then Inl WsPayloadLimit
        else rbind (ok_or WsPayloadOverflow (checked_add (cur_total_payload cursor) len)) (\<lambda>total_payload.
          if total_payload > max_total_payload_bytes limits then Inl WsPayloadSession
          else if wm_kind message \<in> {WPing, WPong, WClose}
              \<and> len > of_nat (min (max_control_payload_bytes limits) 125)
          then Inl WsControlLimit
          else let cursor = cursor\<lparr>cur_index := Suc (cur_index cursor), cur_prior_delta := wm_delta_ns message,
                                   cur_total_payload := total_payload\<rparr>
               in rbind (if wm_kind message = WClose then validate_close limits message cursor
                         else if wm_close_code message \<noteq> None \<or> wm_close_reason message \<noteq> None
                         then Inl WsCloseMetadata else Inr cursor) (\<lambda>cursor.
                  rbind (validate_redactions (wm_redactions message) (wm_kind message)) (\<lambda>_. Inr cursor)))))"

section \<open>One conversation\<close>

definition abnormal_causes :: "string list" where
  "abnormal_causes =
     [''eof'', ''reset'', ''shutdown'', ''duration-limit'', ''protocol-error'', ''read-error'',
      ''write-error'', ''timeout'', ''cancelled'', ''upstream-error'', ''downstream-error'', ''other'']"

fun validate_terminal :: "ws_limits \<Rightarrow> ws_message list \<Rightarrow> ws_direction list \<Rightarrow> ws_terminal \<Rightarrow> ws_error + unit" where
  "validate_terminal limits messages closed (CleanClose code reason) =
     (if length closed \<noteq> 2 then Inl WsCleanNeedsBoth
      else if messages = [] then Inl WsCleanNeedsClose
      else if wm_kind (last messages) \<noteq> WClose \<or> wm_close_code (last messages) \<noteq> code
          \<or> wm_close_reason (last messages) \<noteq> reason
      then Inl WsCleanNeedsClose
      else if (case code of None \<Rightarrow> False | Some c \<Rightarrow> \<not> valid_close_code c)
          \<or> (case reason of None \<Rightarrow> False
             | Some r \<Rightarrow> length r > min (max_close_reason_bytes limits) 123 \<or> code = None)
      then Inl WsTerminalMetadata
      else Inr ())"
| "validate_terminal limits messages closed (Abnormal cause) =
     (if cause \<notin> set abnormal_causes then Inl WsAbnormalCause else Inr ())"

definition validate_subprotocol :: "ws_limits \<Rightarrow> string \<Rightarrow> ws_error + unit" where
  "validate_subprotocol limits protocol =
     (if protocol = [] \<or> length protocol > max_subprotocol_bytes limits \<or> \<not> (\<forall>c\<in>set protocol. is_token_byte c)
      then Inl WsInvalidSubprotocol else Inr ())"

text \<open>What the loop over the conversations carries.\<close>

record ws_totals =
  tot_ids :: "string list"
  tot_flow_ids :: "string list"
  tot_messages :: usize
  tot_payload :: u64

definition validate_conversation :: "ws_limits \<Rightarrow> ws_totals \<Rightarrow> ws_conversation \<Rightarrow> ws_error + ws_totals" where
  "validate_conversation limits st c =
     (if wc_id c = [] \<or> length (wc_id c) > 128 then Inl WsInvalidId
      else if wc_flow_id c = [] \<or> length (wc_flow_id c) > 128 then Inl WsInvalidFlowId
      else if wc_id c \<in> set (tot_ids st) then Inl WsDuplicateId
      else if wc_flow_id c \<in> set (tot_flow_ids st) then Inl WsDuplicateFlowId
      else if length (wc_offered_subprotocols c) > max_subprotocols limits then Inl WsTooManySubprotocols
      else rbind (check_all (validate_subprotocol limits) (wc_offered_subprotocols c)) (\<lambda>_.
        if (case wc_selected_subprotocol c of None \<Rightarrow> False
            | Some selected \<Rightarrow> selected \<notin> set (wc_offered_subprotocols c)
                \<or> length selected > max_subprotocol_bytes limits)
        then Inl WsSubprotocolNotOffered
        else if length (wc_messages c) > max_messages_per_conversation limits then Inl WsConversationMessages
        else rbind (ok_or WsMessageOverflow (usize_checked_add (tot_messages st) (length (wc_messages c))))
          (\<lambda>total_messages.
            if total_messages > max_messages_per_session limits then Inl WsSessionMessages
            else rbind (try_fold (validate_message limits)
                    \<lparr>cur_index = 0, cur_prior_delta = 0, cur_closed = [], cur_terminated = False,
                     cur_total_payload = tot_payload st\<rparr> (wc_messages c)) (\<lambda>cursor.
              rbind (validate_terminal limits (wc_messages c) (cur_closed cursor) (wc_terminal c)) (\<lambda>_.
              Inr \<lparr>tot_ids = wc_id c # tot_ids st, tot_flow_ids = wc_flow_id c # tot_flow_ids st,
                   tot_messages = total_messages, tot_payload = cur_total_payload cursor\<rparr>)))))"

definition validate_transcript :: "ws_transcript \<Rightarrow> ws_limits \<Rightarrow> ws_error + unit" where
  "validate_transcript self limits =
     (if wt_schema_version self \<noteq> WEBSOCKET_SCHEMA_VERSION then Inl WsUnsupportedSchema
      else if length (wt_conversations self) > max_conversations limits then Inl WsConversationCount
      else rbind (try_fold (validate_conversation limits)
             \<lparr>tot_ids = [], tot_flow_ids = [], tot_messages = 0, tot_payload = 0\<rparr> (wt_conversations self))
           (\<lambda>_. Inr ()))"

section \<open>Payloads and handshakes\<close>

definition payload_ref_for_bytes :: "ext_lib \<Rightarrow> bytes \<Rightarrow> ws_error + body_ref" where
  "payload_ref_for_bytes X b =
     (if b = [] then Inr BodyEmpty
      else rbind (map_err WsBlob (blob_ref_new (x_sha256 X b) (of_nat (length b)))) (\<lambda>blob. Inr (BodyBlob blob)))"

definition normalize_websocket_handshake_headers :: "header_entry list \<Rightarrow> bool \<Rightarrow> header_entry list" where
  "normalize_websocket_handshake_headers headers response =
     (let volatile = (if response then ''sec-websocket-accept'' else ''sec-websocket-key'')
      in filter (\<lambda>header. \<not> eq_ignore_case (h_name header) volatile) headers)"

definition add_header_bytes :: "usize \<Rightarrow> header_entry \<Rightarrow> ws_error + usize" where
  "add_header_bytes n header =
     ok_or WsHeaderOverflow
       (Option.bind (usize_checked_add n (length (h_name header))) (\<lambda>n.
        Option.bind (usize_checked_add n (length (h_value header))) (\<lambda>n.
        usize_checked_add n 4)))"

definition validate_websocket_handshake_headers ::
  "header_entry list \<Rightarrow> ws_limits \<Rightarrow> bool \<Rightarrow> ws_error + unit" where
  "validate_websocket_handshake_headers headers limits response =
     (if length headers > max_handshake_header_count limits then Inl WsHeaderCount
      else rbind (try_fold add_header_bytes 0 headers) (\<lambda>bytes.
        if bytes > max_handshake_header_bytes limits then Inl WsHeaderBytes
        else if response \<and> (\<exists>header\<in>set headers.
               eq_ignore_case (h_name header) ''sec-websocket-extensions'' \<and> trim (h_value header) \<noteq> [])
        then Inl WsExtensions else Inr ()))"

section \<open>What the validator means\<close>

text \<open>
  Close metadata; a message by itself; and a transcript: numbered from zero, in time order, within
  the payload budget, and a direction is silent once it has closed. The flag of the code that stops
  a conversation after both closes follows: two directions are all there are.
\<close>

definition close_metadata_ok :: "ws_limits \<Rightarrow> u16 option \<Rightarrow> string option \<Rightarrow> bool" where
  "close_metadata_ok limits code reason \<longleftrightarrow>
     (\<forall>c\<in>set_option code. valid_close_code c)
     \<and> (\<forall>r\<in>set_option reason. length r \<le> min (max_close_reason_bytes limits) 123 \<and> code \<noteq> None)"

definition message_bytes :: "ws_message \<Rightarrow> nat" where
  "message_bytes m = (case payload_length (wm_payload m) of Inl _ \<Rightarrow> 0 | Inr n \<Rightarrow> unat n)"

definition message_ok :: "ws_limits \<Rightarrow> ws_message \<Rightarrow> bool" where
  "message_ok limits m \<longleftrightarrow>
     wm_delta_ns m \<le> max_duration_ns limits
     \<and> (\<exists>len. payload_length (wm_payload m) = Inr len \<and> len \<le> max_message_bytes limits
           \<and> (wm_kind m \<in> {WPing, WPong, WClose} \<longrightarrow> len \<le> of_nat (min (max_control_payload_bytes limits) 125)))
     \<and> (if wm_kind m = WClose
        then wm_payload m = None \<and> close_metadata_ok limits (wm_close_code m) (wm_close_reason m)
        else wm_close_code m = None \<and> wm_close_reason m = None)
     \<and> validate_redactions (wm_redactions m) (wm_kind m) = Inr ()"

definition payload_total :: "ws_message list \<Rightarrow> nat" where
  "payload_total ms = sum_list (map message_bytes ms)"

definition closes :: "ws_message list \<Rightarrow> ws_direction list" where
  "closes ms = map wm_direction (filter (\<lambda>m. wm_kind m = WClose) ms)"

definition messages_ok :: "ws_limits \<Rightarrow> u64 \<Rightarrow> ws_message list \<Rightarrow> bool" where
  "messages_ok limits base ms \<longleftrightarrow>
     (\<forall>i<length ms. wm_sequence (ms ! i) = of_nat i)
     \<and> sorted (map wm_delta_ns ms)
     \<and> (\<forall>m\<in>set ms. message_ok limits m)
     \<and> sorted_wrt (\<lambda>a b. wm_kind a = WClose \<longrightarrow> wm_direction b \<noteq> wm_direction a) ms
     \<and> (ms \<noteq> [] \<longrightarrow> unat base + payload_total ms \<le> unat (max_total_payload_bytes limits))"

definition message_cursor :: "u64 \<Rightarrow> ws_message list \<Rightarrow> ws_cursor" where
  "message_cursor base ms =
     \<lparr>cur_index = length ms, cur_prior_delta = (if ms = [] then 0 else wm_delta_ns (last ms)),
      cur_closed = rev (closes ms), cur_terminated = (length (closes ms) = 2),
      cur_total_payload = base + of_nat (payload_total ms)\<rparr>"

lemma close_metadata_case:
  "close_metadata_ok limits code reason \<longleftrightarrow>
     \<not> (case code of None \<Rightarrow> False | Some c \<Rightarrow> \<not> valid_close_code c)
     \<and> \<not> (case reason of None \<Rightarrow> False
         | Some r \<Rightarrow> length r > min (max_close_reason_bytes limits) 123 \<or> code = None)"
  by (cases code; cases reason) (auto simp: close_metadata_ok_def)

lemma validate_close_iff:
  "validate_close limits m c = Inr t \<longleftrightarrow>
     wm_payload m = None \<and> close_metadata_ok limits (wm_close_code m) (wm_close_reason m)
     \<and> wm_direction m \<notin> set (cur_closed c)
     \<and> t = c\<lparr>cur_closed := wm_direction m # cur_closed c,
             cur_terminated := length (wm_direction m # cur_closed c) = 2\<rparr>"
  unfolding validate_close_def close_metadata_case by (auto simp: Let_def)

lemma validate_message_iff:
  "validate_message limits c m = Inr t \<longleftrightarrow>
     wm_sequence m = of_nat (cur_index c) \<and> (cur_index c > 0 \<longrightarrow> cur_prior_delta c \<le> wm_delta_ns m)
     \<and> \<not> cur_terminated c \<and> wm_direction m \<notin> set (cur_closed c)
     \<and> message_ok limits m
     \<and> (\<exists>n. unat n = unat (cur_total_payload c) + message_bytes m \<and> n \<le> max_total_payload_bytes limits
          \<and> t = \<lparr>cur_index = Suc (cur_index c), cur_prior_delta = wm_delta_ns m,
                 cur_closed = (if wm_kind m = WClose then [wm_direction m] else []) @ cur_closed c,
                 cur_terminated = (wm_kind m = WClose \<and> length (cur_closed c) = 1),
                 cur_total_payload = n\<rparr>)"
  by (cases "payload_length (wm_payload m)"; cases c)
    (auto simp: validate_message_def res_simps validate_close_iff message_ok_def message_bytes_def not_less
      Let_def split: if_splits)

lemma closes_snoc: "closes (ms @ [m]) = closes ms @ (if wm_kind m = WClose then [wm_direction m] else [])"
  by (simp add: closes_def)

lemma closes_distinct:
  "sorted_wrt (\<lambda>a b. wm_kind a = WClose \<longrightarrow> wm_direction b \<noteq> wm_direction a) ms \<Longrightarrow> distinct (closes ms)"
  by (induction ms) (auto simp: closes_def)

lemma two_directions: "distinct ds \<Longrightarrow> length ds = 2 \<Longrightarrow> (d :: ws_direction) \<in> set ds"
  by (cases ds rule: list.exhaust; cases "tl ds"; cases d; cases "hd ds"; cases "hd (tl ds)") auto

lemma messages_ok_snoc:
  "messages_ok limits base (ms @ [m]) \<longleftrightarrow>
     messages_ok limits base ms \<and> wm_sequence m = of_nat (length ms)
     \<and> (ms \<noteq> [] \<longrightarrow> wm_delta_ns (last ms) \<le> wm_delta_ns m) \<and> message_ok limits m
     \<and> wm_direction m \<notin> set (closes ms)
     \<and> unat base + payload_total ms + message_bytes m \<le> unat (max_total_payload_bytes limits)"
proof -
  have seq: "(\<forall>i<length (ms @ [m]). wm_sequence ((ms @ [m]) ! i) = of_nat i) \<longleftrightarrow>
      (\<forall>i<length ms. wm_sequence (ms ! i) = of_nat i) \<and> wm_sequence m = of_nat (length ms)"
    by (auto simp: less_Suc_eq nth_append)
  have silent: "wm_direction m \<notin> set (closes ms) \<longleftrightarrow>
      (\<forall>a\<in>set ms. wm_kind a = WClose \<longrightarrow> wm_direction m \<noteq> wm_direction a)"
    by (auto simp: closes_def)
  have sorted: "sorted (map wm_delta_ns (ms @ [m])) \<longleftrightarrow>
      sorted (map wm_delta_ns ms) \<and> (ms \<noteq> [] \<longrightarrow> wm_delta_ns (last ms) \<le> wm_delta_ns m)"
    by (cases ms rule: rev_cases) (force simp: sorted_append)+
  show ?thesis
    unfolding messages_ok_def seq sorted silent
    by (auto simp: sorted_wrt_append payload_total_def)
qed

lemma unat_budget:
  fixes base b :: u64
  shows "unat base + n \<le> unat b \<Longrightarrow> unat (base + of_nat n) = unat base + n"
proof -
  assume *: "unat base + n \<le> unat b"
  moreover have "unat b < 2 ^ 64" using unsigned_less [of b] by simp
  ultimately have "unat base + n < 2 ^ 64" by linarith
  moreover from this have "unat (of_nat n :: u64) = n" by (simp add: unsigned_of_nat take_bit_nat_eq_self)
  ultimately show ?thesis by (simp add: unat_word_ariths)
qed

lemma validate_message_snoc:
  assumes "messages_ok limits base ms"
  shows "validate_message limits (message_cursor base ms) m = Inr t \<longleftrightarrow>
     messages_ok limits base (ms @ [m]) \<and> t = message_cursor base (ms @ [m])"
proof -
  have total: "unat (base + of_nat (payload_total ms)) = unat base + payload_total ms"
    using assms unat_budget [of base "payload_total ms" "max_total_payload_bytes limits"]
    by (cases "ms = []") (auto simp: messages_ok_def payload_total_def)
  have live: "wm_direction m \<notin> set (closes ms) \<Longrightarrow> length (closes ms) \<noteq> 2"
    using assms two_directions closes_distinct by (auto simp: messages_ok_def)
  let ?new = "base + of_nat (payload_total (ms @ [m]))"
  have bytes: "payload_total (ms @ [m]) = payload_total ms + message_bytes m"
    by (simp add: payload_total_def)
  have budget: "(\<exists>n. unat n = unat (base + of_nat (payload_total ms)) + message_bytes m
          \<and> n \<le> max_total_payload_bytes limits \<and> t = f n) \<longleftrightarrow>
      unat base + payload_total ms + message_bytes m \<le> unat (max_total_payload_bytes limits) \<and> t = f ?new"
    (is "?l \<longleftrightarrow> ?r") for f :: "u64 \<Rightarrow> ws_cursor"
  proof
    assume ?l
    then obtain n where n: "unat n = unat base + payload_total (ms @ [m])"
        "n \<le> max_total_payload_bytes limits" "t = f n"
      unfolding total bytes add.assoc by blast
    then have le: "unat base + payload_total (ms @ [m]) \<le> unat (max_total_payload_bytes limits)"
      by (simp add: word_le_nat_alt)
    have "n = ?new" using n(1) unat_budget [OF le] by (simp add: word_unat_eq_iff)
    then show ?r using n le by (simp add: bytes)
  next
    assume r: ?r
    then have "unat ?new = unat base + payload_total (ms @ [m])"
      by (intro unat_budget [of _ _ "max_total_payload_bytes limits"]) (simp add: bytes)
    then show ?l using r by (intro exI [of _ ?new]) (simp add: total bytes word_le_nat_alt)
  qed
  have fields: "cur_index (message_cursor base ms) = length ms"
      "cur_prior_delta (message_cursor base ms) = (if ms = [] then 0 else wm_delta_ns (last ms))"
      "cur_closed (message_cursor base ms) = rev (closes ms)"
      "cur_terminated (message_cursor base ms) = (length (closes ms) = 2)"
      "cur_total_payload (message_cursor base ms) = base + of_nat (payload_total ms)"
    by (simp_all add: message_cursor_def)
  have after: "message_cursor base (ms @ [m]) =
      \<lparr>cur_index = Suc (length ms), cur_prior_delta = wm_delta_ns m,
       cur_closed = (if wm_kind m = WClose then [wm_direction m] else []) @ rev (closes ms),
       cur_terminated = (wm_kind m = WClose \<and> length (rev (closes ms)) = 1), cur_total_payload = ?new\<rparr>"
    if "wm_direction m \<notin> set (closes ms)"
    using live [OF that] by (simp add: message_cursor_def closes_snoc)
  show ?thesis
    unfolding validate_message_iff messages_ok_snoc fields budget using assms live after by auto
qed

interpretation ws_messages: cursor_loop "validate_message limits" "message_cursor base" "messages_ok limits base"
  for limits base
  by unfold_locales (simp_all add: validate_message_snoc messages_ok_snoc, simp add: messages_ok_def)

section \<open>Accepted transcripts\<close>

definition subprotocols_ok :: "ws_limits \<Rightarrow> ws_conversation \<Rightarrow> bool" where
  "subprotocols_ok limits c \<longleftrightarrow>
     length (wc_offered_subprotocols c) \<le> max_subprotocols limits
     \<and> (\<forall>p\<in>set (wc_offered_subprotocols c).
           p \<noteq> [] \<and> length p \<le> max_subprotocol_bytes limits \<and> (\<forall>c\<in>set p. is_token_byte c))
     \<and> (\<forall>selected\<in>set_option (wc_selected_subprotocol c). selected \<in> set (wc_offered_subprotocols c))"

definition terminal_ok :: "ws_limits \<Rightarrow> ws_conversation \<Rightarrow> bool" where
  "terminal_ok limits c = (case wc_terminal c of
       CleanClose code reason \<Rightarrow>
         length (closes (wc_messages c)) = 2
         \<and> wm_kind (last (wc_messages c)) = WClose \<and> wm_close_code (last (wc_messages c)) = code
         \<and> wm_close_reason (last (wc_messages c)) = reason \<and> close_metadata_ok limits code reason
     | Abnormal cause \<Rightarrow> cause \<in> set abnormal_causes)"

definition conversation_ok :: "ws_limits \<Rightarrow> ws_conversation \<Rightarrow> bool" where
  "conversation_ok limits c \<longleftrightarrow>
     wc_id c \<noteq> [] \<and> length (wc_id c) \<le> 128 \<and> wc_flow_id c \<noteq> [] \<and> length (wc_flow_id c) \<le> 128
     \<and> subprotocols_ok limits c
     \<and> length (wc_messages c) \<le> max_messages_per_conversation limits
     \<and> messages_ok limits 0 (wc_messages c)
     \<and> terminal_ok limits c"

definition session_messages :: "ws_conversation list \<Rightarrow> nat" where
  "session_messages cs = sum_list (map (\<lambda>c. length (wc_messages c)) cs)"

definition session_payload :: "ws_conversation list \<Rightarrow> nat" where
  "session_payload cs = sum_list (map (\<lambda>c. payload_total (wc_messages c)) cs)"

definition conversations_ok :: "ws_limits \<Rightarrow> ws_conversation list \<Rightarrow> bool" where
  "conversations_ok limits cs \<longleftrightarrow>
     distinct (map wc_id cs) \<and> distinct (map wc_flow_id cs)
     \<and> (\<forall>c\<in>set cs. conversation_ok limits c)
     \<and> session_messages cs < 2 ^ 64 \<and> (cs \<noteq> [] \<longrightarrow> session_messages cs \<le> max_messages_per_session limits)
     \<and> session_payload cs \<le> unat (max_total_payload_bytes limits)"

definition totals_of :: "ws_conversation list \<Rightarrow> ws_totals" where
  "totals_of cs =
     \<lparr>tot_ids = rev (map wc_id cs), tot_flow_ids = rev (map wc_flow_id cs),
      tot_messages = session_messages cs, tot_payload = of_nat (session_payload cs)\<rparr>"

lemma validate_subprotocols_iff:
  "check_all (validate_subprotocol limits) (wc_offered_subprotocols c) = Inr ()
   \<and> length (wc_offered_subprotocols c) \<le> max_subprotocols limits
   \<and> \<not> (case wc_selected_subprotocol c of None \<Rightarrow> False
       | Some selected \<Rightarrow> selected \<notin> set (wc_offered_subprotocols c) \<or> length selected > max_subprotocol_bytes limits)
   \<longleftrightarrow> subprotocols_ok limits c"
  by (cases "wc_selected_subprotocol c")
    (auto simp: subprotocols_ok_def validate_subprotocol_def res_simps not_less)

lemma validate_terminal_iff:
  "validate_terminal limits (wc_messages c) (rev (closes (wc_messages c))) (wc_terminal c) = Inr () \<longleftrightarrow> terminal_ok limits c"
proof (cases "wc_terminal c")
  case (CleanClose code reason)
  have "length (closes (wc_messages c)) = 2 \<Longrightarrow> wc_messages c \<noteq> []" by (auto simp: closes_def)
  then show ?thesis
    unfolding terminal_ok_def close_metadata_case CleanClose by auto
qed (auto simp: terminal_ok_def)

lemma start_cursor:
  "\<lparr>cur_index = 0, cur_prior_delta = 0, cur_closed = [], cur_terminated = False, cur_total_payload = base\<rparr>
     = message_cursor base []"
  by (simp add: message_cursor_def closes_def payload_total_def)

lemma message_cursor_sel:
  "cur_closed (message_cursor base ms) = rev (closes ms)"
  "cur_total_payload (message_cursor base ms) = base + of_nat (payload_total ms)"
  by (simp_all add: message_cursor_def)

lemma validate_conversation_iff:
  "validate_conversation limits st c = Inr t \<longleftrightarrow>
     wc_id c \<noteq> [] \<and> length (wc_id c) \<le> 128 \<and> wc_flow_id c \<noteq> [] \<and> length (wc_flow_id c) \<le> 128
     \<and> wc_id c \<notin> set (tot_ids st) \<and> wc_flow_id c \<notin> set (tot_flow_ids st)
     \<and> subprotocols_ok limits c \<and> length (wc_messages c) \<le> max_messages_per_conversation limits
     \<and> tot_messages st + length (wc_messages c) < 2 ^ 64
     \<and> tot_messages st + length (wc_messages c) \<le> max_messages_per_session limits
     \<and> messages_ok limits (tot_payload st) (wc_messages c) \<and> terminal_ok limits c
     \<and> t = \<lparr>tot_ids = wc_id c # tot_ids st, tot_flow_ids = wc_flow_id c # tot_flow_ids st,
            tot_messages = tot_messages st + length (wc_messages c),
            tot_payload = tot_payload st + of_nat (payload_total (wc_messages c))\<rparr>"
  unfolding validate_subprotocols_iff [symmetric] validate_terminal_iff [symmetric]
    validate_conversation_def start_cursor
  by (auto simp: res_simps ws_messages.accepts_iff message_cursor_sel not_less)

lemma messages_ok_base:
  assumes "unat base \<le> unat (max_total_payload_bytes limits)"
  shows "messages_ok limits base ms \<longleftrightarrow>
    messages_ok limits 0 ms \<and> unat base + payload_total ms \<le> unat (max_total_payload_bytes limits)"
  using assms by (auto simp: messages_ok_def payload_total_def)

lemma session_snoc:
  "session_messages (cs @ [c]) = session_messages cs + length (wc_messages c)"
  "session_payload (cs @ [c]) = session_payload cs + payload_total (wc_messages c)"
  by (simp_all add: session_messages_def session_payload_def)

lemma validate_conversation_snoc:
  assumes "conversations_ok limits cs"
  shows "validate_conversation limits (totals_of cs) c = Inr t \<longleftrightarrow>
     conversations_ok limits (cs @ [c]) \<and> t = totals_of (cs @ [c])"
proof -
  have sum: "unat (of_nat (session_payload cs) :: u64) = session_payload cs"
    using unat_budget [of 0 "session_payload cs" "max_total_payload_bytes limits"] assms
    by (simp add: conversations_ok_def)
  then have base: "messages_ok limits (of_nat (session_payload cs)) ms \<longleftrightarrow>
      messages_ok limits 0 ms \<and> session_payload cs + payload_total ms \<le> unat (max_total_payload_bytes limits)" for ms
    using messages_ok_base [of "of_nat (session_payload cs)" limits ms] assms by (simp add: conversations_ok_def)
  show ?thesis
    unfolding validate_conversation_iff totals_of_def
    using assms
    by (auto simp: base session_snoc conversations_ok_def conversation_ok_def)
qed

interpretation ws_conversations: cursor_loop "validate_conversation limits" totals_of "conversations_ok limits"
  for limits
  by unfold_locales
    (simp_all add: validate_conversation_snoc, auto simp: conversations_ok_def session_messages_def session_payload_def)

text \<open>
  Property C34: A WebSocket transcript is accepted exactly when its schema is known, conversation and
  flow identifiers are distinct, every conversation is a legal one (sequence numbers from zero,
  nondecreasing times, silence in a direction that has closed, legal close metadata and redaction
  markers, a terminal that the last messages justify) and the message and payload totals of the
  whole session are within the limits, counted without wrap-around.
\<close>

theorem transcript_accepted_iff:
  "is_ok (validate_transcript doc limits) \<longleftrightarrow>
     wt_schema_version doc = WEBSOCKET_SCHEMA_VERSION
     \<and> length (wt_conversations doc) \<le> max_conversations limits
     \<and> conversations_ok limits (wt_conversations doc)"
proof -
  have start: "\<lparr>tot_ids = [], tot_flow_ids = [], tot_messages = 0, tot_payload = 0\<rparr> = totals_of []"
    by (simp add: totals_of_def session_messages_def session_payload_def)
  show ?thesis
    unfolding validate_transcript_def start by (auto simp: res_simps ws_conversations.accepts_iff not_less)
qed

lemma accepted_conversations:
  "validate_transcript doc limits = Inr () \<Longrightarrow> conversations_ok limits (wt_conversations doc)"
proof -
  assume *: "validate_transcript doc limits = Inr ()"
  have start: "\<lparr>tot_ids = [], tot_flow_ids = [], tot_messages = 0, tot_payload = 0\<rparr> = totals_of []"
    by (simp add: totals_of_def session_messages_def session_payload_def)
  show ?thesis
    using * unfolding validate_transcript_def start by (auto simp: res_simps ws_conversations.accepts_iff split: if_splits)
qed

lemma closed_direction_silent:
  assumes "messages_ok limits base ms" and "i < j" and "j < length ms" and "wm_kind (ms ! i) = WClose"
  shows "wm_direction (ms ! j) \<noteq> wm_direction (ms ! i)"
  using assms sorted_wrt_nth_less [of _ ms i j] by (auto simp: messages_ok_def)

lemma both_closed_is_end:
  assumes "messages_ok limits base ms" and "i \<le> length ms" and "length (closes (take i ms)) = 2"
  shows "i = length ms"
proof (rule ccontr)
  assume "i \<noteq> length ms"
  then have "i < length ms" using assms(2) by simp
  moreover have "prefix (take i ms) ms" by (rule take_is_prefix)
  then have "messages_ok limits base (take i ms)" by (rule ws_messages.good_prefix [OF assms(1)])
  then have "distinct (closes (take i ms))" by (auto simp: messages_ok_def intro: closes_distinct)
  then have "wm_direction (ms ! i) \<in> set (closes (take i ms))" using assms(3) by (rule two_directions)
  then obtain k where "k < i" "wm_kind (ms ! k) = WClose" "wm_direction (ms ! k) = wm_direction (ms ! i)"
    by (auto simp: closes_def in_set_conv_nth)
  ultimately show False using closed_direction_silent [OF assms(1)] by metis
qed

definition sample_message :: "u64 \<Rightarrow> ws_direction \<Rightarrow> ws_kind \<Rightarrow> ws_message" where
  "sample_message n d k =
     \<lparr>wm_sequence = n, wm_direction = d, wm_delta_ns = n * 10, wm_kind = k, wm_payload = None,
      wm_close_code = (if k = WClose then Some 1000 else None), wm_close_reason = None, wm_redactions = []\<rparr>"

definition sample_conversation :: ws_conversation where
  "sample_conversation =
     \<lparr>wc_id = ''ws-1'', wc_flow_id = ''flow-1'', wc_offered_subprotocols = [''chat''],
      wc_selected_subprotocol = Some ''chat'',
      wc_messages = [sample_message 0 ClientToServer WText, sample_message 1 ClientToServer WClose,
                     sample_message 2 ServerToClient WText, sample_message 3 ServerToClient WClose],
      wc_terminal = CleanClose (Some 1000) None\<rparr>"

definition sample_transcript :: ws_transcript where
  "sample_transcript = \<lparr>wt_schema_version = 1, wt_conversations = [sample_conversation]\<rparr>"

lemma sample_transcript_accepted: "validate_transcript sample_transcript ws_limits_default = Inr ()"
  by code_simp

text \<open>
  In an accepted transcript a direction that has sent its close sends nothing more, a
  conversation is over once both have, a clean terminal is exactly the second of the two closes
  with its code and reason, and the payload bytes of all messages together are within the limit.
\<close>

theorem accepted_conversations_close_properly:
  assumes "validate_transcript doc limits = Inr ()" and "c \<in> set (wt_conversations doc)"
    and "ms = wc_messages c"
  shows "(\<forall>i<length ms. wm_sequence (ms ! i) = of_nat i)
    \<and> (\<forall>j<length ms. \<forall>i<j. wm_kind (ms ! i) = WClose \<longrightarrow> wm_direction (ms ! j) \<noteq> wm_direction (ms ! i))
    \<and> (\<forall>i\<le>length ms. length (closes (take i ms)) = 2 \<longrightarrow> i = length ms)
    \<and> (\<forall>code reason. wc_terminal c = CleanClose code reason \<longrightarrow>
         set (closes ms) = {ClientToServer, ServerToClient} \<and> wm_kind (last ms) = WClose
         \<and> wm_close_code (last ms) = code \<and> wm_close_reason (last ms) = reason)
    \<and> session_payload (wt_conversations doc) \<le> unat (max_total_payload_bytes limits)"
proof -
  have cs: "conversations_ok limits (wt_conversations doc)" by (rule accepted_conversations [OF assms(1)])
  then have c: "conversation_ok limits c" using assms(2) by (simp add: conversations_ok_def)
  then have ms: "messages_ok limits 0 ms" using assms(3) by (simp add: conversation_ok_def)
  have "distinct (closes ms)" using ms by (auto simp: messages_ok_def intro: closes_distinct)
  then have "length (closes ms) = 2 \<Longrightarrow> set (closes ms) = {ClientToServer, ServerToClient}"
    using two_directions by (auto intro: ws_direction.exhaust)
  then show ?thesis
    using ms c cs closed_direction_silent [OF ms] both_closed_is_end [OF ms] assms(3)
    by (auto simp: conversation_ok_def terminal_ok_def messages_ok_def conversations_ok_def)
qed

lemma accepted_conversations_close_properly_witness:
  "set (closes (wc_messages sample_conversation)) = {ClientToServer, ServerToClient}"
  using accepted_conversations_close_properly [OF sample_transcript_accepted, of sample_conversation, OF _ refl]
  by (simp add: sample_transcript_def) (simp add: sample_conversation_def)

lemma add_header_bytes_snoc:
  "sum_list (map (\<lambda>h. length (h_name h) + length (h_value h) + 4) hs) < 2 ^ 64 \<Longrightarrow>
   add_header_bytes (sum_list (map (\<lambda>h. length (h_name h) + length (h_value h) + 4) hs)) h = Inr t \<longleftrightarrow>
     sum_list (map (\<lambda>h. length (h_name h) + length (h_value h) + 4) (hs @ [h])) < 2 ^ 64
     \<and> t = sum_list (map (\<lambda>h. length (h_name h) + length (h_value h) + 4) (hs @ [h]))"
  by (auto simp: add_header_bytes_def res_simps Option.bind_eq_Some_conv)

definition header_bytes :: "header_entry list \<Rightarrow> nat" where
  "header_bytes hs = sum_list (map (\<lambda>h. length (h_name h) + length (h_value h) + 4) hs)"

interpretation handshake_bytes: cursor_loop add_header_bytes header_bytes "\<lambda>hs. header_bytes hs < 2 ^ 64"
  unfolding header_bytes_def by unfold_locales (simp_all add: add_header_bytes_snoc del: map_append, simp_all)

text \<open>
  Handshake headers are accepted exactly when their number and their size on the wire
  (name, value, separator and line end of each) are within the limits and, in a response, no
  extension is negotiated.
\<close>

theorem handshake_accepted_iff:
  "is_ok (validate_websocket_handshake_headers headers limits response) =
     (length headers \<le> max_handshake_header_count limits
      \<and> header_bytes headers < 2 ^ 64 \<and> header_bytes headers \<le> max_handshake_header_bytes limits
      \<and> \<not> (response \<and> (\<exists>h\<in>set headers. eq_ignore_case (h_name h) ''sec-websocket-extensions'' \<and> trim (h_value h) \<noteq> [])))"
proof -
  have start: "header_bytes [] = 0" by (simp add: header_bytes_def)
  note total = handshake_bytes.accepts_iff [of headers, unfolded start]
  show ?thesis by (auto simp: validate_websocket_handshake_headers_def res_simps total not_less)
qed

text \<open>
  A payload reference always exists and describes its bytes: empty for the empty
  payload, otherwise the digest of the bytes in lowercase and their length.
\<close>

theorem payload_reference_describes_bytes:
  assumes "sha256_lawful X"
  shows "payload_ref_for_bytes X b =
    Inr (if b = [] then BodyEmpty else BodyBlob \<lparr>blob_sha256 = x_sha256 X b, blob_length = of_nat (length b)\<rparr>)"
proof -
  have hex: "length (x_sha256 X b) = 64" "\<forall>c\<in>set (x_sha256 X b). is_ascii_hexdigit c \<and> \<not> is_ascii_upper c"
    using assms by (auto simp: sha256_lawful_def)
  then have "to_lower (x_sha256 X b) = x_sha256 X b"
    by (auto simp: to_lower_def lower_char_def intro: map_idI)
  with hex show ?thesis by (auto simp: payload_ref_for_bytes_def blob_ref_new_def)
qed

lemma payload_reference_describes_bytes_witness:
  "payload_ref_for_bytes demo_lib ''hi'' = Inr (BodyBlob \<lparr>blob_sha256 = demo_digest ''hi'', blob_length = 2\<rparr>)"
  using payload_reference_describes_bytes [OF demo_sha256_lawful, of "''hi''"] by (simp add: demo_lib_def)

end
