(* ===== verification/Report.thy ===== *)
theory Report
  imports Streams External
begin

text \<open>
  The regression report, \<^verbatim>\<open>crates/eggreplay-core/src/report.rs\<close>: one baseline flow is compared with
  one candidate observation and every difference becomes a finding. A header configured as volatile
  is recorded as suppressed when both sides have it, and stays a finding when one side lost it.
\<close>

section \<open>The report\<close>

datatype report_scheduler = Sequential | RecordedStartOrder | Timeline

datatype diff_kind =
    DStatus | DHeader | DTrailer | DBody | DOutcome | DTiming | DSse | DStreamEvent | DWebSocket

record diff_finding =
  df_kind :: diff_kind
  df_field :: string
  df_baseline :: string
  df_candidate :: string

datatype suppression_reason = VolatileHeader

record suppressed_header =
  sh_field :: string
  sh_reason :: suppression_reason

record timing_assertion =
  max_elapsed_ms :: u64

definition DEFAULT_VOLATILE_HEADERS :: "string list" where
  "DEFAULT_VOLATILE_HEADERS = [''date'']"

record comparison_policy =
  cp_compare_stream_events :: bool
  cp_cadence_tolerance_ns :: "u64 option"
  cp_compare_sse :: bool
  cp_sse_ignored :: "string list"
  cp_websocket_cadence_tolerance_ns :: "u64 option"
  cp_volatile_headers :: "string list"

definition comparison_policy_default :: comparison_policy where
  "comparison_policy_default =
     \<lparr>cp_compare_stream_events = False, cp_cadence_tolerance_ns = None, cp_compare_sse = False,
      cp_sse_ignored = [], cp_websocket_cadence_tolerance_ns = None,
      cp_volatile_headers = DEFAULT_VOLATILE_HEADERS\<rparr>"

definition is_stream_enabled :: "comparison_policy \<Rightarrow> bool" where
  "is_stream_enabled self \<longleftrightarrow> cp_compare_stream_events self \<or> cp_cadence_tolerance_ns self \<noteq> None"

definition is_sse_enabled :: "comparison_policy \<Rightarrow> bool" where
  "is_sse_enabled self \<longleftrightarrow> cp_compare_sse self \<or> cp_sse_ignored self \<noteq> []"

definition is_volatile :: "comparison_policy \<Rightarrow> string \<Rightarrow> bool" where
  "is_volatile self name \<longleftrightarrow> (\<exists>header\<in>set (cp_volatile_headers self). eq_ignore_case header name)"

text \<open>The error is the unsupported field.\<close>

definition policy_validate :: "comparison_policy \<Rightarrow> string + unit" where
  "policy_validate self =
     check_all (\<lambda>field. if field \<notin> set [''data'', ''event'', ''id'', ''retry'', ''comments''] then Inl field else Inr ())
       (cp_sse_ignored self)"

record regression_report =
  rep_schema_version :: u16
  rep_scheduler :: report_scheduler
  rep_baseline_flow_ids :: "string list"
  rep_findings :: "diff_finding list"
  rep_suppressed :: "suppressed_header list"

definition is_success :: "regression_report \<Rightarrow> bool" where
  "is_success self \<longleftrightarrow> rep_findings self = []"

text \<open>The derived \<^verbatim>\<open>Debug\<close> names the findings are ordered and described by.\<close>

fun kind_debug :: "diff_kind \<Rightarrow> string" where
  "kind_debug DStatus = ''Status''"
| "kind_debug DHeader = ''Header''"
| "kind_debug DTrailer = ''Trailer''"
| "kind_debug DBody = ''Body''"
| "kind_debug DOutcome = ''Outcome''"
| "kind_debug DTiming = ''Timing''"
| "kind_debug DSse = ''Sse''"
| "kind_debug DStreamEvent = ''StreamEvent''"
| "kind_debug DWebSocket = ''WebSocket''"

fun category_debug :: "error_category \<Rightarrow> string" where
  "category_debug Cat_Dns = ''Dns''"
| "category_debug Cat_ConnectionRefused = ''ConnectionRefused''"
| "category_debug Cat_Unreachable = ''Unreachable''"
| "category_debug Cat_Tls = ''Tls''"
| "category_debug Cat_Protocol = ''Protocol''"
| "category_debug Cat_Policy = ''Policy''"
| "category_debug Cat_Timeout = ''Timeout''"
| "category_debug Cat_Cancelled = ''Cancelled''"
| "category_debug Cat_Other = ''Other''"

fun phase_debug :: "error_phase \<Rightarrow> string" where
  "phase_debug Phase_Request = ''Request''"
| "phase_debug Phase_Connect = ''Connect''"
| "phase_debug Phase_Tls = ''Tls''"
| "phase_debug Phase_Headers = ''Headers''"
| "phase_debug Phase_Body = ''Body''"
| "phase_debug Phase_Timeout = ''Timeout''"
| "phase_debug Phase_Cancelled = ''Cancelled''"
| "phase_debug Phase_Policy = ''Policy''"
| "phase_debug Phase_Other = ''Other''"

section \<open>Headers\<close>

definition header_map :: "header_entry list \<Rightarrow> (string \<times> string list) list" where
  "header_map headers = fold (\<lambda>header. bmap_push (to_lower (h_name header)) (h_value header)) headers []"

definition presence :: "string list \<Rightarrow> string" where
  "presence vs = (if vs = [] then ''<absent>'' else ''<present>'')"

text \<open>One name of the loop over the names of both sides.\<close>

definition compare_header ::
  "string \<Rightarrow> (string \<times> string list) list \<Rightarrow> (string \<times> string list) list \<Rightarrow> diff_kind \<Rightarrow> comparison_policy
     \<Rightarrow> string \<Rightarrow> diff_finding list \<times> suppressed_header list \<Rightarrow> diff_finding list \<times> suppressed_header list" where
  "compare_header pfx left right kind policy name acc =
     (let (findings, suppressed) = acc; a = bmap_get left name; b = bmap_get right name
      in if is_volatile policy name \<and> a \<noteq> [] \<and> b \<noteq> []
         then (findings, suppressed @ [\<lparr>sh_field = pfx @ ''.'' @ name, sh_reason = VolatileHeader\<rparr>])
         else if a \<noteq> b
         then (findings @ [\<lparr>df_kind = kind, df_field = pfx @ ''.'' @ name,
                            df_baseline = presence a, df_candidate = presence b\<rparr>], suppressed)
         else (findings, suppressed))"

definition compare_headers ::
  "diff_finding list \<times> suppressed_header list \<Rightarrow> string \<Rightarrow> header_entry list \<Rightarrow> header_entry list \<Rightarrow> diff_kind
     \<Rightarrow> comparison_policy \<Rightarrow> diff_finding list \<times> suppressed_header list" where
  "compare_headers acc pfx baseline candidate kind policy =
     (let left = header_map baseline; right = header_map candidate;
          names = bset_of_list (map fst left @ map fst right)
      in fold (compare_header pfx left right kind policy) names acc)"

definition is_sse :: "header_entry list \<Rightarrow> bool" where
  "is_sse headers \<longleftrightarrow>
     (\<exists>header\<in>set headers. eq_ignore_case (h_name header) ''content-type''
        \<and> eq_ignore_case (trim (hd (split_on CHR '';'' (h_value header)))) ''text/event-stream'')"

section \<open>Comparing two flows\<close>

fun outcome_name :: "flow_outcome \<Rightarrow> string" where
  "outcome_name (OutResponse _) = ''response''"
| "outcome_name (OutError _) = ''error''"

definition body_summary :: "ext_lib \<Rightarrow> bytes \<Rightarrow> string" where
  "body_summary X b = ''sha256:'' @ x_sha256 X b @ '' length:'' @ to_dec (length b)"

definition compare_sse_bodies :: "comparison_policy \<Rightarrow> bytes \<Rightarrow> bytes \<Rightarrow> (string \<times> string) option" where
  "compare_sse_bodies policy baseline_body candidate_body =
     (let baseline_sse = parse_sse baseline_body True; candidate_sse = parse_sse candidate_body True
      in if spr_error baseline_sse \<noteq> None then Some (''baseline SSE is malformed'', ''candidate SSE inspected'')
         else if spr_error candidate_sse \<noteq> None then Some (''baseline SSE parsed'', ''candidate SSE is malformed'')
         else if \<not> compare_sse (spr_events baseline_sse) (spr_events candidate_sse) (cp_sse_ignored policy)
         then Some (''SSE event sequence'', ''SSE event sequence'')
         else None)"

definition compare_responses ::
  "ext_lib \<Rightarrow> http_response \<Rightarrow> http_response \<Rightarrow> bytes \<Rightarrow> bytes \<Rightarrow> comparison_policy
     \<Rightarrow> diff_finding list \<times> suppressed_header list" where
  "compare_responses X expected actual baseline_body candidate_body policy =
     (let findings = (if resp_status expected \<noteq> resp_status actual
            then [\<lparr>df_kind = DStatus, df_field = ''response.status'',
                   df_baseline = to_dec (unat (resp_status expected)),
                   df_candidate = to_dec (unat (resp_status actual))\<rparr>] else []);
          acc = compare_headers (findings, []) ''response.headers'' (resp_headers expected) (resp_headers actual)
                  DHeader policy;
          (findings, suppressed) = compare_headers acc ''response.trailers'' (resp_trailers expected)
                  (resp_trailers actual) DTrailer policy;
          findings = (if x_sha256 X baseline_body \<noteq> x_sha256 X candidate_body
                         \<or> length baseline_body \<noteq> length candidate_body
            then findings @ [\<lparr>df_kind = DBody, df_field = ''response.body'',
                   df_baseline = body_summary X baseline_body,
                   df_candidate = body_summary X candidate_body\<rparr>] else findings);
          findings = (if is_sse_enabled policy \<and> is_sse (resp_headers expected) \<and> is_sse (resp_headers actual)
            then (case compare_sse_bodies policy baseline_body candidate_body of
                    None \<Rightarrow> findings
                  | Some (b, c) \<Rightarrow> findings @ [\<lparr>df_kind = DSse, df_field = ''response.sse'',
                                                df_baseline = b, df_candidate = c\<rparr>])
            else findings)
      in (findings, suppressed))"

fun compare_outcomes ::
  "ext_lib \<Rightarrow> flow_outcome \<Rightarrow> flow_outcome \<Rightarrow> bytes \<Rightarrow> bytes \<Rightarrow> comparison_policy
     \<Rightarrow> diff_finding list \<times> suppressed_header list" where
  "compare_outcomes X (OutResponse expected) (OutResponse actual) bb cb policy =
     compare_responses X expected actual bb cb policy"
| "compare_outcomes X (OutError expected) (OutError actual) bb cb policy =
     (if fe_category expected \<noteq> fe_category actual \<or> fe_phase expected \<noteq> fe_phase actual
      then ([\<lparr>df_kind = DOutcome, df_field = ''outcome.error'',
              df_baseline = category_debug (fe_category expected) @ ''/'' @ phase_debug (fe_phase expected),
              df_candidate = category_debug (fe_category actual) @ ''/'' @ phase_debug (fe_phase actual)\<rparr>], [])
      else ([], []))"
| "compare_outcomes X expected actual bb cb policy =
     ([\<lparr>df_kind = DOutcome, df_field = ''outcome.kind'', df_baseline = outcome_name expected,
        df_candidate = outcome_name actual\<rparr>], [])"

definition timing_finding :: "timing_assertion option \<Rightarrow> flow \<Rightarrow> diff_finding list" where
  "timing_finding timing candidate =
     (case (timing, fl_completed_at_ms candidate) of
        (Some assertion, Some end) \<Rightarrow>
          (let elapsed = sat_sub end (fl_started_at_ms candidate)
           in if elapsed > max_elapsed_ms assertion
              then [\<lparr>df_kind = DTiming, df_field = ''timing.elapsed_ms'',
                     df_baseline = to_dec (unat (max_elapsed_ms assertion)),
                     df_candidate = to_dec (unat elapsed)\<rparr>] else [])
      | _ \<Rightarrow> [])"

definition compare_flows_with_timing_and_policy ::
  "ext_lib \<Rightarrow> flow \<Rightarrow> flow \<Rightarrow> bytes \<Rightarrow> bytes \<Rightarrow> report_scheduler \<Rightarrow> timing_assertion option \<Rightarrow> comparison_policy
     \<Rightarrow> regression_report" where
  "compare_flows_with_timing_and_policy X baseline candidate baseline_body candidate_body scheduler timing policy =
     (let (findings, suppressed) = compare_outcomes X (fl_outcome baseline) (fl_outcome candidate)
            baseline_body candidate_body policy;
          findings = findings @ timing_finding timing candidate
      in \<lparr>rep_schema_version = REPORT_SCHEMA_VERSION, rep_scheduler = scheduler,
          rep_baseline_flow_ids = [fl_id baseline],
          rep_findings = sort_key (\<lambda>f. (kind_debug (df_kind f), df_field f)) findings,
          rep_suppressed = sort_key sh_field suppressed\<rparr>)"

definition compare_flows_with_policy where
  "compare_flows_with_policy X baseline candidate baseline_body candidate_body scheduler policy =
     compare_flows_with_timing_and_policy X baseline candidate baseline_body candidate_body scheduler None policy"

definition compare_flows_with_timing where
  "compare_flows_with_timing X baseline candidate baseline_body candidate_body scheduler timing =
     compare_flows_with_timing_and_policy X baseline candidate baseline_body candidate_body scheduler timing
       comparison_policy_default"

definition compare_flows where
  "compare_flows X baseline candidate baseline_body candidate_body scheduler =
     compare_flows_with_timing X baseline candidate baseline_body candidate_body scheduler None"

section \<open>Comparing two timelines\<close>

fun same_stream_event :: "stream_event_kind \<Rightarrow> stream_event_kind \<Rightarrow> bool" where
  "same_stream_event (SData lo ll) (SData ro rl) = (lo = ro \<and> ll = rl)"
| "same_stream_event (STrailers left) (STrailers right) =
     (length left = length right \<and> (\<forall>(a, b)\<in>set (zip left right). eq_ignore_case (h_name a) (h_name b)))"
| "same_stream_event SEnd SEnd = True"
| "same_stream_event (SError lo lc lp) (SError ro rc rp) = (lo = ro \<and> lc = rc \<and> lp = rp)"
| "same_stream_event _ _ = False"

text \<open>The gap before an event: its time less that of the event before it, or its time if it is first.\<close>

definition event_gap :: "stream_event list \<Rightarrow> usize \<Rightarrow> u64" where
  "event_gap es i = sat_sub (se_delta_ns (es ! i)) (if i = 0 then 0 else se_delta_ns (es ! (i - 1)))"

definition cadence_finding ::
  "u64 \<Rightarrow> stream_event list \<Rightarrow> stream_event list \<Rightarrow> usize \<Rightarrow> diff_finding list" where
  "cadence_finding tolerance left right i =
     (if abs_diff (event_gap left i) (event_gap right i) > tolerance
      then [\<lparr>df_kind = DTiming, df_field = ''stream.response.cadence['' @ to_dec i @ '']'',
             df_baseline = to_dec (unat (event_gap left i)), df_candidate = to_dec (unat (event_gap right i))\<rparr>]
      else [])"

definition compare_stream_events ::
  "flow_stream_events \<Rightarrow> flow_stream_events \<Rightarrow> u64 option \<Rightarrow> diff_finding list" where
  "compare_stream_events baseline candidate cadence_tolerance_ns =
     (let left = fse_response baseline; right = fse_response candidate;
          findings = (if length left \<noteq> length right
              \<or> (\<exists>(a, b)\<in>set (zip left right). \<not> same_stream_event (se_event a) (se_event b))
            then [\<lparr>df_kind = DStreamEvent, df_field = ''stream.response.events'',
                   df_baseline = to_dec (length left) @ '' ordered events'',
                   df_candidate = to_dec (length right) @ '' ordered events''\<rparr>] else []);
          findings = findings @ (case cadence_tolerance_ns of
              None \<Rightarrow> []
            | Some tolerance \<Rightarrow>
                concat (map (cadence_finding tolerance left right) [0..<min (length left) (length right)]))
      in sort_key df_field findings)"

section \<open>What a report says\<close>

definition both_present :: "header_entry list \<Rightarrow> header_entry list \<Rightarrow> string \<Rightarrow> bool" where
  "both_present b c name \<longleftrightarrow> header_values b name \<noteq> [] \<and> header_values c name \<noteq> []"

definition suppresses :: "comparison_policy \<Rightarrow> header_entry list \<Rightarrow> header_entry list \<Rightarrow> string \<Rightarrow> bool" where
  "suppresses policy b c name \<longleftrightarrow> is_volatile policy name \<and> both_present b c name"

definition differs :: "comparison_policy \<Rightarrow> header_entry list \<Rightarrow> header_entry list \<Rightarrow> string \<Rightarrow> bool" where
  "differs policy b c name \<longleftrightarrow> \<not> suppresses policy b c name \<and> header_values b name \<noteq> header_values c name"

definition header_names :: "header_entry list \<Rightarrow> header_entry list \<Rightarrow> string list" where
  "header_names b c = bset_of_list (map fst (header_map b) @ map fst (header_map c))"

definition header_finding :: "string \<Rightarrow> diff_kind \<Rightarrow> header_entry list \<Rightarrow> header_entry list \<Rightarrow> string \<Rightarrow> diff_finding" where
  "header_finding pfx kind b c name =
     \<lparr>df_kind = kind, df_field = pfx @ ''.'' @ name,
      df_baseline = presence (header_values b name), df_candidate = presence (header_values c name)\<rparr>"

definition suppression :: "string \<Rightarrow> string \<Rightarrow> suppressed_header" where
  "suppression pfx name = \<lparr>sh_field = pfx @ ''.'' @ name, sh_reason = VolatileHeader\<rparr>"

lemma header_map_group: "header_map hs = bmap_group (\<lambda>_. True) (\<lambda>h. to_lower (h_name h)) h_value hs []"
  by (simp add: header_map_def bmap_group_def)

lemma header_map_get: "bmap_get (header_map hs) name = header_values hs name"
  by (simp add: header_map_group bmap_get_group header_values_def) (simp add: bmap_get_def)

lemma header_map_keys: "fst ` set (header_map hs) = (\<lambda>h. to_lower (h_name h)) ` set hs"
  by (simp add: header_map_group keys_group)

lemma header_values_Nil_iff: "header_values hs name = [] \<longleftrightarrow> name \<notin> (\<lambda>h. to_lower (h_name h)) ` set hs"
  by (auto simp: header_values_def filter_empty_conv)

lemma header_names_iff: "name \<in> set (header_names b c) \<longleftrightarrow> header_values b name \<noteq> [] \<or> header_values c name \<noteq> []"
  by (auto simp: header_names_def header_map_keys header_values_Nil_iff simp del: image_eqI)

lemma compare_header_fold:
  "fold (compare_header pfx (header_map b) (header_map c) kind policy) names acc =
     (fst acc @ map (header_finding pfx kind b c) (filter (differs policy b c) names),
      snd acc @ map (suppression pfx) (filter (suppresses policy b c) names))"
  by (induction names arbitrary: acc)
    (auto simp: compare_header_def header_map_get Let_def differs_def suppresses_def both_present_def
      header_finding_def suppression_def split: prod.splits)

lemma compare_headers_eq:
  "compare_headers acc pfx b c kind policy =
     (fst acc @ map (header_finding pfx kind b c) (filter (differs policy b c) (header_names b c)),
      snd acc @ map (suppression pfx) (filter (suppresses policy b c) (header_names b c)))"
  by (simp add: compare_headers_def Let_def compare_header_fold header_names_def)

lemma differs_present: "differs policy b c name \<Longrightarrow> name \<in> set (header_names b c)"
  by (auto simp: differs_def header_names_iff)

lemma suppresses_present: "suppresses policy b c name \<Longrightarrow> name \<in> set (header_names b c)"
  by (auto simp: suppresses_def both_present_def header_names_iff)

text \<open>Two lists of headers are the same to a policy.\<close>

definition headers_equal :: "comparison_policy \<Rightarrow> header_entry list \<Rightarrow> header_entry list \<Rightarrow> bool" where
  "headers_equal policy b c \<longleftrightarrow> (\<forall>name. \<not> differs policy b c name)"

lemma no_header_findings: "filter (differs policy b c) (header_names b c) = [] \<longleftrightarrow> headers_equal policy b c"
  by (auto simp: headers_equal_def filter_empty_conv dest: differs_present)

definition responses_equal ::
  "ext_lib \<Rightarrow> comparison_policy \<Rightarrow> http_response \<Rightarrow> http_response \<Rightarrow> bytes \<Rightarrow> bytes \<Rightarrow> bool" where
  "responses_equal X policy e a bb cb \<longleftrightarrow>
     resp_status e = resp_status a
     \<and> headers_equal policy (resp_headers e) (resp_headers a)
     \<and> headers_equal policy (resp_trailers e) (resp_trailers a)
     \<and> x_sha256 X bb = x_sha256 X cb \<and> length bb = length cb
     \<and> (is_sse_enabled policy \<and> is_sse (resp_headers e) \<and> is_sse (resp_headers a) \<longrightarrow>
          compare_sse_bodies policy bb cb = None)"

fun outcomes_equal ::
  "ext_lib \<Rightarrow> comparison_policy \<Rightarrow> flow_outcome \<Rightarrow> flow_outcome \<Rightarrow> bytes \<Rightarrow> bytes \<Rightarrow> bool" where
  "outcomes_equal X policy (OutResponse e) (OutResponse a) bb cb = responses_equal X policy e a bb cb"
| "outcomes_equal X policy (OutError e) (OutError a) bb cb = (fe_category e = fe_category a \<and> fe_phase e = fe_phase a)"
| "outcomes_equal X policy _ _ bb cb = False"

definition in_time :: "timing_assertion option \<Rightarrow> flow \<Rightarrow> bool" where
  "in_time timing candidate \<longleftrightarrow>
     (\<forall>a end. timing = Some a \<longrightarrow> fl_completed_at_ms candidate = Some end \<longrightarrow>
        unat end - unat (fl_started_at_ms candidate) \<le> unat (max_elapsed_ms a))"

lemma timing_finding_Nil_iff: "timing_finding timing candidate = [] \<longleftrightarrow> in_time timing candidate"
  by (auto simp: timing_finding_def in_time_def word_less_nat_alt unat_sat_sub not_less split: option.splits)

text \<open>The findings of a comparison of responses, by kind.\<close>

definition status_findings :: "http_response \<Rightarrow> http_response \<Rightarrow> diff_finding list" where
  "status_findings e a =
     (if resp_status e \<noteq> resp_status a
      then [\<lparr>df_kind = DStatus, df_field = ''response.status'', df_baseline = to_dec (unat (resp_status e)),
             df_candidate = to_dec (unat (resp_status a))\<rparr>] else [])"

definition header_findings ::
  "string \<Rightarrow> diff_kind \<Rightarrow> comparison_policy \<Rightarrow> header_entry list \<Rightarrow> header_entry list \<Rightarrow> diff_finding list" where
  "header_findings pfx kind policy b c =
     map (header_finding pfx kind b c) (filter (differs policy b c) (header_names b c))"

definition body_findings :: "ext_lib \<Rightarrow> bytes \<Rightarrow> bytes \<Rightarrow> diff_finding list" where
  "body_findings X bb cb =
     (if x_sha256 X bb \<noteq> x_sha256 X cb \<or> length bb \<noteq> length cb
      then [\<lparr>df_kind = DBody, df_field = ''response.body'', df_baseline = body_summary X bb,
             df_candidate = body_summary X cb\<rparr>] else [])"

definition sse_findings ::
  "comparison_policy \<Rightarrow> http_response \<Rightarrow> http_response \<Rightarrow> bytes \<Rightarrow> bytes \<Rightarrow> diff_finding list" where
  "sse_findings policy e a bb cb =
     (if is_sse_enabled policy \<and> is_sse (resp_headers e) \<and> is_sse (resp_headers a)
      then (case compare_sse_bodies policy bb cb of None \<Rightarrow> []
            | Some (b, c) \<Rightarrow> [\<lparr>df_kind = DSse, df_field = ''response.sse'', df_baseline = b, df_candidate = c\<rparr>])
      else [])"

lemma finding_kinds:
  "f \<in> set (status_findings e a) \<Longrightarrow> df_kind f = DStatus"
  "f \<in> set (header_findings pfx kind policy b c) \<Longrightarrow> df_kind f = kind"
  "f \<in> set (body_findings X bb cb) \<Longrightarrow> df_kind f = DBody"
  "f \<in> set (sse_findings policy e a bb cb) \<Longrightarrow> df_kind f = DSse"
  "f \<in> set (timing_finding timing fl) \<Longrightarrow> df_kind f = DTiming"
proof -
  show "f \<in> set (status_findings e a) \<Longrightarrow> df_kind f = DStatus"
    by (auto simp: status_findings_def split: if_splits)
  show "f \<in> set (header_findings pfx kind policy b c) \<Longrightarrow> df_kind f = kind"
    by (auto simp: header_findings_def header_finding_def)
  show "f \<in> set (body_findings X bb cb) \<Longrightarrow> df_kind f = DBody"
    by (auto simp: body_findings_def split: if_splits)
  show "f \<in> set (sse_findings policy e a bb cb) \<Longrightarrow> df_kind f = DSse"
    by (cases "is_sse_enabled policy \<and> is_sse (resp_headers e) \<and> is_sse (resp_headers a)";
        cases "compare_sse_bodies policy bb cb") (auto simp: sse_findings_def)
  show "f \<in> set (timing_finding timing fl) \<Longrightarrow> df_kind f = DTiming"
    by (cases timing; cases "fl_completed_at_ms fl") (auto simp: timing_finding_def Let_def split: if_splits)
qed

lemma findings_Nil_iff:
  "status_findings e a = [] \<longleftrightarrow> resp_status e = resp_status a"
  "header_findings pfx kind policy b c = [] \<longleftrightarrow> headers_equal policy b c"
  "body_findings X bb cb = [] \<longleftrightarrow> x_sha256 X bb = x_sha256 X cb \<and> length bb = length cb"
  "sse_findings policy e a bb cb = [] \<longleftrightarrow>
     (is_sse_enabled policy \<and> is_sse (resp_headers e) \<and> is_sse (resp_headers a) \<longrightarrow>
        compare_sse_bodies policy bb cb = None)"
  by (auto simp: status_findings_def header_findings_def no_header_findings body_findings_def sse_findings_def
      split: option.splits)

lemma header_finding_in:
  "header_finding pfx kind b c name \<in> set (header_findings pfx kind policy b c) \<longleftrightarrow> differs policy b c name"
proof -
  have "inj (header_finding pfx kind b c)" by (auto simp: inj_on_def header_finding_def)
  then show ?thesis using differs_present by (auto simp: header_findings_def inj_image_mem_iff)
qed

lemma compare_responses_findings:
  "fst (compare_responses X e a bb cb policy) =
     status_findings e a
     @ header_findings ''response.headers'' DHeader policy (resp_headers e) (resp_headers a)
     @ header_findings ''response.trailers'' DTrailer policy (resp_trailers e) (resp_trailers a)
     @ body_findings X bb cb @ sse_findings policy e a bb cb"
  "snd (compare_responses X e a bb cb policy) =
     map (suppression ''response.headers'')
       (filter (suppresses policy (resp_headers e) (resp_headers a)) (header_names (resp_headers e) (resp_headers a)))
     @ map (suppression ''response.trailers'')
       (filter (suppresses policy (resp_trailers e) (resp_trailers a)) (header_names (resp_trailers e) (resp_trailers a)))"
  by (simp_all add: compare_responses_def Let_def compare_headers_eq status_findings_def header_findings_def
      body_findings_def sse_findings_def split: option.splits)

lemma compare_outcomes_Nil_iff:
  "fst (compare_outcomes X e a bb cb policy) = [] \<longleftrightarrow> outcomes_equal X policy e a bb cb"
proof (induction X e a bb cb policy rule: compare_outcomes.induct)
  case (1 X e a bb cb policy)
  show ?case
    unfolding compare_outcomes.simps compare_responses_findings
    by (auto simp: responses_equal_def findings_Nil_iff)
qed auto

lemma report_findings:
  "set (rep_findings (compare_flows_with_timing_and_policy X b c bb cb sched timing policy)) =
     set (fst (compare_outcomes X (fl_outcome b) (fl_outcome c) bb cb policy)) \<union> set (timing_finding timing c)"
  by (simp add: compare_flows_with_timing_and_policy_def split: prod.splits)


lemma header_finding_reported:
  "header_finding ''response.headers'' DHeader (resp_headers e) (resp_headers a) name
     \<in> set (fst (compare_responses X e a bb cb policy)) \<union> set (timing_finding timing c)
   \<longleftrightarrow> differs policy (resp_headers e) (resp_headers a) name" (is "?f \<in> _ \<longleftrightarrow> ?d")
proof -
  have "df_kind ?f = DHeader" by (simp add: header_finding_def)
  then show ?thesis
    unfolding compare_responses_findings set_append Un_iff
    using finding_kinds [of ?f] header_finding_in by (metis diff_kind.distinct)
qed

lemma suppression_reported:
  "suppression ''response.headers'' name \<in> set (snd (compare_responses X e a bb cb policy))
   \<longleftrightarrow> suppresses policy (resp_headers e) (resp_headers a) name"
proof -
  have "suppression ''response.headers'' name \<in> suppression ''response.headers'' ` S \<longleftrightarrow> name \<in> S" for S
    by (auto simp: suppression_def)
  moreover have "suppression ''response.headers'' name \<notin> suppression ''response.trailers'' ` S" for S
    by (auto simp: suppression_def)
  ultimately show ?thesis
    using suppresses_present [of policy "resp_headers e" "resp_headers a" name]
    unfolding compare_responses_findings by auto
qed

definition sample_redated :: http_response where
  "sample_redated = sample_response\<lparr>resp_headers := [\<lparr>h_name = ''DATE'', h_value = ''Tue''\<rparr>]\<rparr>"

text \<open>
  No difference in a header can disappear: for each name a side has, the report holds
  exactly one of a finding (the values differ, or a volatile header is missing on one side) and a
  suppression (volatile and on both sides), or the values are the same.
\<close>

theorem header_difference_is_never_silent:
  assumes "fl_outcome baseline = OutResponse e" and "fl_outcome candidate = OutResponse a"
    and "report = compare_flows_with_timing_and_policy X baseline candidate bb cb scheduler timing policy"
    and "header_values (resp_headers e) name \<noteq> header_values (resp_headers a) name"
  shows "(is_volatile policy name \<and> both_present (resp_headers e) (resp_headers a) name
      \<and> suppression ''response.headers'' name \<in> set (rep_suppressed report)
      \<and> header_finding ''response.headers'' DHeader (resp_headers e) (resp_headers a) name \<notin> set (rep_findings report))
    \<or> (header_finding ''response.headers'' DHeader (resp_headers e) (resp_headers a) name \<in> set (rep_findings report)
      \<and> suppression ''response.headers'' name \<notin> set (rep_suppressed report))"
proof -
  let ?e = "resp_headers e" and ?a = "resp_headers a"
  have "header_finding ''response.headers'' DHeader ?e ?a name \<in> set (rep_findings report) \<longleftrightarrow> differs policy ?e ?a name"
    unfolding assms(3) report_findings assms(1,2) compare_outcomes.simps by (rule header_finding_reported)
  moreover have "set (rep_suppressed report) = set (snd (compare_responses X e a bb cb policy))"
    by (simp add: assms(1-3) compare_flows_with_timing_and_policy_def split: prod.splits)
  ultimately show ?thesis using assms(4) by (auto simp: suppression_reported differs_def suppresses_def)
qed

lemma header_difference_is_never_silent_witness:
  "suppression ''response.headers'' ''date'' \<in> set (rep_suppressed
     (compare_flows_with_timing_and_policy demo_lib sample_flow (sample_flow\<lparr>fl_outcome := OutResponse sample_redated\<rparr>)
        [] [] Sequential None comparison_policy_default))"
proof -
  let ?c = "sample_flow\<lparr>fl_outcome := OutResponse sample_redated\<rparr>"
  let ?report = "compare_flows_with_timing_and_policy demo_lib sample_flow ?c [] [] Sequential None comparison_policy_default"
  have ne: "header_values (resp_headers sample_response) ''date'' \<noteq> header_values (resp_headers sample_redated) ''date''"
    by code_simp
  have same: "\<not> differs comparison_policy_default (resp_headers sample_response) (resp_headers sample_redated) ''date''"
    by code_simp
  have b: "fl_outcome sample_flow = OutResponse sample_response" by (simp add: sample_flow_def flow_new_def)
  have c: "fl_outcome ?c = OutResponse sample_redated" by simp
  have "header_finding ''response.headers'' DHeader (resp_headers sample_response) (resp_headers sample_redated) ''date''
      \<notin> set (rep_findings ?report)"
    unfolding report_findings b c compare_outcomes.simps header_finding_reported by (rule same)
  then show ?thesis
    using header_difference_is_never_silent [OF b c refl ne, of comparison_policy_default demo_lib "[]" "[]" Sequential None]
    by blast
qed

text \<open>
  A report is fit to publish: its findings are in order of kind and field, and no
  header or trailer value appears in it, only whether the name was present; a body appears as its
  digest and length.
\<close>

theorem report_is_ordered_and_value_free:
  assumes "report = compare_flows_with_timing_and_policy X baseline candidate bb cb scheduler timing policy"
  shows "sorted (map (\<lambda>f. (kind_debug (df_kind f), df_field f)) (rep_findings report))
    \<and> sorted (map sh_field (rep_suppressed report))
    \<and> (\<forall>f\<in>set (rep_findings report). df_kind f \<in> {DHeader, DTrailer} \<longrightarrow>
         {df_baseline f, df_candidate f} \<subseteq> {''<absent>'', ''<present>''})
    \<and> (\<forall>f\<in>set (rep_findings report). df_kind f = DBody \<longrightarrow>
         df_baseline f = body_summary X bb \<and> df_candidate f = body_summary X cb)"
proof -
  have out: "(df_kind f \<in> {DHeader, DTrailer} \<longrightarrow> {df_baseline f, df_candidate f} \<subseteq> {''<absent>'', ''<present>''})
      \<and> (df_kind f = DBody \<longrightarrow> df_baseline f = body_summary X bb \<and> df_candidate f = body_summary X cb)"
    if "f \<in> set (fst (compare_outcomes X e a bb cb policy))" for f e a
    using that
  proof (induction X e a bb cb policy rule: compare_outcomes.induct)
    case (1 X e a bb cb policy)
    then show ?case
      unfolding compare_outcomes.simps compare_responses_findings set_append Un_iff
      by (elim disjE)
        (auto dest: finding_kinds simp: header_findings_def body_findings_def header_finding_def presence_def
          split: if_splits)
  qed (auto split: if_splits)
  have "sorted (map (\<lambda>f. (kind_debug (df_kind f), df_field f)) (rep_findings report))"
      "sorted (map sh_field (rep_suppressed report))"
    by (simp_all add: assms compare_flows_with_timing_and_policy_def split: prod.splits)
  moreover have "set (rep_findings report) =
      set (fst (compare_outcomes X (fl_outcome baseline) (fl_outcome candidate) bb cb policy)) \<union> set (timing_finding timing candidate)"
    unfolding assms by (rule report_findings)
  ultimately show ?thesis
    using out [of _ "fl_outcome baseline" "fl_outcome candidate"] finding_kinds(5) [of _ timing candidate]
    by fastforce
qed

lemma report_is_ordered_and_value_free_witness:
  "sorted (map sh_field (rep_suppressed (compare_flows demo_lib sample_flow sample_flow [] [] Sequential)))"
  using report_is_ordered_and_value_free [OF refl, of demo_lib sample_flow sample_flow "[]" "[]" Sequential None
      comparison_policy_default]
  by (simp add: compare_flows_def compare_flows_with_timing_def)

section \<open>Timelines\<close>

lemma cadence_finding_Nil_iff:
  "cadence_finding tolerance left right i = [] \<longleftrightarrow> abs_diff (event_gap left i) (event_gap right i) \<le> tolerance"
  by (auto simp: cadence_finding_def not_less)

lemma same_stream_event_refl: "same_stream_event e e"
  by (cases e) (auto simp: zip_same_conv_map)

text \<open>
  Two response timelines compare without a finding exactly when they have the same
  events one by one (trailers by name) and, where a cadence tolerance is set, every gap between
  events is within it; the request side never matters.
\<close>

theorem stream_comparison_empty_iff:
  "compare_stream_events baseline candidate cadence = [] \<longleftrightarrow>
     list_all2 (\<lambda>a b. same_stream_event (se_event a) (se_event b)) (fse_response baseline) (fse_response candidate)
     \<and> list_all (\<lambda>tolerance. list_all (\<lambda>i. abs_diff (event_gap (fse_response baseline) i) (event_gap (fse_response candidate) i)
              \<le> tolerance) [0..<length (fse_response baseline)]) (case cadence of None \<Rightarrow> [] | Some t \<Rightarrow> [t])"
proof -
  let ?l = "fse_response baseline" and ?r = "fse_response candidate"
  have *: "(sort_key df_field xs = []) = (xs = [])" for xs :: "diff_finding list"
    by (metis length_0_conv length_sort)
  have events: "list_all2 (\<lambda>a b. same_stream_event (se_event a) (se_event b)) ?l ?r \<longleftrightarrow>
      \<not> (length ?l \<noteq> length ?r \<or> (\<exists>(a, b)\<in>set (zip ?l ?r). \<not> same_stream_event (se_event a) (se_event b)))"
    by (auto simp: list_all2_iff)
  show ?thesis
  proof (cases "length ?l = length ?r")
    case True
    then show ?thesis
      unfolding events compare_stream_events_def Let_def *
      by (cases cadence) (auto simp: cadence_finding_Nil_iff list_all_iff)
  next
    case False
    then show ?thesis by (auto simp: compare_stream_events_def Let_def * dest: list_all2_lengthD)
  qed
qed

end
