(* ===== verification/Proxy_Headers.thy ===== *)
theory Proxy_Headers
  imports Strings
begin

text \<open>
  Proxy header filtering, \<^verbatim>\<open>crates/eggreplay-intercept/src/headers.rs\<close>. The \<^verbatim>\<open>HeaderMap\<close> of the
  \<^verbatim>\<open>http\<close> crate is seen through its documented iteration: an entry per name (lowercase, distinct),
  each with its values in order, yielded with the name on the first value only. Its \<^verbatim>\<open>to_str\<close>,
  which decodes a value or fails, is a parameter.
\<close>

type_synonym header_entries = "(string \<times> bytes list) list"

definition hm_wf :: "header_entries \<Rightarrow> bool" where
  "hm_wf hs \<longleftrightarrow> distinct (map fst hs) \<and> (\<forall>(n, vs)\<in>set hs. vs \<noteq> [] \<and> to_lower n = n)"

definition hm_get_all :: "header_entries \<Rightarrow> string \<Rightarrow> bytes list" where
  "hm_get_all hs name = (case map_of hs name of None \<Rightarrow> [] | Some vs \<Rightarrow> vs)"

definition hm_entry_iter :: "string \<times> bytes list \<Rightarrow> (string option \<times> bytes) list" where
  "hm_entry_iter e = (case snd e of [] \<Rightarrow> [] | v # vs \<Rightarrow> (Some (fst e), v) # map (Pair None) vs)"

definition hm_iter :: "header_entries \<Rightarrow> (string option \<times> bytes) list" where
  "hm_iter hs = concat (map hm_entry_iter hs)"

record proxy_filter_outcome =
  pf_forwarded :: "(string \<times> bytes) list"
  pf_removed :: "string list"
  pf_upgrade_requested :: bool
  pf_had_proxy_authorization :: bool

definition PROXY_ONLY :: "string list" where
  "PROXY_ONLY = [''proxy-connection'', ''proxy-authorization'', ''proxy-authenticate'', ''keep-alive'']"

section \<open>Nominations\<close>

definition nominate :: "string \<Rightarrow> string list \<times> bool \<Rightarrow> string list \<times> bool" where
  "nominate token st =
     (let (nominated, upgrade_requested) = st; token = to_lower (trim token)
      in if token = [] then st
         else (if token \<in> set nominated then nominated else nominated @ [token],
               upgrade_requested \<or> token = ''upgrade''))"

definition nominations :: "(bytes \<Rightarrow> string option) \<Rightarrow> header_entries \<Rightarrow> string list \<times> bool" where
  "nominations to_str headers =
     fold (\<lambda>val. fold nominate (split_on CHR '','' (unwrap_or (to_str val) [])))
       (hm_get_all headers ''connection'') ([], False)"

definition te_forward :: "(bytes \<Rightarrow> string option) \<Rightarrow> header_entries \<Rightarrow> bool" where
  "te_forward to_str headers =
     (let te_values = List.map_filter to_str (hm_get_all headers ''te'');
          te_tokens = filter (\<lambda>t. t \<noteq> []) (map trim (concat (map (split_on CHR '','') te_values)))
      in te_tokens \<noteq> [] \<and> (\<forall>t\<in>set te_tokens. eq_ignore_case t ''trailers''))"

section \<open>The filter\<close>

definition classify :: "string \<Rightarrow> bool \<Rightarrow> string list \<Rightarrow> bool" where
  "classify lower te nominated =
     (if lower = ''connection'' then False
      else if lower \<in> set PROXY_ONLY then False
      else if lower = ''upgrade'' then False
      else if lower \<in> set nominated then False
      else if lower = ''te'' then te
      else True)"

definition push_removed :: "string list \<Rightarrow> string \<Rightarrow> string list" where
  "push_removed removed name = (if name \<in> set removed then removed else removed @ [name])"

definition apply_side_effects :: "string \<Rightarrow> proxy_filter_outcome \<Rightarrow> proxy_filter_outcome" where
  "apply_side_effects lower st =
     st\<lparr>pf_upgrade_requested := pf_upgrade_requested st \<or> lower = ''upgrade'',
        pf_had_proxy_authorization := pf_had_proxy_authorization st \<or> lower = ''proxy-authorization'',
        pf_removed := push_removed (pf_removed st) lower\<rparr>"

text \<open>One value of the iteration: the current name with its decision, and the outcome so far.\<close>

definition filter_step ::
  "bool \<Rightarrow> string list \<Rightarrow> string option \<times> bytes
     \<Rightarrow> (string \<times> bool) option \<times> proxy_filter_outcome \<Rightarrow> (string \<times> bool) option \<times> proxy_filter_outcome" where
  "filter_step te nominated item st =
     (let (name_option, val) = item; (current, out) = st;
          (current, out) =
            (case name_option of
               None \<Rightarrow> (current, out)
             | Some name \<Rightarrow>
                 (let lower = to_lower name; forward = classify lower te nominated
                  in (Some (name, forward), if forward then out else apply_side_effects lower out)))
      in case current of
           Some (name, True) \<Rightarrow> (current, out\<lparr>pf_forwarded := pf_forwarded out @ [(name, val)]\<rparr>)
         | _ \<Rightarrow> (current, out))"

definition filter_proxy_headers :: "(bytes \<Rightarrow> string option) \<Rightarrow> header_entries \<Rightarrow> proxy_filter_outcome" where
  "filter_proxy_headers to_str headers =
     (let (nominated, upgrade_requested) = nominations to_str headers;
          te = te_forward to_str headers
      in snd (fold (filter_step te nominated) (hm_iter headers)
           (None, \<lparr>pf_forwarded = [], pf_removed = [], pf_upgrade_requested = upgrade_requested,
                   pf_had_proxy_authorization = False\<rparr>)))"

section \<open>What is forwarded\<close>

definition connection_tokens :: "(bytes \<Rightarrow> string option) \<Rightarrow> header_entries \<Rightarrow> string list" where
  "connection_tokens to_str hs =
     filter (\<lambda>t. t \<noteq> []) (map (\<lambda>t. to_lower (trim t))
       (concat (map (\<lambda>v. split_on CHR '','' (unwrap_or (to_str v) [])) (hm_get_all hs ''connection''))))"

definition keeps :: "(bytes \<Rightarrow> string option) \<Rightarrow> header_entries \<Rightarrow> string \<Rightarrow> bool" where
  "keeps to_str hs name \<longleftrightarrow>
     name \<notin> set (''connection'' # ''upgrade'' # PROXY_ONLY) \<and> name \<notin> set (connection_tokens to_str hs)
     \<and> (name = ''te'' \<longrightarrow> te_forward to_str hs)"

lemma nominate_set:
  "set (fst (fold nominate ts st)) = set (fst st) \<union> set (filter (\<lambda>t. t \<noteq> []) (map (\<lambda>t. to_lower (trim t)) ts))"
  "snd (fold nominate ts st) \<longleftrightarrow> snd st \<or> ''upgrade'' \<in> set (map (\<lambda>t. to_lower (trim t)) ts)"
  by (induction ts arbitrary: st) (auto simp: nominate_def Let_def split: prod.splits if_splits)

lemma nominations_fold:
  "fold (\<lambda>v. fold nominate (g v)) vs st = fold nominate (concat (map g vs)) st"
  by (induction vs arbitrary: st) auto

lemma nominations_set:
  "set (fst (nominations to_str hs)) = set (connection_tokens to_str hs)"
  "snd (nominations to_str hs) \<longleftrightarrow> ''upgrade'' \<in> set (connection_tokens to_str hs)"
  unfolding nominations_def nominations_fold nominate_set by (auto simp: connection_tokens_def)

lemma classify_keeps:
  "classify name (te_forward to_str hs) (fst (nominations to_str hs)) \<longleftrightarrow> keeps to_str hs name"
  by (auto simp: classify_def keeps_def nominations_set)

text \<open>One entry of the map, then all of them.\<close>

lemma fold_continuations:
  "fold (filter_step te nominated) (map (Pair None) vs) (Some (n, fw), out) =
     (Some (n, fw), if fw then out\<lparr>pf_forwarded := pf_forwarded out @ map (Pair n) vs\<rparr> else out)"
  by (induction vs arbitrary: out) (cases fw; simp add: filter_step_def)+

lemma fold_entry:
  assumes "vs \<noteq> []" and "to_lower n = n"
  shows "snd (fold (filter_step te nominated) (hm_entry_iter (n, vs)) (cur, out)) =
    (if classify n te nominated then out\<lparr>pf_forwarded := pf_forwarded out @ map (Pair n) vs\<rparr>
     else apply_side_effects n out)"
  using assms
  by (cases vs) (auto simp: hm_entry_iter_def filter_step_def fold_continuations Let_def)

lemma fold_entries:
  assumes "\<forall>(n, vs)\<in>set hs. vs \<noteq> [] \<and> to_lower n = n"
  shows "snd (fold (filter_step te nominated) (hm_iter hs) (cur, out)) =
    fold (\<lambda>(n, vs) out. if classify n te nominated then out\<lparr>pf_forwarded := pf_forwarded out @ map (Pair n) vs\<rparr>
                         else apply_side_effects n out) hs out"
  using assms
proof (induction hs arbitrary: cur out)
  case (Cons e hs)
  obtain n vs where e: "e = (n, vs)" by (cases e)
  obtain cur' out' where st: "fold (filter_step te nominated) (hm_entry_iter (n, vs)) (cur, out) = (cur', out')"
    by (cases "fold (filter_step te nominated) (hm_entry_iter (n, vs)) (cur, out)")
  then have "out' = (if classify n te nominated then out\<lparr>pf_forwarded := pf_forwarded out @ map (Pair n) vs\<rparr>
     else apply_side_effects n out)"
    using fold_entry [of vs n te nominated cur out] Cons.prems e by auto
  then show ?case
    using Cons.IH [of cur' out'] Cons.prems st by (simp add: hm_iter_def e)
qed (simp add: hm_iter_def)

definition flatten :: "header_entries \<Rightarrow> (string \<times> bytes) list" where
  "flatten hs = concat (map (\<lambda>(n, vs). map (Pair n) vs) hs)"

lemma fold_outcome:
  assumes "distinct (map fst hs)" and "set (pf_removed out) \<inter> fst ` set hs = {}"
  shows "fold (\<lambda>(n, vs) out. if classify n te nominated then out\<lparr>pf_forwarded := pf_forwarded out @ map (Pair n) vs\<rparr>
              else apply_side_effects n out) hs out =
    \<lparr>pf_forwarded = pf_forwarded out @ flatten (filter (\<lambda>e. classify (fst e) te nominated) hs),
     pf_removed = pf_removed out @ map fst (filter (\<lambda>e. \<not> classify (fst e) te nominated) hs),
     pf_upgrade_requested = (pf_upgrade_requested out
        \<or> (\<exists>e\<in>set hs. fst e = ''upgrade'' \<and> \<not> classify (fst e) te nominated)),
     pf_had_proxy_authorization = (pf_had_proxy_authorization out
        \<or> (\<exists>e\<in>set hs. fst e = ''proxy-authorization'' \<and> \<not> classify (fst e) te nominated))\<rparr>"
  using assms
proof (induction hs arbitrary: out)
  case (Cons e hs)
  obtain n vs where e: "e = (n, vs)" by (cases e)
  show ?case
  proof (cases "classify n te nominated")
    case True
    then show ?thesis using Cons.IH Cons.prems by (auto simp: e flatten_def)
  next
    case False
    have "n \<notin> set (pf_removed out)" using Cons.prems(2) by (auto simp: e)
    then have "apply_side_effects n out = out\<lparr>pf_upgrade_requested := pf_upgrade_requested out \<or> n = ''upgrade'',
        pf_had_proxy_authorization := pf_had_proxy_authorization out \<or> n = ''proxy-authorization'',
        pf_removed := pf_removed out @ [n]\<rparr>"
      by (simp add: apply_side_effects_def push_removed_def)
    then show ?thesis using False Cons.IH Cons.prems by (auto simp: e)
  qed
qed (simp add: flatten_def)

lemma filtered_headers_eq:
  assumes "hm_wf hs"
  shows "filter_proxy_headers to_str hs =
    \<lparr>pf_forwarded = flatten (filter (\<lambda>e. keeps to_str hs (fst e)) hs),
     pf_removed = map fst (filter (\<lambda>e. \<not> keeps to_str hs (fst e)) hs),
     pf_upgrade_requested = (''upgrade'' \<in> set (connection_tokens to_str hs) \<or> ''upgrade'' \<in> fst ` set hs),
     pf_had_proxy_authorization = (''proxy-authorization'' \<in> fst ` set hs)\<rparr>"
proof -
  obtain nominated up where nom: "nominations to_str hs = (nominated, up)"
    by (cases "nominations to_str hs")
  have cls: "classify n (te_forward to_str hs) nominated \<longleftrightarrow> keeps to_str hs n" for n
    using classify_keeps [of n to_str hs] by (simp add: nom)
  have up: "up \<longleftrightarrow> ''upgrade'' \<in> set (connection_tokens to_str hs)"
    using nominations_set(2) [of to_str hs] by (simp add: nom)
  have "\<not> keeps to_str hs ''upgrade''" "\<not> keeps to_str hs ''proxy-authorization''"
    by (simp_all add: keeps_def PROXY_ONLY_def)
  then have "(\<exists>e\<in>set hs. fst e = ''upgrade'' \<and> \<not> keeps to_str hs (fst e)) \<longleftrightarrow> ''upgrade'' \<in> fst ` set hs"
      "(\<exists>e\<in>set hs. fst e = ''proxy-authorization'' \<and> \<not> keeps to_str hs (fst e)) \<longleftrightarrow> ''proxy-authorization'' \<in> fst ` set hs"
    by force+
  then show ?thesis
    using assms by (simp add: filter_proxy_headers_def nom fold_entries fold_outcome hm_wf_def cls up)
qed

text \<open>
  The filter forwards exactly the headers that may pass (not proxy-only, not
  \<^verbatim>\<open>connection\<close> or \<^verbatim>\<open>upgrade\<close>, not nominated by a connection header, \<^verbatim>\<open>te\<close> only for trailers),
  with all their values in order, lists every other name once, and reports upgrades and proxy
  credentials.
\<close>

theorem filtered_headers:
  assumes "hm_wf hs"
  shows "filter_proxy_headers to_str hs =
    \<lparr>pf_forwarded = flatten (filter (\<lambda>e. keeps to_str hs (fst e)) hs),
     pf_removed = map fst (filter (\<lambda>e. \<not> keeps to_str hs (fst e)) hs),
     pf_upgrade_requested = (''upgrade'' \<in> set (connection_tokens to_str hs) \<or> ''upgrade'' \<in> fst ` set hs),
     pf_had_proxy_authorization = (''proxy-authorization'' \<in> fst ` set hs)\<rparr>"
  using assms by (rule filtered_headers_eq)

definition sample_headers :: header_entries where
  "sample_headers = [(''host'', [''example.test'']), (''connection'', [''X-Hop, close'']), (''x-hop'', [''1'']),
     (''proxy-authorization'', [''Basic c2VjcmV0'']), (''accept'', [''a'', ''b''])]"

lemma filtered_headers_witness:
  "pf_forwarded (filter_proxy_headers Some sample_headers) =
     [(''host'', ''example.test''), (''accept'', ''a''), (''accept'', ''b'')]"
proof -
  have "hm_wf sample_headers" by code_simp
  moreover have "flatten (filter (\<lambda>e. keeps Some sample_headers (fst e)) sample_headers) =
      [(''host'', ''example.test''), (''accept'', ''a''), (''accept'', ''b'')]"
    by code_simp
  ultimately show ?thesis using filtered_headers [of sample_headers Some] by simp
qed

text \<open>
  Proxy credentials go nowhere: two header maps that differ only in the values of
  \<^verbatim>\<open>proxy-authorization\<close> are filtered to the same outcome, which has no such header.
\<close>

theorem proxy_credentials_are_dropped:
  assumes "hm_wf (as @ (''proxy-authorization'', vs) # bs)" and "ws \<noteq> []"
  shows "filter_proxy_headers to_str (as @ (''proxy-authorization'', vs) # bs) =
      filter_proxy_headers to_str (as @ (''proxy-authorization'', ws) # bs)
    \<and> ''proxy-authorization'' \<notin> fst ` set (pf_forwarded (filter_proxy_headers to_str (as @ (''proxy-authorization'', vs) # bs)))"
proof -
  let ?hs = "as @ (''proxy-authorization'', vs) # bs" and ?hs' = "as @ (''proxy-authorization'', ws) # bs"
  have wf': "hm_wf ?hs'" using assms by (auto simp: hm_wf_def)
  have get: "hm_get_all ?hs n = hm_get_all ?hs' n" if "n \<noteq> ''proxy-authorization''" for n
    using that by (auto simp: hm_get_all_def map_add_def split: option.splits)
  have tokens: "connection_tokens to_str ?hs = connection_tokens to_str ?hs'"
    by (simp add: connection_tokens_def get)
  have "te_forward to_str ?hs = te_forward to_str ?hs'" by (simp add: te_forward_def get)
  with tokens have keeps: "keeps to_str ?hs = keeps to_str ?hs'" by (auto simp: keeps_def)
  have no: "\<not> keeps to_str h ''proxy-authorization''" for h by (simp add: keeps_def PROXY_ONLY_def)
  have "''proxy-authorization'' \<notin> fst ` set (flatten (filter (\<lambda>e. keeps to_str ?hs (fst e)) ?hs))"
    using no by (auto simp: flatten_def)
  then show ?thesis
    unfolding filtered_headers_eq [OF assms(1)] filtered_headers_eq [OF wf'] tokens keeps using no by simp
qed

lemma proxy_credentials_are_dropped_witness:
  "filter_proxy_headers Some [(''host'', [''h'']), (''proxy-authorization'', [''Basic 1''])] =
     filter_proxy_headers Some [(''host'', [''h'']), (''proxy-authorization'', [''Basic 2''])]"
  using proxy_credentials_are_dropped [of "[(''host'', [''h''])]" "[''Basic 1'']" "[]" "[''Basic 2'']" Some]
  by (simp add: hm_wf_def to_lower_def lower_char_def is_ascii_upper_def byte_in_def byte_val_def)

text \<open>
  A connection header that does not decode nominates nothing: the names it lists are
  forwarded.
\<close>

theorem undecodable_connection_nominates_nothing:
  assumes "hm_wf hs" and "\<forall>v\<in>set (hm_get_all hs ''connection''). to_str v = None"
    and "name \<notin> set (''connection'' # ''upgrade'' # ''te'' # PROXY_ONLY)" and "(name, vs) \<in> set hs"
  shows "\<forall>v\<in>set vs. (name, v) \<in> set (pf_forwarded (filter_proxy_headers to_str hs))"
proof -
  have "connection_tokens to_str hs = []"
    using assms(2) by (auto simp: connection_tokens_def filter_empty_conv trim_visible visible_def)
  then have "keeps to_str hs name" using assms(3) by (simp add: keeps_def)
  then show ?thesis
    unfolding filtered_headers_eq [OF assms(1)] using assms(4) by (force simp: flatten_def)
qed

lemma undecodable_connection_nominates_nothing_witness:
  "(''x-hop'', ''1'') \<in> set (pf_forwarded (filter_proxy_headers (\<lambda>v. if is_ascii v then Some v else None)
      [(''connection'', [''x-hop,'' @ [CHR 0xFF]]), (''x-hop'', [''1''])]))"
proof -
  let ?to_str = "\<lambda>v. if is_ascii v then Some v else None"
  let ?hs = "[(''connection'', [''x-hop,'' @ [CHR 0xFF]]), (''x-hop'', [''1''])]"
  have "hm_wf ?hs" by code_simp
  moreover have "\<forall>v\<in>set (hm_get_all ?hs ''connection''). ?to_str v = None" by code_simp
  ultimately show ?thesis
    using undecodable_connection_nominates_nothing [of ?hs ?to_str "''x-hop''" "[''1'']"]
    by (simp add: PROXY_ONLY_def)
qed

end
