(* ===== verification/Proxy_Policy.thy ===== *)
theory Proxy_Policy
  imports Strings
begin

text \<open>
  The target policy of the intercepting proxy, \<^verbatim>\<open>crates/eggreplay-intercept/src/policy.rs\<close>: hosts
  and authorities are normalised, rules match on host, port and request kind, and the most specific
  matching rule decides, deny winning ties. The parser of IP literals is the standard library's,
  \<^verbatim>\<open>core::net::parser\<close>, written out because rules and targets are compared by its result.
\<close>

definition MAX_POLICY_RULES :: usize where "MAX_POLICY_RULES = 128"
definition MAX_HOST_PATTERN_LEN :: usize where "MAX_HOST_PATTERN_LEN = 253"
definition MAX_PORT_SET_SIZE :: usize where "MAX_PORT_SET_SIZE = 64"
definition DIAGNOSTIC_PREVIEW_LEN :: usize where "DIAGNOSTIC_PREVIEW_LEN = 64"

datatype policy_error =
    InvalidHost string
  | InvalidPort string
  | InvalidRule string
  | TooManyRules usize

text \<open>The first characters of a string, and how many it has: a continuation byte starts none.\<close>

primrec take_chars :: "nat \<Rightarrow> string \<Rightarrow> string" where
  "take_chars 0 s = []"
| "take_chars (Suc n) s = (case s of [] \<Rightarrow> []
     | c # t \<Rightarrow> c # takeWhile is_cont t @ take_chars n (dropWhile is_cont t))"

definition char_count :: "string \<Rightarrow> nat" where
  "char_count s = length (filter (\<lambda>c. \<not> is_cont c) s)"

definition preview :: "string \<Rightarrow> string" where
  "preview input =
     take_chars DIAGNOSTIC_PREVIEW_LEN input @ (if char_count input > DIAGNOSTIC_PREVIEW_LEN then ''...'' else [])"

section \<open>IP literals\<close>

datatype ip_addr = IpV4 "nat list" | IpV6 "nat list"

definition hex_value :: "char \<Rightarrow> nat" where
  "hex_value c = (if is_ascii_digit c then byte_val c - 48
     else if byte_in 97 102 c then byte_val c - 87 else byte_val c - 55)"

text \<open>
  \<^verbatim>\<open>read_number\<close>: all digits that follow, at most \<open>max_digits\<close> of them, their value below \<open>bound\<close>; where
  no zero prefix is allowed, a leading zero stands alone.
\<close>

definition read_number :: "nat \<Rightarrow> nat \<Rightarrow> nat \<Rightarrow> bool \<Rightarrow> string \<Rightarrow> (nat \<times> string) option" where
  "read_number radix max_digits bound allow_zero_prefix s =
     (let is_digit = (if radix = 16 then is_ascii_hexdigit else is_ascii_digit);
          digits = takeWhile is_digit s;
          val = foldl (\<lambda>n c. radix * n + hex_value c) 0 digits
      in if digits = [] \<or> length digits > max_digits \<or> val \<ge> bound
            \<or> (\<not> allow_zero_prefix \<and> hd digits = CHR ''0'' \<and> length digits > 1)
         then None else Some (val, dropWhile is_digit s))"

definition read_char :: "char \<Rightarrow> string \<Rightarrow> string option" where
  "read_char c s = (case s of [] \<Rightarrow> None | d # t \<Rightarrow> if d = c then Some t else None)"

text \<open>\<^verbatim>\<open>read_separator\<close>: every element but the first is preceded by the separator.\<close>

definition read_separator :: "char \<Rightarrow> nat \<Rightarrow> string \<Rightarrow> string option" where
  "read_separator sep i s = (if i = 0 then Some s else read_char sep s)"

fun read_octets :: "nat \<Rightarrow> nat \<Rightarrow> string \<Rightarrow> (nat list \<times> string) option" where
  "read_octets i 0 s = Some ([], s)"
| "read_octets i (Suc k) s =
     Option.bind (read_separator CHR ''.'' i s) (\<lambda>s.
     Option.bind (read_number 10 3 256 False s) (\<lambda>(n, s).
     Option.bind (read_octets (Suc i) k s) (\<lambda>(ns, s). Some (n # ns, s))))"

definition read_ipv4 :: "string \<Rightarrow> (nat list \<times> string) option" where
  "read_ipv4 s = read_octets 0 4 s"

text \<open>
  \<^verbatim>\<open>read_groups\<close>: up to \<open>k\<close> more groups from the \<open>i\<close>-th on; an embedded IPv4 address fills two and
  ends the groups. The result is the groups, whether an IPv4 address ended them, and the rest.
\<close>

fun read_groups :: "nat \<Rightarrow> nat \<Rightarrow> string \<Rightarrow> nat list \<times> bool \<times> string" where
  "read_groups i 0 s = ([], False, s)"
| "read_groups i (Suc k) s =
     (case (if k \<ge> 1 then Option.bind (read_separator CHR '':'' i s) read_ipv4 else None) of
        Some (octets, rest) \<Rightarrow>
          ([octets ! 0 * 256 + octets ! 1, octets ! 2 * 256 + octets ! 3], True, rest)
      | None \<Rightarrow>
          (case Option.bind (read_separator CHR '':'' i s) (read_number 16 4 65536 True) of
             None \<Rightarrow> ([], False, s)
           | Some (g, rest) \<Rightarrow>
               (case read_groups (Suc i) k rest of (gs, v4, rest') \<Rightarrow> (g # gs, v4, rest'))))"

definition read_ipv6 :: "string \<Rightarrow> (nat list \<times> string) option" where
  "read_ipv6 s =
     (case read_groups 0 8 s of (head, head_ipv4, rest) \<Rightarrow>
        if length head = 8 then Some (head, rest)
        else if head_ipv4 then None
        else Option.bind (read_char CHR '':'' rest) (\<lambda>rest.
             Option.bind (read_char CHR '':'' rest) (\<lambda>rest.
             (case read_groups 0 (8 - (length head + 1)) rest of (tail, _, rest) \<Rightarrow>
                Some (head @ replicate (8 - length head - length tail) 0 @ tail, rest)))))"

definition parse_ip :: "string \<Rightarrow> ip_addr option" where
  "parse_ip s =
     (case read_ipv4 s of
        Some (octets, rest) \<Rightarrow> (if rest = [] then Some (IpV4 octets) else None)
      | None \<Rightarrow> (case read_ipv6 s of
          Some (groups, rest) \<Rightarrow> (if rest = [] then Some (IpV6 groups) else None)
        | None \<Rightarrow> None))"

section \<open>Normalisation\<close>

datatype normalized_host = Dns string | Ip ip_addr

record normalized_target =
  nt_host :: normalized_host
  nt_port :: u16

definition bad_host :: "string \<Rightarrow> string \<Rightarrow> policy_error + 'a" where
  "bad_host what input = Inl (InvalidHost (what @ preview input))"

definition check_label :: "string \<Rightarrow> string \<Rightarrow> policy_error + unit" where
  "check_label input label =
     (if label = [] \<or> length label > 63 then bad_host ''invalid DNS label: '' input
      else if hd label = CHR ''-'' \<or> last label = CHR ''-'' then bad_host ''invalid DNS label: '' input
      else if \<not> (\<forall>c\<in>set label. is_ascii_alnum c \<or> c = CHR ''-'') then bad_host ''invalid DNS characters: '' input
      else Inr ())"

definition normalize_dns :: "string \<Rightarrow> policy_error + normalized_host" where
  "normalize_dns input =
     (if \<not> is_ascii input then Inl (InvalidHost ''non-ASCII names are rejected'')
      else let lower = to_lower input; without_dot = unwrap_or (strip_suffix ''.'' lower) lower
           in if without_dot = [] then Inl (InvalidHost ''empty host'')
              else if length without_dot > MAX_HOST_PATTERN_LEN then bad_host ''host too long: '' input
              else if has_whitespace without_dot then bad_host ''host contains whitespace: '' input
              else rbind (check_all (check_label input) (split_on CHR ''.'' without_dot)) (\<lambda>_.
                   Inr (Dns without_dot)))"

definition contains_path_syntax :: "string \<Rightarrow> bool" where
  "contains_path_syntax s \<longleftrightarrow> (\<exists>c\<in>set s. c \<in> set ''/?#'')"

definition normalize_host :: "string \<Rightarrow> policy_error + normalized_host" where
  "normalize_host input =
     (let trimmed = trim input
      in if trimmed = [] then Inl (InvalidHost ''empty host'')
         else if length trimmed > MAX_HOST_PATTERN_LEN + 2 then bad_host ''host too long: '' trimmed
         else if CHR ''@'' \<in> set trimmed then Inl (InvalidHost ''host must not contain userinfo'')
         else if contains_path_syntax trimmed then bad_host ''host contains path syntax: '' trimmed
         else case Option.bind (strip_prefix ''['' trimmed) (strip_suffix '']'') of
           Some stripped \<Rightarrow>
             (case parse_ip stripped of
                Some (IpV6 addr) \<Rightarrow> Inr (Ip (IpV6 addr))
              | _ \<Rightarrow> bad_host ''invalid bracketed host: '' trimmed)
         | None \<Rightarrow>
             (if CHR ''['' \<in> set trimmed \<or> CHR '']'' \<in> set trimmed then bad_host ''unbalanced brackets: '' trimmed
              else case parse_ip trimmed of
                Some addr \<Rightarrow> Inr (Ip addr)
              | None \<Rightarrow> (if CHR '':'' \<in> set trimmed then bad_host ''invalid host: '' trimmed
                         else normalize_dns trimmed)))"

definition parse_port :: "string \<Rightarrow> policy_error + u16" where
  "parse_port port_str =
     (case parse_uint (2 ^ 16) port_str of
        None \<Rightarrow> Inl (InvalidPort (''invalid port: '' @ preview port_str))
      | Some n \<Rightarrow> (let port = of_nat n in if port = 0 then Inl (InvalidPort ''port zero is rejected'') else Inr port))"

definition normalize_authority :: "string \<Rightarrow> u16 \<Rightarrow> policy_error + normalized_target" where
  "normalize_authority authority default_port =
     (let trimmed = trim authority
      in if trimmed = [] then Inl (InvalidHost ''empty authority'')
         else if CHR ''@'' \<in> set trimmed then Inl (InvalidHost ''authority must not contain userinfo'')
         else if contains_path_syntax trimmed then bad_host ''authority contains path syntax: '' trimmed
         else case strip_prefix ''['' trimmed of
           Some rest \<Rightarrow>
             (case split_once CHR '']'' rest of
                None \<Rightarrow> bad_host ''unbalanced brackets: '' trimmed
              | Some (host_part, remainder) \<Rightarrow>
                  (case parse_ip host_part of
                     Some (IpV6 addr) \<Rightarrow>
                       rbind (if remainder = [] then Inr default_port
                              else case strip_prefix '':'' remainder of
                                Some port_str \<Rightarrow> parse_port port_str
                              | None \<Rightarrow> bad_host ''invalid authority suffix: '' trimmed)
                         (\<lambda>port. Inr \<lparr>nt_host = Ip (IpV6 addr), nt_port = port\<rparr>)
                   | _ \<Rightarrow> bad_host ''invalid bracketed host: '' trimmed))
         | None \<Rightarrow>
             (if has_whitespace trimmed then bad_host ''authority contains whitespace: '' trimmed
              else case rsplit_once CHR '':'' trimmed of
                Some (host_part, port_str) \<Rightarrow>
                  (if CHR '':'' \<in> set host_part then bad_host ''unbracketed IPv6 must use brackets: '' trimmed
                   else rbind (normalize_host host_part) (\<lambda>host.
                        rbind (parse_port port_str) (\<lambda>port. Inr \<lparr>nt_host = host, nt_port = port\<rparr>)))
              | None \<Rightarrow> rbind (normalize_host trimmed) (\<lambda>host. Inr \<lparr>nt_host = host, nt_port = default_port\<rparr>)))"

section \<open>Rules\<close>

datatype host_match = ExactDns string | SuffixDns string | ExactIp ip_addr

definition exact_dns :: "string \<Rightarrow> policy_error + host_match" where
  "exact_dns input = rbind (normalize_host input) (\<lambda>h. case h of
       Dns name \<Rightarrow> Inr (ExactDns name)
     | Ip _ \<Rightarrow> Inl (InvalidHost ''exact DNS pattern must not be an IP literal''))"

definition suffix_dns :: "string \<Rightarrow> policy_error + host_match" where
  "suffix_dns input =
     (let trimmed = trim input;
          parent = (case strip_prefix ''*.'' trimmed of
              Some p \<Rightarrow> p
            | None \<Rightarrow> unwrap_or (strip_prefix ''.'' trimmed) trimmed)
      in if length parent > MAX_HOST_PATTERN_LEN then bad_host ''suffix too long: '' input
         else rbind (normalize_host parent) (\<lambda>h. case h of
             Dns name \<Rightarrow> Inr (SuffixDns name)
           | Ip _ \<Rightarrow> Inl (InvalidHost ''DNS suffix must not be an IP literal'')))"

definition exact_ip :: "ip_addr \<Rightarrow> host_match" where
  "exact_ip addr = ExactIp addr"

fun host_matches :: "host_match \<Rightarrow> normalized_host \<Rightarrow> bool" where
  "host_matches (ExactDns pattern) (Dns name) = (pattern = name)"
| "host_matches (SuffixDns parent) (Dns name) = (name = parent \<or> ends_with (''.'' @ parent) name)"
| "host_matches (ExactIp pattern) (Ip addr) = (pattern = addr)"
| "host_matches _ _ = False"

fun host_specificity :: "host_match \<Rightarrow> u32" where
  "host_specificity (ExactIp _) = 3000"
| "host_specificity (ExactDns _) = 2000"
| "host_specificity (SuffixDns parent) = 1000 + of_nat (min (length parent) 253)"

datatype port_match = PExact u16 | PRange u16 u16 | PSet "u16 list" | PAny

definition port_exact :: "u16 \<Rightarrow> policy_error + port_match" where
  "port_exact port = (if port = 0 then Inl (InvalidPort ''port zero is rejected'') else Inr (PExact port))"

definition port_range :: "u16 \<Rightarrow> u16 \<Rightarrow> policy_error + port_match" where
  "port_range start end =
     (if start = 0 \<or> end = 0 then Inl (InvalidPort ''port zero is rejected'')
      else if start > end
      then Inl (InvalidPort (''inverted port range: '' @ to_dec (unat start) @ ''-'' @ to_dec (unat end)))
      else Inr (PRange start end))"

definition port_set :: "u16 list \<Rightarrow> policy_error + port_match" where
  "port_set ports =
     (if ports = [] then Inl (InvalidPort ''empty port set'')
      else if length ports > MAX_PORT_SET_SIZE
      then Inl (InvalidPort (''port set too large: '' @ to_dec (length ports)))
      else if 0 \<in> set ports then Inl (InvalidPort ''port zero is rejected'')
      else Inr (PSet ports))"

fun port_matches :: "port_match \<Rightarrow> u16 \<Rightarrow> bool" where
  "port_matches (PExact expected) port = (expected = port)"
| "port_matches (PRange start end) port = (start \<le> port \<and> port \<le> end)"
| "port_matches (PSet ports) port = (port \<in> set ports)"
| "port_matches PAny port = True"

fun port_specificity :: "port_match \<Rightarrow> u32" where
  "port_specificity (PExact _) = 300"
| "port_specificity (PSet ports) = 200 + of_nat (MAX_PORT_SET_SIZE - min (length ports) MAX_PORT_SET_SIZE)"
| "port_specificity (PRange _ _) = 100"
| "port_specificity PAny = 0"

datatype request_kind = KPlain | KConnect | KAny

definition covers :: "request_kind \<Rightarrow> request_kind \<Rightarrow> bool" where
  "covers self observed \<longleftrightarrow> self = KAny \<or> self = observed"

fun kind_specificity :: "request_kind \<Rightarrow> u32" where
  "kind_specificity KAny = 0"
| "kind_specificity KPlain = 10"
| "kind_specificity KConnect = 10"

datatype rule_action = Allow | Deny

datatype connect_action = CDeny | CTunnel | CIntercept

record rule =
  r_host :: host_match
  r_ports :: port_match
  r_kind :: request_kind
  r_action :: rule_action

definition rule_new :: "host_match \<Rightarrow> port_match \<Rightarrow> request_kind \<Rightarrow> rule_action \<Rightarrow> rule" where
  "rule_new host ports kind action = \<lparr>r_host = host, r_ports = ports, r_kind = kind, r_action = action\<rparr>"

definition rule_matches :: "rule \<Rightarrow> normalized_host \<Rightarrow> u16 \<Rightarrow> request_kind \<Rightarrow> bool" where
  "rule_matches self host port kind \<longleftrightarrow>
     host_matches (r_host self) host \<and> port_matches (r_ports self) port \<and> covers (r_kind self) kind"

definition rule_specificity :: "rule \<Rightarrow> u32" where
  "rule_specificity self =
     host_specificity (r_host self) + port_specificity (r_ports self) + kind_specificity (r_kind self)"

section \<open>The policy\<close>

record target_policy =
  tp_rules :: "rule list"
  tp_default_connect_action :: connect_action

definition policy_new :: "rule list \<Rightarrow> connect_action \<Rightarrow> policy_error + target_policy" where
  "policy_new rules default_connect_action =
     (if length rules > MAX_POLICY_RULES then Inl (TooManyRules (length rules))
      else Inr \<lparr>tp_rules = rules, tp_default_connect_action = default_connect_action\<rparr>)"

definition deny_all :: "connect_action \<Rightarrow> target_policy" where
  "deny_all default_connect_action = \<lparr>tp_rules = [], tp_default_connect_action = default_connect_action\<rparr>"

definition rule_count :: "target_policy \<Rightarrow> usize" where
  "rule_count self = length (tp_rules self)"

definition consider_rule ::
  "normalized_host \<Rightarrow> u16 \<Rightarrow> request_kind \<Rightarrow> rule \<Rightarrow> (u32 \<times> rule_action) option \<Rightarrow> (u32 \<times> rule_action) option" where
  "consider_rule host port kind r best =
     (if \<not> rule_matches r host port kind then best
      else let score = rule_specificity r
           in Some (case best of
                None \<Rightarrow> (score, r_action r)
              | Some (best_score, best_action) \<Rightarrow>
                  (if score > best_score \<or> (score = best_score \<and> r_action r = Deny \<and> best_action = Allow)
                   then (score, r_action r) else (best_score, best_action))))"

definition evaluate :: "target_policy \<Rightarrow> normalized_host \<Rightarrow> u16 \<Rightarrow> request_kind \<Rightarrow> rule_action" where
  "evaluate self host port kind =
     (case fold (consider_rule host port kind) (tp_rules self) None of
        None \<Rightarrow> Deny | Some (_, action) \<Rightarrow> action)"

definition allows_plain :: "target_policy \<Rightarrow> normalized_host \<Rightarrow> u16 \<Rightarrow> bool" where
  "allows_plain self host port \<longleftrightarrow> evaluate self host port KPlain = Allow"

definition resolve_connect :: "target_policy \<Rightarrow> normalized_host \<Rightarrow> u16 \<Rightarrow> connect_action" where
  "resolve_connect self host port =
     (case evaluate self host port KConnect of Deny \<Rightarrow> CDeny | Allow \<Rightarrow> tp_default_connect_action self)"

section \<open>Which rule decides\<close>

definition decisive :: "target_policy \<Rightarrow> normalized_host \<Rightarrow> u16 \<Rightarrow> request_kind \<Rightarrow> rule \<Rightarrow> bool" where
  "decisive pol host port kind r \<longleftrightarrow>
     r \<in> set (tp_rules pol) \<and> rule_matches r host port kind
     \<and> (\<forall>r'\<in>set (tp_rules pol). rule_matches r' host port kind \<longrightarrow> rule_specificity r' \<le> rule_specificity r)"

definition best_is :: "rule set \<Rightarrow> u32 \<times> rule_action \<Rightarrow> bool" where
  "best_is M best \<longleftrightarrow>
     (\<exists>r\<in>M. rule_specificity r = fst best \<and> r_action r = snd best)
     \<and> (\<forall>r\<in>M. rule_specificity r \<le> fst best)
     \<and> (snd best = Allow \<longrightarrow> (\<forall>r\<in>M. rule_specificity r = fst best \<longrightarrow> r_action r = Allow))"

lemma consider_rule_best:
  assumes "case best of None \<Rightarrow> M = {} | Some b \<Rightarrow> best_is M b"
    and "rule_matches r host port kind"
  shows "\<exists>b. consider_rule host port kind r best = Some b \<and> best_is (insert r M) b"
proof (cases best)
  case None
  then show ?thesis using assms by (auto simp: consider_rule_def best_is_def)
next
  case (Some b)
  obtain s a where b: "b = (s, a)" by (cases b)
  have le: "\<forall>r\<in>M. rule_specificity r \<le> s" using assms(1) by (simp add: Some b best_is_def)
  show ?thesis
  proof (cases "rule_specificity r > s")
    case True
    then show ?thesis using assms le by (fastforce simp: consider_rule_def best_is_def Some b)
  next
    case False
    then show ?thesis
      using assms le
      by (cases "r_action r"; cases a; cases "rule_specificity r = s")
        (auto simp: consider_rule_def best_is_def Some b)
  qed
qed

lemma fold_consider_rule:
  "case fold (consider_rule host port kind) rs None of
     None \<Rightarrow> {r \<in> set rs. rule_matches r host port kind} = {}
   | Some b \<Rightarrow> best_is {r \<in> set rs. rule_matches r host port kind} b"
proof (induction rs rule: rev_induct)
  case (snoc r rs)
  show ?case
  proof (cases "rule_matches r host port kind")
    case True
    then have "{r' \<in> set (rs @ [r]). rule_matches r' host port kind} =
        insert r {r \<in> set rs. rule_matches r host port kind}"
      by auto
    then show ?thesis using consider_rule_best [OF snoc True] by auto
  next
    case False
    then have same: "{r' \<in> set (rs @ [r]). rule_matches r' host port kind} = {r \<in> set rs. rule_matches r host port kind}"
      by auto
    have "consider_rule host port kind r best = best" for best
      using False by (simp add: consider_rule_def)
    then show ?thesis using snoc unfolding same by simp
  qed
qed simp

lemma evaluate_cases:
  "evaluate pol host port kind = Allow \<longleftrightarrow>
     (\<exists>r. decisive pol host port kind r \<and> r_action r = Allow)
     \<and> \<not> (\<exists>r. decisive pol host port kind r \<and> r_action r = Deny)"
proof (cases "fold (consider_rule host port kind) (tp_rules pol) None")
  case None
  then show ?thesis
    using fold_consider_rule [of "tp_rules pol" host port kind] by (auto simp: evaluate_def decisive_def)
next
  case (Some b)
  then have b: "best_is {r \<in> set (tp_rules pol). rule_matches r host port kind} b"
    using fold_consider_rule [of "tp_rules pol" host port kind] by simp
  have dec: "decisive pol host port kind r \<longleftrightarrow>
      r \<in> set (tp_rules pol) \<and> rule_matches r host port kind \<and> rule_specificity r = fst b" for r
    using b by (fastforce simp: decisive_def best_is_def)
  have "evaluate pol host port kind = snd b" using Some by (simp add: evaluate_def split: prod.splits)
  then show ?thesis
    unfolding dec using b by (cases "snd b") (auto simp: best_is_def)
qed

text \<open>
  Property C31: A target is allowed exactly when some matching rule of the highest specificity allows
  it and none of that specificity denies it; in particular what no rule matches is denied.
\<close>

theorem evaluate_most_specific_deny_wins:
  "evaluate pol host port kind =
     (if (\<exists>r. decisive pol host port kind r \<and> r_action r = Allow)
          \<and> \<not> (\<exists>r. decisive pol host port kind r \<and> r_action r = Deny)
      then Allow else Deny)"
  using evaluate_cases [of pol host port kind] by (cases "evaluate pol host port kind") auto

text \<open>
  The order and the repetition of rules mean nothing: two policies with the same rules
  decide every target alike.
\<close>

theorem evaluation_ignores_rule_order:
  assumes "set (tp_rules a) = set (tp_rules b)"
  shows "evaluate a host port kind = evaluate b host port kind"
proof -
  have "decisive a host port kind r \<longleftrightarrow> decisive b host port kind r" for r
    using assms by (simp add: decisive_def)
  then have "evaluate a host port kind = Allow \<longleftrightarrow> evaluate b host port kind = Allow"
    by (simp add: evaluate_cases)
  then show ?thesis by (cases "evaluate a host port kind"; cases "evaluate b host port kind") auto
qed

definition allow_rule :: rule where
  "allow_rule = \<lparr>r_host = SuffixDns ''example.com'', r_ports = PExact 443, r_kind = KAny, r_action = Allow\<rparr>"

definition deny_rule :: rule where
  "deny_rule = \<lparr>r_host = SuffixDns ''secret.example.com'', r_ports = PAny, r_kind = KAny, r_action = Deny\<rparr>"

definition policy_of :: "rule list \<Rightarrow> target_policy" where
  "policy_of rules = \<lparr>tp_rules = rules, tp_default_connect_action = CTunnel\<rparr>"

lemma evaluation_ignores_rule_order_witness:
  "evaluate (policy_of [allow_rule, deny_rule]) (Dns ''a.example.com'') 443 KConnect =
     evaluate (policy_of [deny_rule, allow_rule, deny_rule]) (Dns ''a.example.com'') 443 KConnect"
  by (rule evaluation_ignores_rule_order) (auto simp: policy_of_def)

text \<open>
  The proxy fails closed: a target that may be dialled, tunnelled or intercepted is
  matched by a rule that allows it, and an empty policy refuses everything.
\<close>

theorem proxy_fails_closed:
  "resolve_connect (deny_all action) host port = CDeny \<and> \<not> allows_plain (deny_all action) host port
   \<and> (resolve_connect pol host port = CDeny
      \<or> (\<exists>r. r \<in> set (tp_rules pol) \<and> rule_matches r host port KConnect \<and> r_action r = Allow
           \<and> resolve_connect pol host port = tp_default_connect_action pol))"
proof -
  have "evaluate (deny_all action) host port kind = Deny" for kind
    by (simp add: evaluate_def deny_all_def)
  moreover have "\<exists>r. r \<in> set (tp_rules pol) \<and> rule_matches r host port KConnect \<and> r_action r = Allow"
    if "evaluate pol host port KConnect = Allow"
    using that by (auto simp: evaluate_cases decisive_def)
  ultimately show ?thesis
    by (cases "evaluate pol host port KConnect") (auto simp: resolve_connect_def allows_plain_def)
qed

section \<open>Host patterns\<close>

text \<open>
  A suffix pattern matches on label boundaries only: a name matches exactly when its
  labels end with the labels of the pattern, so a look-alike name never does.
\<close>

theorem suffix_matches_whole_labels:
  "host_matches (SuffixDns parent) (Dns name) \<longleftrightarrow> suffix (split_on CHR ''.'' parent) (split_on CHR ''.'' name)"
  by (simp add: suffix_split_on ends_with_def)

definition label_ok :: "string \<Rightarrow> bool" where
  "label_ok l \<longleftrightarrow> l \<noteq> [] \<and> length l \<le> 63 \<and> hd l \<noteq> CHR ''-'' \<and> last l \<noteq> CHR ''-''
     \<and> (\<forall>c\<in>set l. is_ascii_alnum c \<or> c = CHR ''-'')"

text \<open>A normalised DNS name: lowercase labels of letters, digits and inner hyphens.\<close>

definition dns_name_ok :: "string \<Rightarrow> bool" where
  "dns_name_ok d \<longleftrightarrow>
     d \<noteq> [] \<and> length d \<le> MAX_HOST_PATTERN_LEN \<and> to_lower d = d \<and> (\<forall>l\<in>set (split_on CHR ''.'' d). label_ok l)"

lemma check_label_iff [res_simps]: "check_label input l = Inr () \<longleftrightarrow> label_ok l"
  by (auto simp: check_label_def label_ok_def bad_host_def)

lemma set_split_on: "c \<in> set s \<Longrightarrow> c = d \<or> (\<exists>w\<in>set (split_on d s). c \<in> set w)"
  by (induction s) (auto split: list.splits)

lemma dns_name_bytes:
  assumes "dns_name_ok d" and "c \<in> set d"
  shows "is_ascii_alnum c \<or> c = CHR ''-'' \<or> c = CHR ''.''"
  using set_split_on [OF assms(2), of "CHR ''.''"] assms(1) by (auto simp: dns_name_ok_def label_ok_def)

lemma host_byte_cases:
  "is_ascii_alnum c \<or> c = CHR ''-'' \<or> c = CHR ''.'' \<Longrightarrow>
     byte_in 33 127 c \<and> byte_val c < 128 \<and> c \<notin> set ''@/?#[]:''"
proof -
  have "\<forall>x\<in>set ''@/?#[]:''. \<not> is_ascii_alnum x" by code_simp
  then show "is_ascii_alnum c \<or> c = CHR ''-'' \<or> c = CHR ''.'' \<Longrightarrow>
     byte_in 33 127 c \<and> byte_val c < 128 \<and> c \<notin> set ''@/?#[]:''"
    by (auto simp: is_ascii_alnum_def is_ascii_digit_def is_ascii_upper_def is_ascii_lower_def byte_in_def byte_val_def)
qed

lemma dns_name_plain:
  assumes "dns_name_ok d"
  shows "visible d" and "is_ascii d" and "\<forall>c\<in>set ''@/?#[]:''. c \<notin> set d"
  using dns_name_bytes [OF assms] host_byte_cases by (fastforce simp: visible_def is_ascii_def)+

lemma dns_name_last: "dns_name_ok d \<Longrightarrow> strip_suffix ''.'' d = None"
proof -
  assume d: "dns_name_ok d"
  have "d \<noteq> t @ ''.''" for t
  proof
    assume "d = t @ ''.''"
    then have "split_on CHR ''.'' d = split_on CHR ''.'' t @ [[]]"
      using split_on_append2 [of "CHR ''.''" t "[]"] by simp
    then show False using d by (simp add: dns_name_ok_def label_ok_def)
  qed
  then show "strip_suffix ''.'' d = None"
    by (metis not_None_eq strip_suffix_Some_iff)
qed

lemma normalize_dns_ok: "normalize_dns s = Inr (Dns d) \<Longrightarrow> dns_name_ok d"
proof -
  assume *: "normalize_dns s = Inr (Dns d)"
  let ?l = "to_lower s"
  have d: "d = unwrap_or (strip_suffix ''.'' ?l) ?l"
    and ok: "d \<noteq> []" "length d \<le> MAX_HOST_PATTERN_LEN" "\<forall>l\<in>set (split_on CHR ''.'' d). label_ok l"
    using * by (auto simp: normalize_dns_def Let_def bad_host_def res_simps split: if_splits)
  have "to_lower d = d"
  proof (cases "strip_suffix ''.'' ?l")
    case None
    then show ?thesis by (simp add: d)
  next
    case (Some t)
    then have "?l = t @ ''.''" by (simp add: strip_suffix_Some_iff)
    then have "to_lower (t @ ''.'') = t @ ''.''" by (metis to_lower_idem)
    then show ?thesis by (simp add: d Some)
  qed
  then show "dns_name_ok d" using ok by (simp add: dns_name_ok_def)
qed

lemma normalize_dns_id: "dns_name_ok d \<Longrightarrow> normalize_dns d = Inr (Dns d)"
  using dns_name_plain [of d] dns_name_last [of d]
  by (simp add: normalize_dns_def dns_name_ok_def has_whitespace_visible res_simps not_less)

lemma normalize_dns_dot:
  assumes "dns_name_ok d"
  shows "normalize_dns (d @ ''.'') = Inr (Dns d)"
proof -
  have "is_ascii (d @ ''.'')" using dns_name_plain(2) [OF assms] by (simp add: is_ascii_def byte_val_def)
  moreover have "to_lower (d @ ''.'') = d @ ''.''"
    using assms by (simp add: dns_name_ok_def) (simp add: to_lower_def lower_char_def is_ascii_upper_def byte_in_def byte_val_def)
  moreover have "strip_suffix ''.'' (d @ ''.'') = Some d" by (simp add: strip_suffix_Some_iff)
  ultimately show ?thesis
    using assms dns_name_plain(1) [OF assms]
    by (simp add: normalize_dns_def dns_name_ok_def has_whitespace_visible not_less) (auto simp: res_simps)
qed

lemma no_brackets: "CHR ''['' \<notin> set s \<Longrightarrow> strip_prefix ''['' s = None"
  by (auto simp: strip_prefix_def prefix_def)

lemma normalize_host_plain:
  assumes "visible s" and "s \<noteq> []" and "\<forall>c\<in>set ''@/?#[]:''. c \<notin> set s" and "length s \<le> MAX_HOST_PATTERN_LEN + 2"
  shows "normalize_host s = (case parse_ip s of Some a \<Rightarrow> Inr (Ip a) | None \<Rightarrow> normalize_dns s)"
  using assms
  by (auto simp: normalize_host_def trim_visible no_brackets contains_path_syntax_def split: option.splits)

lemma normalize_host_dns: "normalize_host s = Inr (Dns d) \<Longrightarrow> dns_name_ok d"
  by (auto simp: normalize_host_def Let_def bad_host_def intro: normalize_dns_ok
      split: if_splits option.splits ip_addr.splits)

text \<open>
  Host names are compared in one spelling: whatever the input, a DNS result is a
  lowercase name of valid labels, and a name already in that form which is not an IP literal is
  its own normal form, with or without the trailing dot.
\<close>

theorem normalize_host_canonical:
  assumes "dns_name_ok d" and "parse_ip d = None" and "parse_ip (d @ ''.'') = None"
  shows "normalize_host d = Inr (Dns d) \<and> normalize_host (d @ ''.'') = Inr (Dns d)
    \<and> (\<forall>s e. normalize_host s = Inr (Dns e) \<longrightarrow> dns_name_ok e)"
proof -
  have "visible (d @ ''.'')" using dns_name_plain(1) [OF assms(1)] by (simp add: visible_def byte_in_def byte_val_def)
  moreover have "\<forall>c\<in>set ''@/?#[]:''. c \<notin> set (d @ ''.'')" using dns_name_plain(3) [OF assms(1)] by simp
  moreover have "length d \<le> MAX_HOST_PATTERN_LEN" "d \<noteq> []" using assms(1) by (simp_all add: dns_name_ok_def)
  ultimately show ?thesis
    using assms dns_name_plain [OF assms(1)] normalize_host_plain [of "d @ ''.''"] normalize_host_plain [of d]
      normalize_dns_id normalize_dns_dot normalize_host_dns by simp
qed

lemma normalize_host_canonical_witness: "normalize_host ''api.example.com.'' = Inr (Dns ''api.example.com'')"
proof -
  have "dns_name_ok ''api.example.com''" by code_simp
  moreover have "parse_ip ''api.example.com'' = None" by code_simp
  moreover have "parse_ip (''api.example.com'' @ ''.'') = None" by code_simp
  ultimately show ?thesis using normalize_host_canonical [of "''api.example.com''"] by simp
qed

text \<open>
  An IPv4 literal written with a trailing dot is normalised to a DNS name with the
  literal's digits, so a rule for the address does not match it although dialling the name reaches
  the address.
\<close>

theorem trailing_dot_hides_ip_literal:
  assumes "dns_name_ok s" and "parse_ip s = Some a" and "parse_ip (s @ ''.'') = None"
  shows "normalize_host s = Inr (Ip a) \<and> normalize_host (s @ ''.'') = Inr (Dns s)
    \<and> host_matches (ExactIp a) (Ip a) \<and> \<not> host_matches (ExactIp a) (Dns s)"
proof -
  have "visible (s @ ''.'')" using dns_name_plain(1) [OF assms(1)] by (simp add: visible_def byte_in_def byte_val_def)
  moreover have "\<forall>c\<in>set ''@/?#[]:''. c \<notin> set (s @ ''.'')" using dns_name_plain(3) [OF assms(1)] by simp
  moreover have "length s \<le> MAX_HOST_PATTERN_LEN" "s \<noteq> []" using assms(1) by (simp_all add: dns_name_ok_def)
  ultimately show ?thesis
    using assms dns_name_plain [OF assms(1)] normalize_host_plain [of "s @ ''.''"] normalize_host_plain [of s]
      normalize_dns_dot by simp
qed

lemma trailing_dot_hides_ip_literal_witness:
  "normalize_host ''127.0.0.1.'' = Inr (Dns ''127.0.0.1'') \<and> normalize_host ''127.0.0.1'' = Inr (Ip (IpV4 [127, 0, 0, 1]))"
proof -
  have "dns_name_ok ''127.0.0.1''" by code_simp
  moreover have "parse_ip ''127.0.0.1'' = Some (IpV4 [127, 0, 0, 1])" by code_simp
  moreover have "parse_ip (''127.0.0.1'' @ ''.'') = None" by code_simp
  ultimately show ?thesis using trailing_dot_hides_ip_literal [of "''127.0.0.1''"] by simp
qed

section \<open>Authorities and ports\<close>

lemma parse_port_Inr_iff: "parse_port s = Inr p \<longleftrightarrow> p \<noteq> 0 \<and> parse_uint (2 ^ 16) s = Some (unat p)"
proof -
  have "unat (of_nat n :: u16) = n" if "parse_uint (2 ^ 16) s = Some n" for n
    using that by (auto simp: parse_uint_def Let_def unsigned_of_nat take_bit_nat_eq_self split: if_splits)
  then show ?thesis by (auto simp: parse_port_def Let_def split: option.splits)
qed

lemma parse_port_to_dec: "0 < p \<Longrightarrow> parse_port (to_dec (unat (p :: u16))) = Inr p"
proof -
  assume "0 < p"
  moreover have "unat p < 2 ^ 16" using unsigned_less [of p] by simp
  ultimately show ?thesis by (simp add: parse_port_Inr_iff parse_to_dec)
qed

lemma parse_port_plus: "parse_port ''+443'' = Inr 443"
  by code_simp

lemma digits_plain:
  assumes "\<forall>c\<in>set s. is_ascii_digit c"
  shows "visible s" and "\<forall>c\<in>set ''@/?#[]:''. c \<notin> set s"
proof -
  have "\<forall>x\<in>set ''@/?#[]:''. \<not> is_ascii_digit x" by code_simp
  then show "\<forall>c\<in>set ''@/?#[]:''. c \<notin> set s" using assms by auto
  show "visible s" using assms by (auto simp: visible_def is_ascii_digit_def byte_in_def)
qed

text \<open>
  An authority that is accepted names a normalised host and a nonzero port, and the
  authority of a normalised name and a port is read back as exactly those.
\<close>

theorem authority_round_trip:
  assumes "dns_name_ok d" and "parse_ip d = None" and "0 < port"
  shows "normalize_authority (d @ '':'' @ to_dec (unat port)) default_port = Inr \<lparr>nt_host = Dns d, nt_port = port\<rparr>
    \<and> normalize_authority d default_port = Inr \<lparr>nt_host = Dns d, nt_port = default_port\<rparr>"
proof -
  let ?p = "to_dec (unat port)"
  let ?a = "d @ '':'' @ ?p"
  have digits: "\<forall>c\<in>set ?p. is_ascii_digit c" using to_dec_digits by blast
  note d = dns_name_plain [OF assms(1)] and p = digits_plain [OF digits]
  have va: "visible ?a" using d(1) p(1) by (auto simp: visible_def byte_in_def byte_val_def)
  have len: "d \<noteq> []" "length d \<le> MAX_HOST_PATTERN_LEN" using assms(1) by (simp_all add: dns_name_ok_def)
  have host: "normalize_host d = Inr (Dns d)"
    using normalize_host_plain [of d] d len assms(2) normalize_dns_id [OF assms(1)] by simp
  have colon: "CHR '':'' \<notin> set d" "CHR '':'' \<notin> set ?p" using d(3) p(2) by auto
  have "rsplit_once CHR '':'' ?a = Some (d, ?p)"
    using rsplit_once_append [OF colon(2), of d] by simp
  moreover have "rsplit_once CHR '':'' d = None"
    using colon(1) by (simp add: rsplit_once_def split_once_def)
  moreover have "strip_prefix ''['' ?a = None" "strip_prefix ''['' d = None"
    using d(3) p(2) by (intro no_brackets; auto)+
  moreover have "\<not> contains_path_syntax ?a" "\<not> contains_path_syntax d" "CHR ''@'' \<notin> set ?a" "CHR ''@'' \<notin> set d"
    using d(3) p(2) by (auto simp: contains_path_syntax_def)
  ultimately show ?thesis
    using va d(1) len colon host parse_port_to_dec [OF assms(3)]
    by (simp add: normalize_authority_def Let_def trim_visible has_whitespace_visible del: append_Cons append_Nil)
qed

lemma authority_round_trip_witness:
  "normalize_authority ''api.example.com:8443'' 443 = Inr \<lparr>nt_host = Dns ''api.example.com'', nt_port = 8443\<rparr>"
proof -
  have "dns_name_ok ''api.example.com''" by code_simp
  moreover have "parse_ip ''api.example.com'' = None" by code_simp
  moreover have "to_dec (unat (8443 :: u16)) = ''8443''" by code_simp
  ultimately show ?thesis using authority_round_trip [of "''api.example.com''" 8443 443] by simp
qed

text \<open>
  Nothing malformed gets past an authority: an accepted one has a nonzero port (given
  a nonzero default) and, where it names a host by DNS, a valid normalised name.
\<close>

theorem accepted_authority_is_normalised:
  assumes "normalize_authority authority default_port = Inr t" and "default_port \<noteq> 0"
  shows "nt_port t \<noteq> 0 \<and> (\<forall>d. nt_host t = Dns d \<longrightarrow> dns_name_ok d)"
  using assms
  by (auto simp: normalize_authority_def Let_def bad_host_def res_simps parse_port_Inr_iff
      split: if_splits option.splits ip_addr.splits; blast intro: normalize_host_dns)

lemma accepted_authority_is_normalised_witness:
  "nt_port \<lparr>nt_host = Ip (IpV6 [0, 0, 0, 0, 0, 0, 0, 1]), nt_port = 8080\<rparr> \<noteq> (0 :: u16)"
proof -
  have "normalize_authority ''[::1]:8080'' 80 = Inr \<lparr>nt_host = Ip (IpV6 [0, 0, 0, 0, 0, 0, 0, 1]), nt_port = 8080\<rparr>"
    by code_simp
  from accepted_authority_is_normalised [OF this] show ?thesis by simp
qed

section \<open>Specificity\<close>

lemma unat_small_u32: "n \<le> 4000 \<Longrightarrow> unat (of_nat n :: u32) = n"
  by (simp add: unsigned_of_nat take_bit_nat_eq_self)

lemma unat_host_specificity:
  "unat (host_specificity h) =
     (case h of ExactIp _ \<Rightarrow> 3000 | ExactDns _ \<Rightarrow> 2000 | SuffixDns p \<Rightarrow> 1000 + min (length p) 253)"
  by (cases h) (simp_all add: unat_word_ariths unat_small_u32)

lemma unat_set_specificity: "n \<le> 64 \<Longrightarrow> unat (200 + of_nat n :: u32) = 200 + n"
  by (simp add: unat_word_ariths unat_small_u32)

lemma unat_port_specificity: "unat (port_specificity p) \<le> 300"
proof (cases p)
  case (PSet ports)
  have "unat (200 + of_nat (64 - min (length ports) 64) :: u32) = 200 + (64 - min (length ports) 64)"
    by (rule unat_set_specificity) simp
  then show ?thesis unfolding PSet port_specificity.simps MAX_PORT_SET_SIZE_def by linarith
qed simp_all

lemma unat_kind_specificity: "unat (kind_specificity k) \<le> 10"
  by (cases k) simp_all

lemma unat_rule_specificity:
  "unat (rule_specificity r) =
     unat (host_specificity (r_host r)) + unat (port_specificity (r_ports r)) + unat (kind_specificity (r_kind r))"
proof -
  have "unat (host_specificity (r_host r)) \<le> 3000"
    by (cases "r_host r") (simp_all add: unat_host_specificity del: host_specificity.simps)
  then show ?thesis
    using unat_port_specificity [of "r_ports r"] unat_kind_specificity [of "r_kind r"]
    by (simp add: rule_specificity_def unat_word_ariths)
qed

text \<open>
  A rule for an exact name outranks every suffix rule, whatever their ports and kinds:
  where one denies and the allowing rules are all suffix rules, the target is denied.
\<close>

theorem exact_name_outranks_suffixes:
  assumes "r \<in> set (tp_rules pol)" and "rule_matches r host port kind"
    and "r_host r = ExactDns name" and "r_action r = Deny"
    and "\<forall>r'\<in>set (tp_rules pol). r_action r' = Allow \<longrightarrow> (\<exists>p. r_host r' = SuffixDns p)"
  shows "evaluate pol host port kind = Deny"
proof -
  have lt: "rule_specificity r' < rule_specificity r" if "r_host r' = SuffixDns p" for r' p
  proof -
    have "unat (rule_specificity r') \<le> 1000 + 253 + 300 + 10"
      using that unat_port_specificity [of "r_ports r'"] unat_kind_specificity [of "r_kind r'"]
      by (simp add: unat_rule_specificity unat_host_specificity del: host_specificity.simps)
    moreover have "2000 \<le> unat (rule_specificity r)"
      by (simp add: unat_rule_specificity unat_host_specificity assms(3) del: host_specificity.simps)
    ultimately show ?thesis by (simp add: word_less_nat_alt)
  qed
  have "\<not> (decisive pol host port kind r' \<and> r_action r' = Allow)" for r'
  proof
    assume d: "decisive pol host port kind r' \<and> r_action r' = Allow"
    then obtain p where "r_host r' = SuffixDns p" using assms(5) by (auto simp: decisive_def)
    then have "rule_specificity r' < rule_specificity r" by (rule lt)
    moreover have "rule_specificity r \<le> rule_specificity r'" using d assms(1,2) by (simp add: decisive_def)
    ultimately show False by simp
  qed
  then have "evaluate pol host port kind \<noteq> Allow" by (simp add: evaluate_cases)
  then show ?thesis by (cases "evaluate pol host port kind") auto
qed

definition deny_name :: rule where
  "deny_name = \<lparr>r_host = ExactDns ''a.example.com'', r_ports = PAny, r_kind = KAny, r_action = Deny\<rparr>"

lemma exact_name_outranks_suffixes_witness:
  "evaluate (policy_of [allow_rule, deny_name]) (Dns ''a.example.com'') 443 KConnect = Deny"
  by (rule exact_name_outranks_suffixes [of deny_name])
    (auto simp: policy_of_def deny_name_def allow_rule_def rule_matches_def covers_def)

text \<open>
  Specificity adds up, so among suffix rules the port can outweigh the name: a rule that
  allows one port of a suffix overrides a rule that denies every port of a longer, more specific
  suffix, however much longer it is.
\<close>

theorem exact_port_outweighs_longer_suffix:
  assumes "tp_rules pol = [\<lparr>r_host = SuffixDns short, r_ports = PExact port, r_kind = k, r_action = Allow\<rparr>,
                          \<lparr>r_host = SuffixDns long, r_ports = PAny, r_kind = k, r_action = Deny\<rparr>]"
    and "host_matches (SuffixDns short) host" and "host_matches (SuffixDns long) host" and "covers k kind"
  shows "evaluate pol host port kind = Allow"
proof -
  let ?a = "\<lparr>r_host = SuffixDns short, r_ports = PExact port, r_kind = k, r_action = Allow\<rparr>"
  let ?d = "\<lparr>r_host = SuffixDns long, r_ports = PAny, r_kind = k, r_action = Deny\<rparr>"
  have "rule_specificity ?d < rule_specificity ?a"
    by (simp add: word_less_nat_alt unat_rule_specificity unat_host_specificity del: host_specificity.simps)
  moreover have "rule_matches ?a host port kind" "rule_matches ?d host port kind"
    using assms by (simp_all add: rule_matches_def)
  ultimately have "decisive pol host port kind r \<longleftrightarrow> r = ?a" for r
    by (auto simp: decisive_def assms(1))
  then show ?thesis by (simp add: evaluate_cases)
qed

lemma exact_port_outweighs_longer_suffix_witness:
  "evaluate (policy_of [allow_rule, deny_rule]) (Dns ''db.secret.example.com'') 443 KConnect = Allow"
  by (rule exact_port_outweighs_longer_suffix [where short = "''example.com''" and long = "''secret.example.com''" and k = KAny])
    (code_simp | simp add: policy_of_def allow_rule_def deny_rule_def)+

end
