(* ===== verification/Proxy_Policy_File.thy ===== *)
theory Proxy_Policy_File
  imports Proxy_Policy External
begin

text \<open>
  The declarative policy file of the intercepting proxy, \<^verbatim>\<open>crates/eggreplay-intercept/src/policy_file.rs\<close>:
  a document (as \<^verbatim>\<open>serde\<close> delivers it) is checked rule by rule, its actions must agree, and it is
  converted to the target policy of \<^verbatim>\<open>policy.rs\<close>. Reading the file and deserialising it are parameters.
\<close>

definition INTERCEPT_POLICY_VERSION :: string where
  "INTERCEPT_POLICY_VERSION = ''eggreplay-intercept-policy/v1''"
definition MAX_POLICY_FILE_BYTES :: usize where "MAX_POLICY_FILE_BYTES = 64 * 1024"
definition DETAIL_LEN :: usize where "DETAIL_LEN = 200"

datatype policy_file_error =
    TooLarge
  | Io string
  | Invalid string
  | UnsupportedVersion string
  | TooManyFileRules usize
  | MixedActions

definition bound_detail :: "string \<Rightarrow> string" where
  "bound_detail input =
     (if length input \<le> DETAIL_LEN then input else take_chars DETAIL_LEN input @ ''...'')"

text \<open>The \<^verbatim>\<open>Display\<close> of a policy error, from its \<^verbatim>\<open>#[error]\<close> attributes.\<close>

fun policy_error_display :: "policy_error \<Rightarrow> string" where
  "policy_error_display (InvalidHost m) = ''invalid host: '' @ m"
| "policy_error_display (InvalidPort m) = ''invalid port: '' @ m"
| "policy_error_display (InvalidRule m) = ''invalid rule: '' @ m"
| "policy_error_display (TooManyRules n) = ''too many policy rules: '' @ to_dec n"

definition invalid_from :: "policy_error \<Rightarrow> policy_file_error" where
  "invalid_from err = Invalid (bound_detail (policy_error_display err))"

section \<open>Actions\<close>

datatype file_action = FDeny | FTunnel | FIntercept

definition file_action_parse :: "string \<Rightarrow> policy_file_error + file_action" where
  "file_action_parse input =
     (let t = to_lower (trim input)
      in if t = ''deny'' then Inr FDeny
         else if t = ''tunnel'' then Inr FTunnel
         else if t = ''intercept'' then Inr FIntercept
         else Inl (Invalid (''unknown rule action: '' @ bound_detail t)))"

fun file_connect_action :: "file_action \<Rightarrow> connect_action" where
  "file_connect_action FDeny = CDeny"
| "file_connect_action FTunnel = CTunnel"
| "file_connect_action FIntercept = CIntercept"

fun file_rule_action :: "file_action \<Rightarrow> rule_action" where
  "file_rule_action FDeny = Deny"
| "file_rule_action FTunnel = Allow"
| "file_rule_action FIntercept = Allow"

fun file_action_as_str :: "file_action \<Rightarrow> string" where
  "file_action_as_str FDeny = ''deny''"
| "file_action_as_str FTunnel = ''tunnel''"
| "file_action_as_str FIntercept = ''intercept''"

definition parse_connect_action :: "string \<Rightarrow> policy_file_error + connect_action" where
  "parse_connect_action input =
     (let t = to_lower (trim input)
      in if t = ''deny'' then Inr CDeny
         else if t = ''tunnel'' then Inr CTunnel
         else if t = ''intercept'' then Inr CIntercept
         else Inl (Invalid (''unknown default_connect_action: '' @ bound_detail t)))"

definition parse_default_action :: "string \<Rightarrow> policy_file_error + connect_action" where
  "parse_default_action input = parse_connect_action input"

fun connect_action_str :: "connect_action \<Rightarrow> string" where
  "connect_action_str CDeny = ''deny''"
| "connect_action_str CTunnel = ''tunnel''"
| "connect_action_str CIntercept = ''intercept''"

section \<open>Ports, kinds and hosts\<close>

definition parse_one_port :: "string \<Rightarrow> policy_file_error + u16" where
  "parse_one_port input =
     (case parse_uint (2 ^ 16) input of
        None \<Rightarrow> Inl (Invalid (''invalid port: '' @ bound_detail input))
      | Some n \<Rightarrow> (let port = of_nat n
                   in if port = 0 then Inl (Invalid ''port zero is rejected'') else Inr port))"

definition u16_of :: "u64 option \<Rightarrow> u16 option" where
  "u16_of n = Option.bind n (\<lambda>n. if n < 65536 then Some (ucast n) else None)"

fun parse_ports :: "ext_lib \<Rightarrow> json \<Rightarrow> policy_file_error + port_match" where
  "parse_ports X JNull = Inr PAny"
| "parse_ports X (JString t) =
     (let text = trim t
      in if eq_ignore_case text ''any'' then Inr PAny
         else case split_once CHR ''-'' text of
           Some (lo, hi) \<Rightarrow>
             rbind (parse_one_port (trim lo)) (\<lambda>start.
             rbind (parse_one_port (trim hi)) (\<lambda>end.
             map_err invalid_from (port_range start end)))
         | None \<Rightarrow> rbind (parse_one_port text) (\<lambda>port. map_err invalid_from (port_exact port)))"
| "parse_ports X (JNumber n) =
     rbind (ok_or (Invalid (''invalid port: '' @ bound_detail (x_json_display X (JNumber n))))
              (u16_of (x_json_as_u64 X (JNumber n)))) (\<lambda>port.
     map_err invalid_from (port_exact port))"
| "parse_ports X (JArray items) =
     rbind (collect_res (\<lambda>item.
              ok_or (Invalid (''invalid port in set: '' @ bound_detail (x_json_display X item)))
                (u16_of (x_json_as_u64 X item))) items) (\<lambda>ports.
     map_err invalid_from (port_set ports))"
| "parse_ports X _ =
     Inl (Invalid (''ports must be '' @ [CHR 0x22] @ ''any'' @ [CHR 0x22] @ '', a port, a '' @ [CHR 0x22]
            @ ''lo-hi'' @ [CHR 0x22] @ '' range, or an array of ports''))"

fun ports_display :: "port_match \<Rightarrow> string" where
  "ports_display (PExact port) = to_dec (unat port)"
| "ports_display (PRange start end) = to_dec (unat start) @ ''-'' @ to_dec (unat end)"
| "ports_display (PSet ports) = join_on CHR '','' (map (\<lambda>p. to_dec (unat p)) ports)"
| "ports_display PAny = ''any''"

definition parse_kind :: "string \<Rightarrow> policy_file_error + request_kind" where
  "parse_kind input =
     (let t = to_lower (trim input)
      in if t = ''plain'' then Inr KPlain
         else if t = ''connect'' then Inr KConnect
         else if t = ''any'' then Inr KAny
         else Inl (Invalid (''unknown rule kind: '' @ bound_detail t)))"

fun request_kind_str :: "request_kind \<Rightarrow> string" where
  "request_kind_str KPlain = ''plain''"
| "request_kind_str KConnect = ''connect''"
| "request_kind_str KAny = ''any''"

definition parse_host_pattern :: "string \<Rightarrow> policy_file_error + host_match" where
  "parse_host_pattern input =
     (let trimmed = trim input
      in case (case strip_prefix ''*.'' trimmed of Some p \<Rightarrow> Some p | None \<Rightarrow> strip_prefix ''.'' trimmed) of
           Some parent \<Rightarrow>
             (if parent = [] then Inl (Invalid ''empty suffix parent'')
              else map_err invalid_from (suffix_dns parent))
         | None \<Rightarrow>
             (case Option.bind (strip_prefix ''['' trimmed) (strip_suffix '']'') of
                Some inner \<Rightarrow>
                  ok_or (Invalid (''invalid host pattern: '' @ bound_detail trimmed))
                    (map_option exact_ip (parse_ip inner))
              | None \<Rightarrow>
                  (case parse_ip trimmed of
                     Some addr \<Rightarrow> Inr (exact_ip addr)
                   | None \<Rightarrow> map_err invalid_from (exact_dns trimmed))))"

fun host_match_kind :: "host_match \<Rightarrow> string" where
  "host_match_kind (ExactDns _) = ''exact''"
| "host_match_kind (SuffixDns _) = ''suffix''"
| "host_match_kind (ExactIp _) = ''ip''"

definition normalized_host_display :: "string \<Rightarrow> string" where
  "normalized_host_display input = to_lower (trim input)"

section \<open>The policy\<close>

record rule_document =
  rd_host :: string
  rd_ports :: json
  rd_kind :: string
  rd_action :: string

record policy_document =
  pd_version :: string
  pd_default_connect_action :: string
  pd_rules :: "rule_document list"

record file_rule =
  fr_host :: host_match
  fr_ports :: port_match
  fr_kind :: request_kind
  fr_action :: file_action
  fr_host_display :: string

record file_policy =
  fp_default_connect_action :: connect_action
  fp_rules :: "file_rule list"

definition parse_rule :: "ext_lib \<Rightarrow> rule_document \<Rightarrow> policy_file_error + file_rule" where
  "parse_rule X r =
     (let host_display = trim (rd_host r)
      in if host_display = [] then Inl (Invalid ''rule host must not be empty'')
         else rbind (parse_host_pattern host_display) (\<lambda>host.
              rbind (parse_ports X (rd_ports r)) (\<lambda>ports.
              rbind (parse_kind (rd_kind r)) (\<lambda>kind.
              rbind (file_action_parse (rd_action r)) (\<lambda>action.
              Inr \<lparr>fr_host = host, fr_ports = ports, fr_kind = kind, fr_action = action,
                   fr_host_display = normalized_host_display host_display\<rparr>)))))"

definition check_coherence :: "file_policy \<Rightarrow> policy_file_error + unit" where
  "check_coherence self =
     check_all (\<lambda>r.
       if fr_action r = FDeny then Inr ()
       else if \<not> covers (fr_kind r) KConnect then Inr ()
       else if file_connect_action (fr_action r) \<noteq> fp_default_connect_action self then Inl MixedActions
       else Inr ()) (fp_rules self)"

definition from_document :: "ext_lib \<Rightarrow> policy_document \<Rightarrow> policy_file_error + file_policy" where
  "from_document X document =
     (if pd_version document \<noteq> INTERCEPT_POLICY_VERSION
      then Inl (UnsupportedVersion (bound_detail (pd_version document)))
      else if length (pd_rules document) > MAX_POLICY_RULES
      then Inl (TooManyFileRules (length (pd_rules document)))
      else rbind (parse_connect_action (pd_default_connect_action document)) (\<lambda>default_connect_action.
           rbind (collect_res (parse_rule X) (pd_rules document)) (\<lambda>rules.
           let policy = \<lparr>fp_default_connect_action = default_connect_action, fp_rules = rules\<rparr>
           in rbind (check_coherence policy) (\<lambda>_. Inr policy))))"

definition parse_policy_json ::
  "ext_lib \<Rightarrow> (bytes \<Rightarrow> string + policy_document) \<Rightarrow> bytes \<Rightarrow> policy_file_error + file_policy" where
  "parse_policy_json X from_slice b =
     (if length b > MAX_POLICY_FILE_BYTES then Inl TooLarge
      else rbind (map_err (\<lambda>err. Invalid (bound_detail err)) (from_slice b)) (from_document X))"

definition to_target_policy :: "file_policy \<Rightarrow> policy_error + target_policy" where
  "to_target_policy self =
     policy_new (map (\<lambda>r. rule_new (fr_host r) (fr_ports r) (fr_kind r) (file_rule_action (fr_action r)))
                   (fp_rules self))
       (fp_default_connect_action self)"

definition flag_rule :: "string \<Rightarrow> file_action \<Rightarrow> string \<Rightarrow> policy_file_error + file_rule" where
  "flag_rule empty_message action host =
     (let trimmed = trim host
      in if trimmed = [] then Inl (Invalid empty_message)
         else rbind (parse_host_pattern trimmed) (\<lambda>h.
              Inr \<lparr>fr_host = h, fr_ports = PAny, fr_kind = KAny, fr_action = action,
                   fr_host_display = normalized_host_display trimmed\<rparr>))"

definition policy_from_flags ::
  "connect_action \<Rightarrow> string list \<Rightarrow> string list \<Rightarrow> policy_file_error + file_policy" where
  "policy_from_flags default_action allow_hosts deny_hosts =
     (let n = usize_sat_add (length allow_hosts) (length deny_hosts)
      in if n > MAX_POLICY_RULES then Inl (TooManyFileRules n)
         else let allow_action = (case default_action of CIntercept \<Rightarrow> FIntercept | _ \<Rightarrow> FTunnel)
           in rbind (collect_res (flag_rule ''allow host must not be empty'' allow_action) allow_hosts) (\<lambda>allows.
              rbind (collect_res (flag_rule ''deny host must not be empty'' FDeny) deny_hosts) (\<lambda>denies.
              let policy = \<lparr>fp_default_connect_action = default_action, fp_rules = allows @ denies\<rparr>
              in rbind (check_coherence policy) (\<lambda>_. Inr policy))))"

section \<open>A coherent policy means what its rules say\<close>

definition coherent :: "file_policy \<Rightarrow> bool" where
  "coherent fp \<longleftrightarrow> (\<forall>r\<in>set (fp_rules fp). fr_action r \<noteq> FDeny \<longrightarrow> covers (fr_kind r) KConnect \<longrightarrow>
     file_connect_action (fr_action r) = fp_default_connect_action fp)"

lemma check_coherence_iff [res_simps]: "check_coherence fp = Inr () \<longleftrightarrow> coherent fp"
  by (auto simp: check_coherence_def coherent_def res_simps)

lemma from_document_ok:
  "from_document X d = Inr fp \<Longrightarrow>
     coherent fp \<and> length (fp_rules fp) \<le> MAX_POLICY_RULES
     \<and> list_all2 (\<lambda>rd r. parse_rule X rd = Inr r) (pd_rules d) (fp_rules fp)"
  by (auto simp: from_document_def Let_def res_simps dest: list_all2_lengthD)

definition file_rule_matches :: "file_rule \<Rightarrow> normalized_host \<Rightarrow> u16 \<Rightarrow> request_kind \<Rightarrow> bool" where
  "file_rule_matches r host port kind \<longleftrightarrow>
     host_matches (fr_host r) host \<and> port_matches (fr_ports r) port \<and> covers (fr_kind r) kind"

lemma host_constructors_ok:
  "suffix_dns s = Inr h \<Longrightarrow> \<exists>d. h = SuffixDns d \<and> dns_name_ok d"
  "exact_dns s = Inr h \<Longrightarrow> \<exists>d. h = ExactDns d \<and> dns_name_ok d"
proof -
  assume "suffix_dns s = Inr h"
  then obtain x p where "normalize_host p = Inr x"
      "(case x of Dns name \<Rightarrow> Inr (SuffixDns name)
        | Ip _ \<Rightarrow> Inl (InvalidHost ''DNS suffix must not be an IP literal'')) = Inr h"
    unfolding suffix_dns_def bad_host_def Let_def if_Inl_eq_Inr rbind_Inr_iff by blast
  then show "\<exists>d. h = SuffixDns d \<and> dns_name_ok d" by (cases x) (auto dest: normalize_host_dns)
next
  assume "exact_dns s = Inr h"
  then obtain x where "normalize_host s = Inr x"
      "(case x of Dns name \<Rightarrow> Inr (ExactDns name)
        | Ip _ \<Rightarrow> Inl (InvalidHost ''exact DNS pattern must not be an IP literal'')) = Inr h"
    unfolding exact_dns_def rbind_Inr_iff by blast
  then show "\<exists>d. h = ExactDns d \<and> dns_name_ok d" by (cases x) (auto dest: normalize_host_dns)
qed

definition pattern_ok :: "host_match \<Rightarrow> bool" where
  "pattern_ok h = (case h of ExactDns d \<Rightarrow> dns_name_ok d | SuffixDns d \<Rightarrow> dns_name_ok d | ExactIp _ \<Rightarrow> True)"

lemma parse_host_pattern_ok: "parse_host_pattern s = Inr h \<Longrightarrow> pattern_ok h"
  by (auto simp: parse_host_pattern_def exact_ip_def Let_def map_err_Inr_iff ok_or_Inr_iff pattern_ok_def
      split: if_splits option.split_asm dest!: host_constructors_ok)

lemma parse_ports_nonzero: "parse_ports X v = Inr p \<Longrightarrow> p \<noteq> PAny \<Longrightarrow> \<not> port_matches p 0"
  by (induction X v rule: parse_ports.induct)
    (auto simp: Let_def res_simps port_exact_def port_range_def port_set_def split: if_splits option.splits)

definition sample_document :: policy_document where
  "sample_document =
     \<lparr>pd_version = INTERCEPT_POLICY_VERSION, pd_default_connect_action = ''Tunnel'',
      pd_rules = [\<lparr>rd_host = ''*.Example.com'', rd_ports = JString ''8000-8100'', rd_kind = ''any'', rd_action = ''tunnel''\<rparr>,
                  \<lparr>rd_host = ''db.example.com'', rd_ports = JNull, rd_kind = ''connect'', rd_action = ''deny''\<rparr>]\<rparr>"

definition sample_file_policy :: file_policy where
  "sample_file_policy =
     \<lparr>fp_default_connect_action = CTunnel,
      fp_rules = [\<lparr>fr_host = SuffixDns ''example.com'', fr_ports = PRange 8000 8100, fr_kind = KAny, fr_action = FTunnel,
                   fr_host_display = ''*.example.com''\<rparr>,
                  \<lparr>fr_host = ExactDns ''db.example.com'', fr_ports = PAny, fr_kind = KConnect, fr_action = FDeny,
                   fr_host_display = ''db.example.com''\<rparr>]\<rparr>"

lemma sample_document_parsed: "from_document demo_lib sample_document = Inr sample_file_policy"
  by code_simp

text \<open>
  Property C32: A policy file that parses always converts to a target policy, and a \<^verbatim>\<open>CONNECT\<close> target
  the policy lets through is handled (tunnelled or intercepted) as every rule of the file that
  allows it says, at least one of which there is.
\<close>

theorem coherent_file_resolves_as_written:
  assumes "from_document X document = Inr fp"
  shows "\<exists>tp. to_target_policy fp = Inr tp
    \<and> (resolve_connect tp host port = CDeny
       \<or> ((\<exists>r\<in>set (fp_rules fp). file_rule_matches r host port KConnect \<and> fr_action r \<noteq> FDeny)
          \<and> (\<forall>r\<in>set (fp_rules fp). file_rule_matches r host port KConnect \<longrightarrow> fr_action r \<noteq> FDeny \<longrightarrow>
               file_connect_action (fr_action r) = resolve_connect tp host port)))"
proof -
  let ?conv = "\<lambda>r. rule_new (fr_host r) (fr_ports r) (fr_kind r) (file_rule_action (fr_action r))"
  let ?tp = "\<lparr>tp_rules = map ?conv (fp_rules fp), tp_default_connect_action = fp_default_connect_action fp\<rparr>"
  have ok: "coherent fp" "length (fp_rules fp) \<le> MAX_POLICY_RULES" using from_document_ok [OF assms] by auto
  then have "to_target_policy fp = Inr ?tp" by (simp add: to_target_policy_def policy_new_def)
  moreover have "rule_matches (?conv r) host port KConnect = file_rule_matches r host port KConnect" for r
    by (simp add: rule_matches_def file_rule_matches_def rule_new_def)
  moreover have "r_action (?conv r) = Allow \<longleftrightarrow> fr_action r \<noteq> FDeny" for r
    by (cases "fr_action r") (simp_all add: rule_new_def)
  ultimately show ?thesis
  proof (cases "evaluate ?tp host port KConnect")
    case Allow
    then obtain r where "decisive ?tp host port KConnect r" "r_action r = Allow"
      by (auto simp: evaluate_cases)
    then obtain fr where "fr \<in> set (fp_rules fp)" "file_rule_matches fr host port KConnect" "fr_action fr \<noteq> FDeny"
      using \<open>\<And>r. rule_matches (?conv r) host port KConnect = file_rule_matches r host port KConnect\<close>
        \<open>\<And>r. r_action (?conv r) = Allow \<longleftrightarrow> fr_action r \<noteq> FDeny\<close>
      by (auto simp: decisive_def)
    moreover have "resolve_connect ?tp host port = fp_default_connect_action fp"
      by (simp add: resolve_connect_def Allow)
    ultimately show ?thesis
      using ok(1) \<open>to_target_policy fp = Inr ?tp\<close> by (auto simp: coherent_def file_rule_matches_def)
  qed (auto simp: resolve_connect_def)
qed

lemma sample_resolves:
  "case to_target_policy sample_file_policy of
     Inl _ \<Rightarrow> False | Inr tp \<Rightarrow> resolve_connect tp (Dns ''a.example.com'') 8080 \<noteq> CDeny"
  by code_simp

lemma coherent_file_resolves_as_written_witness:
  "\<exists>tp. to_target_policy sample_file_policy = Inr tp \<and> resolve_connect tp (Dns ''a.example.com'') 8080 = CTunnel"
proof -
  have r: "fp_rules sample_file_policy ! 0 \<in> set (fp_rules sample_file_policy)" by (simp add: sample_file_policy_def)
  have "file_rule_matches (fp_rules sample_file_policy ! 0) (Dns ''a.example.com'') 8080 KConnect
      \<and> fr_action (fp_rules sample_file_policy ! 0) = FTunnel"
    by code_simp
  with r sample_resolves show ?thesis
    using coherent_file_resolves_as_written [OF sample_document_parsed, of "Dns ''a.example.com''" 8080] by force
qed

text \<open>
  Property C40: What a policy file puts into a rule is normalised: its host pattern is a valid
  normalised name or an address, its ports never cover port zero unless it covers every port.
\<close>

theorem parsed_rules_are_normalised:
  assumes "from_document X document = Inr fp"
  shows "length (fp_rules fp) = length (pd_rules document)
    \<and> (\<forall>r\<in>set (fp_rules fp). pattern_ok (fr_host r) \<and> (fr_ports r = PAny \<or> \<not> port_matches (fr_ports r) 0))"
proof -
  have all: "list_all2 (\<lambda>rd r. parse_rule X rd = Inr r) (pd_rules document) (fp_rules fp)"
    using from_document_ok [OF assms] by simp
  have "pattern_ok (fr_host r) \<and> (fr_ports r = PAny \<or> \<not> port_matches (fr_ports r) 0)"
    if "parse_rule X rd = Inr r" for rd r
    using that by (auto simp: parse_rule_def Let_def res_simps dest: parse_host_pattern_ok parse_ports_nonzero)
  with all have "\<forall>r\<in>set (fp_rules fp). pattern_ok (fr_host r) \<and> (fr_ports r = PAny \<or> \<not> port_matches (fr_ports r) 0)"
    by (induction rule: list_all2_induct) simp_all
  then show ?thesis using list_all2_lengthD [OF all] by simp
qed

lemma parsed_rules_are_normalised_witness:
  "pattern_ok (SuffixDns ''example.com'') \<and> \<not> port_matches (PRange 8000 8100) 0"
  using parsed_rules_are_normalised [OF sample_document_parsed] by (auto simp: sample_file_policy_def)

section \<open>Flags and displays\<close>

text \<open>
  With a deny default no host can be allowed from the command line: every list of
  flags with an allowed host is rejected, because the rule made for it tunnels.
\<close>

theorem allow_flag_needs_tunnel_default:
  "\<not> is_ok (policy_from_flags CDeny (host # allow_hosts) deny_hosts)"
proof
  assume "is_ok (policy_from_flags CDeny (host # allow_hosts) deny_hosts)"
  then obtain fp where fp: "policy_from_flags CDeny (host # allow_hosts) deny_hosts = Inr fp"
    by (auto simp: res_simps)
  then obtain r rs where rules: "fp_rules fp = r # rs" and r: "flag_rule ''allow host must not be empty'' FTunnel host = Inr r"
      and coh: "coherent fp" and def: "fp_default_connect_action fp = CDeny"
    by (auto simp: policy_from_flags_def Let_def res_simps list_all2_Cons1)
  have "fr_action r = FTunnel" "fr_kind r = KAny" using r by (auto simp: flag_rule_def Let_def res_simps)
  then show False using coh rules def by (auto simp: coherent_def covers_def)
qed

lemma visible_digits: "visible (to_dec n)"
  using to_dec_digits [of _ n] by (intro digits_plain(1)) blast

lemma dash_not_digit: "\<not> is_ascii_digit CHR ''-''"
  by code_simp

lemma parse_one_port_to_dec: "0 < p \<Longrightarrow> parse_one_port (to_dec (unat (p :: u16))) = Inr p"
proof -
  assume "0 < p"
  moreover have "unat p < 2 ^ 16" using unsigned_less [of p] by simp
  ultimately show ?thesis by (simp add: parse_one_port_def parse_to_dec)
qed

lemma digits_not_any: "\<not> eq_ignore_case (to_dec n @ s) ''any''"
proof -
  obtain c t where c: "to_dec n = c # t" by (cases "to_dec n") auto
  then have d: "is_ascii_digit c" using to_dec_digits [of c n] by simp
  have "lower_char c \<noteq> CHR ''a''"
  proof
    assume "lower_char c = CHR ''a''"
    then have "byte_val (lower_char c) = 97" by (simp add: byte_val_def)
    then show False using d by (auto simp: byte_val_lower_char is_ascii_digit_def is_ascii_upper_def byte_in_def split: if_splits)
  qed
  moreover have "lower_char CHR ''a'' = CHR ''a''" by code_simp
  ultimately show ?thesis by (simp add: eq_ignore_case_def to_lower_def c)
qed

text \<open>
  What the policy summary displays for a port, a range or any port is read back as the
  same ports by the policy-file parser.
\<close>

theorem ports_display_round_trip:
  assumes "(\<exists>p. ports = PExact p \<and> 0 < p) \<or> (\<exists>a b. ports = PRange a b \<and> 0 < a \<and> a \<le> b) \<or> ports = PAny"
  shows "parse_ports X (JString (ports_display ports)) = Inr ports"
  using assms
proof (elim disjE exE conjE)
  fix p :: u16 assume p: "ports = PExact p" "0 < p"
  have "CHR ''-'' \<notin> set (to_dec (unat p))" using to_dec_digits dash_not_digit by blast
  then show ?thesis
    using p parse_one_port_to_dec [OF p(2)] digits_not_any [of "unat p" "[]"]
    by (simp add: trim_visible visible_digits split_once_def port_exact_def word_neq_0_conv)
next
  fix a b :: u16 assume r: "ports = PRange a b" "0 < a" "a \<le> b"
  then have b: "0 < b" by auto
  have dash: "CHR ''-'' \<notin> set (to_dec (unat a))" using to_dec_digits dash_not_digit by blast
  have vis: "visible (to_dec (unat a) @ ''-'' @ to_dec (unat b))"
    using visible_digits [of "unat a"] visible_digits [of "unat b"] by (auto simp: visible_def byte_in_def byte_val_def)
  have "split_once CHR ''-'' (to_dec (unat a) @ ''-'' @ to_dec (unat b)) = Some (to_dec (unat a), to_dec (unat b))"
    using split_once_append [OF dash, of "to_dec (unat b)"] by simp
  then show ?thesis
    using r b vis parse_one_port_to_dec [OF r(2)] parse_one_port_to_dec [OF b] digits_not_any [of "unat a"]
    by (auto simp: trim_visible visible_digits port_range_def simp del: append_Cons append_Nil)
next
  assume "ports = PAny"
  moreover have "trim ''any'' = ''any''" by (rule trim_visible) code_simp
  ultimately show ?thesis by simp
qed

lemma ports_display_round_trip_witness: "parse_ports demo_lib (JString ''8000-8100'') = Inr (PRange 8000 8100)"
proof -
  have "ports_display (PRange 8000 8100) = ''8000-8100''" by code_simp
  then show ?thesis using ports_display_round_trip [of "PRange 8000 8100" demo_lib] by simp
qed

end
