(* ===== verification/Store_Blobs.thy ===== *)
theory Store_Blobs
  imports External Streams Scenario Websocket
begin

text \<open>
  The content-addressed blobs of a fixture directory, \<^verbatim>\<open>crates/eggreplay-store/src/lib.rs\<close>: the
  part of the file system a fixture occupies, the body writers that stage and publish a blob, and
  the readers that verify one before they hand it out.

  A fixture directory is its entries: those of its root and, when the directory exists, those of
  \<^verbatim>\<open>blobs\<close> in the order \<^verbatim>\<open>read_dir\<close> lists them. Disk failures (a full or broken device) are not
  modelled; what can fail here is what the state of the directory makes fail. A path is the
  directory a fixture is in and the fixture's own name.
\<close>

section \<open>The file system\<close>

datatype fs_node = RegularFile bytes | SymlinkNode "bytes option" | DirNode

datatype io_error = IoNotFound | IoAlreadyExists | IoIsDirectory | IoInvalidInput string | IoOther string

type_synonym entries = "(string \<times> fs_node) list"
type_synonym path = "string \<times> string"

record fixture_dir =
  fd_files :: entries
  fd_blobs :: "entries option"

type_synonym fs = "path \<rightharpoonup> fixture_dir"

definition entry_remove :: "string \<Rightarrow> entries \<Rightarrow> entries" where
  "entry_remove k es = filter (\<lambda>e. fst e \<noteq> k) es"

definition entry_rename :: "string \<Rightarrow> string \<Rightarrow> entries \<Rightarrow> entries" where
  "entry_rename a b es = map (\<lambda>(k, n). (if k = a then b else k, n)) (entry_remove b es)"

fun node_append :: "bytes \<Rightarrow> fs_node \<Rightarrow> fs_node" where
  "node_append buf (RegularFile b) = RegularFile (b @ buf)"
| "node_append buf (SymlinkNode t) = SymlinkNode (map_option (\<lambda>b. b @ buf) t)"
| "node_append buf DirNode = DirNode"

definition entry_append :: "string \<Rightarrow> bytes \<Rightarrow> entries \<Rightarrow> entries" where
  "entry_append k buf es = map (\<lambda>(k', n). (k', if k' = k then node_append buf n else n)) es"

text \<open>\<^verbatim>\<open>OpenOptions::new().create_new(true).write(true)\<close>\<close>

definition entry_create_new :: "string \<Rightarrow> entries \<Rightarrow> io_error + entries" where
  "entry_create_new k es =
     (if map_of es k \<noteq> None then Inl IoAlreadyExists else Inr (es @ [(k, RegularFile [])]))"

text \<open>\<^verbatim>\<open>File::open\<close> follows a symbolic link; a directory cannot be read.\<close>

fun open_read :: "fs_node option \<Rightarrow> io_error + bytes" where
  "open_read None = Inl IoNotFound"
| "open_read (Some (RegularFile b)) = Inr b"
| "open_read (Some (SymlinkNode None)) = Inl IoNotFound"
| "open_read (Some (SymlinkNode (Some b))) = Inr b"
| "open_read (Some DirNode) = Inl IoIsDirectory"

fun node_exists :: "fs_node option \<Rightarrow> bool" where
  "node_exists None = False"
| "node_exists (Some (SymlinkNode None)) = False"
| "node_exists (Some _) = True"

fun is_symlink :: "fs_node \<Rightarrow> bool" where
  "is_symlink (SymlinkNode _) = True"
| "is_symlink _ = False"

fun is_file :: "fs_node \<Rightarrow> bool" where
  "is_file (RegularFile _) = True"
| "is_file _ = False"

definition blob_entries :: "fixture_dir \<Rightarrow> entries" where
  "blob_entries d = (case fd_blobs d of None \<Rightarrow> [] | Some es \<Rightarrow> es)"

definition blob_node :: "fixture_dir \<Rightarrow> string \<Rightarrow> fs_node option" where
  "blob_node d k = map_of (blob_entries d) k"

definition file_node :: "fixture_dir \<Rightarrow> string \<Rightarrow> fs_node option" where
  "file_node d k = map_of (fd_files d) k"

section \<open>Limits and errors\<close>

record store_limits =
  sl_max_line_bytes :: u64
  sl_max_blob_bytes :: u64
  sl_max_flows :: usize
  sl_max_total_bytes :: u64

definition store_limits_default :: store_limits where
  "store_limits_default =
     \<lparr>sl_max_line_bytes = 4 * 1024 * 1024, sl_max_blob_bytes = 64 * 1024 * 1024,
      sl_max_flows = 100000, sl_max_total_bytes = 512 * 1024 * 1024\<rparr>"

text \<open>
  \<^verbatim>\<open>Invalid(String)\<close> carries a literal of the code, or the error of a validator of the core
  crate, which is kept as that error.
\<close>

datatype store_error =
    StIo io_error
  | StJson
  | StInvalid string
  | StFlow flow_error
  | StStream stream_error
  | StTranscript ws_error
  | StRules scenario_error
  | StUnsupportedSchema u16
  | StIntegrity string

definition validate_digest :: "string \<Rightarrow> store_error + unit" where
  "validate_digest digest =
     (if length digest \<noteq> 64 \<or> \<not> (\<forall>c\<in>set digest. is_ascii_hexdigit c) \<or> digest \<noteq> to_lower digest
      then Inl (StInvalid ''invalid blob digest'') else Inr ())"

section \<open>Reading a blob\<close>

text \<open>
  A file is read through a 64 KiB buffer. The loops hash what they read and stop as soon as the
  file is longer than the reference says.
\<close>

function read_chunks :: "bytes \<Rightarrow> bytes list" where
  "read_chunks b = (if b = [] then [] else take 65536 b # read_chunks (drop 65536 b))"
  by pat_completeness auto
termination by (relation "measure length") auto

declare read_chunks.simps [simp del]

definition verify_chunk :: "blob_ref \<Rightarrow> u64 \<times> bytes \<Rightarrow> bytes \<Rightarrow> store_error + u64 \<times> bytes" where
  "verify_chunk blob st chunk =
     (let (total, hashed) = st
      in rbind (ok_or (StIntegrity (blob_sha256 blob)) (checked_add total (of_nat (length chunk)))) (\<lambda>total.
           if total > blob_length blob then Inl (StIntegrity (blob_sha256 blob))
           else Inr (total, hashed @ chunk)))"

definition verify_content :: "ext_lib \<Rightarrow> blob_ref \<Rightarrow> bytes \<Rightarrow> store_error + unit" where
  "verify_content X blob content =
     rbind (try_fold (verify_chunk blob) (0, []) (read_chunks content)) (\<lambda>(total, hashed).
       if total \<noteq> blob_length blob \<or> x_sha256 X hashed \<noteq> blob_sha256 blob
       then Inl (StIntegrity (blob_sha256 blob)) else Inr ())"

definition verify_blob_file :: "ext_lib \<Rightarrow> fixture_dir \<Rightarrow> blob_ref \<Rightarrow> store_limits \<Rightarrow> store_error + unit" where
  "verify_blob_file X d blob lim =
     rbind (validate_digest (blob_sha256 blob)) (\<lambda>_.
       if blob_length blob > sl_max_blob_bytes lim then Inl (StInvalid ''blob exceeds configured limit'')
       else case blob_node d (blob_sha256 blob) of
              None \<Rightarrow> Inl (StIo IoNotFound)
            | Some node \<Rightarrow>
                if is_symlink node then Inl (StInvalid ''symlinked blob is not allowed'')
                else rbind (map_err StIo (open_read (Some node))) (verify_content X blob))"

definition read_blob_from_root ::
  "ext_lib \<Rightarrow> fixture_dir \<Rightarrow> blob_ref \<Rightarrow> store_limits \<Rightarrow> store_error + bytes" where
  "read_blob_from_root X d blob lim =
     rbind (verify_blob_file X d blob lim) (\<lambda>_.
       map_err StIo (open_read (blob_node d (blob_sha256 blob))))"

text \<open>
  The second loop, which also collects the bytes. Elsewhere the length of a whole file, exact as a
  \<^verbatim>\<open>u64\<close> for every file there is, is compared as a number.
\<close>

definition collect_chunk :: "string \<Rightarrow> u64 \<Rightarrow> bytes \<Rightarrow> bytes \<Rightarrow> store_error + bytes" where
  "collect_chunk digest len collected chunk =
     (if (of_nat (length collected) :: u64) + of_nat (length chunk) > len then Inl (StIntegrity digest)
      else Inr (collected @ chunk))"

definition collect_content :: "ext_lib \<Rightarrow> string \<Rightarrow> u64 \<Rightarrow> bytes \<Rightarrow> store_error + bytes" where
  "collect_content X digest len content =
     rbind (try_fold (collect_chunk digest len) [] (read_chunks content)) (\<lambda>collected.
       if of_nat (length collected) \<noteq> len \<or> x_sha256 X collected \<noteq> digest
       then Inl (StIntegrity digest) else Inr collected)"

definition read_blob :: "ext_lib \<Rightarrow> fixture_dir \<Rightarrow> store_limits \<Rightarrow> blob_ref \<Rightarrow> store_error + bytes" where
  "read_blob X d lim blob =
     rbind (validate_digest (blob_sha256 blob)) (\<lambda>_.
       if blob_length blob > sl_max_blob_bytes lim then Inl (StInvalid ''blob exceeds configured limit'')
       else rbind (verify_blob_file X d blob lim) (\<lambda>_.
         rbind (map_err StIo (open_read (blob_node d (blob_sha256 blob))))
               (collect_content X (blob_sha256 blob) (blob_length blob))))"

record blob_handle =
  bh_file :: bytes
  bh_sha256 :: string
  bh_length :: u64

definition open_blob :: "fixture_dir \<Rightarrow> store_limits \<Rightarrow> blob_ref \<Rightarrow> store_error + blob_handle" where
  "open_blob d lim blob =
     rbind (validate_digest (blob_sha256 blob)) (\<lambda>_.
       if blob_length blob > sl_max_blob_bytes lim then Inl (StInvalid ''blob exceeds configured limit'')
       else case blob_node d (blob_sha256 blob) of
              None \<Rightarrow> Inl (StIo IoNotFound)
            | Some node \<Rightarrow>
                if is_symlink node then Inl (StInvalid ''symlinked blob is not allowed'')
                else rbind (map_err StIo (open_read (Some node))) (\<lambda>content.
                  if length content \<noteq> unat (blob_length blob) then Inl (StIntegrity (blob_sha256 blob))
                  else Inr \<lparr>bh_file = content, bh_sha256 = blob_sha256 blob, bh_length = blob_length blob\<rparr>))"

definition handle_read_all :: "ext_lib \<Rightarrow> blob_handle \<Rightarrow> store_error + bytes" where
  "handle_read_all X h = collect_content X (bh_sha256 h) (bh_length h) (bh_file h)"

definition count_blobs :: "fixture_dir \<Rightarrow> store_error + usize" where
  "count_blobs d =
     (case fd_blobs d of
        None \<Rightarrow> Inl (StIo IoNotFound)
      | Some es \<Rightarrow> Inr (length (filter (\<lambda>(k, n). k \<noteq> ''.gitkeep'' \<and> is_file n) es)))"

section \<open>Writing a blob\<close>

text \<open>
  \<^verbatim>\<open>BodyWriter\<close>: a staging file in \<^verbatim>\<open>blobs\<close>, the bytes fed to the hasher, and the count. Its
  name comes from the clock, a counter and the process and is an argument where it is chosen.
\<close>

record body_writer =
  bw_file :: bool
  bw_path :: string
  bw_hasher :: bytes
  bw_length :: u64
  bw_max_bytes :: u64

definition staging_name :: "string \<Rightarrow> string" where
  "staging_name unique = ''.staging-'' @ unique"

definition begin_blob ::
  "fixture_dir \<Rightarrow> store_limits \<Rightarrow> string \<Rightarrow> fixture_dir \<times> (store_error + body_writer)" where
  "begin_blob d lim unique =
     (case fd_blobs d of
        None \<Rightarrow> (d, Inl (StIo IoNotFound))
      | Some es \<Rightarrow>
          (case entry_create_new (staging_name unique) es of
             Inl e \<Rightarrow> (d, Inl (StIo e))
           | Inr es' \<Rightarrow>
               (d\<lparr>fd_blobs := Some es'\<rparr>,
                Inr \<lparr>bw_file = True, bw_path = staging_name unique, bw_hasher = [], bw_length = 0,
                     bw_max_bytes = sl_max_blob_bytes lim\<rparr>)))"

definition body_write ::
  "fixture_dir \<Rightarrow> body_writer \<Rightarrow> bytes \<Rightarrow> fixture_dir \<times> body_writer \<times> (io_error + usize)" where
  "body_write d w buf =
     (case checked_add (bw_length w) (of_nat (length buf)) of
        None \<Rightarrow> (d, w, Inl (IoOther ''body length overflow''))
      | Some next_len \<Rightarrow>
          if next_len > bw_max_bytes w then (d, w, Inl (IoInvalidInput ''body exceeds configured limit''))
          else if \<not> bw_file w then (d, w, Inl (IoOther ''body writer closed''))
          else (d\<lparr>fd_blobs := map_option (entry_append (bw_path w) buf) (fd_blobs d)\<rparr>,
                w\<lparr>bw_hasher := bw_hasher w @ buf, bw_length := next_len\<rparr>, Inr (length buf)))"

definition read_staging_bounded :: "fixture_dir \<Rightarrow> body_writer \<Rightarrow> u64 \<Rightarrow> store_error + bytes" where
  "read_staging_bounded d w max_bytes =
     (if \<not> bw_file w then Inl (StInvalid ''body writer closed'')
      else if bw_length w > max_bytes then Inl (StInvalid ''staged body exceeds structured redaction limit'')
      else rbind (map_err StIo (open_read (blob_node d (bw_path w)))) (\<lambda>content.
        if length content \<noteq> unat (bw_length w) then Inl (StIntegrity ''staging length mismatch'')
        else Inr content))"

definition remove_staging :: "fixture_dir \<Rightarrow> string \<Rightarrow> fixture_dir" where
  "remove_staging d k = d\<lparr>fd_blobs := map_option (entry_remove k) (fd_blobs d)\<rparr>"

definition publish_blob ::
  "ext_lib \<Rightarrow> fixture_dir \<Rightarrow> body_writer \<Rightarrow> fixture_dir \<times> (store_error + body_ref)" where
  "publish_blob X d w =
     (let digest = x_sha256 X (bw_hasher w);
          reference = rbind (map_err StFlow (blob_ref_new digest (bw_length w))) (\<lambda>blob. Inr (BodyBlob blob))
      in if blob_node d (bw_path w) = None then (d, Inl (StIo IoNotFound))
         else if node_exists (blob_node d digest) then (remove_staging d (bw_path w), reference)
         else (d\<lparr>fd_blobs := map_option (entry_rename (bw_path w) digest) (fd_blobs d)\<rparr>, reference))"

definition body_finish ::
  "ext_lib \<Rightarrow> fixture_dir \<Rightarrow> body_writer \<Rightarrow> fixture_dir \<times> (store_error + body_ref)" where
  "body_finish X d w =
     (if \<not> bw_file w then (d, Inl (StInvalid ''body writer closed''))
      else if bw_length w = 0 then (remove_staging d (bw_path w), Inr BodyEmpty)
      else publish_blob X d w)"

text \<open>\<^verbatim>\<open>Drop\<close> of a writer that was not finished.\<close>

definition body_drop :: "fixture_dir \<Rightarrow> body_writer \<Rightarrow> fixture_dir" where
  "body_drop d w = remove_staging d (bw_path w)"

text \<open>\<^verbatim>\<open>write_all\<close> of a sequence of buffers, as the gateway feeds a body.\<close>

fun body_write_all ::
  "fixture_dir \<Rightarrow> body_writer \<Rightarrow> bytes list \<Rightarrow> fixture_dir \<times> body_writer \<times> (io_error + unit)" where
  "body_write_all d w [] = (d, w, Inr ())"
| "body_write_all d w (buf # bufs) =
     (case body_write d w buf of
        (d1, w1, Inl e) \<Rightarrow> (d1, w1, Inl e)
      | (d1, w1, Inr _) \<Rightarrow> body_write_all d1 w1 bufs)"

text \<open>
  One body from its first to its last buffer: \<^verbatim>\<open>begin_blob\<close>, the writes, \<^verbatim>\<open>finish\<close>; a writer
  whose write failed is dropped.
\<close>

definition store_body ::
  "ext_lib \<Rightarrow> fixture_dir \<Rightarrow> store_limits \<Rightarrow> string \<Rightarrow> bytes list \<Rightarrow> fixture_dir \<times> (store_error + body_ref)" where
  "store_body X d lim unique bufs =
     (case begin_blob d lim unique of
        (d1, Inl e) \<Rightarrow> (d1, Inl e)
      | (d1, Inr w) \<Rightarrow>
          (case body_write_all d1 w bufs of
             (d2, w2, Inl e) \<Rightarrow> (body_drop d2 w2, Inl (StIo e))
           | (d2, w2, Inr _) \<Rightarrow> body_finish X d2 w2))"

definition read_body ::
  "ext_lib \<Rightarrow> fixture_dir \<Rightarrow> store_limits \<Rightarrow> body_ref \<Rightarrow> store_error + bytes" where
  "read_body X d lim body =
     (case body of BodyBlob blob \<Rightarrow> read_blob_from_root X d blob lim | _ \<Rightarrow> Inr [])"

definition body_path ::
  "ext_lib \<Rightarrow> fixture_dir \<Rightarrow> store_limits \<Rightarrow> body_ref \<Rightarrow> store_error + string option" where
  "body_path X d lim body =
     (case body of
        BodyBlob blob \<Rightarrow>
          rbind (validate_digest (blob_sha256 blob)) (\<lambda>_.
          rbind (verify_blob_file X d blob lim) (\<lambda>_. Inr (Some (blob_sha256 blob))))
      | _ \<Rightarrow> Inr None)"

section \<open>What the readers accept\<close>

lemma concat_read_chunks [simp]: "concat (read_chunks b) = b"
  by (induction b rule: read_chunks.induct) (subst read_chunks.simps, simp)

lemma read_chunks_small: "c \<in> set (read_chunks b) \<Longrightarrow> length c \<le> 65536"
proof (induction b rule: read_chunks.induct)
  case (1 b)
  then show ?case by (subst (asm) (2) read_chunks.simps) (auto split: if_splits)
qed

lemma u64_of_length:
  "n < 2 ^ 64 \<Longrightarrow> unat (of_nat n :: u64) = n"
  by (simp add: unat_of_nat)

lemma verify_chunks:
  assumes "length h \<le> unat (blob_length blob)" and "\<forall>c\<in>set cs. length c \<le> 65536"
  shows "try_fold (verify_chunk blob) (of_nat (length h), h) cs =
    (if length (h @ concat cs) \<le> unat (blob_length blob)
     then Inr (of_nat (length (h @ concat cs)), h @ concat cs)
     else Inl (StIntegrity (blob_sha256 blob)))"
  using assms
proof (induction cs arbitrary: h)
  case (Cons c cs)
  have lim: "unat (blob_length blob) < 2 ^ 64" using unsigned_less [of "blob_length blob"] by simp
  then have h: "unat (of_nat (length h) :: u64) = length h" and c: "unat (of_nat (length c) :: u64) = length c"
    using Cons.prems by (auto simp: u64_of_length)
  show ?case
  proof (cases "length h + length c \<le> unat (blob_length blob)")
    case True
    have sum: "unat (of_nat (length h + length c) :: u64) = length h + length c"
      using True lim by (intro u64_of_length) linarith
    then have "checked_add (of_nat (length h) :: u64) (of_nat (length c)) = Some (of_nat (length (h @ c)))"
      unfolding checked_add_Some_iff by (simp only: h c length_append)
    moreover have "\<not> blob_length blob < of_nat (length (h @ c))"
      using True sum by (simp add: word_less_nat_alt)
    ultimately have "verify_chunk blob (of_nat (length h), h) c = Inr (of_nat (length (h @ c)), h @ c)"
      by (simp add: verify_chunk_def)
    with Cons.IH [of "h @ c"] Cons.prems True show ?thesis by simp
  next
    case False
    have "blob_length blob < t" if "checked_add (of_nat (length h) :: u64) (of_nat (length c)) = Some t" for t
      using that False by (simp add: checked_add_Some_iff h c word_less_nat_alt)
    then have "verify_chunk blob (of_nat (length h), h) c = Inl (StIntegrity (blob_sha256 blob))"
      by (cases "checked_add (of_nat (length h) :: u64) (of_nat (length c))") (auto simp: verify_chunk_def)
    with False show ?thesis by simp
  qed
qed simp

lemma verify_content_eq:
  "verify_content X blob content =
     (if length content = unat (blob_length blob) \<and> x_sha256 X content = blob_sha256 blob
      then Inr () else Inl (StIntegrity (blob_sha256 blob)))"
proof (cases "length content \<le> unat (blob_length blob)")
  case True
  moreover have "unat (blob_length blob) < 2 ^ 64" using unsigned_less [of "blob_length blob"] by simp
  ultimately have "(of_nat (length content) = blob_length blob) \<longleftrightarrow> length content = unat (blob_length blob)"
    by (auto simp: word_unat_eq_iff u64_of_length)
  with True show ?thesis
    using verify_chunks [of "[]" blob "read_chunks content"] read_chunks_small
    by (auto simp: verify_content_def)
qed (use verify_chunks [of "[]" blob "read_chunks content"] read_chunks_small in \<open>auto simp: verify_content_def\<close>)

lemma collect_chunks:
  assumes "length (h @ concat cs) \<le> unat len"
  shows "try_fold (collect_chunk digest len) h cs = Inr (h @ concat cs)"
  using assms
proof (induction cs arbitrary: h)
  case (Cons c cs)
  have "unat len < 2 ^ 64" using unsigned_less [of len] by simp
  with Cons.prems have "unat (of_nat (length h + length c) :: u64) = length h + length c"
    by (intro u64_of_length) simp
  then have "\<not> len < of_nat (length h) + of_nat (length c)"
    using Cons.prems by (simp add: word_less_nat_alt flip: of_nat_add)
  then have "collect_chunk digest len h c = Inr (h @ c)" by (simp add: collect_chunk_def)
  with Cons.IH [of "h @ c"] Cons.prems show ?case by simp
qed simp

lemma collect_content_eq:
  assumes "length content = unat len"
  shows "collect_content X digest len content =
    (if x_sha256 X content = digest then Inr content else Inl (StIntegrity digest))"
proof -
  have "of_nat (length content) = len" by (simp add: assms)
  then show ?thesis
    using collect_chunks [of "[]" "read_chunks content" len digest] assms by (simp add: collect_content_def)
qed

text \<open>The digest and length a reference names, and the bytes that are really there.\<close>

definition digest_ok :: "string \<Rightarrow> bool" where
  "digest_ok digest \<longleftrightarrow> length digest = 64 \<and> (\<forall>c\<in>set digest. is_ascii_hexdigit c) \<and> digest = to_lower digest"

definition holds_blob :: "ext_lib \<Rightarrow> fixture_dir \<Rightarrow> store_limits \<Rightarrow> blob_ref \<Rightarrow> bytes \<Rightarrow> bool" where
  "holds_blob X d lim blob b \<longleftrightarrow>
     digest_ok (blob_sha256 blob) \<and> blob_length blob \<le> sl_max_blob_bytes lim
     \<and> blob_node d (blob_sha256 blob) = Some (RegularFile b)
     \<and> length b = unat (blob_length blob) \<and> x_sha256 X b = blob_sha256 blob"

lemma validate_digest_iff [res_simps]: "validate_digest digest = Inr () \<longleftrightarrow> digest_ok digest"
  by (auto simp: validate_digest_def digest_ok_def)

lemma open_regular: "\<not> is_symlink node \<Longrightarrow> open_read (Some node) = Inr b \<longleftrightarrow> node = RegularFile b"
  by (cases node) auto

lemma verify_blob_file_iff: "verify_blob_file X d blob lim = Inr () \<longleftrightarrow> (\<exists>b. holds_blob X d lim blob b)"
proof (cases "blob_node d (blob_sha256 blob)")
  case (Some node)
  then show ?thesis
    by (cases node) (auto simp: verify_blob_file_def holds_blob_def res_simps verify_content_eq not_less)
qed (auto simp: verify_blob_file_def holds_blob_def res_simps)

lemma read_blob_from_root_iff: "read_blob_from_root X d blob lim = Inr b \<longleftrightarrow> holds_blob X d lim blob b"
  by (auto simp: read_blob_from_root_def res_simps verify_blob_file_iff) (auto simp: holds_blob_def)

lemma read_blob_iff: "read_blob X d lim blob = Inr b \<longleftrightarrow> holds_blob X d lim blob b"
  by (auto simp: read_blob_def res_simps verify_blob_file_iff not_less)
    (auto simp: holds_blob_def collect_content_eq)

lemma open_blob_Inr_iff:
  "open_blob d lim blob = Inr h \<longleftrightarrow>
     digest_ok (blob_sha256 blob) \<and> blob_length blob \<le> sl_max_blob_bytes lim
     \<and> (\<exists>b. blob_node d (blob_sha256 blob) = Some (RegularFile b) \<and> length b = unat (blob_length blob)
          \<and> h = \<lparr>bh_file = b, bh_sha256 = blob_sha256 blob, bh_length = blob_length blob\<rparr>)"
proof (cases "blob_node d (blob_sha256 blob)")
  case (Some node)
  then show ?thesis by (cases node) (auto simp: open_blob_def res_simps not_less)
qed (auto simp: open_blob_def res_simps)

section \<open>Directories\<close>

named_theorems dir_simps \<open>entries after an update\<close>

lemma map_of_append [dir_simps]:
  "map_of (entry_append k buf es) j =
     (if j = k then map_option (node_append buf) (map_of es k) else map_of es j)"
  by (induction es) (auto simp: entry_append_def)

lemma map_of_remove [dir_simps]: "map_of (entry_remove k es) j = (if j = k then None else map_of es j)"
  by (induction es) (auto simp: entry_remove_def)

lemma map_of_rename [dir_simps]:
  assumes "a \<noteq> b"
  shows "map_of (entry_rename a b es) j =
    (if j = b then map_of es a else if j = a then None else map_of es j)"
proof -
  have aux: "b \<notin> fst ` set fs \<Longrightarrow> map_of (map (\<lambda>(k, n). (if k = a then b else k, n)) fs) j =
      (if j = b then map_of fs a else if j = a then None else map_of fs j)" for fs :: entries
  proof (induction fs)
    case (Cons e fs)
    obtain k n where e: "e = (k, n)" by (cases e)
    with Cons show ?case using assms by (cases "k = a"; cases "k = j"; cases "j = b") simp_all
  qed simp
  show ?thesis
    unfolding entry_rename_def by (subst aux) (auto simp: assms map_of_remove, simp add: entry_remove_def)
qed

lemma keys_append [dir_simps]: "map fst (entry_append k buf es) = map fst es"
  by (induction es) (auto simp: entry_append_def)

lemma distinct_remove [dir_simps]: "distinct (map fst es) \<Longrightarrow> distinct (map fst (entry_remove k es))"
  by (simp add: entry_remove_def distinct_map_filter)

lemma distinct_rename [dir_simps]:
  assumes "distinct (map fst es)"
  shows "distinct (map fst (entry_rename a b es))"
proof -
  have "map fst (entry_rename a b es) = map (\<lambda>k. if k = a then b else k) (filter (\<lambda>k. k \<noteq> b) (map fst es))"
    by (induction es) (auto simp: entry_rename_def entry_remove_def)
  moreover have "inj_on (\<lambda>k. if k = a then b else k) (set (filter (\<lambda>k. k \<noteq> b) (map fst es)))"
    by (auto simp: inj_on_def)
  ultimately show ?thesis using assms by (simp add: distinct_map)
qed

lemma remove_created: "map_of es k = None \<Longrightarrow> entry_remove k (es @ [(k, n)]) = es"
  by (induction es) (auto simp: entry_remove_def split: if_splits)

lemma remove_appended [simp]: "entry_remove k (entry_append k buf es) = entry_remove k es"
  by (induction es) (auto simp: entry_remove_def entry_append_def)

text \<open>
  A well-formed blob directory: no name twice, and what has a digest for a name is a file with that
  digest. Everything else in it (staging files, markers) has another kind of name.
\<close>

definition blobs_wf :: "ext_lib \<Rightarrow> fixture_dir \<Rightarrow> bool" where
  "blobs_wf X d \<longleftrightarrow> (\<exists>es. fd_blobs d = Some es \<and> distinct (map fst es)
     \<and> (\<forall>k n. map_of es k = Some n \<longrightarrow> digest_ok k \<longrightarrow> (\<exists>b. n = RegularFile b \<and> x_sha256 X b = k)))"

text \<open>What a blob directory stands for: the set of contents it stores.\<close>

definition stored :: "ext_lib \<Rightarrow> fixture_dir \<Rightarrow> bytes set" where
  "stored X d = {b. blob_node d (x_sha256 X b) = Some (RegularFile b)}"

definition collides :: "ext_lib \<Rightarrow> fixture_dir \<Rightarrow> bytes \<Rightarrow> bool" where
  "collides X d b \<longleftrightarrow> (\<exists>c. blob_node d (x_sha256 X b) = Some (RegularFile c) \<and> c \<noteq> b)"

definition writer_ok :: "fixture_dir \<Rightarrow> body_writer \<Rightarrow> bool" where
  "writer_ok d w \<longleftrightarrow> bw_file w \<and> \<not> digest_ok (bw_path w)
     \<and> blob_node d (bw_path w) = Some (RegularFile (bw_hasher w))
     \<and> unat (bw_length w) = length (bw_hasher w)"

lemma blobs_wf_node:
  "blobs_wf X d \<Longrightarrow> blob_node d k = Some n \<Longrightarrow> digest_ok k \<Longrightarrow> \<exists>b. n = RegularFile b \<and> x_sha256 X b = k"
  by (auto simp: blobs_wf_def blob_node_def blob_entries_def)

lemma digest_ok_sha256: "sha256_lawful X \<Longrightarrow> digest_ok (x_sha256 X b)"
proof -
  assume X: "sha256_lawful X"
  then have "to_lower (x_sha256 X b) = x_sha256 X b"
    by (auto simp: sha256_lawful_def to_lower_def lower_char_def intro: map_idI)
  with X show ?thesis by (simp add: sha256_lawful_def digest_ok_def)
qed

lemma staging_not_digest: "\<not> digest_ok (staging_name u)"
  by (auto simp: digest_ok_def staging_name_def is_ascii_hexdigit_def is_ascii_digit_def byte_in_def byte_val_def)

lemma begin_blob_ok:
  assumes "fd_blobs d = Some es" and "blob_node d (staging_name u) = None"
  shows "begin_blob d lim u = (d\<lparr>fd_blobs := Some (es @ [(staging_name u, RegularFile [])])\<rparr>,
    Inr \<lparr>bw_file = True, bw_path = staging_name u, bw_hasher = [], bw_length = 0,
         bw_max_bytes = sl_max_blob_bytes lim\<rparr>)"
  using assms by (simp add: begin_blob_def entry_create_new_def blob_node_def blob_entries_def)

lemma body_write_eq:
  assumes "writer_ok d w" and "length buf < 2 ^ 64"
  shows "body_write d w buf =
    (if length (bw_hasher w @ buf) < 2 ^ 64 \<and> length (bw_hasher w @ buf) \<le> unat (bw_max_bytes w)
     then (d\<lparr>fd_blobs := map_option (entry_append (bw_path w) buf) (fd_blobs d)\<rparr>,
           w\<lparr>bw_hasher := bw_hasher w @ buf, bw_length := of_nat (length (bw_hasher w @ buf))\<rparr>,
           Inr (length buf))
     else (d, w, Inl (if length (bw_hasher w @ buf) < 2 ^ 64
                      then IoInvalidInput ''body exceeds configured limit''
                      else IoOther ''body length overflow'')))"
proof -
  have l: "unat (bw_length w) = length (bw_hasher w)" and b: "unat (of_nat (length buf) :: u64) = length buf"
    and f: "bw_file w"
    using assms by (simp_all add: writer_ok_def u64_of_length)
  show ?thesis
  proof (cases "length (bw_hasher w @ buf) < 2 ^ 64")
    case True
    then have sum: "unat (of_nat (length (bw_hasher w @ buf)) :: u64) = length (bw_hasher w @ buf)"
      by (rule u64_of_length)
    then have "checked_add (bw_length w) (of_nat (length buf)) = Some (of_nat (length (bw_hasher w @ buf)))"
      unfolding checked_add_Some_iff by (simp only: l b length_append)
    moreover have "bw_max_bytes w < of_nat (length (bw_hasher w @ buf)) \<longleftrightarrow>
        \<not> length (bw_hasher w @ buf) \<le> unat (bw_max_bytes w)"
      unfolding word_less_nat_alt sum by auto
    ultimately show ?thesis using True f by (simp add: body_write_def del: of_nat_add length_append)
  next
    case False
    have "unat c \<noteq> length (bw_hasher w @ buf)" for c :: u64
      using unsigned_less [of c, where ?'a = nat] False by auto
    then have "checked_add (bw_length w) (of_nat (length buf)) \<noteq> Some c" for c
      by (simp add: checked_add_Some_iff l b)
    then have "checked_add (bw_length w) (of_nat (length buf)) = None" by auto
    with False show ?thesis by (simp add: body_write_def)
  qed
qed

text \<open>A successful write, and what it leaves alone.\<close>

definition body_written :: "fixture_dir \<Rightarrow> body_writer \<Rightarrow> bytes \<Rightarrow> fixture_dir" where
  "body_written d w buf = d\<lparr>fd_blobs := map_option (entry_append (bw_path w) buf) (fd_blobs d)\<rparr>"

lemma blob_node_written:
  "blob_node (body_written d w buf) k =
     (if k = bw_path w then map_option (node_append buf) (blob_node d k) else blob_node d k)"
  by (cases "fd_blobs d") (auto simp: body_written_def blob_node_def blob_entries_def dir_simps)

lemma blobs_wf_written: "blobs_wf X d \<Longrightarrow> writer_ok d w \<Longrightarrow> blobs_wf X (body_written d w buf)"
  by (auto simp: blobs_wf_def body_written_def dir_simps writer_ok_def split: if_splits)

lemma remove_written: "remove_staging (body_written d w buf) (bw_path w) = remove_staging d (bw_path w)"
  by (cases "fd_blobs d") (simp_all add: remove_staging_def body_written_def)

text \<open>What any sequence of writes leaves behind, successful or not.\<close>

definition writes_frame :: "fixture_dir \<Rightarrow> body_writer \<Rightarrow> fixture_dir \<Rightarrow> body_writer \<Rightarrow> bool" where
  "writes_frame d w d' w' \<longleftrightarrow>
     bw_path w' = bw_path w \<and> bw_max_bytes w' = bw_max_bytes w \<and> writer_ok d' w'
     \<and> fd_files d' = fd_files d \<and> (\<forall>k. k \<noteq> bw_path w \<longrightarrow> blob_node d' k = blob_node d k)
     \<and> remove_staging d' (bw_path w) = remove_staging d (bw_path w)
     \<and> (\<forall>X. blobs_wf X d \<longrightarrow> blobs_wf X d')"

lemma body_write_frame:
  assumes "writer_ok d w" and "length buf < 2 ^ 64" and "body_write d w buf = (d', w', r)"
  shows "writes_frame d w d' w'"
proof -
  let ?len = "length (bw_hasher w @ buf)"
  have here: "blob_node d (bw_path w) = Some (RegularFile (bw_hasher w))"
    using assms(1) by (simp add: writer_ok_def)
  show ?thesis
  proof (cases "?len < 2 ^ 64 \<and> ?len \<le> unat (bw_max_bytes w)")
    case True
    with assms have "d' = body_written d w buf"
      and w': "w' = w\<lparr>bw_hasher := bw_hasher w @ buf, bw_length := of_nat ?len\<rparr>"
      by (simp_all add: body_write_eq body_written_def)
    moreover from w' True assms(1) have "unat (bw_length w') = length (bw_hasher w')"
      by (simp only: w') (simp add: u64_of_length del: of_nat_add)
    ultimately show ?thesis
      using assms(1) here
      by (auto simp: writes_frame_def writer_ok_def blob_node_written remove_written)
        (auto simp: body_written_def intro: blobs_wf_written [OF _ assms(1), unfolded body_written_def])
  qed (use assms in \<open>auto simp: body_write_eq writes_frame_def split: if_splits\<close>)
qed

lemma writes_frame_trans: "writes_frame d w d1 w1 \<Longrightarrow> writes_frame d1 w1 d2 w2 \<Longrightarrow> writes_frame d w d2 w2"
  by (auto simp: writes_frame_def)

lemma body_write_all_frame:
  assumes "writer_ok d w" and "\<forall>buf\<in>set bufs. length buf < 2 ^ 64" and "body_write_all d w bufs = (d', w', r)"
  shows "writes_frame d w d' w'"
  using assms
proof (induction d w bufs rule: body_write_all.induct)
  case (2 d w buf bufs)
  obtain d1 w1 r1 where step: "body_write d w buf = (d1, w1, r1)" by (rule prod_cases3)
  from body_write_frame [OF 2(2) _ step] 2 have frame: "writes_frame d w d1 w1" by simp
  then have "writer_ok d1 w1" by (simp add: writes_frame_def)
  with 2 step frame show ?case
    by (cases r1) (auto intro: writes_frame_trans)
qed (auto simp: writes_frame_def)

lemma body_write_all_result:
  assumes "writer_ok d w" and "\<forall>buf\<in>set bufs. length buf < 2 ^ 64" and "body_write_all d w bufs = (d', w', r)"
  shows "if length (bw_hasher w @ concat bufs) \<le> unat (bw_max_bytes w)
    then r = Inr () \<and> bw_hasher w' = bw_hasher w @ concat bufs
    else bufs \<noteq> [] \<longrightarrow> (\<exists>e. r = Inl e)"
  using assms
proof (induction d w bufs rule: body_write_all.induct)
  case (2 d w buf bufs)
  have max: "unat (bw_max_bytes w) < 2 ^ 64" using unsigned_less [of "bw_max_bytes w", where ?'a = nat] by simp
  obtain d1 w1 r1 where step: "body_write d w buf = (d1, w1, r1)" by (rule prod_cases3)
  from body_write_frame [OF 2(2) _ step] 2(3) have frame: "writes_frame d w d1 w1" by simp
  then have ok: "writer_ok d1 w1" and m: "bw_max_bytes w1 = bw_max_bytes w" by (simp_all add: writes_frame_def)
  show ?case
  proof (cases "length (bw_hasher w @ buf) \<le> unat (bw_max_bytes w)")
    case True
    with max step 2(2,3) have "r1 = Inr (length buf)" and "bw_hasher w1 = bw_hasher w @ buf"
      by (auto simp: body_write_eq)
    with 2 step ok m True show ?thesis by (cases "bufs = []") auto
  next
    case False
    with step 2(2,3) have "\<exists>e. r1 = Inl e" by (auto simp: body_write_eq split: if_splits)
    with False 2 step show ?thesis by auto
  qed
qed auto

lemma store_body_begin:
  assumes wf: "blobs_wf X d" and fresh: "blob_node d (staging_name u) = None"
  obtains d1 w where "begin_blob d lim u = (d1, Inr w)" and "writer_ok d1 w" and "bw_hasher w = []"
    and "bw_path w = staging_name u" and "bw_max_bytes w = sl_max_blob_bytes lim" and "blobs_wf X d1"
    and "fd_files d1 = fd_files d" and "\<forall>k. k \<noteq> staging_name u \<longrightarrow> blob_node d1 k = blob_node d k"
    and "remove_staging d1 (staging_name u) = d"
proof -
  from wf obtain es where es: "fd_blobs d = Some es" by (auto simp: blobs_wf_def)
  let ?d1 = "d\<lparr>fd_blobs := Some (es @ [(staging_name u, RegularFile [])])\<rparr>"
  let ?w = "\<lparr>bw_file = True, bw_path = staging_name u, bw_hasher = [], bw_length = 0,
      bw_max_bytes = sl_max_blob_bytes lim\<rparr>"
  have none: "map_of es (staging_name u) = None"
    using fresh es by (simp add: blob_node_def blob_entries_def)
  have "begin_blob d lim u = (?d1, Inr ?w)" using begin_blob_ok [OF es fresh] .
  moreover have "writer_ok ?d1 ?w"
    using none staging_not_digest by (simp add: writer_ok_def blob_node_def blob_entries_def map_add_def)
  moreover have "blobs_wf X ?d1"
    using wf es none staging_not_digest
    by (auto simp: blobs_wf_def map_of_eq_None_iff map_add_def split: option.splits if_splits)
  moreover have "\<forall>k. k \<noteq> staging_name u \<longrightarrow> blob_node ?d1 k = blob_node d k"
    using es by (auto simp: blob_node_def blob_entries_def map_add_def split: option.splits)
  moreover have "remove_staging ?d1 (staging_name u) = d"
    using es none by (cases d) (simp add: remove_staging_def remove_created)
  ultimately show ?thesis using that by simp
qed

text \<open>The reference a body gets, and what finishing its writer does to the directory.\<close>

definition body_ref_of :: "ext_lib \<Rightarrow> bytes \<Rightarrow> body_ref" where
  "body_ref_of X b =
     (if b = [] then BodyEmpty else BodyBlob \<lparr>blob_sha256 = x_sha256 X b, blob_length = of_nat (length b)\<rparr>)"

lemma blob_ref_new_sha256:
  assumes "sha256_lawful X"
  shows "blob_ref_new (x_sha256 X b) n = Inr \<lparr>blob_sha256 = x_sha256 X b, blob_length = n\<rparr>"
  using digest_ok_sha256 [OF assms, of b] by (auto simp: blob_ref_new_Inr_iff digest_ok_def)

lemma blob_node_remove: "blob_node (remove_staging d k) j = (if j = k then None else blob_node d j)"
  by (cases "fd_blobs d") (auto simp: remove_staging_def blob_node_def blob_entries_def dir_simps)

lemma blobs_wf_remove: "blobs_wf X d \<Longrightarrow> blobs_wf X (remove_staging d k)"
  by (auto simp: blobs_wf_def remove_staging_def dir_simps split: if_splits)

lemma blob_node_renamed:
  assumes "a \<noteq> b"
  shows "blob_node (d\<lparr>fd_blobs := map_option (entry_rename a b) (fd_blobs d)\<rparr>) j =
    (if j = b then blob_node d a else if j = a then None else blob_node d j)"
  by (cases "fd_blobs d") (auto simp: blob_node_def blob_entries_def dir_simps assms)

definition blob_published :: "ext_lib \<Rightarrow> fixture_dir \<Rightarrow> string \<Rightarrow> bytes \<Rightarrow> fixture_dir \<Rightarrow> bool" where
  "blob_published X d staged b d' \<longleftrightarrow>
     fd_files d' = fd_files d \<and> blobs_wf X d'
     \<and> (\<forall>k. blob_node d' k = (if k = staged then None
              else if b \<noteq> [] \<and> k = x_sha256 X b then Some (RegularFile b) else blob_node d k))"

lemma body_finish_ok:
  assumes X: "sha256_lawful X" and wf: "blobs_wf X d" and w: "writer_ok d w"
    and unique: "\<not> collides X d (bw_hasher w)"
  obtains d' where "body_finish X d w = (d', Inr (body_ref_of X (bw_hasher w)))"
    and "blob_published X d (bw_path w) (bw_hasher w) d'"
proof -
  let ?b = "bw_hasher w" let ?sha = "x_sha256 X ?b"
  have sha: "digest_ok ?sha" and path: "bw_path w \<noteq> ?sha"
    and here: "blob_node d (bw_path w) = Some (RegularFile ?b)" and l: "unat (bw_length w) = length ?b"
    and f: "bw_file w"
    using w digest_ok_sha256 [OF X, of ?b] by (auto simp: writer_ok_def)
  have len: "bw_length w = of_nat (length ?b)"
    using l unsigned_less [of "bw_length w", where ?'a = nat] by (simp add: word_unat_eq_iff u64_of_length)
  have zero: "bw_length w = 0 \<longleftrightarrow> ?b = []"
    using l by (auto simp: word_unat_eq_iff)
  show ?thesis
  proof (cases "?b = []")
    case True
    then have "body_finish X d w = (remove_staging d (bw_path w), Inr (body_ref_of X ?b))"
      using f zero by (simp add: body_finish_def body_ref_of_def)
    moreover have "blob_published X d (bw_path w) ?b (remove_staging d (bw_path w))"
      using True wf by (simp add: blob_published_def blob_node_remove blobs_wf_remove) (simp add: remove_staging_def)
    ultimately show ?thesis using that by blast
  next
    case False
    show ?thesis
    proof (cases "node_exists (blob_node d ?sha)")
      case True
      then obtain n where n: "blob_node d ?sha = Some n" by (cases "blob_node d ?sha") auto
      with blobs_wf_node [OF wf this sha] unique have same: "blob_node d ?sha = Some (RegularFile ?b)"
        by (auto simp: collides_def)
      have "body_finish X d w = (remove_staging d (bw_path w), Inr (body_ref_of X ?b))"
        using f zero False True here blob_ref_new_sha256 [OF X, of ?b "bw_length w"]
        by (simp add: body_finish_def publish_blob_def body_ref_of_def len)
      moreover have "blob_published X d (bw_path w) ?b (remove_staging d (bw_path w))"
        using wf same path by (simp add: blob_published_def blob_node_remove blobs_wf_remove)
          (simp add: remove_staging_def)
      ultimately show ?thesis using that by blast
    next
      case absent: False
      let ?d' = "d\<lparr>fd_blobs := map_option (entry_rename (bw_path w) ?sha) (fd_blobs d)\<rparr>"
      have "body_finish X d w = (?d', Inr (body_ref_of X ?b))"
        using f zero False absent here blob_ref_new_sha256 [OF X, of ?b "bw_length w"]
        by (simp add: body_finish_def publish_blob_def body_ref_of_def len Let_def)
      moreover have "blobs_wf X ?d'"
        using wf here path w unfolding blobs_wf_def
        by (auto simp: dir_simps blob_node_def blob_entries_def writer_ok_def split: if_splits)
      then have "blob_published X d (bw_path w) ?b ?d'"
        using False path here by (simp add: blob_published_def blob_node_renamed)
      ultimately show ?thesis using that by blast
    qed
  qed
qed

text \<open>A body stored as a whole: what it costs and what it leaves.\<close>

lemma store_body_ok:
  assumes X: "sha256_lawful X" and wf: "blobs_wf X d" and fresh: "blob_node d (staging_name u) = None"
    and bufs: "\<forall>buf\<in>set bufs. length buf < 2 ^ 64"
    and fits: "length (concat bufs) \<le> unat (sl_max_blob_bytes lim)"
    and unique: "\<not> collides X d (concat bufs)"
  obtains d' where "store_body X d lim u bufs = (d', Inr (body_ref_of X (concat bufs)))"
    and "blob_published X d (staging_name u) (concat bufs) d'"
proof -
  obtain d1 w where begin_w: "begin_blob d lim u = (d1, Inr w)" and w: "writer_ok d1 w" "bw_hasher w = []"
      "bw_path w = staging_name u" "bw_max_bytes w = sl_max_blob_bytes lim"
    and d1: "fd_files d1 = fd_files d" "\<forall>k. k \<noteq> staging_name u \<longrightarrow> blob_node d1 k = blob_node d k" "blobs_wf X d1"
    by (rule store_body_begin [OF wf fresh]) blast
  obtain d2 w2 r where writes: "body_write_all d1 w bufs = (d2, w2, r)" by (rule prod_cases3)
  from body_write_all_result [OF w(1) bufs writes] fits w(2,4)
  have r: "r = Inr ()" and h: "bw_hasher w2 = concat bufs" by simp_all
  from body_write_all_frame [OF w(1) bufs writes] d1 w(3)
  have d2: "blobs_wf X d2" "writer_ok d2 w2" "bw_path w2 = staging_name u" "fd_files d2 = fd_files d"
    "\<forall>k. k \<noteq> staging_name u \<longrightarrow> blob_node d2 k = blob_node d k"
    by (auto simp: writes_frame_def)
  have "x_sha256 X (concat bufs) \<noteq> staging_name u"
    using digest_ok_sha256 [OF X] staging_not_digest by metis
  with unique d2(5) have "\<not> collides X d2 (bw_hasher w2)" by (simp add: collides_def h)
  from body_finish_ok [OF X d2(1,2) this] obtain d' where
    fin: "body_finish X d2 w2 = (d', Inr (body_ref_of X (concat bufs)))"
    and pub: "blob_published X d2 (staging_name u) (concat bufs) d'"
    unfolding h d2(3) by metis
  have "store_body X d lim u bufs = (d', Inr (body_ref_of X (concat bufs)))"
    by (simp add: store_body_def begin_w writes r fin)
  moreover have "blob_published X d (staging_name u) (concat bufs) d'"
    using pub d2 by (auto simp: blob_published_def)
  ultimately show ?thesis using that by blast
qed

lemma store_body_too_long:
  assumes wf: "blobs_wf X d" and fresh: "blob_node d (staging_name u) = None"
    and bufs: "\<forall>buf\<in>set bufs. length buf < 2 ^ 64"
    and long: "\<not> length (concat bufs) \<le> unat (sl_max_blob_bytes lim)"
  shows "\<exists>e. store_body X d lim u bufs = (d, Inl e)"
proof -
  obtain d1 w where begin_w: "begin_blob d lim u = (d1, Inr w)" and w: "writer_ok d1 w" "bw_hasher w = []"
      "bw_path w = staging_name u" "bw_max_bytes w = sl_max_blob_bytes lim"
    and d1: "remove_staging d1 (staging_name u) = d"
    by (rule store_body_begin [OF wf fresh]) blast
  obtain d2 w2 r where writes: "body_write_all d1 w bufs = (d2, w2, r)" by (rule prod_cases3)
  have "bufs \<noteq> []" using long by auto
  with body_write_all_result [OF w(1) bufs writes] long w(2,4) obtain e where "r = Inl e" by auto
  moreover have "remove_staging d2 (staging_name u) = d" "bw_path w2 = staging_name u"
    using body_write_all_frame [OF w(1) bufs writes] w(3) d1 by (auto simp: writes_frame_def)
  ultimately show ?thesis by (simp add: store_body_def begin_w writes body_drop_def)
qed

lemma blob_published_reads:
  assumes "blob_published X d staged b d'" and "\<not> digest_ok staged" and "\<not> collides X d b"
    and "read_body X d lim body = Inr c"
  shows "read_body X d' lim body = Inr c"
proof (cases body)
  case (BodyBlob blob)
  with assms(4) have h: "holds_blob X d lim blob c" by (simp add: read_body_def read_blob_from_root_iff)
  then have "blob_sha256 blob \<noteq> staged" using assms(2) by (auto simp: holds_blob_def)
  moreover have "c = b" if "blob_sha256 blob = x_sha256 X b"
    using h that assms(3) by (auto simp: holds_blob_def collides_def)
  ultimately have "holds_blob X d' lim blob c"
    using h assms(1) by (auto simp: holds_blob_def blob_published_def)
  with BodyBlob show ?thesis by (simp add: read_body_def read_blob_from_root_iff)
qed (use assms in \<open>auto simp: read_body_def\<close>)

lemma blob_published_read_back:
  assumes X: "sha256_lawful X" and "blob_published X d staged b d'" and "\<not> digest_ok staged"
    and "length b \<le> unat (sl_max_blob_bytes lim)"
  shows "read_body X d' lim (body_ref_of X b) = Inr b"
proof (cases "b = []")
  case False
  have l: "unat (of_nat (length b) :: u64) = length b"
    using assms(4) unsigned_less [of "sl_max_blob_bytes lim", where ?'a = nat] by (intro u64_of_length) simp
  have "x_sha256 X b \<noteq> staged" using digest_ok_sha256 [OF X, of b] assms(3) by auto
  then have "holds_blob X d' lim \<lparr>blob_sha256 = x_sha256 X b, blob_length = of_nat (length b)\<rparr> b"
    using assms False digest_ok_sha256 [OF X, of b]
    by (auto simp: holds_blob_def blob_published_def l word_le_nat_alt)
  with False show ?thesis by (simp add: read_body_def body_ref_of_def read_blob_from_root_iff)
qed (simp add: read_body_def body_ref_of_def)

section \<open>Properties\<close>

text \<open>
  Property C10: A blob is never handed out unverified. Whatever a fixture directory contains, each of
  the three ways to read a body yields exactly the bytes of the regular file named by the digest,
  and only when the reference is a well-formed digest within the limit and both the length and the
  SHA-256 of those bytes are the ones it names.
\<close>

theorem blob_readers_verify:
  "(read_blob_from_root X d blob lim = Inr b \<longleftrightarrow> holds_blob X d lim blob b)
   \<and> (read_blob X d lim blob = Inr b \<longleftrightarrow> holds_blob X d lim blob b)
   \<and> (rbind (open_blob d lim blob) (handle_read_all X) = Inr b \<longleftrightarrow> holds_blob X d lim blob b)"
proof -
  have "collect_content X (blob_sha256 blob) (blob_length blob) c = Inr b \<longleftrightarrow>
      c = b \<and> x_sha256 X b = blob_sha256 blob" if "length c = unat (blob_length blob)" for c
    using that by (auto simp: collect_content_eq)
  then show ?thesis
    unfolding read_blob_from_root_iff read_blob_iff
    by (auto simp: rbind_Inr_iff open_blob_Inr_iff handle_read_all_def holds_blob_def)
qed

lemma blob_published_stored:
  assumes "blob_published X d staged b d'" and "sha256_lawful X" and "\<not> digest_ok staged" and "\<not> collides X d b"
  shows "stored X d' = (if b = [] then stored X d else insert b (stored X d))"
proof -
  have "x_sha256 X c \<noteq> staged" for c using digest_ok_sha256 [OF assms(2), of c] assms(3) by auto
  then show ?thesis using assms(1,4) by (auto simp: stored_def blob_published_def collides_def)
qed

text \<open>
  Property C9: Publishing a body is inserting its bytes into the set of stored contents. A body fed
  in any buffers that fits the limit gets the reference of its bytes, which reads back exactly
  them; every body that could be read before still reads the same; nothing else in the directory
  changes and no staging file is left. A body that does not fit is refused and the directory is
  what it was. (No stored content may have the digest of the new one and be different.)
\<close>

theorem stored_body_reads_back:
  assumes "sha256_lawful X" and "blobs_wf X d" and "blob_node d (staging_name u) = None"
    and "\<forall>buf\<in>set bufs. length buf < 2 ^ 64" and "\<not> collides X d (concat bufs)"
  shows "if length (concat bufs) \<le> unat (sl_max_blob_bytes lim)
    then \<exists>d'. store_body X d lim u bufs = (d', Inr (body_ref_of X (concat bufs)))
         \<and> read_body X d' lim (body_ref_of X (concat bufs)) = Inr (concat bufs)
         \<and> (\<forall>body c. read_body X d lim body = Inr c \<longrightarrow> read_body X d' lim body = Inr c)
         \<and> blobs_wf X d' \<and> fd_files d' = fd_files d \<and> blob_node d' (staging_name u) = None
         \<and> stored X d' = (if concat bufs = [] then stored X d else insert (concat bufs) (stored X d))
    else \<exists>e. store_body X d lim u bufs = (d, Inl e)"
proof (cases "length (concat bufs) \<le> unat (sl_max_blob_bytes lim)")
  case True
  from store_body_ok [OF assms(1-4) True assms(5)] obtain d' where
    d': "store_body X d lim u bufs = (d', Inr (body_ref_of X (concat bufs)))"
    and pub: "blob_published X d (staging_name u) (concat bufs) d'" by metis
  note facts = blob_published_reads [OF pub staging_not_digest assms(5)]
    blob_published_read_back [OF assms(1) pub staging_not_digest True]
    blob_published_stored [OF pub assms(1) staging_not_digest assms(5)]
  show ?thesis using d' pub facts True by (auto simp: blob_published_def)
next
  case False
  then show ?thesis using store_body_too_long [OF assms(2-4)] by auto
qed

definition empty_fixture :: fixture_dir where
  "empty_fixture = \<lparr>fd_files = [], fd_blobs = Some []\<rparr>"

lemma empty_fixture_blobs: "blobs_wf X empty_fixture" "blob_node empty_fixture k = None"
  by (simp_all add: blobs_wf_def empty_fixture_def blob_node_def blob_entries_def)

lemma stored_body_reads_back_witness:
  "\<exists>d'. store_body demo_lib empty_fixture store_limits_default ''1'' [''ab'', ''c''] =
       (d', Inr (body_ref_of demo_lib ''abc''))
     \<and> read_body demo_lib d' store_limits_default (body_ref_of demo_lib ''abc'') = Inr ''abc''"
proof -
  have "\<not> collides demo_lib empty_fixture (concat [''ab'', ''c''])"
    by (simp add: collides_def empty_fixture_blobs)
  from stored_body_reads_back [OF demo_sha256_lawful empty_fixture_blobs(1) empty_fixture_blobs(2) _ this,
      where u = "''1''" and lim = store_limits_default]
  show ?thesis by (simp add: store_limits_default_def) blast
qed

end
