(* ===== verification/Store_Session.thy ===== *)
theory Store_Session
  imports Store_Blobs
begin

text \<open>
  Opening a fixture, \<^verbatim>\<open>crates/eggreplay-store/src/lib.rs\<close>: the manifest, the extension registry,
  the flow log and everything \<^verbatim>\<open>Session::open\<close> checks before a fixture is replayed, and the ways
  to read an opened session.

  The JSON encoding of the records is derived by \<^verbatim>\<open>serde\<close> and is a parameter, \<open>codec\<close>: each encoder
  may fail, each decoder rejects what it cannot read.
\<close>

section \<open>Manifests\<close>

record session_metadata =
  sm_schema_version :: u16
  sm_tool_version :: string
  sm_session_id :: string
  sm_capture_mode :: string
  sm_source :: "string option"
  sm_target :: "string option"
  sm_matcher_profile :: string
  sm_redaction_profile :: string

text \<open>\<^verbatim>\<open>TOOL_VERSION\<close> is set by the build and is an argument.\<close>

definition session_metadata_default :: "string \<Rightarrow> session_metadata" where
  "session_metadata_default tool_version =
     \<lparr>sm_schema_version = SESSION_SCHEMA_V1, sm_tool_version = tool_version, sm_session_id = ''session-0'',
      sm_capture_mode = ''semantic'', sm_source = None, sm_target = None,
      sm_matcher_profile = ''strict'', sm_redaction_profile = ''default-v1''\<rparr>"

record extension_descriptor =
  ext_name :: string
  ext_schema_version :: u16
  ext_path :: string
  ext_required :: bool

record manifest =
  mf_metadata :: session_metadata
  mf_complete :: bool
  mf_flow_count :: usize
  mf_blob_count :: usize
  mf_extensions :: "extension_descriptor list"

record codec =
  cd_flow_to :: "flow \<Rightarrow> bytes option"
  cd_flow_from :: "bytes \<Rightarrow> flow option"
  cd_manifest_to :: "manifest \<Rightarrow> bytes option"
  cd_manifest_from :: "bytes \<Rightarrow> manifest option"
  cd_flow_events_to :: "flow_stream_events \<Rightarrow> bytes option"
  cd_events_to :: "stream_events \<Rightarrow> bytes option"
  cd_events_from :: "bytes \<Rightarrow> stream_events option"
  cd_conversation_to :: "ws_conversation \<Rightarrow> bytes option"
  cd_transcript_to :: "ws_transcript \<Rightarrow> bytes option"
  cd_transcript_from :: "bytes \<Rightarrow> ws_transcript option"
  cd_rules_from :: "bytes \<Rightarrow> scenario_rules option"

definition MAX_EXTENSIONS :: usize where "MAX_EXTENSIONS = 64"
definition MAX_EXTENSION_BYTES :: usize where "MAX_EXTENSION_BYTES = 16 * 1024 * 1024"
definition MAX_TOTAL_EXTENSION_BYTES :: usize where "MAX_TOTAL_EXTENSION_BYTES = 32 * 1024 * 1024"

definition known_session_schema :: "u16 \<Rightarrow> bool" where
  "known_session_schema v \<longleftrightarrow> SESSION_SCHEMA_V1 \<le> v \<and> v \<le> SESSION_SCHEMA_VERSION"

text \<open>\<^verbatim>\<open>SchemaOneMigration::migrate\<close>\<close>

definition migrate :: "u16 \<Rightarrow> store_error + u16" where
  "migrate v = (if known_session_schema v then Inr v else Inl (StUnsupportedSchema v))"

section \<open>Extensions\<close>

definition validate_extension_name :: "string \<Rightarrow> store_error + unit" where
  "validate_extension_name name =
     (if name = [] \<or> length name > 64
         \<or> \<not> (\<forall>c\<in>set name. is_ascii_lower c \<or> is_ascii_digit c \<or> c = CHR ''-'')
      then Inl (StInvalid ''invalid extension name'') else Inr ())"

text \<open>
  \<^verbatim>\<open>Path::components\<close> and \<^verbatim>\<open>Path::file_name\<close> of a Unix path: a root, a leading dot, and the parts
  between the separators that are neither empty nor a dot.
\<close>

definition path_components :: "string \<Rightarrow> string list" where
  "path_components p =
     (if starts_with ''/'' p then [''/''] else if hd (split_on CHR ''/'' p) = ''.'' then [''.''] else [])
     @ filter (\<lambda>part. part \<noteq> [] \<and> part \<noteq> ''.'') (split_on CHR ''/'' p)"

definition path_file_name :: "string \<Rightarrow> string option" where
  "path_file_name p =
     (case rev (path_components p) of
        [] \<Rightarrow> None
      | part # _ \<Rightarrow> (if part \<in> {''/'', ''.'', ''..''} then None else Some part))"

definition validate_extension_path :: "string \<Rightarrow> store_error + unit" where
  "validate_extension_path p =
     (if p = [] \<or> length p > 128 \<or> length (path_components p) \<noteq> 1
         \<or> path_file_name p \<noteq> Some p \<or> starts_with ''.'' p
      then Inl (StInvalid ''extension path must be a confined filename'') else Inr ())"

text \<open>\<^verbatim>\<open>serde_json::from_reader(File::open(path)?)?\<close>\<close>

definition read_json :: "(bytes \<Rightarrow> 'a option) \<Rightarrow> fs_node option \<Rightarrow> store_error + 'a" where
  "read_json decode node =
     rbind (map_err StIo (open_read node)) (\<lambda>content. ok_or StJson (decode content))"

definition validate_extension_payload ::
  "codec \<Rightarrow> fixture_dir \<Rightarrow> extension_descriptor \<Rightarrow> store_error + unit" where
  "validate_extension_payload C d e =
     rbind (if ext_name e \<noteq> ''rules'' then Inr ()
            else if ext_schema_version e \<noteq> RULES_SCHEMA_VERSION
            then Inl (StInvalid (''unsupported rules extension schema '' @ to_dec (unat (ext_schema_version e))))
            else rbind (read_json (cd_rules_from C) (file_node d (ext_path e)))
                   (\<lambda>rules. map_err StRules (rules_validate rules))) (\<lambda>_.
     rbind (if ext_name e \<noteq> ''stream-events'' then Inr ()
            else if ext_schema_version e \<noteq> STREAM_EVENTS_SCHEMA_VERSION
            then Inl (StInvalid (''unsupported stream-events extension schema '' @ to_dec (unat (ext_schema_version e))))
            else rbind (read_json (cd_events_from C) (file_node d (ext_path e)))
                   (\<lambda>events. map_err StStream (validate_stream_events events))) (\<lambda>_.
     if ext_name e \<noteq> ''websocket-messages'' then Inr ()
     else if ext_schema_version e \<noteq> WEBSOCKET_SCHEMA_VERSION
     then Inl (StInvalid (''unsupported websocket-messages extension schema '' @ to_dec (unat (ext_schema_version e))))
     else if \<not> ext_required e \<or> ext_path e \<noteq> ''websockets.jsonl''
     then Inl (StInvalid ''websocket-messages must be required and stored at websockets.jsonl'')
     else rbind (read_json (cd_transcript_from C) (file_node d (ext_path e)))
            (\<lambda>transcript. map_err StTranscript (validate_transcript transcript ws_limits_default))))"

text \<open>One extension; the state is the names and paths seen and the bytes so far.\<close>

definition validate_extension ::
  "codec \<Rightarrow> fixture_dir \<Rightarrow> string list \<times> string list \<times> u64 \<Rightarrow> extension_descriptor
     \<Rightarrow> store_error + string list \<times> string list \<times> u64" where
  "validate_extension C d st e =
     (let (names, paths, total) = st
      in rbind (validate_extension_name (ext_name e)) (\<lambda>_.
         rbind (validate_extension_path (ext_path e)) (\<lambda>_.
         if ext_schema_version e = 0 \<or> ext_name e \<in> set names \<or> ext_path e \<in> set paths
         then Inl (StInvalid ''invalid or duplicate extension descriptor'')
         else case file_node d (ext_path e) of
                None \<Rightarrow> Inl (StIo IoNotFound)
              | Some (RegularFile content) \<Rightarrow>
                  if length content > MAX_EXTENSION_BYTES
                  then Inl (StInvalid ''extension exceeds configured limit'')
                  else rbind (ok_or (StInvalid ''aggregate extension length overflow'')
                                (checked_add total (of_nat (length content)))) (\<lambda>total.
                    if total > of_nat MAX_TOTAL_EXTENSION_BYTES
                    then Inl (StInvalid ''aggregate extensions exceed configured limit'')
                    else if ext_required e
                        \<and> ext_name e \<notin> {''rules'', ''stream-events'', ''websocket-messages'', ''interop-provenance''}
                    then Inl (StInvalid (''unknown required extension '' @ ext_name e))
                    else rbind (validate_extension_payload C d e) (\<lambda>_.
                      Inr (ext_name e # names, ext_path e # paths, total)))
              | Some _ \<Rightarrow> Inl (StInvalid ''extension must be a regular non-symlink file''))))"

definition validate_extensions ::
  "codec \<Rightarrow> fixture_dir \<Rightarrow> extension_descriptor list \<Rightarrow> store_error + unit" where
  "validate_extensions C d extensions =
     (if length extensions > MAX_EXTENSIONS then Inl (StInvalid ''extension count exceeds configured limit'')
      else rbind (try_fold (validate_extension C d) ([], [], 0) extensions) (\<lambda>_. Inr ()))"

section \<open>The flow log\<close>

text \<open>\<^verbatim>\<open>read_until(b'\n')\<close> until the end: the lines with their newlines, the last perhaps without.\<close>

abbreviation newline :: char where "newline \<equiv> CHR 0x0A"

fun jsonl_lines :: "bytes \<Rightarrow> bytes list" where
  "jsonl_lines [] = []"
| "jsonl_lines (c # s) =
     (if c = newline then [c] # jsonl_lines s
      else (case jsonl_lines s of [] \<Rightarrow> [[c]] | line # lines \<Rightarrow> (c # line) # lines))"

text \<open>\<^verbatim>\<open>FlowIter::next\<close> on the line after \<open>seen\<close> others.\<close>

definition flow_item :: "codec \<Rightarrow> store_limits \<Rightarrow> usize \<times> bytes \<Rightarrow> store_error + flow" where
  "flow_item C lim item =
     (let (seen, line) = item
      in if seen \<ge> sl_max_flows lim then Inl (StInvalid ''flow count exceeds configured limit'')
         else if length line > unat (sl_max_line_bytes lim)
         then Inl (StInvalid ''flow JSONL line exceeds configured limit'')
         else rbind (ok_or StJson (cd_flow_from C line)) (\<lambda>fl.
           rbind (map_err StFlow (flow_validate fl)) (\<lambda>_. Inr fl)))"

definition iter_flows ::
  "codec \<Rightarrow> fixture_dir \<Rightarrow> store_limits \<Rightarrow> store_error + (store_error + flow) list" where
  "iter_flows C d lim =
     rbind (map_err StIo (open_read (file_node d ''flows.jsonl''))) (\<lambda>content.
       Inr (map (flow_item C lim) (enumerate 0 (jsonl_lines content))))"

definition flow_bodies :: "flow \<Rightarrow> body_ref list" where
  "flow_bodies fl =
     req_body (fl_request fl) # (case fl_outcome fl of OutResponse response \<Rightarrow> [resp_body response] | OutError _ \<Rightarrow> [])"

definition validate_body_refs :: "flow \<Rightarrow> u64 \<Rightarrow> store_error + unit" where
  "validate_body_refs fl blob_limit =
     check_all (\<lambda>body. case body of
         BodyBlob blob \<Rightarrow>
           rbind (validate_digest (blob_sha256 blob)) (\<lambda>_.
             if blob_length blob > blob_limit
             then Inl (StInvalid ''body reference exceeds configured limit'') else Inr ())
       | _ \<Rightarrow> Inr ()) (flow_bodies fl)"

definition validate_body_files ::
  "ext_lib \<Rightarrow> fixture_dir \<Rightarrow> flow \<Rightarrow> store_limits \<Rightarrow> store_error + unit" where
  "validate_body_files X d fl lim =
     check_all (\<lambda>body. case body of BodyBlob blob \<Rightarrow> verify_blob_file X d blob lim | _ \<Rightarrow> Inr ())
       (flow_bodies fl)"

definition body_len_or_zero :: "body_ref \<Rightarrow> u64" where
  "body_len_or_zero body = unwrap_or (body_ref_len body) 0"

definition response_length :: "flow \<Rightarrow> u64" where
  "response_length fl =
     (case fl_outcome fl of OutResponse response \<Rightarrow> body_len_or_zero (resp_body response) | OutError _ \<Rightarrow> 0)"

text \<open>The addition is unchecked: it wraps here, and panics in a build with overflow checks.\<close>

definition flow_body_bytes :: "flow \<Rightarrow> u64" where
  "flow_body_bytes fl = body_len_or_zero (req_body (fl_request fl)) + response_length fl"

section \<open>WebSocket conversations of a fixture\<close>

definition is_websocket_101 :: "flow \<Rightarrow> bool" where
  "is_websocket_101 fl \<longleftrightarrow>
     (\<exists>header\<in>set (req_headers (fl_request fl)). eq_ignore_case (h_name header) ''upgrade''
        \<and> (\<exists>token\<in>set (split_on CHR '','' (h_value header)). eq_ignore_case (trim token) ''websocket''))
     \<and> (case fl_outcome fl of OutResponse response \<Rightarrow> resp_status response = 101 | OutError _ \<Rightarrow> False)"

definition collect_101 :: "codec \<Rightarrow> u64 \<Rightarrow> string list \<Rightarrow> bytes \<Rightarrow> store_error + string list" where
  "collect_101 C line_limit ids line =
     (if length line > unat line_limit then Inl (StInvalid ''flow JSONL line exceeds configured limit'')
      else rbind (ok_or StJson (cd_flow_from C line)) (\<lambda>fl.
        Inr (if is_websocket_101 fl then List.insert (fl_id fl) ids else ids)))"

definition validate_payload_file ::
  "ext_lib \<Rightarrow> fixture_dir \<Rightarrow> u64 \<Rightarrow> ws_message \<Rightarrow> store_error + unit" where
  "validate_payload_file X d blob_limit message =
     (case wm_payload message of
        Some (BodyBlob blob) \<Rightarrow>
          rbind (verify_blob_file X d blob (store_limits_default\<lparr>sl_max_blob_bytes := blob_limit\<rparr>)) (\<lambda>_.
            if wm_kind message \<noteq> WText then Inr ()
            else rbind (map_err StIo (open_read (blob_node d (blob_sha256 blob)))) (\<lambda>content.
              let payload = take (unat (sat_add blob_limit 1)) content
              in if length payload \<noteq> unat (blob_length blob) \<or> \<not> utf8_valid payload
                 then Inl (StInvalid ''WebSocket text payload must be valid UTF-8'') else Inr ()))
      | _ \<Rightarrow> Inr ())"

definition validate_reference ::
  "ext_lib \<Rightarrow> fixture_dir \<Rightarrow> u64 \<Rightarrow> string list \<Rightarrow> string list \<Rightarrow> ws_conversation \<Rightarrow> store_error + string list" where
  "validate_reference X d blob_limit ids referenced c =
     (if wc_flow_id c \<notin> set ids
      then Inl (StInvalid ''WebSocket conversation must reference an initiating 101 flow'')
      else rbind (check_all (validate_payload_file X d blob_limit) (wc_messages c)) (\<lambda>_.
        Inr (List.insert (wc_flow_id c) referenced)))"

definition validate_websocket_fixture ::
  "codec \<Rightarrow> ext_lib \<Rightarrow> fixture_dir \<Rightarrow> extension_descriptor list \<Rightarrow> u64 \<Rightarrow> u64 \<Rightarrow> store_error + unit" where
  "validate_websocket_fixture C X d extensions line_limit blob_limit =
     rbind (map_err StIo (open_read (file_node d ''flows.jsonl''))) (\<lambda>content.
     rbind (try_fold (collect_101 C line_limit) [] (jsonl_lines content)) (\<lambda>websocket_101.
     case find (\<lambda>e. ext_name e = ''websocket-messages'') extensions of
       None \<Rightarrow>
         if websocket_101 \<noteq> []
         then Inl (StInvalid ''WebSocket 101 flow is missing required conversation metadata'') else Inr ()
     | Some e \<Rightarrow>
         if \<not> ext_required e
         then Inl (StInvalid ''websocket-messages extension must be required for replay'')
         else if ext_path e \<noteq> ''websockets.jsonl'' \<or> ext_schema_version e \<noteq> WEBSOCKET_SCHEMA_VERSION
         then Inl (StInvalid ''websocket-messages extension descriptor is inconsistent'')
         else rbind (read_json (cd_transcript_from C) (file_node d (ext_path e))) (\<lambda>transcript.
              rbind (map_err StTranscript (validate_transcript transcript ws_limits_default)) (\<lambda>_.
              rbind (try_fold (validate_reference X d blob_limit websocket_101) [] (wt_conversations transcript))
                (\<lambda>referenced.
                  if length referenced \<noteq> length websocket_101
                  then Inl (StInvalid ''WebSocket 101 flow is missing conversation metadata'')
                  else Inr ())))))"

section \<open>Opening\<close>

record session =
  se_root :: path
  se_manifest :: manifest
  se_limits :: store_limits

text \<open>One flow of the log; the state is the count, the body bytes and the response lengths so far.\<close>

definition open_flow ::
  "ext_lib \<Rightarrow> fixture_dir \<Rightarrow> store_limits \<Rightarrow> usize \<times> u64 \<times> (string \<times> u64) list \<Rightarrow> store_error + flow
     \<Rightarrow> store_error + usize \<times> u64 \<times> (string \<times> u64) list" where
  "open_flow X d lim st item =
     rbind item (\<lambda>fl.
       let (count, total, response_lengths) = st
       in if map_of response_lengths (fl_id fl) \<noteq> None then Inl (StInvalid ''duplicate flow id'')
          else rbind (ok_or (StInvalid ''total body length overflow'')
                 (checked_add total (flow_body_bytes fl))) (\<lambda>total.
            if total > sl_max_total_bytes lim
            then Inl (StInvalid ''total body length exceeds configured limit'')
            else rbind (validate_body_files X d fl lim) (\<lambda>_.
              Inr (Suc count, total, (fl_id fl, response_length fl) # response_lengths))))"

definition check_flow_events ::
  "(string \<times> u64) list \<Rightarrow> flow_stream_events \<Rightarrow> store_error + unit" where
  "check_flow_events response_lengths events =
     rbind (ok_or (StInvalid ''stream events reference an unknown flow'')
              (map_of response_lengths (fse_flow_id events))) (\<lambda>expected.
       if delivered (fse_response events) \<noteq> expected
       then Inl (StInvalid ''stream event byte count disagrees with response body'') else Inr ())"

definition check_stream_extension ::
  "codec \<Rightarrow> fixture_dir \<Rightarrow> extension_descriptor list \<Rightarrow> (string \<times> u64) list \<Rightarrow> store_error + unit" where
  "check_stream_extension C d extensions response_lengths =
     (case find (\<lambda>e. ext_name e = ''stream-events'') extensions of
        None \<Rightarrow> Inr ()
      | Some e \<Rightarrow>
          rbind (read_json (cd_events_from C) (file_node d (ext_path e))) (\<lambda>events.
            check_all (check_flow_events response_lengths) (ses_flows events)))"

definition open_checks ::
  "codec \<Rightarrow> ext_lib \<Rightarrow> fixture_dir \<Rightarrow> store_limits \<Rightarrow> manifest \<Rightarrow> store_error + unit" where
  "open_checks C X d lim mf =
     (if \<not> known_session_schema (sm_schema_version (mf_metadata mf))
      then Inl (StUnsupportedSchema (sm_schema_version (mf_metadata mf)))
      else if \<not> mf_complete mf then Inl (StInvalid ''fixture manifest is incomplete'')
      else if (\<exists>e\<in>set (mf_extensions mf). ext_name e = ''websocket-messages'')
          \<and> sm_schema_version (mf_metadata mf) \<noteq> SESSION_SCHEMA_VERSION
      then Inl (StInvalid ''WebSocket conversations require current session schema 2'')
      else rbind (validate_extensions C d (mf_extensions mf)) (\<lambda>_.
           rbind (iter_flows C d lim) (\<lambda>items.
           rbind (try_fold (open_flow X d lim) (0, 0, []) items) (\<lambda>(count, total, response_lengths).
           if count \<noteq> mf_flow_count mf then Inl (StInvalid ''manifest flow count mismatch'')
           else rbind (validate_websocket_fixture C X d (mf_extensions mf)
                         (sl_max_line_bytes lim) (sl_max_blob_bytes lim)) (\<lambda>_.
                rbind (check_stream_extension C d (mf_extensions mf) response_lengths) (\<lambda>_.
                rbind (count_blobs d) (\<lambda>blobs.
                if blobs \<noteq> mf_blob_count mf then Inl (StInvalid ''manifest blob count mismatch'')
                else Inr ())))))))"

definition open_session ::
  "codec \<Rightarrow> ext_lib \<Rightarrow> fs \<Rightarrow> path \<Rightarrow> store_limits \<Rightarrow> store_error + session" where
  "open_session C X fsys root lim =
     (case fsys root of
        None \<Rightarrow> Inl (StIo IoNotFound)
      | Some d \<Rightarrow>
          rbind (read_json (cd_manifest_from C) (file_node d ''manifest.json'')) (\<lambda>mf.
          rbind (open_checks C X d lim mf) (\<lambda>_.
          Inr \<lparr>se_root = root, se_manifest = mf, se_limits = lim\<rparr>)))"

text \<open>\<^verbatim>\<open>Session::read_extension\<close>\<close>

definition read_extension :: "fixture_dir \<Rightarrow> manifest \<Rightarrow> string \<Rightarrow> store_error + bytes option" where
  "read_extension d mf name =
     (case find (\<lambda>e. ext_name e = name) (mf_extensions mf) of
        None \<Rightarrow> Inr None
      | Some e \<Rightarrow>
          (case file_node d (ext_path e) of
             None \<Rightarrow> Inl (StIo IoNotFound)
           | Some (RegularFile content) \<Rightarrow>
               (if length content > MAX_EXTENSION_BYTES
                then Inl (StInvalid ''extension exceeds configured limit'')
                else Inr (Some content))
           | Some _ \<Rightarrow> Inl (StInvalid ''extension must be a regular non-symlink file'')))"

section \<open>What the checks accept\<close>

text \<open>A confined path is a plain file name that is not hidden.\<close>

lemma validate_extension_path_iff [res_simps]:
  "validate_extension_path p = Inr () \<longleftrightarrow>
     p \<noteq> [] \<and> length p \<le> 128 \<and> CHR ''/'' \<notin> set p \<and> hd p \<noteq> CHR ''.''"
proof -
  have confined: "CHR ''/'' \<notin> set q" if "path_file_name p = Some q" for q
  proof -
    from that have "q \<in> set (path_components p)" "q \<noteq> ''/''" "q \<noteq> ''.''"
      by (auto simp: path_file_name_def split: list.splits if_splits)
    then show ?thesis
      by (auto simp: path_components_def split: if_splits dest: split_on_free)
  qed
  have plain: "path_components p = [p] \<and> path_file_name p = Some p"
    if "p \<noteq> []" "CHR ''/'' \<notin> set p" "hd p \<noteq> CHR ''.''"
  proof -
    have "\<not> starts_with ''/'' p" "p \<noteq> ''.''" "p \<noteq> ''..''" "p \<noteq> ''/''"
      using that by (auto simp: starts_with_def prefix_def)
    then show ?thesis using that by (simp add: path_components_def path_file_name_def split_on_id)
  qed
  have hidden: "starts_with ''.'' p \<longleftrightarrow> p \<noteq> [] \<and> hd p = CHR ''.''"
    by (cases p) (auto simp: starts_with_def)
  show ?thesis
  proof (cases "p \<noteq> [] \<and> CHR ''/'' \<notin> set p \<and> hd p \<noteq> CHR ''.''")
    case True
    with plain hidden show ?thesis by (simp add: validate_extension_path_def)
  next
    case False
    with confined [of p] hidden show ?thesis by (auto simp: validate_extension_path_def)
  qed
qed

definition ext_bytes :: "fixture_dir \<Rightarrow> extension_descriptor \<Rightarrow> nat" where
  "ext_bytes d e = (case file_node d (ext_path e) of Some (RegularFile content) \<Rightarrow> length content | _ \<Rightarrow> 0)"

definition extension_ok :: "codec \<Rightarrow> fixture_dir \<Rightarrow> extension_descriptor \<Rightarrow> bool" where
  "extension_ok C d e \<longleftrightarrow>
     validate_extension_name (ext_name e) = Inr () \<and> validate_extension_path (ext_path e) = Inr ()
     \<and> ext_schema_version e \<noteq> 0
     \<and> (\<exists>content. file_node d (ext_path e) = Some (RegularFile content)) \<and> ext_bytes d e \<le> MAX_EXTENSION_BYTES
     \<and> (ext_required e \<longrightarrow>
          ext_name e \<in> {''rules'', ''stream-events'', ''websocket-messages'', ''interop-provenance''})
     \<and> validate_extension_payload C d e = Inr ()"

definition extensions_ok :: "codec \<Rightarrow> fixture_dir \<Rightarrow> extension_descriptor list \<Rightarrow> bool" where
  "extensions_ok C d es \<longleftrightarrow>
     (\<forall>e\<in>set es. extension_ok C d e) \<and> distinct (map ext_name es) \<and> distinct (map ext_path es)
     \<and> (\<Sum>e\<leftarrow>es. ext_bytes d e) \<le> MAX_TOTAL_EXTENSION_BYTES"

lemma u64_limit: "n \<le> MAX_TOTAL_EXTENSION_BYTES \<Longrightarrow> unat (of_nat n :: u64) = n"
  by (rule u64_of_length) (simp add: MAX_TOTAL_EXTENSION_BYTES_def)

lemma extension_total:
  assumes "s \<le> MAX_TOTAL_EXTENSION_BYTES" and "n \<le> MAX_EXTENSION_BYTES"
  shows "(\<exists>t. checked_add (of_nat s :: u64) (of_nat n) = Some t \<and> \<not> of_nat MAX_TOTAL_EXTENSION_BYTES < t \<and> P t) \<longleftrightarrow>
    s + n \<le> MAX_TOTAL_EXTENSION_BYTES \<and> P (of_nat (s + n))"
proof -
  have n: "unat (of_nat n :: u64) = n" using assms(2) by (intro u64_of_length) (simp add: MAX_EXTENSION_BYTES_def)
  have sum: "unat (of_nat (s + n) :: u64) = s + n"
    using assms by (intro u64_of_length) (simp add: MAX_EXTENSION_BYTES_def MAX_TOTAL_EXTENSION_BYTES_def)
  have "checked_add (of_nat s :: u64) (of_nat n) = Some t \<longleftrightarrow> t = of_nat (s + n)" for t
    unfolding checked_add_Some_iff u64_limit [OF assms(1)] n by (metis sum unsigned_word_eqI)
  then show ?thesis
    using u64_limit [of MAX_TOTAL_EXTENSION_BYTES] by (simp add: word_less_nat_alt sum not_less del: of_nat_add)
qed

definition extension_cursor :: "fixture_dir \<Rightarrow> extension_descriptor list \<Rightarrow> string list \<times> string list \<times> u64" where
  "extension_cursor d es =
     (rev (map ext_name es), rev (map ext_path es), of_nat (\<Sum>e\<leftarrow>es. ext_bytes d e))"

interpretation extension_registry: cursor_loop "validate_extension C d" "extension_cursor d" "extensions_ok C d"
proof
  show "extensions_ok C d []" by (simp add: extensions_ok_def)
  show "extensions_ok C d xs" if "extensions_ok C d (xs @ [x])" for xs x
    using that by (simp add: extensions_ok_def)
  show "validate_extension C d (extension_cursor d xs) x = Inr t \<longleftrightarrow>
      extensions_ok C d (xs @ [x]) \<and> t = extension_cursor d (xs @ [x])"
    if ok: "extensions_ok C d xs" for xs x t
  proof (cases "\<exists>content. file_node d (ext_path x) = Some (RegularFile content)")
    case True
    then obtain content where present: "file_node d (ext_path x) = Some (RegularFile content)" by blast
    let ?s = "\<Sum>e\<leftarrow>xs. ext_bytes d e"
    have s: "?s \<le> MAX_TOTAL_EXTENSION_BYTES" using ok by (simp add: extensions_ok_def)
    have bytes: "ext_bytes d x = length content" by (simp add: ext_bytes_def present)
    show ?thesis
    proof (cases "length content \<le> MAX_EXTENSION_BYTES")
      case small: True
      show ?thesis
        using ok extension_total [OF s small, where P = "\<lambda>total. \<not> (ext_required x
              \<and> ext_name x \<notin> {''rules'', ''stream-events'', ''websocket-messages'', ''interop-provenance''})
            \<and> validate_extension_payload C d x = Inr ()
            \<and> (ext_name x # rev (map ext_name xs), ext_path x # rev (map ext_path xs), total) = t"] small
        by (auto simp: validate_extension_def extension_cursor_def extensions_ok_def extension_ok_def present bytes
            rbind_Inr_iff ok_or_Inr_iff if_Inl_eq_Inr simp del: of_nat_add)
    qed (auto simp: validate_extension_def extension_cursor_def extensions_ok_def extension_ok_def present bytes
        rbind_Inr_iff)
  next
    case False
    then show ?thesis
      by (auto simp: validate_extension_def extension_cursor_def extensions_ok_def extension_ok_def
          rbind_Inr_iff if_Inl_eq_Inr split: option.splits fs_node.splits)
  qed
qed

lemma validate_extensions_iff:
  "validate_extensions C d es = Inr () \<longleftrightarrow> length es \<le> 64 \<and> extensions_ok C d es"
  using extension_registry.accepts_iff [of C d es]
  by (auto simp: validate_extensions_def extension_cursor_def rbind_Inr_iff if_Inl_eq_Inr MAX_EXTENSIONS_def)

section \<open>What an opened fixture is\<close>

definition line_holds :: "codec \<Rightarrow> store_limits \<Rightarrow> bytes \<Rightarrow> flow \<Rightarrow> bool" where
  "line_holds C lim line fl \<longleftrightarrow>
     length line \<le> unat (sl_max_line_bytes lim) \<and> cd_flow_from C line = Some fl \<and> flow_validate fl = Inr ()"

text \<open>The flow log holds exactly these flows.\<close>

definition log_holds :: "codec \<Rightarrow> fixture_dir \<Rightarrow> store_limits \<Rightarrow> flow list \<Rightarrow> bool" where
  "log_holds C d lim flows \<longleftrightarrow>
     (\<exists>content. open_read (file_node d ''flows.jsonl'') = Inr content
        \<and> list_all2 (line_holds C lim) (jsonl_lines content) flows) \<and> length flows \<le> sl_max_flows lim"

definition bodies_present :: "ext_lib \<Rightarrow> fixture_dir \<Rightarrow> store_limits \<Rightarrow> flow \<Rightarrow> bool" where
  "bodies_present X d lim fl \<longleftrightarrow>
     (\<forall>blob. BodyBlob blob \<in> set (flow_bodies fl) \<longrightarrow> (\<exists>b. holds_blob X d lim blob b))"

definition session_flows_ok :: "ext_lib \<Rightarrow> fixture_dir \<Rightarrow> store_limits \<Rightarrow> flow list \<Rightarrow> bool" where
  "session_flows_ok X d lim flows \<longleftrightarrow>
     distinct (map fl_id flows) \<and> (\<Sum>fl\<leftarrow>flows. unat (flow_body_bytes fl)) \<le> unat (sl_max_total_bytes lim)
     \<and> (\<forall>fl\<in>set flows. bodies_present X d lim fl)"

lemma flow_item_iff: "flow_item C lim (i, line) = Inr fl \<longleftrightarrow> i < sl_max_flows lim \<and> line_holds C lim line fl"
  by (auto simp: flow_item_def line_holds_def res_simps not_le not_less)

lemma iter_flows_iff:
  "iter_flows C d lim = Inr (map Inr flows) \<longleftrightarrow> log_holds C d lim flows"
proof -
  have "map (flow_item C lim) (enumerate n lines) = map Inr flows \<longleftrightarrow>
      list_all2 (line_holds C lim) lines flows \<and> (lines = [] \<or> n + length lines \<le> sl_max_flows lim)" for n lines
  proof (induction lines arbitrary: n flows)
    case (Cons line lines)
    then show ?case by (cases flows) (auto simp: flow_item_iff)
  qed auto
  from this [of 0] show ?thesis
    by (auto simp: iter_flows_def log_holds_def rbind_Inr_iff map_err_Inr_iff dest: list_all2_lengthD)
      (metis list_all2_lengthD)
qed

lemma validate_body_files_iff: "validate_body_files X d fl lim = Inr () \<longleftrightarrow> bodies_present X d lim fl"
proof -
  have "(case body of BodyBlob blob \<Rightarrow> verify_blob_file X d blob lim | _ \<Rightarrow> Inr ()) = Inr () \<longleftrightarrow>
      (\<forall>blob. body = BodyBlob blob \<longrightarrow> (\<exists>b. holds_blob X d lim blob b))" for body
    by (cases body) (auto simp: verify_blob_file_iff)
  then show ?thesis by (auto simp: validate_body_files_def check_all_Inr_iff bodies_present_def)
qed

definition open_cursor :: "(store_error + flow) list \<Rightarrow> usize \<times> u64 \<times> (string \<times> u64) list" where
  "open_cursor items =
     (length items, of_nat (\<Sum>i\<leftarrow>items. unat (flow_body_bytes (projr i))),
      rev (map (\<lambda>i. (fl_id (projr i), response_length (projr i))) items))"

definition items_ok :: "ext_lib \<Rightarrow> fixture_dir \<Rightarrow> store_limits \<Rightarrow> (store_error + flow) list \<Rightarrow> bool" where
  "items_ok X d lim items \<longleftrightarrow> (\<forall>i\<in>set items. is_ok i) \<and> session_flows_ok X d lim (map projr items)"

lemma body_total:
  assumes "s \<le> unat (m :: u64)"
  shows "(\<exists>t. checked_add (of_nat s) n = Some t \<and> \<not> m < t \<and> P t) \<longleftrightarrow>
    s + unat n \<le> unat m \<and> P (of_nat (s + unat n))"
proof -
  have m: "unat m < 2 ^ 64" using unsigned_less [of m, where ?'a = nat] by simp
  have s: "unat (of_nat s :: u64) = s" using assms m by (intro u64_of_length) simp
  have eq: "checked_add (of_nat s) n = Some t \<and> \<not> m < t \<longleftrightarrow> s + unat n \<le> unat m \<and> t = of_nat (s + unat n)" for t
  proof
    assume "checked_add (of_nat s) n = Some t \<and> \<not> m < t"
    then have t: "unat t = s + unat n" "unat t \<le> unat m"
      by (simp_all add: checked_add_Some_iff s not_less word_le_nat_alt)
    moreover from this m have "unat (of_nat (s + unat n) :: u64) = s + unat n" by (intro u64_of_length) simp
    ultimately show "s + unat n \<le> unat m \<and> t = of_nat (s + unat n)"
      by (metis unsigned_word_eqI)
  next
    assume r: "s + unat n \<le> unat m \<and> t = of_nat (s + unat n)"
    then have "unat (of_nat (s + unat n) :: u64) = s + unat n" using m by (intro u64_of_length) simp
    with r show "checked_add (of_nat s) n = Some t \<and> \<not> m < t"
      unfolding checked_add_Some_iff s by (simp add: not_less word_le_nat_alt del: of_nat_add)
  qed
  show ?thesis unfolding conj_assoc [symmetric] eq by blast
qed

lemma map_of_rev_None: "map_of (rev (map (\<lambda>x. (f x, g x)) xs)) k = None \<longleftrightarrow> k \<notin> f ` set xs"
  by (force simp: map_of_eq_None_iff)

interpretation flow_log: cursor_loop "open_flow X d lim" open_cursor "items_ok X d lim"
proof
  show "items_ok X d lim []" by (simp add: items_ok_def session_flows_ok_def)
  show "items_ok X d lim xs" if "items_ok X d lim (xs @ [x])" for xs x
    using that by (simp add: items_ok_def session_flows_ok_def)
  show "open_flow X d lim (open_cursor xs) x = Inr t \<longleftrightarrow> items_ok X d lim (xs @ [x]) \<and> t = open_cursor (xs @ [x])"
    if ok: "items_ok X d lim xs" for xs x t
  proof (cases x)
    case (Inr fl)
    let ?s = "\<Sum>i\<leftarrow>xs. unat (flow_body_bytes (projr i))"
    have "?s \<le> unat (sl_max_total_bytes lim)" using ok by (simp add: items_ok_def session_flows_ok_def comp_def)
    note total = body_total [OF this, of "flow_body_bytes fl" "\<lambda>total. bodies_present X d lim fl
        \<and> (Suc (length xs), total, (fl_id fl, response_length fl) # rev (map (\<lambda>i. (fl_id (projr i), response_length (projr i))) xs)) = t"]
    have "open_flow X d lim (open_cursor xs) x = Inr t \<longleftrightarrow>
        fl_id fl \<notin> (\<lambda>i. fl_id (projr i)) ` set xs
        \<and> (\<exists>total. checked_add (of_nat ?s) (flow_body_bytes fl) = Some total
            \<and> \<not> sl_max_total_bytes lim < total \<and> bodies_present X d lim fl
            \<and> (Suc (length xs), total, (fl_id fl, response_length fl) # rev (map (\<lambda>i. (fl_id (projr i), response_length (projr i))) xs)) = t)"
      by (auto simp: open_flow_def open_cursor_def Inr rbind_Inr_iff ok_or_Inr_iff if_Inl_eq_Inr
          validate_body_files_iff map_of_rev_None)
    also have "\<dots> \<longleftrightarrow> items_ok X d lim (xs @ [x]) \<and> t = open_cursor (xs @ [x])"
      unfolding total using ok by (auto simp: items_ok_def session_flows_ok_def open_cursor_def Inr comp_def)
    finally show ?thesis .
  qed (simp add: open_flow_def items_ok_def)
qed

lemma open_flow_loop_iff:
  "try_fold (open_flow X d lim) (0, 0, []) items = Inr t \<longleftrightarrow>
     (\<exists>flows. items = map Inr flows \<and> session_flows_ok X d lim flows
        \<and> t = (length flows, of_nat (\<Sum>fl\<leftarrow>flows. unat (flow_body_bytes fl)),
               rev (map (\<lambda>fl. (fl_id fl, response_length fl)) flows)))" (is "?l \<longleftrightarrow> ?r")
proof -
  have "items_ok X d lim items \<longleftrightarrow> (\<exists>flows. items = map Inr flows \<and> session_flows_ok X d lim flows)"
  proof
    assume ok: "items_ok X d lim items"
    then have "\<forall>i\<in>set items. is_ok i" by (simp add: items_ok_def)
    then have "items = map Inr (map projr items)"
      by (induction items) (auto simp: is_ok_iff)
    with ok show "\<exists>flows. items = map Inr flows \<and> session_flows_ok X d lim flows"
      unfolding items_ok_def by blast
  qed (auto simp: items_ok_def comp_def)
  moreover have "open_cursor (map Inr flows) = (length flows, of_nat (\<Sum>fl\<leftarrow>flows. unat (flow_body_bytes fl)),
      rev (map (\<lambda>fl. (fl_id fl, response_length fl)) flows))" for flows
    by (simp add: open_cursor_def comp_def)
  moreover have "(0, 0, []) = open_cursor []" by (simp add: open_cursor_def)
  ultimately show ?thesis
    using flow_log.accepts_iff [of X d lim items t] by auto
qed

definition upgraded :: "flow list \<Rightarrow> string set" where
  "upgraded flows = fl_id ` {fl \<in> set flows. is_websocket_101 fl}"

lemma foldl_insert_set: "set (foldl (\<lambda>ids x. if P x then List.insert (f x) ids else ids) ids xs)
    = set ids \<union> f ` {x \<in> set xs. P x}"
  by (induction xs arbitrary: ids) auto

lemma foldl_insert_distinct:
  "distinct ids \<Longrightarrow> distinct (foldl (\<lambda>ids x. if P x then List.insert (f x) ids else ids) ids xs)"
  by (induction xs arbitrary: ids) auto

lemma collect_101_log:
  assumes "list_all2 (line_holds C lim) lines flows"
  shows "\<exists>ids. try_fold (collect_101 C (sl_max_line_bytes lim)) [] lines = Inr ids
    \<and> set ids = upgraded flows \<and> distinct ids"
proof -
  have "try_fold (collect_101 C (sl_max_line_bytes lim)) ids lines =
      Inr (foldl (\<lambda>ids fl. if is_websocket_101 fl then List.insert (fl_id fl) ids else ids) ids flows)" for ids
    using assms by (induction arbitrary: ids rule: list_all2_induct)
      (auto simp: collect_101_def line_holds_def)
  then show ?thesis by (simp add: foldl_insert_set foldl_insert_distinct upgraded_def)
qed

definition payload_ok :: "ext_lib \<Rightarrow> fixture_dir \<Rightarrow> u64 \<Rightarrow> ws_message \<Rightarrow> bool" where
  "payload_ok X d blob_limit message \<longleftrightarrow>
     (\<forall>blob. wm_payload message = Some (BodyBlob blob) \<longrightarrow>
        (\<exists>b. holds_blob X d (store_limits_default\<lparr>sl_max_blob_bytes := blob_limit\<rparr>) blob b
           \<and> (wm_kind message = WText \<longrightarrow> utf8_valid b)))"

lemma validate_payload_file_iff:
  "validate_payload_file X d blob_limit message = Inr () \<longleftrightarrow> payload_ok X d blob_limit message"
proof (cases "\<exists>blob. wm_payload message = Some (BodyBlob blob)")
  case True
  then obtain blob where m: "wm_payload message = Some (BodyBlob blob)" by blast
  let ?lim = "store_limits_default\<lparr>sl_max_blob_bytes := blob_limit\<rparr>"
  have whole: "take (unat (sat_add blob_limit 1)) b = b" "length b = unat (blob_length blob)"
    "open_read (blob_node d (blob_sha256 blob)) = Inr b" if "holds_blob X d ?lim blob b" for b
  proof -
    have "length b \<le> unat blob_limit" using that by (simp add: holds_blob_def word_le_nat_alt)
    moreover have "unat blob_limit \<le> unat (sat_add blob_limit 1)"
      using unsigned_less [of blob_limit, where ?'a = nat] by (simp add: unat_sat_add)
    ultimately show "take (unat (sat_add blob_limit 1)) b = b" by simp
  qed (use that in \<open>simp_all add: holds_blob_def\<close>)
  have unique: "b = c" if "holds_blob X d ?lim blob b" "holds_blob X d ?lim blob c" for b c
    using that by (simp add: holds_blob_def)
  show ?thesis
  proof (cases "\<exists>b. holds_blob X d ?lim blob b")
    case True
    then obtain b where b: "holds_blob X d ?lim blob b" by blast
    then have "verify_blob_file X d blob ?lim = Inr ()" by (auto simp: verify_blob_file_iff)
    then have "validate_payload_file X d blob_limit message = Inr () \<longleftrightarrow>
        (wm_kind message = WText \<longrightarrow> utf8_valid b)"
      by (simp add: validate_payload_file_def m whole [OF b] Let_def del: length_take)
    with b show ?thesis by (auto simp: payload_ok_def m dest: unique)
  next
    case False
    then have "verify_blob_file X d blob ?lim \<noteq> Inr ()" by (auto simp: verify_blob_file_iff)
    with False show ?thesis by (auto simp: validate_payload_file_def payload_ok_def m rbind_Inr_iff)
  qed
next
  case False
  then show ?thesis
    by (cases "wm_payload message"; cases "the (wm_payload message)") (auto simp: validate_payload_file_def payload_ok_def)
qed

lemma references_iff:
  "try_fold (validate_reference X d blob_limit ids) refs cs = Inr r \<longleftrightarrow>
     (\<forall>c\<in>set cs. wc_flow_id c \<in> set ids \<and> (\<forall>m\<in>set (wc_messages c). payload_ok X d blob_limit m))
     \<and> r = foldl (\<lambda>refs c. if True then List.insert (wc_flow_id c) refs else refs) refs cs"
proof (induction cs arbitrary: refs)
  case (Cons c cs)
  then show ?case
    by (auto simp: validate_reference_def rbind_Inr_iff check_all_Inr_iff validate_payload_file_iff if_Inl_eq_Inr)
qed auto

lemma reference_count:
  assumes "distinct ids" and "\<forall>c\<in>set cs. wc_flow_id c \<in> set ids"
  shows "length (foldl (\<lambda>refs c. if True then List.insert (wc_flow_id c) refs else refs) [] cs) = length ids
    \<longleftrightarrow> wc_flow_id ` set cs = set ids"
proof -
  let ?r = "foldl (\<lambda>refs c. if True then List.insert (wc_flow_id c) refs else refs) [] cs"
  have r: "set ?r = wc_flow_id ` set cs" "distinct ?r"
    using foldl_insert_set [of "\<lambda>_. True" wc_flow_id "[]" cs] foldl_insert_distinct [of "[]" "\<lambda>_. True" wc_flow_id cs]
    by simp_all
  have sub: "set ?r \<subseteq> set ids" using assms(2) r(1) by auto
  show ?thesis
    using distinct_card [OF r(2)] distinct_card [OF assms(1)] card_subset_eq [OF _ sub] r(1) by auto
qed

definition conversations_match ::
  "codec \<Rightarrow> ext_lib \<Rightarrow> fixture_dir \<Rightarrow> extension_descriptor list \<Rightarrow> u64 \<Rightarrow> flow list \<Rightarrow> bool" where
  "conversations_match C X d es blob_limit flows \<longleftrightarrow>
     (case find (\<lambda>e. ext_name e = ''websocket-messages'') es of
        None \<Rightarrow> upgraded flows = {}
      | Some e \<Rightarrow>
          ext_required e \<and> ext_path e = ''websockets.jsonl'' \<and> ext_schema_version e = WEBSOCKET_SCHEMA_VERSION
          \<and> (\<exists>transcript. read_json (cd_transcript_from C) (file_node d (ext_path e)) = Inr transcript
               \<and> validate_transcript transcript ws_limits_default = Inr ()
               \<and> wc_flow_id ` set (wt_conversations transcript) = upgraded flows
               \<and> (\<forall>c\<in>set (wt_conversations transcript). \<forall>m\<in>set (wc_messages c). payload_ok X d blob_limit m)))"

lemma validate_websocket_fixture_iff:
  assumes "log_holds C d lim flows"
  shows "validate_websocket_fixture C X d es (sl_max_line_bytes lim) blob_limit = Inr () \<longleftrightarrow>
    conversations_match C X d es blob_limit flows"
proof -
  from assms obtain content where content: "open_read (file_node d ''flows.jsonl'') = Inr content"
    and lines: "list_all2 (line_holds C lim) (jsonl_lines content) flows"
    by (auto simp: log_holds_def)
  from collect_101_log [OF lines] obtain ids where
    ids: "try_fold (collect_101 C (sl_max_line_bytes lim)) [] (jsonl_lines content) = Inr ids"
      "set ids = upgraded flows" "distinct ids"
    by blast
  have refs: "(\<exists>r. try_fold (validate_reference X d blob_limit ids) [] cs = Inr r \<and> length r = length ids) \<longleftrightarrow>
      wc_flow_id ` set cs = upgraded flows
      \<and> (\<forall>c\<in>set cs. \<forall>m\<in>set (wc_messages c). payload_ok X d blob_limit m)" for cs
    unfolding references_iff using reference_count [OF ids(3), of cs] ids(2) by auto
  show ?thesis
  proof (cases "find (\<lambda>e. ext_name e = ''websocket-messages'') es")
    case None
    then show ?thesis
      using ids by (auto simp: validate_websocket_fixture_def conversations_match_def content)
  next
    case (Some e)
    show ?thesis
      unfolding validate_websocket_fixture_def conversations_match_def content Some
      using refs by (auto simp: ids(1) rbind_Inr_iff map_err_Inr_iff if_Inl_eq_Inr)
  qed
qed

definition timelines_match :: "codec \<Rightarrow> fixture_dir \<Rightarrow> extension_descriptor list \<Rightarrow> flow list \<Rightarrow> bool" where
  "timelines_match C d es flows \<longleftrightarrow>
     (case find (\<lambda>e. ext_name e = ''stream-events'') es of
        None \<Rightarrow> True
      | Some e \<Rightarrow>
          (\<exists>events. read_json (cd_events_from C) (file_node d (ext_path e)) = Inr events
             \<and> (\<forall>ev\<in>set (ses_flows events). \<exists>fl\<in>set flows. fl_id fl = fse_flow_id ev
                  \<and> delivered (fse_response ev) = response_length fl)))"

lemma check_stream_extension_iff:
  assumes "distinct (map fl_id flows)"
  shows "check_stream_extension C d es (rev (map (\<lambda>fl. (fl_id fl, response_length fl)) flows)) = Inr () \<longleftrightarrow>
    timelines_match C d es flows"
proof -
  let ?m = "rev (map (\<lambda>fl. (fl_id fl, response_length fl)) flows)"
  have "distinct (map fst ?m)" using assms by (simp add: rev_map [symmetric] comp_def)
  then have "map_of ?m k = Some n \<longleftrightarrow> (\<exists>fl\<in>set flows. fl_id fl = k \<and> n = response_length fl)" for k n
    by (subst map_of_eq_Some_iff) auto
  then have "check_flow_events ?m ev = Inr () \<longleftrightarrow>
      (\<exists>fl\<in>set flows. fl_id fl = fse_flow_id ev \<and> delivered (fse_response ev) = response_length fl)" for ev
    by (auto simp: check_flow_events_def rbind_Inr_iff ok_or_Inr_iff if_Inl_eq_Inr)
  then show ?thesis
    by (auto simp: check_stream_extension_def timelines_match_def rbind_Inr_iff check_all_Inr_iff split: option.splits)
qed

definition fixture_ok ::
  "codec \<Rightarrow> ext_lib \<Rightarrow> fixture_dir \<Rightarrow> store_limits \<Rightarrow> manifest \<Rightarrow> flow list \<Rightarrow> bool" where
  "fixture_ok C X d lim mf flows \<longleftrightarrow>
     known_session_schema (sm_schema_version (mf_metadata mf)) \<and> mf_complete mf
     \<and> ((\<exists>e\<in>set (mf_extensions mf). ext_name e = ''websocket-messages'') \<longrightarrow>
          sm_schema_version (mf_metadata mf) = SESSION_SCHEMA_VERSION)
     \<and> length (mf_extensions mf) \<le> 64 \<and> extensions_ok C d (mf_extensions mf)
     \<and> log_holds C d lim flows \<and> session_flows_ok X d lim flows \<and> length flows = mf_flow_count mf
     \<and> conversations_match C X d (mf_extensions mf) (sl_max_blob_bytes lim) flows
     \<and> timelines_match C d (mf_extensions mf) flows
     \<and> count_blobs d = Inr (mf_blob_count mf)"

lemma open_checks_iff:
  "open_checks C X d lim mf = Inr () \<longleftrightarrow> (\<exists>flows. fixture_ok C X d lim mf flows)" (is "?l \<longleftrightarrow> ?r")
proof
  assume l: ?l
  then obtain items t where items: "iter_flows C d lim = Inr items"
    and loop: "try_fold (open_flow X d lim) (0, 0, []) items = Inr t"
    by (auto simp: open_checks_def rbind_Inr_iff if_Inl_eq_Inr)
  from loop [unfolded open_flow_loop_iff] obtain flows where flows: "items = map Inr flows" "session_flows_ok X d lim flows"
    and t: "t = (length flows, of_nat (\<Sum>fl\<leftarrow>flows. unat (flow_body_bytes fl)),
               rev (map (\<lambda>fl. (fl_id fl, response_length fl)) flows))" by blast
  from items flows(1) have log: "log_holds C d lim flows" by (simp add: iter_flows_iff)
  from flows(2) have dist: "distinct (map fl_id flows)" by (simp add: session_flows_ok_def)
  have "fixture_ok C X d lim mf flows"
    using l items loop log flows(2)
    by (auto simp: open_checks_def fixture_ok_def rbind_Inr_iff if_Inl_eq_Inr validate_extensions_iff t
        validate_websocket_fixture_iff [OF log] check_stream_extension_iff [OF dist] split: if_splits)
  then show ?r by blast
next
  assume ?r
  then obtain flows where ok: "fixture_ok C X d lim mf flows" by blast
  then have log: "log_holds C d lim flows" and fl: "session_flows_ok X d lim flows" by (simp_all add: fixture_ok_def)
  from fl have dist: "distinct (map fl_id flows)" by (simp add: session_flows_ok_def)
  have "try_fold (open_flow X d lim) (0, 0, []) (map Inr flows) =
      Inr (length flows, of_nat (\<Sum>fl\<leftarrow>flows. unat (flow_body_bytes fl)),
           rev (map (\<lambda>fl. (fl_id fl, response_length fl)) flows))"
    unfolding open_flow_loop_iff using fl by blast
  moreover have "validate_extensions C d (mf_extensions mf) = Inr ()"
    "validate_websocket_fixture C X d (mf_extensions mf) (sl_max_line_bytes lim) (sl_max_blob_bytes lim) = Inr ()"
    "check_stream_extension C d (mf_extensions mf) (rev (map (\<lambda>fl. (fl_id fl, response_length fl)) flows)) = Inr ()"
    using ok by (simp_all add: fixture_ok_def validate_extensions_iff validate_websocket_fixture_iff [OF log]
        check_stream_extension_iff [OF dist])
  ultimately show ?l
    using ok by (auto simp: open_checks_def fixture_ok_def iter_flows_iff [THEN iffD2, OF log])
qed

section \<open>Properties\<close>

lemma open_session_iff:
  "open_session C X fsys root lim = Inr se \<longleftrightarrow>
     (\<exists>d mf flows. fsys root = Some d \<and> read_json (cd_manifest_from C) (file_node d ''manifest.json'') = Inr mf
        \<and> fixture_ok C X d lim mf flows \<and> se = \<lparr>se_root = root, se_manifest = mf, se_limits = lim\<rparr>)"
  by (cases "fsys root") (auto simp: open_session_def rbind_Inr_iff open_checks_iff)

text \<open>
  Property C7: Opening accepts exactly the sound fixtures. A session is returned if and only if the
  manifest decodes, is complete and of a known schema; its extensions are confined, distinct, known
  where required, valid and within the limits; the log holds as many valid flows as it says, with
  distinct identifiers and bodies within the total; every body of a flow is a blob with the length
  and digest it names; the recorded conversations are those of the upgraded flows; the recorded
  timelines deliver exactly the response bodies; and the blobs are as many as it says.
\<close>

theorem session_opens_iff:
  "open_session C X fsys root lim = Inr se \<longleftrightarrow>
     (\<exists>d mf flows. fsys root = Some d \<and> read_json (cd_manifest_from C) (file_node d ''manifest.json'') = Inr mf
        \<and> fixture_ok C X d lim mf flows \<and> se = \<lparr>se_root = root, se_manifest = mf, se_limits = lim\<rparr>)"
  by (rule open_session_iff)

end
