(* ===== verification/Store_Writer.thy ===== *)
theory Store_Writer
  imports Store_Session
begin

text \<open>
  Writing a fixture, \<^verbatim>\<open>crates/eggreplay-store/src/lib.rs\<close>: a writer fills a staging directory next
  to the destination, \<^verbatim>\<open>finish\<close> completes it with the manifest and renames it into place.

  An operation on the staging directory is a function of the directory and the writer
  (\<open>on_staging\<close> looks the directory up in the file system and stores it back); \<open>create\<close> and
  \<open>finish\<close> are functions of the file system.
\<close>

section \<open>The writer\<close>

record ws_accumulation =
  wa_conversations :: "ws_conversation list"
  wa_messages :: usize
  wa_payload_bytes :: u64
  wa_encoded_bytes :: usize

definition ws_accumulation_default :: ws_accumulation where
  "ws_accumulation_default =
     \<lparr>wa_conversations = [], wa_messages = 0, wa_payload_bytes = 0, wa_encoded_bytes = 0\<rparr>"

definition accumulate_conversation ::
  "codec \<Rightarrow> ws_accumulation \<Rightarrow> ws_conversation \<Rightarrow> store_error + ws_accumulation" where
  "accumulate_conversation C acc c =
     (let lim = ws_limits_default
      in if length (wa_conversations acc) \<ge> max_conversations lim
         then Inl (StInvalid ''WebSocket conversation count exceeds limit'')
         else if \<exists>old\<in>set (wa_conversations acc). wc_id old = wc_id c \<or> wc_flow_id old = wc_flow_id c
         then Inl (StInvalid ''duplicate WebSocket conversation or flow id'')
         else rbind (map_err StTranscript (validate_transcript
                \<lparr>wt_schema_version = WEBSOCKET_SCHEMA_VERSION, wt_conversations = [c]\<rparr> lim)) (\<lambda>_.
              rbind (ok_or (StInvalid ''WebSocket message count overflow'')
                (usize_checked_add (wa_messages acc) (length (wc_messages c)))) (\<lambda>next_messages.
              if next_messages > max_messages_per_session lim
              then Inl (StInvalid ''WebSocket message count exceeds session limit'')
              else rbind (try_fold (\<lambda>total len. ok_or (StInvalid ''WebSocket payload length overflow'') (checked_add total len))
                     0 (List.map_filter (\<lambda>m. Option.bind (wm_payload m) body_ref_len) (wc_messages c))) (\<lambda>payload.
                   rbind (ok_or (StInvalid ''WebSocket payload length overflow'')
                     (checked_add (wa_payload_bytes acc) payload)) (\<lambda>next_payload.
                   if next_payload > max_total_payload_bytes lim
                   then Inl (StInvalid ''WebSocket payload bytes exceed session limit'')
                   else rbind (ok_or StJson (cd_conversation_to C c)) (\<lambda>encoded.
                        rbind (ok_or (StInvalid ''WebSocket metadata length overflow'')
                          (usize_checked_add (wa_encoded_bytes acc) (length encoded + 1))) (\<lambda>next_encoded.
                        if usize_sat_add next_encoded 64 > MAX_EXTENSION_BYTES
                        then Inl (StInvalid ''WebSocket extension exceeds configured limit'')
                        else Inr \<lparr>wa_conversations = wa_conversations acc @ [c], wa_messages = next_messages,
                                  wa_payload_bytes = next_payload, wa_encoded_bytes = next_encoded\<rparr>)))))))"

definition websocket_transcript :: "codec \<Rightarrow> ws_accumulation \<Rightarrow> store_error + ws_transcript" where
  "websocket_transcript C acc =
     (let transcript = \<lparr>wt_schema_version = WEBSOCKET_SCHEMA_VERSION, wt_conversations = wa_conversations acc\<rparr>
      in rbind (map_err StTranscript (validate_transcript transcript ws_limits_default)) (\<lambda>_.
         rbind (ok_or StJson (cd_transcript_to C transcript)) (\<lambda>encoded.
         if length encoded > MAX_EXTENSION_BYTES
         then Inl (StInvalid ''WebSocket extension exceeds configured limit'') else Inr transcript)))"

text \<open>\<open>sw_unique\<close> counts the names drawn from \<^verbatim>\<open>unique_suffix\<close>; the names themselves are a parameter.\<close>

record session_writer =
  sw_destination :: path
  sw_staging :: path
  sw_metadata :: session_metadata
  sw_limits :: store_limits
  sw_flow_count :: usize
  sw_total_bytes :: u64
  sw_extensions :: "extension_descriptor list"
  sw_stream_events :: stream_events
  sw_stream_event_ids :: "string list"
  sw_stream_event_records :: usize
  sw_stream_event_object_bytes :: usize
  sw_websocket :: ws_accumulation

definition staging_path :: "path \<Rightarrow> string \<Rightarrow> path" where
  "staging_path destination unique =
     (fst destination, ''.'' @ snd destination @ ''.incomplete-'' @ unique)"

definition create ::
  "fs \<Rightarrow> path \<Rightarrow> session_metadata \<Rightarrow> store_limits \<Rightarrow> string \<Rightarrow> fs \<times> (store_error + session_writer)" where
  "create fsys destination metadata lim unique =
     (if fsys destination \<noteq> None then (fsys, Inl (StInvalid ''fixture destination already exists''))
      else if \<not> known_session_schema (sm_schema_version metadata)
      then (fsys, Inl (StUnsupportedSchema (sm_schema_version metadata)))
      else if snd destination = [] \<or> \<not> utf8_valid (snd destination)
      then (fsys, Inl (StInvalid ''fixture path has no filename''))
      else let staging = staging_path destination unique
           in if fsys staging \<noteq> None then (fsys, Inl (StIo IoAlreadyExists))
              else (fsys(staging \<mapsto> \<lparr>fd_files = [(''flows.jsonl'', RegularFile [])], fd_blobs = Some []\<rparr>),
                    Inr \<lparr>sw_destination = destination, sw_staging = staging, sw_metadata = metadata,
                         sw_limits = lim, sw_flow_count = 0, sw_total_bytes = 0, sw_extensions = [],
                         sw_stream_events = stream_events_default, sw_stream_event_ids = [],
                         sw_stream_event_records = 0, sw_stream_event_object_bytes = 0,
                         sw_websocket = ws_accumulation_default\<rparr>))"

text \<open>\<^verbatim>\<open>fs::metadata(..).ok().map(|m| m.len())\<close> and \<^verbatim>\<open>create_new\<close> in the root of the fixture\<close>

definition node_len :: "fs_node option \<Rightarrow> usize" where
  "node_len node = (case open_read node of Inl _ \<Rightarrow> 0 | Inr content \<Rightarrow> length content)"

definition root_create_new :: "fixture_dir \<Rightarrow> string \<Rightarrow> bytes \<Rightarrow> io_error + fixture_dir" where
  "root_create_new d name content =
     (if name = ''blobs'' \<and> fd_blobs d \<noteq> None then Inl IoAlreadyExists
      else rbind (entry_create_new name (fd_files d)) (\<lambda>es.
        Inr (d\<lparr>fd_files := entry_append name content es\<rparr>)))"

definition write_extension_file ::
  "fixture_dir \<Rightarrow> extension_descriptor list \<Rightarrow> extension_descriptor \<Rightarrow> bytes
     \<Rightarrow> store_error + fixture_dir \<times> extension_descriptor list" where
  "write_extension_file d extensions e content =
     rbind (validate_extension_name (ext_name e)) (\<lambda>_.
     rbind (validate_extension_path (ext_path e)) (\<lambda>_.
     if ext_schema_version e = 0 then Inl (StInvalid ''extension schema version must be positive'')
     else if length extensions \<ge> MAX_EXTENSIONS then Inl (StInvalid ''extension count exceeds configured limit'')
     else if length content > MAX_EXTENSION_BYTES then Inl (StInvalid ''extension exceeds configured limit'')
     else if \<exists>old\<in>set extensions. ext_name old = ext_name e \<or> ext_path old = ext_path e
     then Inl (StInvalid ''duplicate extension name or path'')
     else if usize_sat_add (\<Sum>old\<leftarrow>extensions. node_len (file_node d (ext_path old))) (length content)
         > MAX_TOTAL_EXTENSION_BYTES
     then Inl (StInvalid ''aggregate extensions exceed configured limit'')
     else rbind (map_err StIo (root_create_new d (ext_path e) content)) (\<lambda>d'.
       Inr (d', extensions @ [e]))))"

definition write_extension ::
  "extension_descriptor \<Rightarrow> bytes \<Rightarrow> fixture_dir \<Rightarrow> session_writer
     \<Rightarrow> fixture_dir \<times> session_writer \<times> (store_error + unit)" where
  "write_extension e content d w =
     (case write_extension_file d (sw_extensions w) e content of
        Inl err \<Rightarrow> (d, w, Inl err)
      | Inr (d', es) \<Rightarrow>
          (d', w\<lparr>sw_extensions := es,
                 sw_metadata := (sw_metadata w)\<lparr>sm_schema_version := SESSION_SCHEMA_VERSION\<rparr>\<rparr>, Inr ()))"

definition append_stream_events ::
  "codec \<Rightarrow> flow_stream_events \<Rightarrow> session_writer \<Rightarrow> store_error + session_writer" where
  "append_stream_events C events w =
     rbind (map_err StStream (validate_stream_events
       \<lparr>ses_schema_version = STREAM_EVENTS_SCHEMA_VERSION, ses_flows = [events]\<rparr>)) (\<lambda>_.
     if fse_flow_id events \<in> set (sw_stream_event_ids w)
     then Inl (StInvalid ''duplicate stream event flow id'')
     else let records = usize_sat_add (length (fse_request events)) (length (fse_response events));
              next_records = usize_sat_add (sw_stream_event_records w) records
          in if next_records > MAX_STREAM_EVENTS_PER_SESSION
             then Inl (StInvalid ''aggregate stream event count exceeds configured limit'')
             else rbind (ok_or StJson (cd_flow_events_to C events)) (\<lambda>encoded.
                  rbind (ok_or StJson (cd_events_to C stream_events_default)) (\<lambda>empty.
                  let next_object_bytes = usize_sat_add
                        (usize_sat_add (sw_stream_event_object_bytes w) (length encoded))
                        (if ses_flows (sw_stream_events w) = [] then 0 else 1)
                  in if usize_sat_add (length empty - 2) next_object_bytes > MAX_STREAM_EVENTS_BYTES
                     then Inl (StInvalid ''stream event metadata exceeds configured limit'')
                     else Inr (w\<lparr>sw_stream_event_ids := fse_flow_id events # sw_stream_event_ids w,
                                 sw_stream_event_records := next_records,
                                 sw_stream_event_object_bytes := next_object_bytes,
                                 sw_stream_events := (sw_stream_events w)
                                   \<lparr>ses_flows := ses_flows (sw_stream_events w) @ [events]\<rparr>\<rparr>))))"

definition append_flow ::
  "codec \<Rightarrow> flow \<Rightarrow> fixture_dir \<Rightarrow> session_writer \<Rightarrow> fixture_dir \<times> session_writer \<times> (store_error + unit)" where
  "append_flow C fl d w =
     (let checked =
        (if sw_flow_count w \<ge> sl_max_flows (sw_limits w)
         then Inl (StInvalid ''flow count exceeds configured limit'')
         else rbind (map_err StFlow (flow_validate fl)) (\<lambda>_.
              rbind (validate_body_refs fl (sl_max_blob_bytes (sw_limits w))) (\<lambda>_.
              rbind (ok_or StJson (cd_flow_to C fl)) (\<lambda>encoded.
              if length encoded > unat (sl_max_line_bytes (sw_limits w))
              then Inl (StInvalid ''flow JSONL line exceeds configured limit'')
              else rbind (ok_or (StInvalid ''total body length overflow'')
                     (checked_add (sw_total_bytes w) (flow_body_bytes fl))) (\<lambda>next_total.
                if next_total > sl_max_total_bytes (sw_limits w)
                then Inl (StInvalid ''total body length exceeds configured limit'')
                else Inr (encoded, next_total))))))
      in case checked of
           Inl e \<Rightarrow> (d, w, Inl e)
         | Inr (encoded, next_total) \<Rightarrow>
             (d\<lparr>fd_files := entry_append ''flows.jsonl'' (encoded @ [newline]) (fd_files d)\<rparr>,
              w\<lparr>sw_flow_count := Suc (sw_flow_count w), sw_total_bytes := next_total\<rparr>, Inr ()))"

definition append_websocket_conversation ::
  "codec \<Rightarrow> ws_conversation \<Rightarrow> session_writer \<Rightarrow> store_error + session_writer" where
  "append_websocket_conversation C c w =
     rbind (accumulate_conversation C (sw_websocket w) c) (\<lambda>acc. Inr (w\<lparr>sw_websocket := acc\<rparr>))"

section \<open>Publishing\<close>

text \<open>The two aggregate extensions \<^verbatim>\<open>finish\<close> writes.\<close>

definition stream_extension :: extension_descriptor where
  "stream_extension = \<lparr>ext_name = ''stream-events'', ext_schema_version = STREAM_EVENTS_SCHEMA_VERSION,
     ext_path = ''stream-events.json'', ext_required = True\<rparr>"

definition websocket_extension :: extension_descriptor where
  "websocket_extension = \<lparr>ext_name = ''websocket-messages'', ext_schema_version = WEBSOCKET_SCHEMA_VERSION,
     ext_path = ''websockets.jsonl'', ext_required = True\<rparr>"

definition finish_stream_events ::
  "codec \<Rightarrow> fixture_dir \<Rightarrow> session_writer \<Rightarrow> fixture_dir \<times> session_writer \<times> (store_error + unit)" where
  "finish_stream_events C d w =
     (if ses_flows (sw_stream_events w) = [] then (d, w, Inr ())
      else case rbind (map_err StStream (validate_stream_events (sw_stream_events w))) (\<lambda>_.
                  ok_or StJson (cd_events_to C (sw_stream_events w))) of
             Inl e \<Rightarrow> (d, w, Inl e)
           | Inr encoded \<Rightarrow> write_extension stream_extension encoded d w)"

definition finish_websocket ::
  "codec \<Rightarrow> fixture_dir \<Rightarrow> session_writer \<Rightarrow> fixture_dir \<times> session_writer \<times> (store_error + unit)" where
  "finish_websocket C d w =
     (if wa_conversations (sw_websocket w) = [] then (d, w, Inr ())
      else case rbind (websocket_transcript C (sw_websocket w)) (\<lambda>transcript.
                  ok_or StJson (cd_transcript_to C transcript)) of
             Inl e \<Rightarrow> (d, w, Inl e)
           | Inr encoded \<Rightarrow> write_extension websocket_extension encoded d w)"

definition finish_manifest ::
  "codec \<Rightarrow> ext_lib \<Rightarrow> fixture_dir \<Rightarrow> session_writer \<Rightarrow> store_error + fixture_dir" where
  "finish_manifest C X d w =
     rbind (validate_websocket_fixture C X d (sw_extensions w)
              (sl_max_line_bytes (sw_limits w)) (sl_max_blob_bytes (sw_limits w))) (\<lambda>_.
     rbind (count_blobs d) (\<lambda>blobs.
     rbind (ok_or StJson (cd_manifest_to C
              \<lparr>mf_metadata = sw_metadata w, mf_complete = True, mf_flow_count = sw_flow_count w,
               mf_blob_count = blobs, mf_extensions = sw_extensions w\<rparr>)) (\<lambda>encoded.
     map_err StIo (root_create_new d ''manifest.json'' (encoded @ [newline])))))"

definition finish_staging ::
  "codec \<Rightarrow> ext_lib \<Rightarrow> fixture_dir \<Rightarrow> session_writer \<Rightarrow> fixture_dir \<times> (store_error + unit)" where
  "finish_staging C X d w =
     (case finish_stream_events C d w of
        (d1, w1, Inl e) \<Rightarrow> (d1, Inl e)
      | (d1, w1, Inr _) \<Rightarrow>
          (case finish_websocket C d1 w1 of
             (d2, w2, Inl e) \<Rightarrow> (d2, Inl e)
           | (d2, w2, Inr _) \<Rightarrow>
               (case finish_manifest C X d2 w2 of
                  Inl e \<Rightarrow> (d2, Inl e)
                | Inr d3 \<Rightarrow> (d3, Inr ()))))"

text \<open>
  The rename of the directory is the one step that makes the fixture visible. Another fixture that
  appeared at the destination in the meantime is not replaced.
\<close>

definition finish ::
  "codec \<Rightarrow> ext_lib \<Rightarrow> fs \<Rightarrow> session_writer \<Rightarrow> fs \<times> (store_error + session)" where
  "finish C X fsys w =
     (case fsys (sw_staging w) of
        None \<Rightarrow> (fsys, Inl (StIo IoNotFound))
      | Some d \<Rightarrow>
          (case finish_staging C X d w of
             (d', Inl e) \<Rightarrow> (fsys(sw_staging w \<mapsto> d'), Inl e)
           | (d', Inr _) \<Rightarrow>
               if fsys (sw_destination w) \<noteq> None
               then (fsys(sw_staging w \<mapsto> d'), Inl (StIo (IoOther ''directory not empty'')))
               else let fsys' = fsys(sw_staging w := None, sw_destination w \<mapsto> d')
                    in (fsys', open_session C X fsys' (sw_destination w) (sw_limits w))))"

section \<open>A recording, operation by operation\<close>

datatype writer_op =
    OpExtension extension_descriptor bytes
  | OpStreamEvents flow_stream_events
  | OpBody string "bytes list"
  | OpFlow flow
  | OpConversation ws_conversation

definition keep_dir :: "fixture_dir \<Rightarrow> session_writer \<Rightarrow> store_error + session_writer
    \<Rightarrow> fixture_dir \<times> session_writer \<times> (store_error + unit)" where
  "keep_dir d w r = (case r of Inl e \<Rightarrow> (d, w, Inl e) | Inr w' \<Rightarrow> (d, w', Inr ()))"

fun writer_step ::
  "codec \<Rightarrow> ext_lib \<Rightarrow> writer_op \<Rightarrow> fixture_dir \<Rightarrow> session_writer
     \<Rightarrow> fixture_dir \<times> session_writer \<times> (store_error + unit)" where
  "writer_step C X (OpExtension e content) d w = write_extension e content d w"
| "writer_step C X (OpStreamEvents events) d w = keep_dir d w (append_stream_events C events w)"
| "writer_step C X (OpBody unique bufs) d w =
     (case store_body X d (sw_limits w) unique bufs of
        (d', Inl e) \<Rightarrow> (d', w, Inl e) | (d', Inr _) \<Rightarrow> (d', w, Inr ()))"
| "writer_step C X (OpFlow fl) d w = append_flow C fl d w"
| "writer_step C X (OpConversation c) d w = keep_dir d w (append_websocket_conversation C c w)"

definition on_staging ::
  "(fixture_dir \<Rightarrow> session_writer \<Rightarrow> fixture_dir \<times> session_writer \<times> (store_error + unit))
     \<Rightarrow> fs \<Rightarrow> session_writer \<Rightarrow> fs \<times> session_writer \<times> (store_error + unit)" where
  "on_staging step fsys w =
     (case fsys (sw_staging w) of
        None \<Rightarrow> (fsys, w, Inl (StIo IoNotFound))
      | Some d \<Rightarrow> (case step d w of (d', w', r) \<Rightarrow> (fsys(sw_staging w \<mapsto> d'), w', r)))"

text \<open>A client goes on after an operation that failed; \<open>appended\<close> are the flows it was told are stored.\<close>

fun writer_run ::
  "codec \<Rightarrow> ext_lib \<Rightarrow> writer_op list \<Rightarrow> fs \<Rightarrow> session_writer \<Rightarrow> fs \<times> session_writer \<times> (store_error + unit) list" where
  "writer_run C X [] fsys w = (fsys, w, [])"
| "writer_run C X (op # ops) fsys w =
     (case on_staging (writer_step C X op) fsys w of
        (fsys1, w1, r) \<Rightarrow> (case writer_run C X ops fsys1 w1 of (fsys2, w2, rs) \<Rightarrow> (fsys2, w2, r # rs)))"

fun appended :: "writer_op list \<Rightarrow> (store_error + unit) list \<Rightarrow> flow list" where
  "appended (OpFlow fl # ops) (r # rs) = (if is_ok r then [fl] else []) @ appended ops rs"
| "appended (op # ops) (r # rs) = appended ops rs"
| "appended _ _ = []"

section \<open>What an operation leaves alone\<close>

lemma root_create_newD:
  assumes "root_create_new d name content = Inr d'"
  shows "file_node d name = None" and "file_node d' k = (if k = name then Some (RegularFile content) else file_node d k)"
    and "fd_blobs d' = fd_blobs d"
  using assms
  by (auto simp: root_create_new_def entry_create_new_def file_node_def dir_simps map_add_def rbind_Inr_iff
      if_Inl_eq_Inr split: option.splits)

lemma body_write_all_files: "body_write_all d w bufs = (d', w', r) \<Longrightarrow> fd_files d' = fd_files d"
proof (induction d w bufs rule: body_write_all.induct)
  case (2 d w buf bufs)
  obtain d1 w1 r1 where step: "body_write d w buf = (d1, w1, r1)" by (rule prod_cases3)
  then have "fd_files d1 = fd_files d" by (auto simp: body_write_def split: option.splits if_splits)
  with 2 step show ?case by (cases r1) auto
qed simp

lemma store_body_files: "store_body X d lim u bufs = (d', r) \<Longrightarrow> fd_files d' = fd_files d"
proof -
  assume run: "store_body X d lim u bufs = (d', r)"
  obtain d1 r1 where b: "begin_blob d lim u = (d1, r1)" by fastforce
  then have d1: "fd_files d1 = fd_files d" by (auto simp: begin_blob_def split: option.splits sum.splits)
  show ?thesis
  proof (cases r1)
    case (Inr w)
    obtain d2 w2 r2 where wr: "body_write_all d1 w bufs = (d2, w2, r2)" by (rule prod_cases3)
    show ?thesis
      using run b Inr wr d1 body_write_all_files [OF wr]
      by (cases r2) (auto simp: store_body_def body_drop_def remove_staging_def body_finish_def publish_blob_def
          Let_def split: if_splits)
  qed (use run b d1 in \<open>simp add: store_body_def\<close>)
qed

lemma write_extension_cases:
  assumes "write_extension e content d w = (d', w', r)"
  shows "(\<exists>err. r = Inl err \<and> d' = d \<and> w' = w)
    \<or> r = Inr () \<and> root_create_new d (ext_path e) content = Inr d'
       \<and> w' = w\<lparr>sw_extensions := sw_extensions w @ [e],
               sw_metadata := (sw_metadata w)\<lparr>sm_schema_version := SESSION_SCHEMA_VERSION\<rparr>\<rparr>"
proof (cases "write_extension_file d (sw_extensions w) e content")
  case (Inr p)
  then have "root_create_new d (ext_path e) content = Inr (fst p)" "snd p = sw_extensions w @ [e]"
    by (auto simp: write_extension_file_def rbind_Inr_iff if_Inl_eq_Inr map_err_Inr_iff)
  with Inr assms show ?thesis by (cases p) (auto simp: write_extension_def)
qed (use assms in \<open>auto simp: write_extension_def\<close>)

lemma writer_step_fixed:
  assumes "writer_step C X op d w = (d', w', r)"
  shows "sw_staging w' = sw_staging w \<and> sw_destination w' = sw_destination w \<and> sw_limits w' = sw_limits w"
proof (cases op)
  case (OpExtension e content)
  with assms show ?thesis by (auto dest: write_extension_cases)
next
  case (OpStreamEvents events)
  with assms show ?thesis
    by (cases "append_stream_events C events w")
      (auto simp: keep_dir_def append_stream_events_def rbind_Inr_iff if_Inl_eq_Inr Let_def)
next
  case (OpBody u bufs)
  with assms show ?thesis by (auto split: prod.splits sum.splits)
next
  case (OpFlow fl)
  with assms show ?thesis by (auto simp: append_flow_def Let_def split: sum.splits)
next
  case (OpConversation c)
  with assms show ?thesis
    by (cases "append_websocket_conversation C c w")
      (auto simp: keep_dir_def append_websocket_conversation_def rbind_Inr_iff)
qed

text \<open>
  A writer is confined to its staging directory. This is a contract of its own: whatever is built
  from such steps is confined too.
\<close>

locale confined =
  fixes home :: "'w \<Rightarrow> path"
    and step :: "'op \<Rightarrow> fs \<Rightarrow> 'w \<Rightarrow> fs \<times> 'w \<times> 'r"
  assumes same_home: "step op fsys w = (fsys', w', r) \<Longrightarrow> home w' = home w"
    and elsewhere: "step op fsys w = (fsys', w', r) \<Longrightarrow> p \<noteq> home w \<Longrightarrow> fsys' p = fsys p"
begin

lemma run_confined:
  assumes "foldl (\<lambda>(fsys, w) op. case step op fsys w of (fsys', w', r) \<Rightarrow> (fsys', w')) (fsys, w) ops = (fsys', w')"
  shows "home w' = home w \<and> (\<forall>p. p \<noteq> home w \<longrightarrow> fsys' p = fsys p)"
  using assms
proof (induction ops arbitrary: fsys w)
  case (Cons op ops)
  obtain fsys1 w1 r where one: "step op fsys w = (fsys1, w1, r)" by (rule prod_cases3)
  with Cons.prems have "foldl (\<lambda>(fsys, w) op. case step op fsys w of (fsys', w', r) \<Rightarrow> (fsys', w'))
      (fsys1, w1) ops = (fsys', w')" by simp
  from Cons.IH [OF this] show ?case using same_home [OF one] elsewhere [OF one] by auto
qed simp

end

interpretation writer_ops: confined sw_staging "\<lambda>op. on_staging (writer_step C X op)"
proof
  show "sw_staging w' = sw_staging w" if "on_staging (writer_step C X op) fsys w = (fsys', w', r)" for op fsys w fsys' w' r
    using that writer_step_fixed by (fastforce simp: on_staging_def split: option.splits prod.splits)
  show "fsys' p = fsys p" if "on_staging (writer_step C X op) fsys w = (fsys', w', r)" "p \<noteq> sw_staging w"
    for op fsys w fsys' w' r p
    using that by (auto simp: on_staging_def split: option.splits prod.splits)
qed

lemma writer_run_foldl:
  "writer_run C X ops fsys w = (fsys', w', rs) \<Longrightarrow>
     foldl (\<lambda>(fsys, w) op. case on_staging (writer_step C X op) fsys w of (fsys', w', r) \<Rightarrow> (fsys', w')) (fsys, w) ops
       = (fsys', w')"
  by (induction ops arbitrary: fsys w rs) (auto split: prod.splits)

lemma writer_run_confined:
  assumes "writer_run C X ops fsys w = (fsys', w', rs)"
  shows "sw_staging w' = sw_staging w" and "p \<noteq> sw_staging w \<Longrightarrow> fsys' p = fsys p"
  using writer_ops.run_confined [OF writer_run_foldl [OF assms]] by blast+

section \<open>What is staged\<close>

definition log_of :: "codec \<Rightarrow> flow list \<Rightarrow> bytes" where
  "log_of C flows = concat (map (\<lambda>fl. the (cd_flow_to C fl) @ [newline]) flows)"

definition appendable :: "codec \<Rightarrow> store_limits \<Rightarrow> flow \<Rightarrow> bool" where
  "appendable C lim fl \<longleftrightarrow>
     flow_validate fl = Inr ()
     \<and> (\<exists>encoded. cd_flow_to C fl = Some encoded \<and> length encoded \<le> unat (sl_max_line_bytes lim))"

definition staged :: "codec \<Rightarrow> flow list \<Rightarrow> fixture_dir \<Rightarrow> session_writer \<Rightarrow> bool" where
  "staged C flows d w \<longleftrightarrow>
     file_node d ''flows.jsonl'' = Some (RegularFile (log_of C flows))
     \<and> sw_flow_count w = length flows \<and> length flows \<le> sl_max_flows (sw_limits w)
     \<and> unat (sw_total_bytes w) = (\<Sum>fl\<leftarrow>flows. unat (flow_body_bytes fl))
     \<and> sw_total_bytes w \<le> sl_max_total_bytes (sw_limits w)
     \<and> (\<forall>fl\<in>set flows. appendable C (sw_limits w) fl)
     \<and> known_session_schema (sm_schema_version (sw_metadata w))"

lemma staged_extension:
  assumes "staged C flows d w" and "write_extension e content d w = (d', w', r)"
  shows "staged C flows d' w'"
  using write_extension_cases [OF assms(2)]
proof (elim disjE exE conjE)
  assume "root_create_new d (ext_path e) content = Inr d'"
    and w': "w' = w\<lparr>sw_extensions := sw_extensions w @ [e],
               sw_metadata := (sw_metadata w)\<lparr>sm_schema_version := SESSION_SCHEMA_VERSION\<rparr>\<rparr>"
  from root_create_newD [OF this(1)] assms(1) show ?thesis
    unfolding w' by (auto simp: staged_def known_session_schema_def SESSION_SCHEMA_VERSION_def SESSION_SCHEMA_V1_def)
qed (use assms in simp)

lemma staged_flow:
  assumes "staged C flows d w" and "append_flow C fl d w = (d', w', r)"
  shows "staged C (flows @ (if is_ok r then [fl] else [])) d' w'"
proof (cases r)
  case (Inr u)
  with assms(2) obtain encoded total where enc: "cd_flow_to C fl = Some encoded"
    and ok: "flow_validate fl = Inr ()" "length encoded \<le> unat (sl_max_line_bytes (sw_limits w))"
      "sw_flow_count w < sl_max_flows (sw_limits w)"
    and added: "checked_add (sw_total_bytes w) (flow_body_bytes fl) = Some total"
    and fits: "total \<le> sl_max_total_bytes (sw_limits w)"
    and d': "d' = d\<lparr>fd_files := entry_append ''flows.jsonl'' (encoded @ [newline]) (fd_files d)\<rparr>"
    and w': "w' = w\<lparr>sw_flow_count := Suc (sw_flow_count w), sw_total_bytes := total\<rparr>"
    by (auto simp: append_flow_def Let_def rbind_Inr_iff ok_or_Inr_iff map_err_Inr_iff if_Inl_eq_Inr
        not_less not_le simp del: checked_add_Some_iff split: sum.splits)
  from added have total: "unat total = unat (sw_total_bytes w) + unat (flow_body_bytes fl)"
    by (simp add: checked_add_Some_iff)
  have "file_node d' ''flows.jsonl'' = Some (RegularFile (log_of C (flows @ [fl])))"
    using assms(1) by (simp add: d' staged_def file_node_def dir_simps log_of_def enc)
  moreover have "sw_limits w' = sw_limits w" "sw_metadata w' = sw_metadata w" "sw_flow_count w' = Suc (sw_flow_count w)"
    "sw_total_bytes w' = total"
    by (simp_all add: w')
  ultimately show ?thesis
    using assms(1) ok enc total fits Inr by (auto simp: staged_def appendable_def)
qed (use assms in \<open>auto simp: append_flow_def Let_def split: sum.splits\<close>)

lemma staged_step:
  assumes "staged C flows d w" and "writer_step C X op d w = (d', w', r)"
  shows "staged C (flows @ appended [op] [r]) d' w'"
proof (cases op)
  case (OpExtension e content)
  with assms staged_extension show ?thesis by auto
next
  case (OpStreamEvents events)
  with assms show ?thesis
    by (cases "append_stream_events C events w")
      (auto simp: keep_dir_def append_stream_events_def rbind_Inr_iff if_Inl_eq_Inr Let_def staged_def)
next
  case (OpBody u bufs)
  with assms(2) have "fd_files d' = fd_files d \<and> w' = w"
    by (auto split: prod.splits sum.splits dest: store_body_files)
  with assms(1) OpBody show ?thesis by (simp add: staged_def file_node_def)
next
  case (OpFlow fl)
  with assms staged_flow show ?thesis by fastforce
next
  case (OpConversation c)
  with assms show ?thesis
    by (cases "append_websocket_conversation C c w")
      (auto simp: keep_dir_def append_websocket_conversation_def rbind_Inr_iff staged_def)
qed

lemma appended_Cons: "appended (op # ops) (r # rs) = appended [op] [r] @ appended ops rs"
  by (cases op) auto

lemma staged_run:
  assumes "fsys (sw_staging w) = Some d" and "staged C flows d w" and "writer_run C X ops fsys w = (fsys', w', rs)"
  obtains d' where "fsys' (sw_staging w) = Some d'" and "staged C (flows @ appended ops rs) d' w'"
    and "sw_destination w' = sw_destination w" and "sw_limits w' = sw_limits w"
  using assms
proof (induction ops arbitrary: fsys w d flows rs thesis)
  case (Cons op ops)
  obtain d1 w1 r where step: "writer_step C X op d w = (d1, w1, r)" by (rule prod_cases3)
  note fixed = writer_step_fixed [OF step]
  have on: "on_staging (writer_step C X op) fsys w = (fsys(sw_staging w \<mapsto> d1), w1, r)"
    by (simp add: on_staging_def Cons.prems(2) step)
  with Cons.prems(4) obtain rs2 where
    rest: "writer_run C X ops (fsys(sw_staging w \<mapsto> d1)) w1 = (fsys', w', rs2)" and rs: "rs = r # rs2"
    by (auto split: prod.splits)
  have here: "(fsys(sw_staging w \<mapsto> d1)) (sw_staging w1) = Some d1" using fixed by simp
  from Cons.IH [OF _ here staged_step [OF Cons.prems(3) step] rest] fixed show ?case
    using Cons.prems(1) unfolding rs by (metis append_assoc appended_Cons)
qed simp

section \<open>From the first operation to the published fixture\<close>

lemma staging_path_differs: "staging_path destination u \<noteq> destination"
  by (cases destination) (auto simp: staging_path_def dest: arg_cong [where f = length])

lemma create_ok:
  assumes "create fsys destination metadata lim u = (fsys', Inr w)"
  obtains d where "fsys' = fsys(staging_path destination u \<mapsto> d)" and "sw_staging w = staging_path destination u"
    and "sw_destination w = destination" and "sw_limits w = lim" and "fsys destination = None"
    and "staged C [] d w" and "sw_extensions w = []" and "sw_stream_events w = stream_events_default"
    and "sw_websocket w = ws_accumulation_default" and "sw_metadata w = metadata"
    and "d = \<lparr>fd_files = [(''flows.jsonl'', RegularFile [])], fd_blobs = Some []\<rparr>"
  using assms that [of "\<lparr>fd_files = [(''flows.jsonl'', RegularFile [])], fd_blobs = Some []\<rparr>"]
  by (auto simp: create_def Let_def staged_def log_of_def file_node_def split: if_splits)

lemma write_extension_fixed:
  "write_extension e content d w = (d', w', r) \<Longrightarrow> sw_limits w' = sw_limits w"
  by (auto dest: write_extension_cases)

lemma finish_staging_ok:
  assumes "finish_staging C X d w = (d', Inr ())" and "staged C flows d w"
  obtains d2 w2 where "staged C flows d2 w2" and "finish_manifest C X d2 w2 = Inr d'" and "sw_limits w2 = sw_limits w"
    and "ses_flows (sw_stream_events w) = [] \<Longrightarrow> wa_conversations (sw_websocket w) = [] \<Longrightarrow> d2 = d \<and> w2 = w"
proof -
  obtain d1 w1 r1 where one: "finish_stream_events C d w = (d1, w1, r1)" by (rule prod_cases3)
  obtain d2 w2 r2 where two: "finish_websocket C d1 w1 = (d2, w2, r2)" by (rule prod_cases3)
  from assms(1) one two have three: "finish_manifest C X d2 w2 = Inr d'"
    by (auto simp: finish_staging_def split: sum.splits)
  have "staged C flows d1 w1 \<and> sw_limits w1 = sw_limits w"
    using one assms(2)
    by (auto simp: finish_stream_events_def intro: staged_extension dest: write_extension_fixed split: if_splits sum.splits)
  moreover from this have "staged C flows d2 w2 \<and> sw_limits w2 = sw_limits w1"
    using two
    by (auto simp: finish_websocket_def intro: staged_extension dest: write_extension_fixed split: if_splits sum.splits)
  moreover have "d2 = d \<and> w2 = w" if "ses_flows (sw_stream_events w) = []" "wa_conversations (sw_websocket w) = []"
    using one two that by (auto simp: finish_stream_events_def finish_websocket_def)
  ultimately show ?thesis using that three by metis
qed

lemma finish_manifest_log:
  assumes "finish_manifest C X d w = Inr d'" and "staged C flows d w"
  shows "file_node d' ''flows.jsonl'' = Some (RegularFile (log_of C flows))" and "file_node d' ''manifest.json'' \<noteq> None"
proof -
  from assms(1) obtain content where "root_create_new d ''manifest.json'' content = Inr d'"
    by (auto simp: finish_manifest_def rbind_Inr_iff map_err_Inr_iff)
  from root_create_newD(2) [OF this] assms(2)
  show "file_node d' ''flows.jsonl'' = Some (RegularFile (log_of C flows))" "file_node d' ''manifest.json'' \<noteq> None"
    by (simp_all add: staged_def)
qed

text \<open>The codec reads a flow back from the line it was written to.\<close>

definition flow_coded :: "codec \<Rightarrow> flow \<Rightarrow> bool" where
  "flow_coded C fl \<longleftrightarrow>
     (\<forall>b. cd_flow_to C fl = Some b \<longrightarrow> newline \<notin> set b \<and> cd_flow_from C (b @ [newline]) = Some fl)"

lemma jsonl_lines_cut: "newline \<notin> set b \<Longrightarrow> jsonl_lines (b @ newline # s) = (b @ [newline]) # jsonl_lines s"
  by (induction b) auto

lemma jsonl_lines_log:
  assumes "\<forall>fl\<in>set flows. appendable C lim fl \<and> flow_coded C fl"
  shows "jsonl_lines (log_of C flows) = map (\<lambda>fl. the (cd_flow_to C fl) @ [newline]) flows"
  using assms
proof (induction flows)
  case (Cons fl flows)
  then obtain b where "cd_flow_to C fl = Some b" "newline \<notin> set b" by (auto simp: appendable_def flow_coded_def)
  with Cons show ?case using jsonl_lines_cut [of b] by (simp add: log_of_def)
qed (simp add: log_of_def)

lemma log_decodes:
  assumes "file_node d ''flows.jsonl'' = Some (RegularFile (log_of C flows))"
    and "\<forall>fl\<in>set flows. appendable C lim fl \<and> flow_coded C fl"
  shows "log_holds C d lim' flows' \<longleftrightarrow> flows' = flows \<and> length flows \<le> sl_max_flows lim'
    \<and> (\<forall>fl\<in>set flows. length (the (cd_flow_to C fl)) < unat (sl_max_line_bytes lim'))"
proof -
  have coded: "cd_flow_from C (the (cd_flow_to C fl) @ [newline]) = Some fl \<and> flow_validate fl = Inr ()"
    if "fl \<in> set flows" for fl
    using assms(2) that by (auto simp: appendable_def flow_coded_def)
  have "list_all2 (line_holds C lim') (map (\<lambda>fl. the (cd_flow_to C fl) @ [newline]) flows) flows' \<longleftrightarrow>
      flows' = flows \<and> (\<forall>fl\<in>set flows. length (the (cd_flow_to C fl)) < unat (sl_max_line_bytes lim'))"
    using coded
  proof (induction flows arbitrary: flows')
    case (Cons fl flows)
    then show ?case by (cases flows') (auto simp: line_holds_def)
  qed auto
  then show ?thesis
    by (auto simp: log_holds_def assms(1) jsonl_lines_log [OF assms(2)])
qed

text \<open>What a staging directory holds when it is finished without an error is what the session reads.\<close>

definition reads_flows :: "codec \<Rightarrow> ext_lib \<Rightarrow> store_limits \<Rightarrow> fixture_dir \<Rightarrow> flow list \<Rightarrow> bool" where
  "reads_flows C X lim d flows \<longleftrightarrow>
     iter_flows C d lim = Inr (map Inr flows) \<and> distinct (map fl_id flows)
     \<and> (\<forall>fl\<in>set flows. bodies_present X d lim fl
          \<and> length (the (cd_flow_to C fl)) < unat (sl_max_line_bytes lim))"

lemma staged_opens:
  assumes "open_session C X fsys root lim = Inr se" and "fsys root = Some d"
    and "file_node d ''flows.jsonl'' = Some (RegularFile (log_of C flows))"
    and "\<forall>fl\<in>set flows. appendable C lim fl \<and> flow_coded C fl"
  shows "reads_flows C X lim d flows \<and> mf_flow_count (se_manifest se) = length flows \<and> se_root se = root \<and> se_limits se = lim"
proof -
  from assms(1,2) obtain mf flows' where ok: "fixture_ok C X d lim mf flows'"
    and se: "se = \<lparr>se_root = root, se_manifest = mf, se_limits = lim\<rparr>"
    unfolding open_session_iff by auto
  from log_decodes [OF assms(3,4), of lim flows'] ok have "flows' = flows"
    and "\<forall>fl\<in>set flows. length (the (cd_flow_to C fl)) < unat (sl_max_line_bytes lim)"
    by (simp_all add: fixture_ok_def)
  with ok se show ?thesis by (auto simp: fixture_ok_def session_flows_ok_def iter_flows_iff reads_flows_def)
qed

lemma staged_finish:
  assumes "fsys (sw_staging w) = Some d" and "staged C flows d w" and "finish C X fsys w = (fsys', Inr se)"
    and "\<forall>fl\<in>set flows. flow_coded C fl"
  obtains d' where "fsys' = fsys(sw_staging w := None, sw_destination w \<mapsto> d')"
    and "reads_flows C X (sw_limits w) d' flows" and "mf_flow_count (se_manifest se) = length flows"
    and "se_root se = sw_destination w" and "se_limits se = sw_limits w"
proof -
  obtain d' r' where fin: "finish_staging C X d w = (d', r')" by fastforce
  with assms(1,3) have r': "r' = Inr ()"
    and open': "open_session C X fsys' (sw_destination w) (sw_limits w) = Inr se"
    and here: "fsys' = fsys(sw_staging w := None, sw_destination w \<mapsto> d')"
    by (auto simp: finish_def Let_def split: sum.splits if_splits)
  from finish_staging_ok [OF fin [unfolded r'] assms(2)] obtain d2 w2 where
    two: "staged C flows d2 w2" "finish_manifest C X d2 w2 = Inr d'" "sw_limits w2 = sw_limits w" by metis
  then have "\<forall>fl\<in>set flows. appendable C (sw_limits w) fl \<and> flow_coded C fl"
    using assms(4) by (auto simp: staged_def)
  from staged_opens [OF open' _ finish_manifest_log(1) [OF two(2,1)] this] here that show ?thesis by simp
qed

section \<open>Properties\<close>

text \<open>
  Property C8: Publication is atomic. Whatever is recorded, and whichever operations fail, nothing
  outside the staging directory changes while the session is written, and when it is finished
  either the destination still does not exist and the result is an error, or the staging directory
  has become the destination, manifest included, and the result is what opening it gives.
\<close>

theorem publication_is_atomic:
  assumes "create fsys destination metadata lim u = (fsys1, Inr w0)"
    and "writer_run C X ops fsys1 w0 = (fsys2, w, rs)" and "finish C X fsys2 w = (fsys3, result)"
  shows "(\<forall>p. p \<noteq> staging_path destination u \<longrightarrow> fsys2 p = fsys p)
    \<and> (\<forall>p. p \<notin> {destination, staging_path destination u} \<longrightarrow> fsys3 p = fsys p)
    \<and> (fsys3 destination = None \<and> \<not> is_ok result
       \<or> fsys3 (staging_path destination u) = None
         \<and> (\<exists>d. fsys3 destination = Some d \<and> file_node d ''manifest.json'' \<noteq> None)
         \<and> result = open_session C X fsys3 destination lim)"
proof -
  from create_ok [OF assms(1)] obtain d0 where
    fsys1: "fsys1 = fsys(staging_path destination u \<mapsto> d0)" and w0: "sw_staging w0 = staging_path destination u"
      "sw_destination w0 = destination" "sw_limits w0 = lim"
    and free: "fsys destination = None" and empty: "staged C [] d0 w0" by metis
  have "fsys1 (sw_staging w0) = Some d0" by (simp add: fsys1 w0)
  from staged_run [OF this empty assms(2)] obtain d where
    d: "fsys2 (sw_staging w0) = Some d" "staged C (appended ops rs) d w"
    and w: "sw_destination w = destination" "sw_limits w = lim"
    using w0 by (metis append_Nil)
  note run = writer_run_confined [OF assms(2)]
  have staging: "sw_staging w = staging_path destination u" using run(1) w0 by simp
  have outside: "fsys2 p = fsys p" if "p \<noteq> staging_path destination u" for p
    using run(2) [of p] that by (simp add: w0 fsys1)
  have none: "fsys2 destination = None"
    using outside [of destination] staging_path_differs [of destination u] free by auto
  obtain d' r' where fin: "finish_staging C X d w = (d', r')" by fastforce
  show ?thesis
  proof (cases r')
    case (Inl e)
    with assms(3) fin d(1) have "fsys3 = fsys2(staging_path destination u \<mapsto> d')" "result = Inl e"
      by (simp_all add: finish_def staging w0)
    then show ?thesis using outside none staging_path_differs [of destination u] by auto
  next
    case (Inr v)
    with fin have fin': "finish_staging C X d w = (d', Inr ())" by simp
    from finish_staging_ok [OF this d(2)] obtain d2 w2 where
      "staged C (appended ops rs) d2 w2" "finish_manifest C X d2 w2 = Inr d'" by metis
    from finish_manifest_log(2) [OF this(2,1)] have mf: "file_node d' ''manifest.json'' \<noteq> None" .
    have "fsys3 = fsys2(staging_path destination u := None, destination \<mapsto> d')"
      and "result = open_session C X fsys3 destination lim"
      using assms(3) fin' d(1) none by (auto simp: finish_def staging w0 w Let_def)
    then show ?thesis using outside mf staging_path_differs [of destination u] by auto
  qed
qed

text \<open>
  Property C6: What was recorded is what is replayed. When a session is published, the flows read
  from it are the appended flows, all of them, in order and equal, every body of theirs is there
  with the digest and length it names, and the manifest counts them. Every line is then shorter
  than the limit, so a flow whose line has just the length the limit allows, which is appended
  without an error, keeps the session from being finished.
\<close>

theorem published_session_reads_back:
  assumes "create fsys destination metadata lim u = (fsys1, Inr w0)"
    and "writer_run C X ops fsys1 w0 = (fsys2, w, rs)" and "finish C X fsys2 w = (fsys3, Inr se)"
    and "\<forall>fl\<in>set (appended ops rs). flow_coded C fl"
  shows "\<exists>d. fsys3 destination = Some d \<and> reads_flows C X lim d (appended ops rs)
    \<and> mf_flow_count (se_manifest se) = length (appended ops rs) \<and> se_root se = destination"
proof -
  from create_ok [OF assms(1), of C] obtain d0 where
    fsys1: "fsys1 = fsys(staging_path destination u \<mapsto> d0)" and w0: "sw_staging w0 = staging_path destination u"
      "sw_destination w0 = destination" "sw_limits w0 = lim"
    and empty: "staged C [] d0 w0" by metis
  have "fsys1 (sw_staging w0) = Some d0" by (simp add: fsys1 w0)
  from staged_run [OF this empty assms(2)] obtain d where
    d: "fsys2 (sw_staging w) = Some d" "staged C (appended ops rs) d w"
    and w: "sw_destination w = destination" "sw_limits w = lim"
    using w0 writer_run_confined(1) [OF assms(2)] by (metis append_Nil)
  from staged_finish [OF d assms(3,4)] show ?thesis using w by (metis fun_upd_same)
qed

section \<open>Sessions of bodies and flows\<close>

fun plain_op :: "writer_op \<Rightarrow> bool" where
  "plain_op (OpBody unique bufs) = True"
| "plain_op (OpFlow fl) = True"
| "plain_op _ = False"

definition plain_dir :: "session_metadata \<Rightarrow> fixture_dir \<Rightarrow> session_writer \<Rightarrow> bool" where
  "plain_dir md d w \<longleftrightarrow>
     map fst (fd_files d) = [''flows.jsonl''] \<and> sw_extensions w = [] \<and> ses_flows (sw_stream_events w) = []
     \<and> wa_conversations (sw_websocket w) = [] \<and> sw_metadata w = md"

lemma plain_step:
  assumes "plain_op op" and "plain_dir md d w" and "writer_step C X op d w = (d', w', r)"
  shows "plain_dir md d' w'"
proof (cases op)
  case (OpBody u bufs)
  with assms(3) have "fd_files d' = fd_files d \<and> w' = w"
    by (auto split: prod.splits sum.splits dest: store_body_files)
  with assms(2) show ?thesis by (simp add: plain_dir_def)
next
  case (OpFlow fl)
  with assms(2,3) show ?thesis
    by (auto simp: append_flow_def Let_def plain_dir_def keys_append split: sum.splits)
qed (use assms(1) in simp_all)

lemma plain_run:
  assumes "list_all plain_op ops" and "fsys (sw_staging w) = Some d" and "plain_dir md d w"
    and "writer_run C X ops fsys w = (fsys', w', rs)" and "fsys' (sw_staging w) = Some d'"
  shows "plain_dir md d' w'"
  using assms
proof (induction ops arbitrary: fsys w d rs)
  case (Cons op ops)
  obtain d1 w1 r where step: "writer_step C X op d w = (d1, w1, r)" by (rule prod_cases3)
  note fixed = writer_step_fixed [OF step]
  have "on_staging (writer_step C X op) fsys w = (fsys(sw_staging w \<mapsto> d1), w1, r)"
    by (simp add: on_staging_def Cons.prems(2) step)
  with Cons.prems(4) obtain rs2 where
    rest: "writer_run C X ops (fsys(sw_staging w \<mapsto> d1)) w1 = (fsys', w', rs2)"
    by (auto split: prod.splits)
  have "plain_dir md d1 w1" using plain_step [OF _ Cons.prems(3) step] Cons.prems(1) by simp
  from Cons.IH [OF _ _ this rest] Cons.prems fixed show ?case by simp
qed simp

definition manifest_coded :: "codec \<Rightarrow> manifest \<Rightarrow> bool" where
  "manifest_coded C m \<longleftrightarrow> (\<exists>b. cd_manifest_to C m = Some b \<and> cd_manifest_from C (b @ [newline]) = Some m)"

lemma root_create_new_ok:
  assumes "map fst (fd_files d) = [''flows.jsonl'']"
  shows "\<exists>d'. root_create_new d ''manifest.json'' content = Inr d'"
proof -
  have "map_of (fd_files d) ''manifest.json'' = None"
    using arg_cong [OF assms, of set] by (auto simp: map_of_eq_None_iff)
  then show ?thesis by (simp add: root_create_new_def entry_create_new_def)
qed

lemma same_blobs:
  assumes "fd_blobs d' = fd_blobs d"
  shows "count_blobs d' = count_blobs d" and "bodies_present X d' lim fl = bodies_present X d lim fl"
  using assms by (simp_all add: count_blobs_def bodies_present_def holds_blob_def blob_node_def blob_entries_def)

text \<open>
  A plain recording can always be published. When a session of bodies and flows (no
  extensions, no upgrades) has only flows whose bodies are stored and whose lines are shorter than
  the limit, finishing it makes it visible at the destination, and it is a session exactly when the
  flow identifiers are distinct: otherwise an unopenable fixture is left at the destination.
\<close>

theorem plain_session_publishes:
  assumes "create fsys destination metadata lim u = (fsys1, Inr w0)"
    and "list_all plain_op ops" and "writer_run C X ops fsys1 w0 = (fsys2, w, rs)"
    and "fsys2 (staging_path destination u) = Some d" and "count_blobs d = Inr blobs"
    and "flows = appended ops rs"
    and "\<forall>fl\<in>set flows. flow_coded C fl \<and> length (the (cd_flow_to C fl)) < unat (sl_max_line_bytes lim)
           \<and> bodies_present X d lim fl \<and> \<not> is_websocket_101 fl"
    and "manifest_coded C \<lparr>mf_metadata = metadata, mf_complete = True, mf_flow_count = length flows,
           mf_blob_count = blobs, mf_extensions = []\<rparr>"
  shows "fst (finish C X fsys2 w) destination \<noteq> None
    \<and> is_ok (snd (finish C X fsys2 w)) = distinct (map fl_id flows)"
proof -
  let ?mf = "\<lparr>mf_metadata = metadata, mf_complete = True, mf_flow_count = length flows,
           mf_blob_count = blobs, mf_extensions = []\<rparr>"
  from create_ok [OF assms(1), of C] obtain d0 where
    fsys1: "fsys1 = fsys(staging_path destination u \<mapsto> d0)" and w0: "sw_staging w0 = staging_path destination u"
      "sw_destination w0 = destination" "sw_limits w0 = lim"
    and st0: "staged C [] d0 w0" and free: "fsys destination = None"
    and fresh: "sw_extensions w0 = []" "sw_stream_events w0 = stream_events_default"
      "sw_websocket w0 = ws_accumulation_default" "sw_metadata w0 = metadata"
      "d0 = \<lparr>fd_files = [(''flows.jsonl'', RegularFile [])], fd_blobs = Some []\<rparr>" by metis
  then have "plain_dir metadata d0 w0"
    by (simp add: plain_dir_def stream_events_default_def ws_accumulation_default_def)
  note empty = st0 this
  have here: "fsys1 (sw_staging w0) = Some d0" by (simp add: fsys1 w0)
  from staged_run [OF here empty(1) assms(3)] have st: "staged C flows d w"
    and w: "sw_destination w = destination" "sw_limits w = lim"
    using assms(4,6) w0 by auto
  from plain_run [OF assms(2) here empty(2) assms(3)] have plain: "plain_dir metadata d w"
    using assms(4) w0 by simp
  note run = writer_run_confined [OF assms(3)]
  have staging: "sw_staging w = staging_path destination u" using run(1) w0 by simp
  have none: "fsys2 destination = None"
    using run(2) [of destination] staging_path_differs [of destination u] free by (auto simp: w0 fsys1)
  from assms(8) obtain b where b: "cd_manifest_to C ?mf = Some b" "cd_manifest_from C (b @ [newline]) = Some ?mf"
    by (auto simp: manifest_coded_def)
  from plain have "map fst (fd_files d) = [''flows.jsonl'']" by (simp add: plain_dir_def)
  from root_create_new_ok [OF this] obtain d' where
    new: "root_create_new d ''manifest.json'' (b @ [newline]) = Inr d'" by metis
  note d' = root_create_newD [OF new]
  have flows: "\<forall>fl\<in>set flows. appendable C lim fl \<and> flow_coded C fl"
    using st assms(7) by (auto simp: staged_def w)
  have logfile: "file_node d' ''flows.jsonl'' = Some (RegularFile (log_of C flows))"
    using st by (simp add: d'(2) staged_def)
  have log: "log_holds C d lim flows" "log_holds C d' lim flows' \<longleftrightarrow> flows' = flows" for flows'
    using log_decodes [OF _ flows, of d lim flows] log_decodes [OF logfile flows, of lim flows'] st assms(7)
    by (auto simp: staged_def w)
  have up: "upgraded flows = {}" using assms(7) by (auto simp: upgraded_def)
  have "finish_manifest C X d w = Inr d'"
    using plain assms(5) b(1) new st validate_websocket_fixture_iff [OF log(1), of X "[]" "sl_max_blob_bytes lim"] up
    by (simp add: finish_manifest_def plain_dir_def w staged_def conversations_match_def)
  then have fin: "finish_staging C X d w = (d', Inr ())"
    using plain by (simp add: finish_staging_def finish_stream_events_def finish_websocket_def plain_dir_def)
  let ?fsys3 = "fsys2(staging_path destination u := None, destination \<mapsto> d')"
  have result: "finish C X fsys2 w = (?fsys3, open_session C X ?fsys3 destination lim)"
    by (simp add: finish_def staging assms(4) fin w none Let_def)
  have "fixture_ok C X d' lim ?mf flows' \<longleftrightarrow> flows' = flows \<and> distinct (map fl_id flows)" for flows'
    using st assms(5,7) plain up
    by (auto simp: fixture_ok_def log(2) session_flows_ok_def same_blobs [OF d'(3)] conversations_match_def
        timelines_match_def extensions_ok_def staged_def w plain_dir_def word_le_nat_alt)
  moreover have "read_json (cd_manifest_from C) (file_node d' ''manifest.json'') = Inr ?mf"
    using b(2) by (simp add: read_json_def d'(2))
  ultimately have "is_ok (open_session C X ?fsys3 destination lim) = distinct (map fl_id flows)"
    by (auto simp: is_ok_iff open_session_iff)
  with result show ?thesis by simp
qed

section \<open>A demonstration session\<close>

definition demo_manifest :: "usize \<Rightarrow> manifest" where
  "demo_manifest n = \<lparr>mf_metadata = session_metadata_default ''0.1'', mf_complete = True, mf_flow_count = n,
     mf_blob_count = 1, mf_extensions = []\<rparr>"

definition demo_other :: flow where
  "demo_other = sample_flow\<lparr>fl_id := ''other''\<rparr>"

definition demo_codec :: codec where
  "demo_codec =
     \<lparr>cd_flow_to = (\<lambda>fl. if fl = sample_flow then Some ''F'' else if fl = demo_other then Some ''G'' else None),
      cd_flow_from = (\<lambda>b. if b = [CHR ''F'', newline] then Some sample_flow
        else if b = [CHR ''G'', newline] then Some demo_other else None),
      cd_manifest_to = (\<lambda>m. if m = demo_manifest 1 then Some ''M'' else if m = demo_manifest 2 then Some ''N''
        else if m = demo_manifest 0 then Some ''L'' else None),
      cd_manifest_from = (\<lambda>b. if b = [CHR ''M'', newline] then Some (demo_manifest 1)
        else if b = [CHR ''N'', newline] then Some (demo_manifest 2)
        else if b = [CHR ''L'', newline] then Some (demo_manifest 0) else None),
      cd_flow_events_to = (\<lambda>_. None), cd_events_to = (\<lambda>_. None), cd_events_from = (\<lambda>_. None),
      cd_conversation_to = (\<lambda>_. None), cd_transcript_to = (\<lambda>_. None), cd_transcript_from = (\<lambda>_. None),
      cd_rules_from = (\<lambda>_. None)\<rparr>"

definition demo_ops :: "writer_op list" where
  "demo_ops = [OpBody ''1'' [''ab''], OpFlow sample_flow]"

definition demo_staging :: fixture_dir where
  "demo_staging = \<lparr>fd_files = [(''flows.jsonl'', RegularFile [CHR ''F'', newline])],
     fd_blobs = Some [(demo_digest ''ab'', RegularFile ''ab'')]\<rparr>"

definition demo_writer :: "usize \<Rightarrow> session_writer" where
  "demo_writer n =
     \<lparr>sw_destination = (''out'', ''s''), sw_staging = (''out'', ''.s.incomplete-7''),
      sw_metadata = session_metadata_default ''0.1'', sw_limits = store_limits_default, sw_flow_count = n,
      sw_total_bytes = 0, sw_extensions = [], sw_stream_events = stream_events_default, sw_stream_event_ids = [],
      sw_stream_event_records = 0, sw_stream_event_object_bytes = 0, sw_websocket = ws_accumulation_default\<rparr>"

lemma demo_writer_sel:
  "sw_destination (demo_writer n) = (''out'', ''s'')" "sw_staging (demo_writer n) = (''out'', ''.s.incomplete-7'')"
  "sw_limits (demo_writer n) = store_limits_default"
  by (simp_all add: demo_writer_def)

lemma demo_create:
  "create Map.empty (''out'', ''s'') (session_metadata_default ''0.1'') store_limits_default ''7'' =
     ([(''out'', ''.s.incomplete-7'') \<mapsto> \<lparr>fd_files = [(''flows.jsonl'', RegularFile [])], fd_blobs = Some []\<rparr>],
      Inr (demo_writer 0))"
  by (simp add: create_def Let_def known_session_schema_def session_metadata_default_def SESSION_SCHEMA_V1_def
      SESSION_SCHEMA_VERSION_def staging_path_def demo_writer_def byte_in_def byte_val_def)

lemma demo_body:
  "store_body demo_lib \<lparr>fd_files = files, fd_blobs = Some []\<rparr> store_limits_default ''1'' [''ab'']
     = (\<lparr>fd_files = files, fd_blobs = Some [(demo_digest ''ab'', RegularFile ''ab'')]\<rparr>,
        Inr (BodyBlob \<lparr>blob_sha256 = demo_digest ''ab'', blob_length = 2\<rparr>))"
  by code_simp

lemma demo_append:
  "append_flow demo_codec sample_flow \<lparr>fd_files = [(''flows.jsonl'', RegularFile [])], fd_blobs = blobs\<rparr> (demo_writer 0)
     = (\<lparr>fd_files = [(''flows.jsonl'', RegularFile [CHR ''F'', newline])], fd_blobs = blobs\<rparr>, demo_writer (Suc 0), Inr ())"
  by code_simp

lemma demo_run:
  "writer_run demo_codec demo_lib demo_ops
     [(''out'', ''.s.incomplete-7'') \<mapsto> \<lparr>fd_files = [(''flows.jsonl'', RegularFile [])], fd_blobs = Some []\<rparr>]
     (demo_writer 0)
   = ([(''out'', ''.s.incomplete-7'') \<mapsto> demo_staging], demo_writer (Suc 0), [Inr (), Inr ()])"
  using demo_body [of "[(''flows.jsonl'', RegularFile [])]"] demo_append [of "fd_blobs demo_staging"]
  by (simp add: demo_ops_def on_staging_def demo_staging_def demo_writer_def)

definition demo_published :: fixture_dir where
  "demo_published = demo_staging\<lparr>fd_files := fd_files demo_staging @ [(''manifest.json'', RegularFile [CHR ''M'', newline])]\<rparr>"

lemma demo_finish_staging:
  "finish_staging demo_codec demo_lib demo_staging (demo_writer (Suc 0)) = (demo_published, Inr ())"
  by code_simp

lemma demo_open:
  "open_checks demo_codec demo_lib demo_published store_limits_default (demo_manifest 1) = Inr ()"
  by code_simp

lemma demo_finish:
  "finish demo_codec demo_lib [(''out'', ''.s.incomplete-7'') \<mapsto> demo_staging] (demo_writer (Suc 0)) =
     ([(''out'', ''s'') \<mapsto> demo_published],
      Inr \<lparr>se_root = (''out'', ''s''), se_manifest = demo_manifest (Suc 0), se_limits = store_limits_default\<rparr>)"
proof -
  have "read_json (cd_manifest_from demo_codec) (file_node demo_published ''manifest.json'') = Inr (demo_manifest (Suc 0))"
    by code_simp
  then show ?thesis
    using demo_finish_staging demo_open
    by (simp add: finish_def demo_writer_sel Let_def open_session_def)
qed

lemma demo_appended: "appended demo_ops [Inr (), Inr ()] = [sample_flow]"
  by (simp add: demo_ops_def)

lemma publication_is_atomic_witness:
  "\<exists>fsys3 result. finish demo_codec demo_lib [(''out'', ''.s.incomplete-7'') \<mapsto> demo_staging] (demo_writer (Suc 0))
       = (fsys3, result) \<and> fsys3 (''out'', ''.s.incomplete-7'') = None
     \<and> result = open_session demo_codec demo_lib fsys3 (''out'', ''s'') store_limits_default"
  using publication_is_atomic [OF demo_create demo_run demo_finish]
  by (auto simp: demo_finish is_ok_def staging_path_def)

lemma published_session_reads_back_witness:
  "iter_flows demo_codec demo_published store_limits_default = Inr [Inr sample_flow]
   \<and> bodies_present demo_lib demo_published store_limits_default sample_flow"
proof -
  have "\<forall>fl\<in>set (appended demo_ops [Inr (), Inr ()]). flow_coded demo_codec fl"
    by (simp add: demo_appended flow_coded_def demo_codec_def)
  from published_session_reads_back [OF demo_create demo_run demo_finish this]
  show ?thesis by (simp add: demo_appended reads_flows_def)
qed

lemma plain_session_publishes_witness:
  "is_ok (snd (finish demo_codec demo_lib [(''out'', ''.s.incomplete-7'') \<mapsto> demo_staging] (demo_writer (Suc 0))))"
proof -
  have ops: "list_all plain_op demo_ops" by (simp add: demo_ops_def)
  have blobs: "count_blobs demo_staging = Inr 1" by code_simp
  have "\<not> is_websocket_101 sample_flow" and "flow_bodies sample_flow = [BodyEmpty, BodyEmpty]" by code_simp+
  then have flows: "\<forall>fl\<in>set [sample_flow]. flow_coded demo_codec fl
      \<and> length (the (cd_flow_to demo_codec fl)) < unat (sl_max_line_bytes store_limits_default)
      \<and> bodies_present demo_lib demo_staging store_limits_default fl \<and> \<not> is_websocket_101 fl"
    by (simp add: flow_coded_def demo_codec_def bodies_present_def store_limits_default_def)
  have mf: "manifest_coded demo_codec \<lparr>mf_metadata = session_metadata_default ''0.1'', mf_complete = True,
        mf_flow_count = length [sample_flow], mf_blob_count = 1, mf_extensions = []\<rparr>"
    by (simp add: manifest_coded_def demo_codec_def demo_manifest_def)
  have here: "[(''out'', ''.s.incomplete-7'') \<mapsto> demo_staging] (staging_path (''out'', ''s'') ''7'') = Some demo_staging"
    by (simp add: staging_path_def)
  from plain_session_publishes [OF demo_create ops demo_run here blobs demo_appended [symmetric] flows mf,
      THEN conjunct2]
  show ?thesis by (rule iffD2) simp
qed

end
