(* ===== verification/Store_Copy.thy ===== *)
theory Store_Copy
  imports Store_Writer "HOL-Library.AList"
begin

text \<open>
  Copying a session and merging two, \<^verbatim>\<open>Session::copy_to\<close> and \<^verbatim>\<open>Session::merge_to\<close> of
  \<^verbatim>\<open>crates/eggreplay-store/src/lib.rs\<close>: a new fixture is written through a writer from what the
  sources read, blobs first.
\<close>

section \<open>Copying and merging\<close>

text \<open>
  One entry of a blob directory: it is read through the source session and written through the
  writer. \<open>uniq\<close> gives the names the writer's staging files get.
\<close>

definition copy_blob_entry ::
  "ext_lib \<Rightarrow> (nat \<Rightarrow> string) \<Rightarrow> fixture_dir \<Rightarrow> store_limits \<Rightarrow> store_limits
     \<Rightarrow> fixture_dir \<times> nat \<Rightarrow> string \<times> fs_node \<Rightarrow> store_error + fixture_dir \<times> nat" where
  "copy_blob_entry X uniq source source_lim lim st entry =
     (let (d, n) = st; (name, node) = entry
      in case node of
           RegularFile content \<Rightarrow>
             if name = ''.gitkeep'' \<and> content = [] then Inr (d, n)
             else if \<not> utf8_valid name then Inl (StInvalid ''blob name is not UTF-8'')
             else rbind (validate_digest name) (\<lambda>_.
                  rbind (map_err StFlow (blob_ref_new name (of_nat (length content)))) (\<lambda>reference.
                  rbind (open_blob source source_lim reference) (\<lambda>handle.
                  case store_body X d lim (uniq n) (read_chunks (bh_file handle)) of
                    (d', Inl e) \<Rightarrow> Inl e
                  | (d', Inr body) \<Rightarrow>
                      (case body of
                         BodyBlob copied \<Rightarrow>
                           if blob_sha256 copied = name then Inr (d', Suc n) else Inl (StIntegrity name)
                       | _ \<Rightarrow> Inl (StIntegrity name)))))
         | _ \<Rightarrow> Inl (StInvalid ''blob directory may contain only regular files''))"

definition copy_blob_namespace ::
  "ext_lib \<Rightarrow> (nat \<Rightarrow> string) \<Rightarrow> fixture_dir \<Rightarrow> store_limits \<Rightarrow> store_limits \<Rightarrow> fixture_dir \<times> nat
     \<Rightarrow> store_error + fixture_dir \<times> nat" where
  "copy_blob_namespace X uniq source source_lim lim st =
     (case fd_blobs source of
        None \<Rightarrow> Inl (StIo IoNotFound)
      | Some es \<Rightarrow> try_fold (copy_blob_entry X uniq source source_lim lim) st es)"

definition copy_flow ::
  "codec \<Rightarrow> fixture_dir \<times> session_writer \<Rightarrow> store_error + flow \<Rightarrow> store_error + fixture_dir \<times> session_writer" where
  "copy_flow C st item =
     rbind item (\<lambda>fl. case append_flow C fl (fst st) (snd st) of
       (d', w', Inl e) \<Rightarrow> Inl e | (d', w', Inr _) \<Rightarrow> Inr (d', w'))"

definition copy_extension ::
  "fixture_dir \<Rightarrow> manifest \<Rightarrow> fixture_dir \<times> session_writer \<Rightarrow> extension_descriptor
     \<Rightarrow> store_error + fixture_dir \<times> session_writer" where
  "copy_extension source mf st e =
     rbind (read_extension source mf (ext_name e)) (\<lambda>found.
     rbind (ok_or (StInvalid ''extension disappeared during copy'') found) (\<lambda>content.
     case write_extension e content (fst st) (snd st) of
       (d', w', Inl err) \<Rightarrow> Inl err | (d', w', Inr _) \<Rightarrow> Inr (d', w')))"

definition copy_into ::
  "codec \<Rightarrow> ext_lib \<Rightarrow> (nat \<Rightarrow> string) \<Rightarrow> fixture_dir \<Rightarrow> session \<Rightarrow> fixture_dir \<Rightarrow> session_writer
     \<Rightarrow> store_error + fixture_dir \<times> session_writer" where
  "copy_into C X uniq source self d w =
     rbind (copy_blob_namespace X uniq source (se_limits self) (sw_limits w) (d, 0)) (\<lambda>(d1, n).
     rbind (iter_flows C source (se_limits self)) (\<lambda>items.
     rbind (try_fold (copy_flow C) (d1, w) items) (\<lambda>st.
     try_fold (copy_extension source (se_manifest self)) st (mf_extensions (se_manifest self)))))"

text \<open>
  An operation that fails drops the writer; its staging directory stays behind, and what it holds by
  then is not modelled.
\<close>

definition copy_to ::
  "codec \<Rightarrow> ext_lib \<Rightarrow> (nat \<Rightarrow> string) \<Rightarrow> fs \<Rightarrow> session \<Rightarrow> path \<Rightarrow> u16 \<Rightarrow> string \<Rightarrow> fs \<times> (store_error + session)" where
  "copy_to C X uniq fsys self destination target_schema unique =
     (if \<not> known_session_schema target_schema then (fsys, Inl (StUnsupportedSchema target_schema))
      else if target_schema = 1 \<and> mf_extensions (se_manifest self) \<noteq> []
      then (fsys, Inl (StInvalid ''cannot downgrade a session with extensions''))
      else case create fsys destination
                  ((mf_metadata (se_manifest self))\<lparr>sm_schema_version := target_schema\<rparr>) (se_limits self) unique of
             (fsys1, Inl e) \<Rightarrow> (fsys1, Inl e)
           | (fsys1, Inr w) \<Rightarrow>
               (case (fsys1 (se_root self), fsys1 (sw_staging w)) of
                  (Some source, Some d) \<Rightarrow>
                    (case copy_into C X uniq source self d w of
                       Inl e \<Rightarrow> (fsys1, Inl e)
                     | Inr (d', w') \<Rightarrow> finish C X (fsys1(sw_staging w \<mapsto> d')) w')
                | _ \<Rightarrow> (fsys1, Inl (StIo IoNotFound))))"

section \<open>Merging\<close>

definition min_limits :: "store_limits \<Rightarrow> store_limits \<Rightarrow> store_limits" where
  "min_limits a b =
     \<lparr>sl_max_line_bytes = min (sl_max_line_bytes a) (sl_max_line_bytes b),
      sl_max_blob_bytes = min (sl_max_blob_bytes a) (sl_max_blob_bytes b),
      sl_max_flows = min (sl_max_flows a) (sl_max_flows b),
      sl_max_total_bytes = min (sl_max_total_bytes a) (sl_max_total_bytes b)\<rparr>"

text \<open>The extensions met so far, by name, with their bytes; a second one of a name must be the same, or add its streams.\<close>

type_synonym merged = "(string \<times> extension_descriptor \<times> bytes) list"

definition merge_extension :: "codec \<Rightarrow> merged \<Rightarrow> extension_descriptor \<Rightarrow> bytes \<Rightarrow> store_error + merged" where
  "merge_extension C merged e content =
     (case map_of merged (ext_name e) of
        None \<Rightarrow> Inr (merged @ [(ext_name e, e, content)])
      | Some (prior, prior_bytes) \<Rightarrow>
          if ext_name e = ''stream-events'' \<and> prior = e
          then rbind (ok_or StJson (cd_events_from C prior_bytes)) (\<lambda>combined.
               rbind (ok_or StJson (cd_events_from C content)) (\<lambda>more.
               if ses_schema_version combined \<noteq> ses_schema_version more
               then Inl (StInvalid ''conflicting stream-event schemas during merge'')
               else let combined = combined\<lparr>ses_flows := ses_flows combined @ ses_flows more\<rparr>
                    in rbind (map_err StStream (validate_stream_events combined)) (\<lambda>_.
                       rbind (ok_or StJson (cd_events_to C combined)) (\<lambda>encoded.
                       Inr (AList.update (ext_name e) (prior, encoded) merged)))))
          else if prior \<noteq> e \<or> prior_bytes \<noteq> content
          then Inl (StInvalid (''conflicting extension '' @ CHR 0x22 # ext_name e @ CHR 0x22 # '' during merge''))
          else Inr merged)"

definition merge_from ::
  "codec \<Rightarrow> fixture_dir \<Rightarrow> manifest \<Rightarrow> merged \<Rightarrow> extension_descriptor \<Rightarrow> store_error + merged" where
  "merge_from C source mf merged e =
     rbind (read_extension source mf (ext_name e)) (\<lambda>found.
     rbind (ok_or (StInvalid ''extension disappeared during merge'') found) (merge_extension C merged e))"

definition write_merged ::
  "fixture_dir \<times> session_writer \<Rightarrow> string \<times> extension_descriptor \<times> bytes
     \<Rightarrow> store_error + fixture_dir \<times> session_writer" where
  "write_merged st entry =
     (case write_extension (fst (snd entry)) (snd (snd entry)) (fst st) (snd st) of
        (d', w', Inl err) \<Rightarrow> Inl err | (d', w', Inr _) \<Rightarrow> Inr (d', w'))"

definition merge_into ::
  "codec \<Rightarrow> ext_lib \<Rightarrow> (nat \<Rightarrow> string) \<Rightarrow> fixture_dir \<times> session \<Rightarrow> fixture_dir \<times> session \<Rightarrow> fixture_dir
     \<Rightarrow> session_writer \<Rightarrow> store_error + fixture_dir \<times> session_writer" where
  "merge_into C X uniq one two d w =
     (let (source1, self) = one; (source2, additional) = two
      in rbind (copy_blob_namespace X uniq source1 (se_limits self) (sw_limits w) (d, 0)) (\<lambda>st1.
         rbind (copy_blob_namespace X uniq source2 (se_limits additional) (sw_limits w) st1) (\<lambda>(d2, n).
         rbind (iter_flows C source1 (se_limits self)) (\<lambda>items1.
         rbind (iter_flows C source2 (se_limits additional)) (\<lambda>items2.
         rbind (try_fold (copy_flow C) (d2, w) (items1 @ items2)) (\<lambda>st.
         rbind (try_fold (merge_from C source1 (se_manifest self)) [] (mf_extensions (se_manifest self))) (\<lambda>merged1.
         rbind (try_fold (merge_from C source2 (se_manifest additional)) merged1
                 (mf_extensions (se_manifest additional))) (\<lambda>merged.
         try_fold write_merged st (sort_key fst merged)))))))))"

definition merge_to ::
  "codec \<Rightarrow> ext_lib \<Rightarrow> (nat \<Rightarrow> string) \<Rightarrow> fs \<Rightarrow> session \<Rightarrow> session \<Rightarrow> path \<Rightarrow> u16 \<Rightarrow> string
     \<Rightarrow> fs \<times> (store_error + session)" where
  "merge_to C X uniq fsys self additional destination target_schema unique =
     (if \<not> known_session_schema target_schema then (fsys, Inl (StUnsupportedSchema target_schema))
      else case create fsys destination
                  ((mf_metadata (se_manifest self))\<lparr>sm_schema_version := target_schema\<rparr>)
                  (min_limits (se_limits self) (se_limits additional)) unique of
             (fsys1, Inl e) \<Rightarrow> (fsys1, Inl e)
           | (fsys1, Inr w) \<Rightarrow>
               (case (fsys1 (se_root self), fsys1 (se_root additional), fsys1 (sw_staging w)) of
                  (Some source1, Some source2, Some d) \<Rightarrow>
                    (case merge_into C X uniq (source1, self) (source2, additional) d w of
                       Inl e \<Rightarrow> (fsys1, Inl e)
                     | Inr (d', w') \<Rightarrow> finish C X (fsys1(sw_staging w \<mapsto> d')) w')
                | _ \<Rightarrow> (fsys1, Inl (StIo IoNotFound))))"

section \<open>What is copied\<close>

lemma copy_blob_entry_files:
  assumes "copy_blob_entry X uniq source slim lim (d, n) entry = Inr (d', n')"
  shows "fd_files d' = fd_files d"
proof (cases "snd entry")
  case (RegularFile content)
  show ?thesis
  proof (cases "fst entry = ''.gitkeep'' \<and> content = []")
    case False
    with assms RegularFile obtain handle :: blob_handle and name where
      stored: "(case store_body X d lim (uniq n) (read_chunks (bh_file handle)) of
          (d', Inl e) \<Rightarrow> Inl e
        | (d', Inr body) \<Rightarrow>
            (case body of
               BodyBlob copied \<Rightarrow> if blob_sha256 copied = name then Inr (d', Suc n) else Inl (StIntegrity name)
             | _ \<Rightarrow> Inl (StIntegrity name))) = Inr (d', n')"
      by (cases entry) (auto simp: copy_blob_entry_def Let_def rbind_Inr_iff if_Inl_eq_Inr)
    obtain d1 r where "store_body X d lim (uniq n) (read_chunks (bh_file handle)) = (d1, r)" by fastforce
    with stored store_body_files [OF this] show ?thesis by (auto split: sum.splits body_ref.splits if_splits)
  qed (use assms RegularFile in \<open>cases entry; simp add: copy_blob_entry_def\<close>)
qed (use assms in \<open>cases entry; simp add: copy_blob_entry_def\<close>)+

lemma copy_blobs_files:
  "try_fold (copy_blob_entry X uniq source slim lim) st es = Inr st' \<Longrightarrow> fd_files (fst st') = fd_files (fst st)"
proof (induction es arbitrary: st)
  case (Cons entry es)
  then obtain st1 where "copy_blob_entry X uniq source slim lim st entry = Inr st1"
    and "try_fold (copy_blob_entry X uniq source slim lim) st1 es = Inr st'" by (auto simp: rbind_Inr_iff)
  with Cons.IH [of st1] copy_blob_entry_files [of X uniq source slim lim "fst st" "snd st" entry "fst st1" "snd st1"]
  show ?case by simp
qed simp

lemma copy_namespace_staged:
  assumes "copy_blob_namespace X uniq source slim lim (d, n) = Inr (d', n')" and "staged C flows d w"
  shows "staged C flows d' w"
proof -
  from assms(1) have "fd_files d' = fd_files d"
    by (auto simp: copy_blob_namespace_def split: option.splits dest: copy_blobs_files)
  with assms(2) show ?thesis by (simp add: staged_def file_node_def)
qed

text \<open>A fold of operations on the staging directory that keeps the writer's paths and limits.\<close>

definition same_target :: "session_writer \<Rightarrow> session_writer \<Rightarrow> bool" where
  "same_target w w' \<longleftrightarrow>
     sw_staging w' = sw_staging w \<and> sw_destination w' = sw_destination w \<and> sw_limits w' = sw_limits w"

lemma written_Inr [res_simps]:
  "(case p of (d', w', Inl e) \<Rightarrow> Inl e | (d', w', Inr (_ :: unit)) \<Rightarrow> Inr (d', w')) = Inr st'
     \<longleftrightarrow> p = (fst st', snd st', Inr ())"
  by (cases p rule: prod_cases3; cases st'; cases "snd (snd p)") auto

lemma copy_flow_Inr:
  "copy_flow C st item = Inr st' \<longleftrightarrow>
     (\<exists>fl. item = Inr fl \<and> append_flow C fl (fst st) (snd st) = (fst st', snd st', Inr ()))"
  by (auto simp: copy_flow_def res_simps)

lemma copy_flows_staged:
  assumes "try_fold (copy_flow C) st items = Inr st'" and "staged C flows (fst st) (snd st)"
  shows "\<exists>more. items = map Inr more \<and> staged C (flows @ more) (fst st') (snd st') \<and> same_target (snd st) (snd st')"
  using assms
proof (induction items arbitrary: st flows)
  case (Cons item items)
  then obtain st1 where "copy_flow C st item = Inr st1" and rest: "try_fold (copy_flow C) st1 items = Inr st'"
    by (auto simp: rbind_Inr_iff)
  then obtain fl where fl: "item = Inr fl" "append_flow C fl (fst st) (snd st) = (fst st1, snd st1, Inr ())"
    by (auto simp: copy_flow_Inr)
  have "same_target (snd st) (snd st1)"
    using fl(2) writer_step_fixed [of C undefined "OpFlow fl"] by (fastforce simp: same_target_def)
  moreover have "staged C (flows @ [fl]) (fst st1) (snd st1)"
    using staged_flow [OF Cons.prems(2) fl(2)] by (simp add: is_ok_def)
  from Cons.IH [OF rest this] obtain more where "items = map Inr more"
    "staged C (flows @ fl # more) (fst st') (snd st')" "same_target (snd st1) (snd st')" by auto
  ultimately show ?case using fl(1) by (intro exI [of _ "fl # more"]) (simp add: same_target_def)
qed (simp add: same_target_def)

lemma fold_extensions_staged:
  assumes "try_fold step st xs = Inr st'" and "staged C flows (fst st) (snd st)"
    and "\<And>st x st'. step st x = Inr st' \<Longrightarrow>
           \<exists>e content. write_extension e content (fst st) (snd st) = (fst st', snd st', Inr ())"
  shows "staged C flows (fst st') (snd st') \<and> same_target (snd st) (snd st')"
  using assms(1,2)
proof (induction xs arbitrary: st)
  case (Cons x xs)
  then obtain st1 where one: "step st x = Inr st1" and rest: "try_fold step st1 xs = Inr st'" by (auto simp: rbind_Inr_iff)
  from assms(3) [OF one] obtain e content where
    wr: "write_extension e content (fst st) (snd st) = (fst st1, snd st1, Inr ())" by blast
  then have "same_target (snd st) (snd st1)" by (auto simp: same_target_def dest: write_extension_cases)
  moreover note Cons.IH [OF rest staged_extension [OF Cons.prems(2) wr]]
  ultimately show ?case by (simp add: same_target_def)
qed (simp add: same_target_def)

lemma copy_extension_writes:
  "copy_extension source mf st e = Inr st' \<Longrightarrow>
     \<exists>e content. write_extension e content (fst st) (snd st) = (fst st', snd st', Inr ())"
  by (auto simp: copy_extension_def res_simps)

lemma write_merged_writes:
  "write_merged st entry = Inr st' \<Longrightarrow>
     \<exists>e content. write_extension e content (fst st) (snd st) = (fst st', snd st', Inr ())"
  by (auto simp: write_merged_def res_simps)

lemma copy_into_staged:
  assumes "copy_into C X uniq source self d w = Inr (d', w')" and "staged C [] d w"
  shows "\<exists>flows. iter_flows C source (se_limits self) = Inr (map Inr flows) \<and> staged C flows d' w' \<and> same_target w w'"
proof -
  from assms(1) obtain d1 n items st where
    blobs: "copy_blob_namespace X uniq source (se_limits self) (sw_limits w) (d, 0) = Inr (d1, n)"
    and items: "iter_flows C source (se_limits self) = Inr items"
    and flows: "try_fold (copy_flow C) (d1, w) items = Inr st"
    and exts: "try_fold (copy_extension source (se_manifest self)) st (mf_extensions (se_manifest self)) = Inr (d', w')"
    by (auto simp: copy_into_def rbind_Inr_iff split: prod.splits)
  from copy_flows_staged [OF flows, of "[]"] copy_namespace_staged [OF blobs assms(2)] obtain more where
    more: "items = map Inr more" "staged C more (fst st) (snd st)" "same_target w (snd st)" by auto
  from fold_extensions_staged [OF exts more(2) copy_extension_writes] more(1,3) items
  show ?thesis by (auto simp: same_target_def)
qed

lemma merge_into_staged:
  assumes "merge_into C X uniq (source1, self) (source2, additional) d w = Inr (d', w')" and "staged C [] d w"
  shows "\<exists>flows1 flows2. iter_flows C source1 (se_limits self) = Inr (map Inr flows1)
    \<and> iter_flows C source2 (se_limits additional) = Inr (map Inr flows2)
    \<and> staged C (flows1 @ flows2) d' w' \<and> same_target w w'"
proof -
  from assms(1) obtain d1 n1 d2 n items1 items2 st merged where
    blobs: "copy_blob_namespace X uniq source1 (se_limits self) (sw_limits w) (d, 0) = Inr (d1, n1)"
      "copy_blob_namespace X uniq source2 (se_limits additional) (sw_limits w) (d1, n1) = Inr (d2, n)"
    and items: "iter_flows C source1 (se_limits self) = Inr items1"
      "iter_flows C source2 (se_limits additional) = Inr items2"
    and flows: "try_fold (copy_flow C) (d2, w) (items1 @ items2) = Inr st"
    and exts: "try_fold write_merged st merged = Inr (d', w')"
    by (auto simp: merge_into_def rbind_Inr_iff split: prod.splits)
  from copy_flows_staged [OF flows, of "[]"] copy_namespace_staged [OF blobs(2) copy_namespace_staged [OF blobs(1) assms(2)]]
  obtain more where
    more: "items1 @ items2 = map Inr more" "staged C more (fst st) (snd st)" "same_target w (snd st)" by auto
  from more(1) obtain flows1 flows2 where "more = flows1 @ flows2" "items1 = map Inr flows1" "items2 = map Inr flows2"
    by (auto simp: append_eq_map_conv)
  with fold_extensions_staged [OF exts more(2) write_merged_writes] more(2,3) items
  show ?thesis by (fastforce simp: same_target_def)
qed

section \<open>Properties\<close>

lemma create_free:
  "create fsys destination metadata lim u = (fsys', Inr w) \<Longrightarrow> fsys (staging_path destination u) = None"
  by (auto simp: create_def Let_def split: if_splits)

lemma copy_ends_in_finish:
  assumes "create fsys destination metadata lim unique = (fsys1, Inr w)" and "fsys1 (sw_staging w) = Some d"
    and "staged C flows d' w'" and "same_target w w'"
    and "finish C X (fsys1(sw_staging w \<mapsto> d')) w' = (fsys', Inr se)" and "\<forall>fl\<in>set flows. flow_coded C fl"
  shows "\<exists>d. fsys' destination = Some d \<and> reads_flows C X lim d flows
    \<and> (\<forall>p. p \<noteq> destination \<longrightarrow> fsys' p = fsys p)"
proof -
  from create_ok [OF assms(1), of C] obtain d0 where
    fsys1: "fsys1 = fsys(staging_path destination unique \<mapsto> d0)" "fsys (staging_path destination unique) = None"
    and w: "sw_staging w = staging_path destination unique" "sw_destination w = destination" "sw_limits w = lim"
    using create_free [OF assms(1)] by metis
  from assms(4) w have w': "sw_staging w' = staging_path destination unique" "sw_destination w' = destination"
    "sw_limits w' = lim" by (simp_all add: same_target_def)
  have "(fsys1(sw_staging w \<mapsto> d')) (sw_staging w') = Some d'" by (simp add: w w')
  from staged_finish [OF this assms(3,5,6)] obtain d2 where
    "fsys' = (fsys1(sw_staging w \<mapsto> d'))(sw_staging w' := None, sw_destination w' \<mapsto> d2)"
    "reads_flows C X (sw_limits w') d2 flows" by metis
  then show ?thesis by (auto simp: w w' fsys1)
qed

section \<open>A copy and a merge of the demonstration session\<close>

definition demo_session :: "string \<Rightarrow> usize \<Rightarrow> session" where
  "demo_session name n = \<lparr>se_root = (''out'', name), se_manifest = demo_manifest n, se_limits = store_limits_default\<rparr>"

definition demo_fixture :: "string \<Rightarrow> char \<Rightarrow> fixture_dir" where
  "demo_fixture log mf =
     \<lparr>fd_files = [(''flows.jsonl'', RegularFile log), (''manifest.json'', RegularFile [mf, newline])],
      fd_blobs = Some [(demo_digest ''ab'', RegularFile ''ab'')]\<rparr>"

abbreviation demo_one :: fixture_dir where "demo_one \<equiv> demo_fixture [CHR ''F'', newline] CHR ''M''"
abbreviation demo_two :: fixture_dir where "demo_two \<equiv> demo_fixture [CHR ''G'', newline] CHR ''M''"
abbreviation demo_both :: fixture_dir where
  "demo_both \<equiv> demo_fixture [CHR ''F'', newline, CHR ''G'', newline] CHR ''N''"

definition demo_fs :: fs where
  "demo_fs = [(''out'', ''s'') \<mapsto> demo_one, (''out'', ''t'') \<mapsto> demo_two]"

abbreviation demo_stage :: "bytes \<Rightarrow> fixture_dir" where
  "demo_stage log \<equiv> \<lparr>fd_files = [(''flows.jsonl'', RegularFile log)], fd_blobs = Some [(demo_digest ''ab'', RegularFile ''ab'')]\<rparr>"

definition demo_copier :: "usize \<Rightarrow> session_writer" where
  "demo_copier n = demo_writer n\<lparr>sw_destination := (''out'', ''c''), sw_staging := (''out'', ''.c.incomplete-7'')\<rparr>"

lemma demo_copier_sel:
  "sw_destination (demo_copier n) = (''out'', ''c'')" "sw_staging (demo_copier n) = (''out'', ''.c.incomplete-7'')"
  "sw_limits (demo_copier n) = store_limits_default"
  by (simp_all add: demo_copier_def demo_writer_def)

lemma demo_fs_sel [simp]:
  "demo_fs (''out'', ''s'') = Some demo_one" "demo_fs (''out'', ''t'') = Some demo_two" "demo_fs (''out'', ''c'') = None"
  "demo_fs (''out'', ''.c.incomplete-7'') = None"
  by (simp_all add: demo_fs_def)

lemma demo_copy_create:
  "create demo_fs (''out'', ''c'') (session_metadata_default ''0.1'') store_limits_default ''7'' =
     (demo_fs((''out'', ''.c.incomplete-7'') \<mapsto> \<lparr>fd_files = [(''flows.jsonl'', RegularFile [])], fd_blobs = Some []\<rparr>),
      Inr (demo_copier 0))"
  by (simp add: create_def Let_def known_session_schema_def session_metadata_default_def SESSION_SCHEMA_V1_def
      SESSION_SCHEMA_VERSION_def staging_path_def demo_copier_def demo_writer_def byte_in_def byte_val_def)

lemma demo_copy_into:
  "copy_into demo_codec demo_lib (\<lambda>n. ''c'') demo_one (demo_session ''s'' 1)
     \<lparr>fd_files = [(''flows.jsonl'', RegularFile [])], fd_blobs = Some []\<rparr> (demo_copier 0)
   = Inr (demo_stage [CHR ''F'', newline], demo_copier 1)"
  by code_simp

lemma demo_merge_into:
  "merge_into demo_codec demo_lib (\<lambda>n. ''c'') (demo_one, demo_session ''s'' 1) (demo_two, demo_session ''t'' 1)
     \<lparr>fd_files = [(''flows.jsonl'', RegularFile [])], fd_blobs = Some []\<rparr> (demo_copier 0)
   = Inr (demo_stage [CHR ''F'', newline, CHR ''G'', newline], demo_copier 2)"
  by code_simp

lemma demo_copy_finished:
  "finish_staging demo_codec demo_lib (demo_stage [CHR ''F'', newline]) (demo_copier 1) = (demo_one, Inr ())"
  "open_checks demo_codec demo_lib demo_one store_limits_default (demo_manifest 1) = Inr ()"
  "read_json (cd_manifest_from demo_codec) (file_node demo_one ''manifest.json'') = Inr (demo_manifest 1)"
  by code_simp+

lemma demo_merge_finished:
  "finish_staging demo_codec demo_lib (demo_stage [CHR ''F'', newline, CHR ''G'', newline]) (demo_copier 2) = (demo_both, Inr ())"
  "open_checks demo_codec demo_lib demo_both store_limits_default (demo_manifest 2) = Inr ()"
  "read_json (cd_manifest_from demo_codec) (file_node demo_both ''manifest.json'') = Inr (demo_manifest 2)"
  by code_simp+

lemma demo_finished:
  assumes "finish_staging demo_codec demo_lib (demo_stage log) (demo_copier n) = (d, Inr ())"
    and "open_checks demo_codec demo_lib d store_limits_default (demo_manifest n) = Inr ()"
    and "read_json (cd_manifest_from demo_codec) (file_node d ''manifest.json'') = Inr (demo_manifest n)"
  shows "finish demo_codec demo_lib (demo_fs((''out'', ''.c.incomplete-7'') \<mapsto> demo_stage log)) (demo_copier n)
    = (demo_fs((''out'', ''c'') \<mapsto> d), Inr (demo_session ''c'' n))"
  using assms
  by (simp add: finish_def demo_copier_sel Let_def open_session_def demo_session_def demo_fs_def fun_upd_def)
    (simp add: fun_eq_iff)

lemma min_limits_same: "min_limits lim lim = lim"
  by (simp add: min_limits_def)

lemma demo_metadata:
  "(mf_metadata (se_manifest (demo_session name n)))\<lparr>sm_schema_version := 1\<rparr> = session_metadata_default ''0.1''"
  "se_limits (demo_session name n) = store_limits_default" "se_root (demo_session name n) = (''out'', name)"
  "mf_extensions (se_manifest (demo_session name n)) = []"
  by (simp_all add: demo_session_def demo_manifest_def session_metadata_default_def SESSION_SCHEMA_V1_def)

lemma demo_copy:
  "copy_to demo_codec demo_lib (\<lambda>n. ''c'') demo_fs (demo_session ''s'' 1) (''out'', ''c'') 1 ''7''
     = (demo_fs((''out'', ''c'') \<mapsto> demo_one), Inr (demo_session ''c'' 1))"
  using demo_copy_into demo_finished [OF demo_copy_finished]
  by (simp add: copy_to_def demo_metadata demo_copy_create demo_copier_sel known_session_schema_def
      SESSION_SCHEMA_V1_def SESSION_SCHEMA_VERSION_def)

lemma demo_merge:
  "merge_to demo_codec demo_lib (\<lambda>n. ''c'') demo_fs (demo_session ''s'' 1) (demo_session ''t'' 1) (''out'', ''c'') 1 ''7''
     = (demo_fs((''out'', ''c'') \<mapsto> demo_both), Inr (demo_session ''c'' 2))"
  using demo_merge_into demo_finished [OF demo_merge_finished]
  by (simp add: merge_to_def demo_metadata demo_copy_create demo_copier_sel known_session_schema_def
      SESSION_SCHEMA_V1_def SESSION_SCHEMA_VERSION_def min_limits_same)

lemma demo_coded: "flow_coded demo_codec sample_flow" "flow_coded demo_codec demo_other"
  by (simp_all add: flow_coded_def demo_codec_def demo_other_def sample_flow_def flow_new_def)

lemma demo_flows:
  "iter_flows demo_codec demo_one store_limits_default = Inr [Inr sample_flow]"
  "iter_flows demo_codec demo_two store_limits_default = Inr [Inr demo_other]"
  by code_simp+

section \<open>Copies and merges\<close>

text \<open>
  A copy reads the same. A session copied under either schema version has the flows of
  its source, all of them and in order, with every body they name, and nothing but the destination
  has changed.
\<close>

theorem copied_session_reads_the_same:
  assumes "copy_to C X uniq fsys self destination schema unique = (fsys', Inr se)"
    and "fsys (se_root self) = Some source" and "se_root self \<noteq> staging_path destination unique"
    and "\<forall>items. iter_flows C source (se_limits self) = Inr items \<longrightarrow> (\<forall>fl. Inr fl \<in> set items \<longrightarrow> flow_coded C fl)"
  shows "\<exists>d flows. iter_flows C source (se_limits self) = Inr (map Inr flows)
    \<and> fsys' destination = Some d \<and> reads_flows C X (se_limits self) d flows
    \<and> (\<forall>p. p \<noteq> destination \<longrightarrow> fsys' p = fsys p)"
proof -
  from assms(1) obtain fsys1 w where
    cr: "create fsys destination ((mf_metadata (se_manifest self))\<lparr>sm_schema_version := schema\<rparr>)
           (se_limits self) unique = (fsys1, Inr w)"
    by (auto simp: copy_to_def split: if_splits prod.splits sum.splits)
  from create_ok [OF cr, of C] obtain d where
    here: "fsys1 = fsys(staging_path destination unique \<mapsto> d)" "sw_staging w = staging_path destination unique"
    and st: "staged C [] d w" by metis
  then have nodes: "fsys1 (se_root self) = Some source" "fsys1 (sw_staging w) = Some d" using assms(2,3) by simp_all
  with assms(1) cr obtain d' w' where into: "copy_into C X uniq source self d w = Inr (d', w')"
    and fin: "finish C X (fsys1(sw_staging w \<mapsto> d')) w' = (fsys', Inr se)"
    by (auto simp: copy_to_def split: if_splits sum.splits)
  from copy_into_staged [OF into st] obtain flows where
    flows: "iter_flows C source (se_limits self) = Inr (map Inr flows)" "staged C flows d' w'" "same_target w w'" by blast
  from assms(4) flows(1) have "\<forall>fl\<in>set flows. flow_coded C fl" by auto
  from copy_ends_in_finish [OF cr nodes(2) flows(2,3) fin this] flows(1) show ?thesis by blast
qed

lemma copied_session_reads_the_same_witness:
  "fst (copy_to demo_codec demo_lib (\<lambda>n. ''c'') demo_fs (demo_session ''s'' 1) (''out'', ''c'') 1 ''7'') (''out'', ''s'')
     = demo_fs (''out'', ''s'')"
proof -
  have "\<forall>items. iter_flows demo_codec demo_one (se_limits (demo_session ''s'' 1)) = Inr items \<longrightarrow>
      (\<forall>fl. Inr fl \<in> set items \<longrightarrow> flow_coded demo_codec fl)"
    using demo_flows demo_coded by (simp add: demo_metadata)
  from copied_session_reads_the_same [OF demo_copy _ _ this]
  show ?thesis using demo_copy by (auto simp: demo_metadata staging_path_def)
qed

text \<open>
  A merge reads both. Merging two sessions gives the flows of the first and then those
  of the second, each as it was recorded and within the smaller of the limits, and nothing but the
  destination has changed.
\<close>

theorem merged_session_reads_both:
  assumes "merge_to C X uniq fsys self additional destination schema unique = (fsys', Inr se)"
    and "fsys (se_root self) = Some source1" and "fsys (se_root additional) = Some source2"
    and "staging_path destination unique \<notin> {se_root self, se_root additional}"
    and "iter_flows C source1 (se_limits self) = Inr (map Inr flows1)"
    and "iter_flows C source2 (se_limits additional) = Inr (map Inr flows2)"
    and "\<forall>fl\<in>set (flows1 @ flows2). flow_coded C fl"
  shows "\<exists>d. fsys' destination = Some d
    \<and> reads_flows C X (min_limits (se_limits self) (se_limits additional)) d (flows1 @ flows2)
    \<and> (\<forall>p. p \<noteq> destination \<longrightarrow> fsys' p = fsys p)"
proof -
  from assms(1) obtain fsys1 w where
    cr: "create fsys destination ((mf_metadata (se_manifest self))\<lparr>sm_schema_version := schema\<rparr>)
           (min_limits (se_limits self) (se_limits additional)) unique = (fsys1, Inr w)"
    by (auto simp: merge_to_def split: if_splits prod.splits sum.splits)
  from create_ok [OF cr, of C] obtain d where
    here: "fsys1 = fsys(staging_path destination unique \<mapsto> d)" "sw_staging w = staging_path destination unique"
    and st: "staged C [] d w" by metis
  then have nodes: "fsys1 (se_root self) = Some source1" "fsys1 (se_root additional) = Some source2"
    "fsys1 (sw_staging w) = Some d" using assms(2-4) by auto
  with assms(1) cr obtain d' w' where
    into: "merge_into C X uniq (source1, self) (source2, additional) d w = Inr (d', w')"
    and fin: "finish C X (fsys1(sw_staging w \<mapsto> d')) w' = (fsys', Inr se)"
    by (auto simp: merge_to_def split: if_splits sum.splits)
  from merge_into_staged [OF into st] assms(5,6) have flows: "staged C (flows1 @ flows2) d' w'" "same_target w w'"
    by (auto simp: inj_map_eq_map)
  from copy_ends_in_finish [OF cr nodes(3) flows fin assms(7)] show ?thesis .
qed

lemma merged_session_reads_both_witness:
  "reads_flows demo_codec demo_lib store_limits_default demo_both [sample_flow, demo_other]"
proof -
  have roots: "demo_fs (se_root (demo_session ''s'' 1)) = Some demo_one" "demo_fs (se_root (demo_session ''t'' 1)) = Some demo_two"
    "staging_path (''out'', ''c'') ''7'' \<notin> {se_root (demo_session ''s'' 1), se_root (demo_session ''t'' 1)}"
    by (simp_all add: demo_metadata staging_path_def)
  have flows: "iter_flows demo_codec demo_one (se_limits (demo_session ''s'' 1)) = Inr (map Inr [sample_flow])"
    "iter_flows demo_codec demo_two (se_limits (demo_session ''t'' 1)) = Inr (map Inr [demo_other])"
    "\<forall>fl\<in>set ([sample_flow] @ [demo_other]). flow_coded demo_codec fl"
    using demo_flows demo_coded by (simp_all add: demo_metadata)
  from merged_session_reads_both [OF demo_merge roots flows]
  show ?thesis by (simp add: demo_metadata min_limits_same)
qed

end
