(* ===== verification/Store_Recording.thy ===== *)
theory Store_Recording
  imports Store_Writer
begin

text \<open>
  The concurrent recording session, \<^verbatim>\<open>RecordingSession\<close> of \<^verbatim>\<open>crates/eggreplay-store/src/lib.rs\<close>: the
  clones of a session share one staging directory and the state below, and the tasks that hold them
  interleave. A task is what is left to do of a call: between two accesses to shared state that no
  lock joins, any other task may run. A schedule is the list of these actions, so an interleaving is
  a run of the model.

  Locks are never poisoned here (no call panics while it holds one). A body is written and published
  with the functions of \<open>Store_Blobs\<close>: the two writers of the source share their code.
\<close>

section \<open>The shared state\<close>

text \<open>
  \<open>rc_flows\<close> tells whether the flow log is still open. A finalizer is known by its registration
  only.
\<close>

record recording =
  rc_destination :: path
  rc_staging :: path
  rc_metadata :: session_metadata
  rc_limits :: store_limits
  rc_flows :: bool
  rc_flow_count :: usize
  rc_total_bytes :: u64
  rc_active_blobs :: usize
  rc_shutdown :: bool
  rc_extensions :: "extension_descriptor list"
  rc_stream_events :: stream_events
  rc_stream_event_ids :: "string list"
  rc_stream_event_records :: usize
  rc_stream_event_object_bytes :: usize
  rc_websocket :: ws_accumulation
  rc_finalizers :: usize

definition recording_create ::
  "fs \<Rightarrow> path \<Rightarrow> session_metadata \<Rightarrow> store_limits \<Rightarrow> string \<Rightarrow> fs \<times> (store_error + recording)" where
  "recording_create fsys destination metadata lim unique =
     (if fsys destination \<noteq> None then (fsys, Inl (StInvalid ''fixture destination already exists''))
      else if \<not> known_session_schema (sm_schema_version metadata)
      then (fsys, Inl (StUnsupportedSchema (sm_schema_version metadata)))
      else if snd destination = [] \<or> \<not> utf8_valid (snd destination)
      then (fsys, Inl (StInvalid ''fixture path has no filename''))
      else let staging = staging_path destination unique
           in if fsys staging \<noteq> None then (fsys, Inl (StIo IoAlreadyExists))
              else (fsys(staging \<mapsto> \<lparr>fd_files = [(''flows.jsonl'', RegularFile [])], fd_blobs = Some []\<rparr>),
                    Inr \<lparr>rc_destination = destination, rc_staging = staging, rc_metadata = metadata,
                         rc_limits = lim, rc_flows = True, rc_flow_count = 0, rc_total_bytes = 0,
                         rc_active_blobs = 0, rc_shutdown = False, rc_extensions = [],
                         rc_stream_events = stream_events_default, rc_stream_event_ids = [],
                         rc_stream_event_records = 0, rc_stream_event_object_bytes = 0,
                         rc_websocket = ws_accumulation_default, rc_finalizers = 0\<rparr>))"

section \<open>Critical sections\<close>

abbreviation shutting_down :: store_error where
  "shutting_down \<equiv> StInvalid ''session is shutting down''"

text \<open>What \<^verbatim>\<open>append_flow\<close> does before it takes the lock of the flow log, and what it does under it.\<close>

definition flow_admission :: "codec \<Rightarrow> recording \<Rightarrow> flow \<Rightarrow> store_error + bytes" where
  "flow_admission C r fl =
     (if rc_shutdown r then Inl shutting_down
      else rbind (map_err StFlow (flow_validate fl)) (\<lambda>_.
           rbind (validate_body_refs fl (sl_max_blob_bytes (rc_limits r))) (\<lambda>_.
           rbind (ok_or StJson (cd_flow_to C fl)) (\<lambda>encoded.
           if length encoded > unat (sl_max_line_bytes (rc_limits r))
           then Inl (StInvalid ''flow JSONL line exceeds configured limit'') else Inr encoded))))"

definition append_flow_locked ::
  "flow \<Rightarrow> bytes \<Rightarrow> fixture_dir \<Rightarrow> recording \<Rightarrow> fixture_dir \<times> recording \<times> (store_error + unit)" where
  "append_flow_locked fl encoded d r =
     (if \<not> rc_flows r then (d, r, Inl (StInvalid ''session is finalizing''))
      else if rc_flow_count r \<ge> sl_max_flows (rc_limits r)
      then (d, r, Inl (StInvalid ''flow count exceeds configured limit''))
      else case checked_add (rc_total_bytes r) (flow_body_bytes fl) of
             None \<Rightarrow> (d, r, Inl (StInvalid ''total body length overflow''))
           | Some next_total \<Rightarrow>
               if next_total > sl_max_total_bytes (rc_limits r)
               then (d, r, Inl (StInvalid ''total body length exceeds configured limit''))
               else (d\<lparr>fd_files := entry_append ''flows.jsonl'' (encoded @ [newline]) (fd_files d)\<rparr>,
                     r\<lparr>rc_flow_count := Suc (rc_flow_count r),
                       rc_total_bytes := rc_total_bytes r + flow_body_bytes fl\<rparr>, Inr ()))"

definition write_extension_locked ::
  "extension_descriptor \<Rightarrow> bytes \<Rightarrow> fixture_dir \<Rightarrow> recording \<Rightarrow> fixture_dir \<times> recording \<times> (store_error + unit)" where
  "write_extension_locked e content d r =
     (if rc_shutdown r then (d, r, Inl shutting_down)
      else case write_extension_file d (rc_extensions r) e content of
             Inl err \<Rightarrow> (d, r, Inl err)
           | Inr (d', es) \<Rightarrow> (d', r\<lparr>rc_extensions := es\<rparr>, Inr ()))"

definition append_events_locked ::
  "codec \<Rightarrow> flow_stream_events \<Rightarrow> recording \<Rightarrow> store_error + recording" where
  "append_events_locked C events r =
     (if rc_shutdown r then Inl shutting_down
      else rbind (map_err StStream (validate_stream_events
       \<lparr>ses_schema_version = STREAM_EVENTS_SCHEMA_VERSION, ses_flows = [events]\<rparr>)) (\<lambda>_.
     if fse_flow_id events \<in> set (rc_stream_event_ids r)
     then Inl (StInvalid ''duplicate stream event flow id'')
     else if length (ses_flows (rc_stream_events r)) \<ge> MAX_STREAM_EVENTS_PER_SESSION
     then Inl (StInvalid ''stream event flow count exceeds configured limit'')
     else let records = usize_sat_add (length (fse_request events)) (length (fse_response events));
              next_records = usize_sat_add (rc_stream_event_records r) records
          in if next_records > MAX_STREAM_EVENTS_PER_SESSION
             then Inl (StInvalid ''aggregate stream event count exceeds configured limit'')
             else rbind (ok_or StJson (cd_flow_events_to C events)) (\<lambda>encoded.
                  let next_object_bytes = usize_sat_add
                        (usize_sat_add (rc_stream_event_object_bytes r) (length encoded))
                        (if ses_flows (rc_stream_events r) = [] then 0 else 1)
                  in rbind (ok_or StJson (cd_events_to C stream_events_default)) (\<lambda>base.
                     if usize_sat_add (length base - 2) next_object_bytes > MAX_STREAM_EVENTS_BYTES
                     then Inl (StInvalid ''stream event metadata exceeds configured limit'')
                     else Inr (r\<lparr>rc_stream_event_ids := fse_flow_id events # rc_stream_event_ids r,
                                 rc_stream_event_records := next_records,
                                 rc_stream_event_object_bytes := next_object_bytes,
                                 rc_stream_events := (rc_stream_events r)
                                   \<lparr>ses_flows := ses_flows (rc_stream_events r) @ [events]\<rparr>\<rparr>)))))"

definition append_conversation_locked ::
  "codec \<Rightarrow> ws_conversation \<Rightarrow> recording \<Rightarrow> store_error + recording" where
  "append_conversation_locked C c r =
     (if rc_shutdown r then Inl shutting_down
      else rbind (accumulate_conversation C (rc_websocket r) c) (\<lambda>acc. Inr (r\<lparr>rc_websocket := acc\<rparr>)))"

definition register_finalizer_locked :: "recording \<Rightarrow> store_error + recording" where
  "register_finalizer_locked r =
     (if rc_shutdown r
      then Inl (StInvalid ''cannot register conversation finalizer after shutdown'')
      else Inr (r\<lparr>rc_finalizers := Suc (rc_finalizers r)\<rparr>))"

text \<open>\<^verbatim>\<open>RecordingBodyWriter::finish\<close> up to the release of its reservation: a failed publication removes the staging file.\<close>

definition recording_body_finish ::
  "ext_lib \<Rightarrow> fixture_dir \<Rightarrow> body_writer \<Rightarrow> fixture_dir \<times> (store_error + body_ref)" where
  "recording_body_finish X d w =
     (if bw_length w = 0 then (remove_staging d (bw_path w), Inr BodyEmpty)
      else case publish_blob X d w of
             (d', Inl e) \<Rightarrow> (remove_staging d' (bw_path w), Inl e)
           | (d', Inr body) \<Rightarrow> (d', Inr body))"

section \<open>Finishing\<close>

definition recording_events_extension ::
  "codec \<Rightarrow> fixture_dir \<Rightarrow> recording \<Rightarrow> store_error + fixture_dir \<times> recording" where
  "recording_events_extension C d r =
     (if ses_flows (rc_stream_events r) = [] then Inr (d, r)
      else rbind (map_err StStream (validate_stream_events (rc_stream_events r))) (\<lambda>_.
           rbind (ok_or StJson (cd_events_to C (rc_stream_events r))) (\<lambda>encoded.
           if length encoded > MAX_STREAM_EVENTS_BYTES
           then Inl (StInvalid ''stream event metadata exceeds configured limit'')
           else rbind (write_extension_file d (rc_extensions r) stream_extension encoded) (\<lambda>(d', es).
             Inr (d', r\<lparr>rc_extensions := es\<rparr>)))))"

definition recording_websocket_extension ::
  "codec \<Rightarrow> fixture_dir \<Rightarrow> recording \<Rightarrow> store_error + fixture_dir \<times> recording" where
  "recording_websocket_extension C d r =
     (if wa_conversations (rc_websocket r) = [] then Inr (d, r)
      else rbind (websocket_transcript C (rc_websocket r)) (\<lambda>transcript.
           rbind (ok_or StJson (cd_transcript_to C transcript)) (\<lambda>encoded.
           rbind (write_extension_file d (rc_extensions r) websocket_extension encoded) (\<lambda>(d', es).
             Inr (d', r\<lparr>rc_extensions := es\<rparr>)))))"

definition recording_metadata :: "recording \<Rightarrow> session_metadata" where
  "recording_metadata r =
     (if rc_extensions r = [] then rc_metadata r
      else (rc_metadata r)\<lparr>sm_schema_version := SESSION_SCHEMA_VERSION\<rparr>)"

definition recording_manifest :: "codec \<Rightarrow> usize \<Rightarrow> fixture_dir \<Rightarrow> recording \<Rightarrow> store_error + fixture_dir" where
  "recording_manifest C flow_count d r =
     rbind (count_blobs d) (\<lambda>blobs.
     rbind (ok_or StJson (cd_manifest_to C
              \<lparr>mf_metadata = recording_metadata r, mf_complete = True, mf_flow_count = flow_count,
               mf_blob_count = blobs, mf_extensions = rc_extensions r\<rparr>)) (\<lambda>encoded.
     map_err StIo (root_create_new d ''manifest.json'' (encoded @ [newline]))))"

text \<open>
  The stages of \<^verbatim>\<open>finish\<close>: what the call does next. \<open>FsDriving n\<close> waits for the finalizers it has
  taken; the flow count is loaded once the log is closed.
\<close>

datatype finish_stage =
    FsRequested
  | FsTaking
  | FsDriving nat
  | FsCounting
  | FsEvents usize
  | FsWebsocket usize
  | FsChecking usize
  | FsManifest usize
  | FsRename
  | FsDone "store_error + session"

datatype task =
    TFlow flow bytes
  | TExtension extension_descriptor bytes
  | TEvents flow_stream_events
  | TConversation ws_conversation
  | TFinalizer
  | TBlobAdmitted string
  | TBlobCreated body_writer
  | TBlob body_writer
  | TRelease
  | TFinish finish_stage
  | TDone "store_error + unit"

text \<open>\<open>wd_logged\<close> are the flows whose appending has returned without an error, in the order of the lock.\<close>

record world =
  wd_dir :: fixture_dir
  wd_rec :: recording
  wd_tasks :: "task list"
  wd_logged :: "flow list"
  wd_published :: "fixture_dir option"

definition finish_step ::
  "codec \<Rightarrow> ext_lib \<Rightarrow> finish_stage \<Rightarrow> fixture_dir \<Rightarrow> recording
     \<Rightarrow> fixture_dir \<times> recording \<times> finish_stage" where
  "finish_step C X stage d r =
     (case stage of
        FsRequested \<Rightarrow>
          if rc_active_blobs r \<noteq> 0
          then (d, r, FsDone (Inl (StInvalid ''cannot finalize with active transactions'')))
          else (d, r, FsTaking)
      | FsTaking \<Rightarrow> (d, r\<lparr>rc_finalizers := 0\<rparr>, FsDriving (rc_finalizers r))
      | FsDriving (Suc n) \<Rightarrow> (d, r, FsDriving n)
      | FsDriving 0 \<Rightarrow>
          if \<not> rc_flows r then (d, r, FsDone (Inl (StInvalid ''session is already finalizing'')))
          else (d, r\<lparr>rc_flows := False\<rparr>, FsCounting)
      | FsCounting \<Rightarrow> (d, r, FsEvents (rc_flow_count r))
      | FsEvents n \<Rightarrow>
          (case recording_events_extension C d r of
             Inl e \<Rightarrow> (d, r, FsDone (Inl e)) | Inr (d', r') \<Rightarrow> (d', r', FsWebsocket n))
      | FsWebsocket n \<Rightarrow>
          (case recording_websocket_extension C d r of
             Inl e \<Rightarrow> (d, r, FsDone (Inl e)) | Inr (d', r') \<Rightarrow> (d', r', FsChecking n))
      | FsChecking n \<Rightarrow>
          (case validate_websocket_fixture C X d (rc_extensions r)
                  (sl_max_line_bytes (rc_limits r)) (sl_max_blob_bytes (rc_limits r)) of
             Inl e \<Rightarrow> (d, r, FsDone (Inl e)) | Inr _ \<Rightarrow> (d, r, FsManifest n))
      | FsManifest n \<Rightarrow>
          (case recording_manifest C n d r of
             Inl e \<Rightarrow> (d, r, FsDone (Inl e)) | Inr d' \<Rightarrow> (d', r, FsRename))
      | FsRename \<Rightarrow> (d, r, FsDone (open_session C X [rc_destination r \<mapsto> d] (rc_destination r) (rc_limits r)))
      | FsDone result \<Rightarrow> (d, r, FsDone result))"

section \<open>Schedules\<close>

datatype action =
    ShutDown
  | StartFlow flow
  | StartExtension extension_descriptor bytes
  | StartEvents flow_stream_events
  | StartConversation ws_conversation
  | StartFinalizer
  | StartBlob string
  | StartFinish
  | WriteBody nat bytes
  | FinishBody nat
  | AbortBody nat
  | Run nat

definition spawn :: "task \<Rightarrow> world \<Rightarrow> world" where
  "spawn t s = s\<lparr>wd_tasks := wd_tasks s @ [t]\<rparr>"

definition become :: "nat \<Rightarrow> task \<Rightarrow> world \<Rightarrow> world" where
  "become i t s = s\<lparr>wd_tasks := (wd_tasks s)[i := t]\<rparr>"

definition admit :: "store_error \<Rightarrow> task \<Rightarrow> world \<Rightarrow> world" where
  "admit e t s = spawn (if rc_shutdown (wd_rec s) then TDone (Inl e) else t) s"

text \<open>A call that only changes the state under its lock.\<close>

definition locked :: "nat \<Rightarrow> store_error + recording \<Rightarrow> world \<Rightarrow> world" where
  "locked i result s =
     (case result of
        Inl e \<Rightarrow> become i (TDone (Inl e)) s
      | Inr r \<Rightarrow> become i (TDone (Inr ())) (s\<lparr>wd_rec := r\<rparr>))"

definition locked_dir :: "nat \<Rightarrow> fixture_dir \<times> recording \<times> (store_error + unit) \<Rightarrow> world \<Rightarrow> world" where
  "locked_dir i result s = (case result of (d, r, res) \<Rightarrow> become i (TDone res) (s\<lparr>wd_dir := d, wd_rec := r\<rparr>))"

definition run_task :: "codec \<Rightarrow> ext_lib \<Rightarrow> nat \<Rightarrow> task \<Rightarrow> world \<Rightarrow> world" where
  "run_task C X i t s =
     (let d = wd_dir s; r = wd_rec s
      in case t of
           TFlow fl encoded \<Rightarrow>
             (case append_flow_locked fl encoded d r of
                (d', r', res) \<Rightarrow>
                  locked_dir i (d', r', res) (s\<lparr>wd_logged := wd_logged s @ (if is_ok res then [fl] else [])\<rparr>))
         | TExtension e content \<Rightarrow> locked_dir i (write_extension_locked e content d r) s
         | TEvents events \<Rightarrow> locked i (append_events_locked C events r) s
         | TConversation c \<Rightarrow> locked i (append_conversation_locked C c r) s
         | TFinalizer \<Rightarrow> locked i (register_finalizer_locked r) s
         | TBlobAdmitted u \<Rightarrow>
             (case begin_blob d (rc_limits r) u of
                (d', Inl e) \<Rightarrow> become i (TDone (Inl e)) (s\<lparr>wd_dir := d'\<rparr>)
              | (d', Inr w) \<Rightarrow> become i (TBlobCreated w) (s\<lparr>wd_dir := d'\<rparr>))
         | TBlobCreated w \<Rightarrow> become i (TBlob w) (s\<lparr>wd_rec := r\<lparr>rc_active_blobs := Suc (rc_active_blobs r)\<rparr>\<rparr>)
         | TRelease \<Rightarrow> become i (TDone (Inr ())) (s\<lparr>wd_rec := r\<lparr>rc_active_blobs := rc_active_blobs r - 1\<rparr>\<rparr>)
         | TFinish stage \<Rightarrow>
             (case finish_step C X stage d r of
                (d', r', stage') \<Rightarrow>
                  become i (TFinish stage')
                    (s\<lparr>wd_dir := d', wd_rec := r',
                       wd_published := (if stage = FsRename then Some d' else wd_published s)\<rparr>))
         | TBlob w \<Rightarrow> s
         | TDone res \<Rightarrow> s)"

definition on_body :: "nat \<Rightarrow> (body_writer \<Rightarrow> world \<Rightarrow> world) \<Rightarrow> world \<Rightarrow> world" where
  "on_body i f s =
     (if i < length (wd_tasks s) then (case wd_tasks s ! i of TBlob w \<Rightarrow> f w s | _ \<Rightarrow> s) else s)"

text \<open>The model follows a recording until its staging directory is renamed.\<close>

definition act :: "codec \<Rightarrow> ext_lib \<Rightarrow> action \<Rightarrow> world \<Rightarrow> world" where
  "act C X a s =
     (if wd_published s \<noteq> None then s
      else case a of
        ShutDown \<Rightarrow> s\<lparr>wd_rec := (wd_rec s)\<lparr>rc_shutdown := True\<rparr>\<rparr>
      | StartFlow fl \<Rightarrow>
          (case flow_admission C (wd_rec s) fl of
             Inl e \<Rightarrow> spawn (TDone (Inl e)) s | Inr encoded \<Rightarrow> spawn (TFlow fl encoded) s)
      | StartExtension e content \<Rightarrow> admit shutting_down (TExtension e content) s
      | StartEvents events \<Rightarrow> admit shutting_down (TEvents events) s
      | StartConversation c \<Rightarrow> admit shutting_down (TConversation c) s
      | StartFinalizer \<Rightarrow> admit (StInvalid ''cannot register conversation finalizer after shutdown'') TFinalizer s
      | StartBlob u \<Rightarrow> admit shutting_down (TBlobAdmitted u) s
      | StartFinish \<Rightarrow> spawn (TFinish FsRequested) (s\<lparr>wd_rec := (wd_rec s)\<lparr>rc_shutdown := True\<rparr>\<rparr>)
      | WriteBody i buf \<Rightarrow>
          on_body i (\<lambda>w s. case body_write (wd_dir s) w buf of
            (d', w', _) \<Rightarrow> become i (TBlob w') (s\<lparr>wd_dir := d'\<rparr>)) s
      | FinishBody i \<Rightarrow>
          on_body i (\<lambda>w s. case recording_body_finish X (wd_dir s) w of
            (d', _) \<Rightarrow> become i TRelease (s\<lparr>wd_dir := d'\<rparr>)) s
      | AbortBody i \<Rightarrow> on_body i (\<lambda>w s. become i TRelease (s\<lparr>wd_dir := body_drop (wd_dir s) w\<rparr>)) s
      | Run i \<Rightarrow> (if i < length (wd_tasks s) then run_task C X i (wd_tasks s ! i) s else s))"

definition run_schedule :: "codec \<Rightarrow> ext_lib \<Rightarrow> action list \<Rightarrow> world \<Rightarrow> world" where
  "run_schedule C X acts s = fold (act C X) acts s"

definition world_start :: "fixture_dir \<Rightarrow> recording \<Rightarrow> world" where
  "world_start d r = \<lparr>wd_dir = d, wd_rec = r, wd_tasks = [], wd_logged = [], wd_published = None\<rparr>"

section \<open>The sequential writer\<close>

text \<open>A recording state as the state of the sequential writer it simulates.\<close>

definition as_writer :: "recording \<Rightarrow> session_writer" where
  "as_writer r =
     \<lparr>sw_destination = rc_destination r, sw_staging = rc_staging r, sw_metadata = recording_metadata r,
      sw_limits = rc_limits r, sw_flow_count = rc_flow_count r, sw_total_bytes = rc_total_bytes r,
      sw_extensions = rc_extensions r, sw_stream_events = rc_stream_events r,
      sw_stream_event_ids = rc_stream_event_ids r, sw_stream_event_records = rc_stream_event_records r,
      sw_stream_event_object_bytes = rc_stream_event_object_bytes r, sw_websocket = rc_websocket r\<rparr>"

lemma create_refines:
  "create fsys destination metadata lim u =
     (case recording_create fsys destination metadata lim u of
        (fsys', Inl e) \<Rightarrow> (fsys', Inl e) | (fsys', Inr r) \<Rightarrow> (fsys', Inr (as_writer r)))"
  by (simp add: create_def recording_create_def Let_def as_writer_def recording_metadata_def)

lemma as_writer_sel [simp]:
  "sw_destination (as_writer r) = rc_destination r" "sw_staging (as_writer r) = rc_staging r"
  "sw_limits (as_writer r) = rc_limits r" "sw_flow_count (as_writer r) = rc_flow_count r"
  "sw_total_bytes (as_writer r) = rc_total_bytes r" "sw_extensions (as_writer r) = rc_extensions r"
  "sw_stream_events (as_writer r) = rc_stream_events r" "sw_websocket (as_writer r) = rc_websocket r"
  "sw_metadata (as_writer r) = recording_metadata r"
  "sw_stream_event_ids (as_writer r) = rc_stream_event_ids r"
  "sw_stream_event_records (as_writer r) = rc_stream_event_records r"
  "sw_stream_event_object_bytes (as_writer r) = rc_stream_event_object_bytes r"
  by (simp_all add: as_writer_def)

lemma as_writer_flow:
  "as_writer (r\<lparr>rc_flow_count := n, rc_total_bytes := t\<rparr>) = (as_writer r)\<lparr>sw_flow_count := n, sw_total_bytes := t\<rparr>"
  by (simp add: as_writer_def recording_metadata_def)

lemma as_writer_ignores [simp]:
  "as_writer (r\<lparr>rc_shutdown := b\<rparr>) = as_writer r" "as_writer (r\<lparr>rc_active_blobs := n\<rparr>) = as_writer r"
  "as_writer (r\<lparr>rc_finalizers := n\<rparr>) = as_writer r" "as_writer (r\<lparr>rc_flows := b\<rparr>) = as_writer r"
  by (simp_all add: as_writer_def recording_metadata_def)

lemma checked_add_sum: "checked_add a b = Some c \<Longrightarrow> c = a + b"
  by (auto simp: checked_add_def Let_def split: if_splits)

lemma flow_refines:
  assumes "flow_admission C r fl = Inr encoded" and "append_flow_locked fl encoded d r' = (d', r'', res)"
    and "rc_limits r' = rc_limits r"
  shows "if is_ok res then append_flow C fl d (as_writer r') = (d', as_writer r'', Inr ()) else d' = d \<and> r'' = r'"
proof (cases res)
  case (Inr u)
  with assms(2) obtain total where open': "rc_flows r'" "\<not> sl_max_flows (rc_limits r') \<le> rc_flow_count r'"
    and total: "checked_add (rc_total_bytes r') (flow_body_bytes fl) = Some total"
      "\<not> sl_max_total_bytes (rc_limits r') < total"
    and d': "d' = d\<lparr>fd_files := entry_append ''flows.jsonl'' (encoded @ [newline]) (fd_files d)\<rparr>"
    and r'': "r'' = r'\<lparr>rc_flow_count := Suc (rc_flow_count r'), rc_total_bytes := rc_total_bytes r' + flow_body_bytes fl\<rparr>"
    by (auto simp: append_flow_locked_def simp del: checked_add_Some_iff split: if_splits option.splits)
  have "r'' = r'\<lparr>rc_flow_count := Suc (rc_flow_count r'), rc_total_bytes := total\<rparr>"
    using r'' checked_add_sum [OF total(1)] by simp
  then show ?thesis
    using assms(1,3) open' total d' Inr
    by (auto simp: flow_admission_def append_flow_def as_writer_flow rbind_Inr_iff if_Inl_eq_Inr map_err_Inr_iff
        ok_or_Inr_iff is_ok_def simp del: checked_add_Some_iff)
next
  case (Inl e)
  with assms(2) show ?thesis
    by (auto simp: append_flow_locked_def is_ok_def simp del: checked_add_Some_iff split: if_splits option.splits)
qed

lemma as_writer_extension:
  "as_writer (r\<lparr>rc_extensions := rc_extensions r @ [e]\<rparr>) =
     (as_writer r)\<lparr>sw_extensions := rc_extensions r @ [e],
                   sw_metadata := (recording_metadata r)\<lparr>sm_schema_version := SESSION_SCHEMA_VERSION\<rparr>\<rparr>"
  by (simp add: as_writer_def recording_metadata_def)

lemma write_extension_file_Inr:
  "write_extension_file d es e content = Inr (d', es') \<Longrightarrow> es' = es @ [e]"
  by (auto simp: write_extension_file_def rbind_Inr_iff if_Inl_eq_Inr)

lemma extension_file_refines:
  assumes "write_extension_file d (rc_extensions r) e content = Inr (d', es)"
  shows "write_extension e content d (as_writer r) = (d', as_writer (r\<lparr>rc_extensions := es\<rparr>), Inr ())"
  using assms write_extension_file_Inr [OF assms] by (simp add: write_extension_def as_writer_extension)

lemma extension_refines:
  assumes "write_extension_locked e content d r = (d', r', res)"
  shows "if is_ok res then write_extension e content d (as_writer r) = (d', as_writer r', Inr ()) else d' = d \<and> r' = r"
  using assms
  by (cases "write_extension_file d (rc_extensions r) e content")
    (auto simp: write_extension_locked_def is_ok_def extension_file_refines split: if_splits)

lemma events_refine:
  assumes "append_events_locked C events r = Inr r'"
  shows "append_stream_events C events (as_writer r) = Inr (as_writer r')"
  using assms
  by (auto simp: append_events_locked_def append_stream_events_def Let_def rbind_Inr_iff if_Inl_eq_Inr as_writer_def
      recording_metadata_def)

lemma conversation_refines:
  assumes "append_conversation_locked C c r = Inr r'"
  shows "append_websocket_conversation C c (as_writer r) = Inr (as_writer r')"
  using assms
  by (auto simp: append_conversation_locked_def append_websocket_conversation_def rbind_Inr_iff if_Inl_eq_Inr
      as_writer_def recording_metadata_def)

section \<open>What one action does\<close>

text \<open>
  Every action is a step of the sequential writer, or changes neither the root of the staging
  directory nor the state the writer shares, or writes the manifest.
\<close>

inductive writer_effect ::
  "codec \<Rightarrow> ext_lib \<Rightarrow> fixture_dir \<Rightarrow> recording \<Rightarrow> writer_op option \<Rightarrow> fixture_dir \<Rightarrow> recording \<Rightarrow> bool"
  for C :: codec and X :: ext_lib where
  quiet: "fd_files d' = fd_files d \<Longrightarrow> (fd_blobs d' = None) = (fd_blobs d = None) \<Longrightarrow> as_writer r' = as_writer r \<Longrightarrow>
    writer_effect C X d r None d' r'"
| operation: "writer_step C X op d (as_writer r) = (d', as_writer r', Inr ()) \<Longrightarrow> (\<forall>u bufs. op \<noteq> OpBody u bufs) \<Longrightarrow>
    writer_effect C X d r (Some op) d' r'"
| publication: "recording_manifest C n d r = Inr d' \<Longrightarrow> \<not> rc_flows r \<Longrightarrow> writer_effect C X d r None d' r"

inductive_cases writer_effect_None: "writer_effect C X d r None d' r'"
inductive_cases writer_effect_Some: "writer_effect C X d r (Some op) d' r'"

definition logged_by :: "writer_op option \<Rightarrow> flow list" where
  "logged_by op = (case op of Some (OpFlow fl) \<Rightarrow> [fl] | _ \<Rightarrow> [])"

definition frame :: "recording \<Rightarrow> recording \<Rightarrow> bool" where
  "frame r r' \<longleftrightarrow>
     rc_limits r' = rc_limits r \<and> rc_destination r' = rc_destination r \<and> rc_staging r' = rc_staging r
     \<and> (rc_shutdown r \<longrightarrow> rc_shutdown r')
     \<and> (\<not> rc_flows r \<longrightarrow> \<not> rc_flows r' \<and> rc_flow_count r' = rc_flow_count r)"

fun counted :: "recording \<Rightarrow> finish_stage \<Rightarrow> bool" where
  "counted r FsCounting \<longleftrightarrow> \<not> rc_flows r"
| "counted r (FsEvents n) \<longleftrightarrow> \<not> rc_flows r \<and> n = rc_flow_count r"
| "counted r (FsWebsocket n) \<longleftrightarrow> \<not> rc_flows r \<and> n = rc_flow_count r"
| "counted r (FsChecking n) \<longleftrightarrow> \<not> rc_flows r \<and> n = rc_flow_count r"
| "counted r (FsManifest n) \<longleftrightarrow> \<not> rc_flows r \<and> n = rc_flow_count r"
| "counted r FsRename \<longleftrightarrow> \<not> rc_flows r"
| "counted r _ \<longleftrightarrow> True"

fun task_ok :: "codec \<Rightarrow> recording \<Rightarrow> task \<Rightarrow> bool" where
  "task_ok C r (TFlow fl encoded) \<longleftrightarrow> flow_admission C (r\<lparr>rc_shutdown := False\<rparr>) fl = Inr encoded"
| "task_ok C r (TFinish stage) \<longleftrightarrow> counted r stage"
| "task_ok C r _ \<longleftrightarrow> True"

lemma frame_refl [simp]: "frame r r"
  by (simp add: frame_def)

lemma frame_simps [simp]:
  "frame r (r\<lparr>rc_active_blobs := n\<rparr>)" "frame r (r\<lparr>rc_finalizers := n\<rparr>)" "frame r (r\<lparr>rc_extensions := es\<rparr>)"
  "frame r (r\<lparr>rc_flows := False\<rparr>)" "frame r (r\<lparr>rc_shutdown := True\<rparr>)" "frame r (r\<lparr>rc_websocket := acc\<rparr>)"
  by (simp_all add: frame_def)

lemma flow_admission_limits:
  "rc_limits r' = rc_limits r \<Longrightarrow>
     flow_admission C (r'\<lparr>rc_shutdown := False\<rparr>) fl = flow_admission C (r\<lparr>rc_shutdown := False\<rparr>) fl"
  by (simp add: flow_admission_def)

lemma flow_admissionD:
  "flow_admission C r fl = Inr encoded \<Longrightarrow> flow_admission C (r\<lparr>rc_shutdown := False\<rparr>) fl = Inr encoded"
  by (simp add: flow_admission_def split: if_splits)

lemma task_ok_frame: "frame r r' \<Longrightarrow> task_ok C r t \<Longrightarrow> task_ok C r' t"
proof (cases t)
  case (TFlow fl encoded)
  assume "frame r r'" "task_ok C r t"
  with TFlow flow_admission_limits [of r' r C fl] show ?thesis by (simp add: frame_def)
next
  case (TFinish stage)
  assume "frame r r'" "task_ok C r t"
  with TFinish show ?thesis by (cases stage) (auto simp: frame_def)
qed simp_all

text \<open>The body operations leave the root of the directory alone.\<close>

lemma body_operations_quiet:
  "begin_blob d lim u = (d', br) \<Longrightarrow> fd_files d' = fd_files d \<and> (fd_blobs d' = None) = (fd_blobs d = None)"
  "body_write d w buf = (d', w', wr) \<Longrightarrow> fd_files d' = fd_files d \<and> (fd_blobs d' = None) = (fd_blobs d = None)"
  "recording_body_finish X d w = (d', fr) \<Longrightarrow> fd_files d' = fd_files d \<and> (fd_blobs d' = None) = (fd_blobs d = None)"
  "fd_files (body_drop d w) = fd_files d \<and> (fd_blobs (body_drop d w) = None) = (fd_blobs d = None)"
  by (auto simp: begin_blob_def body_write_def recording_body_finish_def publish_blob_def body_drop_def
      remove_staging_def Let_def split: option.splits sum.splits if_splits prod.splits)

lemma writer_quiet: "as_writer r' = as_writer r \<Longrightarrow> writer_effect C X d r None d r'"
  by (rule quiet) simp_all

lemma logged_by_None [simp]: "logged_by None = []" "logged_by (Some (OpExtension e content)) = []"
  by (simp_all add: logged_by_def)

lemma recording_events_extension_cases:
  assumes "recording_events_extension C d r = Inr (d', r')"
  shows "d' = d \<and> r' = r \<or> (\<exists>content es. write_extension_file d (rc_extensions r) stream_extension content = Inr (d', es)
    \<and> r' = r\<lparr>rc_extensions := es\<rparr>)"
proof (cases "ses_flows (rc_stream_events r) = []")
  case False
  then show ?thesis
    using assms unfolding recording_events_extension_def by (auto simp: rbind_Inr_iff if_Inl_eq_Inr)
qed (use assms in \<open>simp add: recording_events_extension_def\<close>)

lemma recording_websocket_extension_cases:
  assumes "recording_websocket_extension C d r = Inr (d', r')"
  shows "d' = d \<and> r' = r \<or> (\<exists>content es. write_extension_file d (rc_extensions r) websocket_extension content = Inr (d', es)
    \<and> r' = r\<lparr>rc_extensions := es\<rparr>)"
proof (cases "wa_conversations (rc_websocket r) = []")
  case False
  then show ?thesis
    using assms unfolding recording_websocket_extension_def by (auto simp: rbind_Inr_iff if_Inl_eq_Inr)
qed (use assms in \<open>simp add: recording_websocket_extension_def\<close>)

lemma finish_extensions:
  assumes "recording_events_extension C d r = Inr (d', r') \<or> recording_websocket_extension C d r = Inr (d', r')"
  shows "\<exists>op. writer_effect C X d r op d' r' \<and> logged_by op = [] \<and> frame r r'
    \<and> rc_flows r' = rc_flows r \<and> rc_flow_count r' = rc_flow_count r"
proof -
  from assms recording_events_extension_cases [of C d r d' r'] recording_websocket_extension_cases [of C d r d' r']
  consider "d' = d" "r' = r"
    | e content es where "write_extension_file d (rc_extensions r) e content = Inr (d', es)" "r' = r\<lparr>rc_extensions := es\<rparr>"
    by metis
  then show ?thesis
  proof cases
    case 1
    then show ?thesis by (intro exI [of _ None]) (simp add: writer_quiet)
  next
    case 2
    then have "writer_step C X (OpExtension e content) d (as_writer r) = (d', as_writer r', Inr ())"
      using extension_file_refines by simp
    with 2 show ?thesis by (intro exI [of _ "Some (OpExtension e content)"]) (auto intro: operation)
  qed
qed

lemma finish_step_effect:
  assumes "finish_step C X stage d r = (d', r', stage')" and "counted r stage"
  shows "\<exists>op. writer_effect C X d r op d' r' \<and> logged_by op = [] \<and> frame r r' \<and> counted r' stage'"
proof -
  note same = exI [of _ None] writer_quiet
  show ?thesis
  proof (cases stage)
    case (FsDriving n)
    with assms show ?thesis by (cases n) (auto simp: finish_step_def intro!: same split: if_splits)
  next
    case (FsEvents n)
    show ?thesis
    proof (cases "recording_events_extension C d r")
      case (Inr p)
      with assms FsEvents have "recording_events_extension C d r = Inr (d', r')" "stage' = FsWebsocket n"
        by (auto simp: finish_step_def split: prod.splits)
      with finish_extensions [of C d r d' r' X] assms(2) FsEvents show ?thesis by auto
    qed (use assms FsEvents in \<open>auto simp: finish_step_def intro!: same\<close>)
  next
    case (FsWebsocket n)
    show ?thesis
    proof (cases "recording_websocket_extension C d r")
      case (Inr p)
      with assms FsWebsocket have "recording_websocket_extension C d r = Inr (d', r')" "stage' = FsChecking n"
        by (auto simp: finish_step_def split: prod.splits)
      with finish_extensions [of C d r d' r' X] assms(2) FsWebsocket show ?thesis by auto
    qed (use assms FsWebsocket in \<open>auto simp: finish_step_def intro!: same\<close>)
  next
    case (FsManifest n)
    show ?thesis
    proof (cases "recording_manifest C n d r")
      case (Inr d2)
      with assms FsManifest have "d' = d2" "r' = r" "stage' = FsRename" by (auto simp: finish_step_def)
      with Inr assms FsManifest show ?thesis by (intro exI [of _ None]) (auto intro: publication)
    qed (use assms FsManifest in \<open>auto simp: finish_step_def intro!: same\<close>)
  qed (use assms in \<open>auto simp: finish_step_def intro!: same split: if_splits sum.splits\<close>)
qed

text \<open>Tasks after an action: each is one that was there, or is fit for the new state.\<close>

lemma list_all_become: "list_all P xs \<Longrightarrow> P t \<Longrightarrow> list_all P (xs[i := t])"
  by (auto simp: list_all_iff dest: subsetD [OF set_update_subset_insert])

lemma run_task_effect:
  assumes "task_ok C (wd_rec s) t" and "list_all (task_ok C (wd_rec s)) (wd_tasks s)"
  shows "\<exists>op. writer_effect C X (wd_dir s) (wd_rec s) op (wd_dir (run_task C X i t s)) (wd_rec (run_task C X i t s))
    \<and> wd_logged (run_task C X i t s) = wd_logged s @ logged_by op \<and> frame (wd_rec s) (wd_rec (run_task C X i t s))
    \<and> list_all (task_ok C (wd_rec (run_task C X i t s))) (wd_tasks (run_task C X i t s))"
proof -
  let ?s = "run_task C X i t s"
  note ok = task_ok_frame [of "wd_rec s"]
  have effect: ?thesis
    if "writer_effect C X (wd_dir s) (wd_rec s) op (wd_dir ?s) (wd_rec ?s)" "wd_logged ?s = wd_logged s @ logged_by op"
      "frame (wd_rec s) (wd_rec ?s)" "wd_tasks ?s = (wd_tasks s)[i := t']" "task_ok C (wd_rec ?s) t'" for op t'
  proof -
    have "list_all (task_ok C (wd_rec ?s)) (wd_tasks s)"
      using assms(2) ok [OF that(3)] by (auto simp: list_all_iff)
    with that show ?thesis using list_all_become by fastforce
  qed
  show ?thesis
  proof (cases t)
    case (TFlow fl encoded)
    obtain d' r' res where run: "append_flow_locked fl encoded (wd_dir s) (wd_rec s) = (d', r', res)" by (rule prod_cases3)
    have s': "wd_dir ?s = d'" "wd_rec ?s = r'" "wd_tasks ?s = (wd_tasks s)[i := TDone res]"
      "wd_logged ?s = wd_logged s @ (if is_ok res then [fl] else [])"
      by (simp_all add: run_task_def TFlow run locked_dir_def become_def)
    from flow_refines [of C "(wd_rec s)\<lparr>rc_shutdown := False\<rparr>" fl encoded, OF _ run] assms(1) TFlow
    have ref: "if is_ok res then append_flow C fl (wd_dir s) (as_writer (wd_rec s)) = (d', as_writer r', Inr ())
        else d' = wd_dir s \<and> r' = wd_rec s" by simp
    have "frame (wd_rec s) r'"
      using run by (auto simp: append_flow_locked_def frame_def simp del: checked_add_Some_iff split: if_splits option.splits)
    then show ?thesis
      using ref by (intro effect [of "if is_ok res then Some (OpFlow fl) else None" "TDone res"])
        (auto simp: s' logged_by_def intro: operation writer_quiet)
  next
    case (TExtension e content)
    obtain d' r' res where run: "write_extension_locked e content (wd_dir s) (wd_rec s) = (d', r', res)" by (rule prod_cases3)
    have s': "wd_dir ?s = d'" "wd_rec ?s = r'" "wd_tasks ?s = (wd_tasks s)[i := TDone res]" "wd_logged ?s = wd_logged s"
      by (simp_all add: run_task_def TExtension run locked_dir_def become_def)
    have "frame (wd_rec s) r'" using run by (auto simp: write_extension_locked_def split: if_splits sum.splits)
    then show ?thesis
      using extension_refines [OF run]
      by (intro effect [of "if is_ok res then Some (OpExtension e content) else None" "TDone res"])
        (auto simp: s' intro: operation writer_quiet)
  next
    case (TEvents events)
    show ?thesis
    proof (cases "append_events_locked C events (wd_rec s)")
      case (Inr r')
      then have "frame (wd_rec s) r'"
        by (auto simp: append_events_locked_def rbind_Inr_iff if_Inl_eq_Inr Let_def frame_def)
      then show ?thesis
        using events_refine [OF Inr]
        by (intro effect [of "Some (OpStreamEvents events)" "TDone (Inr ())"])
          (auto simp: run_task_def Let_def TEvents Inr locked_def become_def logged_by_def keep_dir_def intro: operation)
    next
      case (Inl e)
      then show ?thesis
        by (intro effect [of None "TDone (Inl e)"])
          (auto simp: run_task_def Let_def TEvents locked_def become_def intro: writer_quiet)
    qed
  next
    case (TConversation c)
    show ?thesis
    proof (cases "append_conversation_locked C c (wd_rec s)")
      case (Inr r')
      then have "frame (wd_rec s) r'"
        by (auto simp: append_conversation_locked_def rbind_Inr_iff if_Inl_eq_Inr)
      then show ?thesis
        using conversation_refines [OF Inr]
        by (intro effect [of "Some (OpConversation c)" "TDone (Inr ())"])
          (auto simp: run_task_def Let_def TConversation Inr locked_def become_def logged_by_def keep_dir_def intro: operation)
    next
      case (Inl e)
      then show ?thesis
        by (intro effect [of None "TDone (Inl e)"])
          (auto simp: run_task_def Let_def TConversation locked_def become_def intro: writer_quiet)
    qed
  next
    case TFinalizer
    then show ?thesis
      by (cases "rc_shutdown (wd_rec s)";
          intro effect [of None "TDone (map_sum id (\<lambda>_. ()) (register_finalizer_locked (wd_rec s)))"])
        (auto simp: run_task_def Let_def register_finalizer_locked_def locked_def become_def intro: writer_quiet)
  next
    case (TBlobAdmitted u)
    obtain d' br where run: "begin_blob (wd_dir s) (rc_limits (wd_rec s)) u = (d', br)" by fastforce
    from body_operations_quiet(1) [OF run] show ?thesis
      by (intro effect [of None "case br of Inl e \<Rightarrow> TDone (Inl e) | Inr w \<Rightarrow> TBlobCreated w"])
        (auto simp: run_task_def Let_def TBlobAdmitted run become_def intro: quiet split: sum.splits)
  next
    case (TFinish stage)
    obtain d' r' stage' where run: "finish_step C X stage (wd_dir s) (wd_rec s) = (d', r', stage')" by (rule prod_cases3)
    from finish_step_effect [OF run] assms(1) TFinish obtain op where
      "writer_effect C X (wd_dir s) (wd_rec s) op d' r'" "logged_by op = []" "frame (wd_rec s) r'" "counted r' stage'"
      by auto
    then show ?thesis
      by (intro effect [of op "TFinish stage'"]) (auto simp: run_task_def Let_def TFinish run become_def)
  next
    case (TBlob w)
    with assms show ?thesis by (intro exI [of _ None]) (simp add: run_task_def Let_def writer_quiet)
  next
    case (TDone res)
    with assms show ?thesis by (intro exI [of _ None]) (simp add: run_task_def Let_def writer_quiet)
  next
    case (TBlobCreated w)
    then show ?thesis
      by (intro effect [of None "TBlob w"]) (auto simp: run_task_def Let_def become_def intro: writer_quiet)
  next
    case TRelease
    then show ?thesis
      by (intro effect [of None "TDone (Inr ())"]) (auto simp: run_task_def Let_def become_def intro: writer_quiet)
  qed
qed

lemma act_effect:
  assumes "wd_published s = None" and "list_all (task_ok C (wd_rec s)) (wd_tasks s)"
  shows "\<exists>op. writer_effect C X (wd_dir s) (wd_rec s) op (wd_dir (act C X a s)) (wd_rec (act C X a s))
    \<and> wd_logged (act C X a s) = wd_logged s @ logged_by op \<and> frame (wd_rec s) (wd_rec (act C X a s))
    \<and> list_all (task_ok C (wd_rec (act C X a s))) (wd_tasks (act C X a s))"
proof -
  have mono: "list_all (task_ok C r') (wd_tasks s)" if "frame (wd_rec s) r'" for r'
    using assms(2) task_ok_frame [OF that] by (auto simp: list_all_iff)
  note calm = exI [of _ None] writer_quiet mono
  have body: ?thesis
    if "act C X a s = on_body i f s" "\<And>w. wd_tasks s ! i = TBlob w \<Longrightarrow> \<exists>d' t. f w s = become i t (s\<lparr>wd_dir := d'\<rparr>)
        \<and> fd_files d' = fd_files (wd_dir s) \<and> (fd_blobs d' = None) = (fd_blobs (wd_dir s) = None) \<and> task_ok C (wd_rec s) t"
    for i f
  proof (cases "i < length (wd_tasks s) \<and> (\<exists>w. wd_tasks s ! i = TBlob w)")
    case True
    then obtain w where w: "i < length (wd_tasks s)" "wd_tasks s ! i = TBlob w" by blast
    from that(2) [OF w(2)] obtain d' t where "f w s = become i t (s\<lparr>wd_dir := d'\<rparr>)"
      "fd_files d' = fd_files (wd_dir s)" "(fd_blobs d' = None) = (fd_blobs (wd_dir s) = None)" "task_ok C (wd_rec s) t"
      by metis
    with w that(1) assms(2) show ?thesis
      by (intro exI [of _ None]) (auto simp: on_body_def become_def intro: quiet list_all_become)
  next
    case False
    then have "on_body i f s = s" by (auto simp: on_body_def split: task.splits)
    with that(1) assms(2) show ?thesis by (intro exI [of _ None]) (simp add: writer_quiet)
  qed
  show ?thesis
  proof (cases a)
    case (StartFlow fl)
    with assms show ?thesis
      by (cases "flow_admission C (wd_rec s) fl")
        (auto simp: act_def spawn_def intro!: calm flow_admissionD)
  next
    case (WriteBody i buf)
    show ?thesis
    proof (rule body [of i])
      show "act C X a s = on_body i (\<lambda>w s. case body_write (wd_dir s) w buf of
            (d', w', _) \<Rightarrow> become i (TBlob w') (s\<lparr>wd_dir := d'\<rparr>)) s"
        using assms(1) by (simp add: act_def WriteBody)
      fix w
      obtain d' w' wr where run: "body_write (wd_dir s) w buf = (d', w', wr)" by (rule prod_cases3)
      from body_operations_quiet(2) [OF run]
      show "\<exists>d' t. (case body_write (wd_dir s) w buf of (d', w', _) \<Rightarrow> become i (TBlob w') (s\<lparr>wd_dir := d'\<rparr>))
            = become i t (s\<lparr>wd_dir := d'\<rparr>) \<and> fd_files d' = fd_files (wd_dir s)
          \<and> (fd_blobs d' = None) = (fd_blobs (wd_dir s) = None) \<and> task_ok C (wd_rec s) t"
        by (intro exI [of _ d'] exI [of _ "TBlob w'"]) (simp add: run)
    qed
  next
    case (FinishBody i)
    show ?thesis
    proof (rule body [of i])
      show "act C X a s = on_body i (\<lambda>w s. case recording_body_finish X (wd_dir s) w of
            (d', _) \<Rightarrow> become i TRelease (s\<lparr>wd_dir := d'\<rparr>)) s"
        using assms(1) by (simp add: act_def FinishBody)
      fix w
      obtain d' fr where run: "recording_body_finish X (wd_dir s) w = (d', fr)" by fastforce
      from body_operations_quiet(3) [OF run]
      show "\<exists>d' t. (case recording_body_finish X (wd_dir s) w of (d', _) \<Rightarrow> become i TRelease (s\<lparr>wd_dir := d'\<rparr>))
            = become i t (s\<lparr>wd_dir := d'\<rparr>) \<and> fd_files d' = fd_files (wd_dir s)
          \<and> (fd_blobs d' = None) = (fd_blobs (wd_dir s) = None) \<and> task_ok C (wd_rec s) t"
        by (intro exI [of _ d'] exI [of _ TRelease]) (simp add: run)
    qed
  next
    case (AbortBody i)
    show ?thesis
    proof (rule body [of i])
      show "act C X a s = on_body i (\<lambda>w s. become i TRelease (s\<lparr>wd_dir := body_drop (wd_dir s) w\<rparr>)) s"
        using assms(1) by (simp add: act_def AbortBody)
      fix w
      from body_operations_quiet(4) [of "wd_dir s" w]
      show "\<exists>d' t. become i TRelease (s\<lparr>wd_dir := body_drop (wd_dir s) w\<rparr>) = become i t (s\<lparr>wd_dir := d'\<rparr>)
          \<and> fd_files d' = fd_files (wd_dir s)
          \<and> (fd_blobs d' = None) = (fd_blobs (wd_dir s) = None) \<and> task_ok C (wd_rec s) t"
        by (intro exI [of _ "body_drop (wd_dir s) w"] exI [of _ TRelease]) simp
    qed
  next
    case (Run i)
    show ?thesis
    proof (cases "i < length (wd_tasks s)")
      case True
      then have "task_ok C (wd_rec s) (wd_tasks s ! i)" using assms(2) by (simp add: list_all_length)
      from run_task_effect [OF this assms(2)] True assms(1) Run show ?thesis by (simp add: act_def)
    qed (use assms Run in \<open>auto simp: act_def intro!: calm\<close>)
  qed (use assms in \<open>auto simp: act_def admit_def spawn_def intro!: calm\<close>)
qed

section \<open>The invariant of a recording\<close>

lemma root_create_manifest:
  assumes "root_create_new d ''manifest.json'' content = Inr d'"
  shows "file_node d' ''flows.jsonl'' = file_node d ''flows.jsonl''"
  using root_create_newD(2) [OF assms] by simp

lemma effect_staged:
  assumes "writer_effect C X d r op d' r'" and "staged C flows d (as_writer r)"
  shows "staged C (flows @ logged_by op) d' (as_writer r')"
  using assms(1)
proof cases
  case quiet
  with assms(2) show ?thesis by (simp add: staged_def file_node_def)
next
  case (operation op')
  have "appended [op'] [Inr ()] = logged_by (Some op')" by (cases op') (simp_all add: logged_by_def is_ok_def)
  with staged_step [OF assms(2) operation(2)] operation(1) show ?thesis by simp
next
  case (publication n)
  then obtain content where "root_create_new d ''manifest.json'' content = Inr d'"
    by (auto simp: recording_manifest_def rbind_Inr_iff map_err_Inr_iff)
  from root_create_manifest [OF this] assms(2) publication show ?thesis by (simp add: staged_def)
qed

definition reported :: "codec \<Rightarrow> ext_lib \<Rightarrow> world \<Rightarrow> bool" where
  "reported C X s \<longleftrightarrow>
     (\<forall>d. wd_published s = Some d \<longrightarrow> d = wd_dir s)
     \<and> (\<forall>se. TFinish (FsDone (Inr se)) \<in> set (wd_tasks s) \<longrightarrow> wd_published s \<noteq> None
          \<and> open_session C X [rc_destination (wd_rec s) \<mapsto> wd_dir s] (rc_destination (wd_rec s)) (rc_limits (wd_rec s)) = Inr se)"

definition recording_inv :: "codec \<Rightarrow> ext_lib \<Rightarrow> world \<Rightarrow> bool" where
  "recording_inv C X s \<longleftrightarrow>
     staged C (wd_logged s) (wd_dir s) (as_writer (wd_rec s)) \<and> list_all (task_ok C (wd_rec s)) (wd_tasks s)
     \<and> reported C X s"

lemma finish_step_result:
  assumes "finish_step C X stage d r = (d', r', FsDone (Inr se))"
  shows "stage = FsDone (Inr se) \<or> stage = FsRename \<and> d' = d \<and> r' = r
    \<and> open_session C X [rc_destination r \<mapsto> d] (rc_destination r) (rc_limits r) = Inr se"
  using assms by (auto simp: finish_step_def split: finish_stage.splits nat.splits if_splits sum.splits)

lemma not_reported_yet:
  assumes "reported C X s" and "wd_published s = None"
  shows "TFinish (FsDone (Inr se)) \<notin> set (wd_tasks s)"
  using assms by (auto simp: reported_def)

lemma reported_no_result:
  "wd_published s = None \<Longrightarrow> (\<And>se. TFinish (FsDone (Inr se)) \<notin> set (wd_tasks s)) \<Longrightarrow> reported C X s"
  by (auto simp: reported_def)

lemma set_become: "t \<in> set (xs[i := t']) \<Longrightarrow> t = t' \<or> t \<in> set xs"
  by (auto dest: subsetD [OF set_update_subset_insert])

lemma act_reported:
  assumes "reported C X s"
  shows "reported C X (act C X a s)"
proof (cases "wd_published s")
  case None
  note none = not_reported_yet [OF assms None]
  have quiet: "reported C X (become i t s')" if "wd_published s' = None" "wd_tasks s' = wd_tasks s"
      "\<And>se. t \<noteq> TFinish (FsDone (Inr se))" for i t s'
    using that none by (intro reported_no_result) (auto simp: become_def dest!: set_become)
  have spawned: "reported C X (spawn t s')" if "wd_published s' = None" "wd_tasks s' = wd_tasks s"
      "\<And>se. t \<noteq> TFinish (FsDone (Inr se))" for t s'
    using that none by (intro reported_no_result) (auto simp: spawn_def)
  have run: "reported C X (run_task C X i t s)" if "t \<in> set (wd_tasks s)" for i t
  proof (cases t)
    case (TFinish stage)
    obtain d' r' stage' where step: "finish_step C X stage (wd_dir s) (wd_rec s) = (d', r', stage')" by (rule prod_cases3)
    show ?thesis
    proof (cases "stage = FsRename")
      case True
      then have "d' = wd_dir s" "r' = wd_rec s"
        "stage' = FsDone (open_session C X [rc_destination r' \<mapsto> d'] (rc_destination r') (rc_limits r'))"
        using step by (auto simp: finish_step_def)
      then show ?thesis
        using none step True
        by (auto simp: run_task_def Let_def TFinish become_def reported_def simp del: fun_upd_apply dest!: set_become)
    next
      case False
      with finish_step_result [of C X stage "wd_dir s" "wd_rec s" d' r'] step that none TFinish
      have "\<And>se. stage' \<noteq> FsDone (Inr se)" by blast
      then show ?thesis
        unfolding run_task_def Let_def TFinish by (auto simp: step False None intro!: quiet)
    qed
  qed (use assms None in \<open>auto simp: run_task_def Let_def locked_def locked_dir_def intro!: quiet
        split: prod.splits sum.splits\<close>)
  show ?thesis
  proof (cases a)
    case (Run i)
    then show ?thesis using None assms by (auto simp: act_def intro!: run)
  next
    case ShutDown
    then show ?thesis using None none by (simp add: act_def reported_def)
  qed (use None assms in \<open>auto simp: act_def admit_def on_body_def Let_def intro!: spawned quiet
        split: sum.splits task.splits prod.splits\<close>)
qed (use assms in \<open>simp add: act_def\<close>)

lemma act_inv:
  assumes "recording_inv C X s"
  shows "recording_inv C X (act C X a s)"
proof (cases "wd_published s")
  case None
  from act_effect [OF this, of C X a] assms obtain op where
    "writer_effect C X (wd_dir s) (wd_rec s) op (wd_dir (act C X a s)) (wd_rec (act C X a s))"
    "wd_logged (act C X a s) = wd_logged s @ logged_by op"
    "list_all (task_ok C (wd_rec (act C X a s))) (wd_tasks (act C X a s))"
    by (auto simp: recording_inv_def)
  with effect_staged assms act_reported show ?thesis by (metis recording_inv_def)
qed (use assms in \<open>simp add: act_def\<close>)

lemma run_inv: "recording_inv C X s \<Longrightarrow> recording_inv C X (run_schedule C X acts s)"
  unfolding run_schedule_def by (induction acts arbitrary: s) (auto simp: act_inv)

section \<open>Interleavings are sequential\<close>

text \<open>An operation that is not about bodies sees only the root of the directory.\<close>

lemma write_extension_root:
  assumes "write_extension e content d w = (d', w', Inr ())" and "fd_files d2 = fd_files d"
    and "(fd_blobs d2 = None) = (fd_blobs d = None)"
  shows "\<exists>d2'. write_extension e content d2 w = (d2', w', Inr ()) \<and> fd_files d2' = fd_files d'
    \<and> fd_blobs d2' = fd_blobs d2 \<and> fd_blobs d' = fd_blobs d"
proof -
  have nodes: "file_node d2 k = file_node d k" for k using assms(2) by (simp add: file_node_def)
  from assms(1) obtain es where written: "write_extension_file d (sw_extensions w) e content = Inr (d', es)"
    and w': "w' = w\<lparr>sw_extensions := es, sw_metadata := (sw_metadata w)\<lparr>sm_schema_version := SESSION_SCHEMA_VERSION\<rparr>\<rparr>"
    by (auto simp: write_extension_def split: sum.splits)
  from written have new: "root_create_new d (ext_path e) content = Inr d'"
    by (auto simp: write_extension_file_def rbind_Inr_iff if_Inl_eq_Inr map_err_Inr_iff)
  define d2' where "d2' = d2\<lparr>fd_files := fd_files d'\<rparr>"
  have new2: "root_create_new d2 (ext_path e) content = Inr d2'"
    using new assms(2,3) by (auto simp: root_create_new_def rbind_Inr_iff if_Inl_eq_Inr d2'_def)
  have "write_extension_file d2 (sw_extensions w) e content = Inr (d2', es)"
    using written new2 by (auto simp: write_extension_file_def nodes rbind_Inr_iff if_Inl_eq_Inr map_err_Inr_iff)
  then show ?thesis using w' root_create_newD(3) [OF new] by (simp add: write_extension_def d2'_def)
qed

lemma case_sum_Inr:
  "(case m of Inl e \<Rightarrow> (d, w, Inl e) | Inr p \<Rightarrow> f p) = (d', w', Inr ()) \<longleftrightarrow> (\<exists>p. m = Inr p \<and> f p = (d', w', Inr ()))"
  by (cases m) auto

lemma append_flow_root:
  assumes "append_flow C fl d w = (d', w', Inr ())" and "fd_files d2 = fd_files d"
    and "(fd_blobs d2 = None) = (fd_blobs d = None)"
  shows "\<exists>d2'. append_flow C fl d2 w = (d2', w', Inr ()) \<and> fd_files d2' = fd_files d'
    \<and> (fd_blobs d2' = None) = (fd_blobs d' = None)"
  using assms unfolding append_flow_def Let_def case_sum_Inr by auto

lemma writer_step_root:
  assumes "writer_step C X op d w = (d', w', Inr ())" and "\<forall>u bufs. op \<noteq> OpBody u bufs"
    and "fd_files d2 = fd_files d" and "(fd_blobs d2 = None) = (fd_blobs d = None)"
  shows "\<exists>d2'. writer_step C X op d2 w = (d2', w', Inr ()) \<and> fd_files d2' = fd_files d'
    \<and> (fd_blobs d2' = None) = (fd_blobs d' = None)"
proof (cases op)
  case (OpExtension e content)
  with assms write_extension_root [of e content d w d' w' d2] show ?thesis by auto
next
  case (OpFlow fl)
  with assms append_flow_root show ?thesis by simp
next
  case (OpBody u bufs)
  with assms(2) show ?thesis by simp
qed (use assms in \<open>auto simp: keep_dir_def split: sum.splits\<close>)

lemma writer_run_append:
  assumes "writer_run C X ops fsys w = (fsys1, w1, rs)" and "fsys1 (sw_staging w1) = Some d"
    and "writer_step C X op d w1 = (d', w2, r)"
  shows "writer_run C X (ops @ [op]) fsys w = (fsys1(sw_staging w1 \<mapsto> d'), w2, rs @ [r])"
  using assms(1)
proof (induction ops arbitrary: fsys w rs)
  case Nil
  then have "fsys = fsys1" "w = w1" "rs = []" by simp_all
  with assms(2,3) show ?case by (simp add: on_staging_def fun_upd_def)
next
  case (Cons o1 ops)
  obtain fsys0 w0 r0 where step: "on_staging (writer_step C X o1) fsys w = (fsys0, w0, r0)" by (rule prod_cases3)
  obtain fsys2 w2 rs2 where run: "writer_run C X ops fsys0 w0 = (fsys2, w2, rs2)" by (rule prod_cases3)
  with Cons.prems step Cons.IH [of fsys0 w0 rs2] show ?case by simp
qed

lemma appended_snoc: "length ops = length rs \<Longrightarrow> appended (ops @ [op]) (rs @ [r]) = appended ops rs @ appended [op] [r]"
proof (induction ops rs rule: list_induct2)
  case (Cons o1 ops r1 rs)
  then show ?case using appended_Cons [of o1 "ops @ [op]" r1 "rs @ [r]"] appended_Cons [of o1 ops r1 rs] by simp
qed simp

lemma writer_run_length: "writer_run C X ops fsys w = (fsys', w', rs) \<Longrightarrow> length ops = length rs"
  by (induction ops arbitrary: fsys w rs) (auto split: prod.splits)

text \<open>The state of a concurrent recording is one a sequential writer reaches.\<close>

definition simulated :: "codec \<Rightarrow> ext_lib \<Rightarrow> fs \<Rightarrow> recording \<Rightarrow> world \<Rightarrow> bool" where
  "simulated C X fsys r0 s \<longleftrightarrow>
     (\<exists>ops fsys' rs d. writer_run C X ops fsys (as_writer r0) = (fsys', as_writer (wd_rec s), rs)
        \<and> fsys' (rc_staging r0) = Some d \<and> fd_files d = fd_files (wd_dir s)
        \<and> (fd_blobs d = None) = (fd_blobs (wd_dir s) = None) \<and> appended ops rs = wd_logged s \<and> list_all is_ok rs)"

lemma effect_simulated:
  assumes "writer_effect C X (wd_dir s) (wd_rec s) op (wd_dir s') (wd_rec s')"
    and "wd_logged s' = wd_logged s @ logged_by op" and "rc_flows (wd_rec s)" and "simulated C X fsys r0 s"
    and "rc_staging (wd_rec s) = rc_staging r0"
  shows "simulated C X fsys r0 s'"
proof -
  from assms(4) obtain ops fsys1 rs d where
    run: "writer_run C X ops fsys (as_writer r0) = (fsys1, as_writer (wd_rec s), rs)"
    and d: "fsys1 (rc_staging r0) = Some d" "fd_files d = fd_files (wd_dir s)"
      "(fd_blobs d = None) = (fd_blobs (wd_dir s) = None)"
    and logged: "appended ops rs = wd_logged s" "list_all is_ok rs"
    by (auto simp: simulated_def)
  from assms(1) show ?thesis
  proof cases
    case quiet
    with run d logged assms(2) show ?thesis
      unfolding simulated_def by (intro exI [of _ ops] exI [of _ fsys1] exI [of _ rs] exI [of _ d]) simp
  next
    case (operation op')
    from writer_step_root [OF operation(2,3) d(2,3)] obtain d2 where
      step: "writer_step C X op' d (as_writer (wd_rec s)) = (d2, as_writer (wd_rec s'), Inr ())"
      and d2: "fd_files d2 = fd_files (wd_dir s')" "(fd_blobs d2 = None) = (fd_blobs (wd_dir s') = None)" by metis
    have here: "fsys1 (sw_staging (as_writer (wd_rec s))) = Some d" using d(1) assms(5) by simp
    have "appended (ops @ [op']) (rs @ [Inr ()]) = wd_logged s'"
      using appended_snoc [OF writer_run_length [OF run]] logged(1) assms(2) operation(1)
      by (cases op') (simp_all add: logged_by_def is_ok_def)
    with writer_run_append [OF run here step] d2 logged(2) assms(5) show ?thesis
      unfolding simulated_def
      by (intro exI [of _ "ops @ [op']"] exI [of _ "fsys1(rc_staging r0 \<mapsto> d2)"] exI [of _ "rs @ [Inr ()]"] exI [of _ d2])
        (simp add: is_ok_def)
  next
    case (publication n)
    with assms(3) show ?thesis by simp
  qed
qed

lemma recording_start:
  assumes "recording_create fsys destination metadata lim u = (fsys1, Inr r0)" and "fsys1 (rc_staging r0) = Some d0"
  shows "recording_inv C X (world_start d0 r0)" and "rc_limits r0 = lim" and "rc_destination r0 = destination"
    and "create fsys destination metadata lim u = (fsys1, Inr (as_writer r0))" and "rc_flows r0"
proof -
  show cr: "create fsys destination metadata lim u = (fsys1, Inr (as_writer r0))"
    using assms(1) create_refines [of fsys destination metadata lim u] by simp
  from create_ok [OF this, of C] assms(2) have "staged C [] d0 (as_writer r0)" by (metis as_writer_sel(2) fun_upd_same option.inject)
  then show "recording_inv C X (world_start d0 r0)"
    by (simp add: recording_inv_def world_start_def reported_def)
  show "rc_limits r0 = lim" "rc_destination r0 = destination"
    using create_ok [OF cr] by (metis as_writer_sel(1,3))+
  show "rc_flows r0" using assms(1) by (auto simp: recording_create_def Let_def split: if_splits)
qed

lemma act_frame:
  assumes "recording_inv C X s"
  shows "frame (wd_rec s) (wd_rec (act C X a s))"
proof (cases "wd_published s")
  case None
  from act_effect [OF this, of C X a] assms show ?thesis by (auto simp: recording_inv_def)
qed (simp add: act_def)

lemma frame_trans: "frame r1 r2 \<Longrightarrow> frame r2 r3 \<Longrightarrow> frame r1 r3"
  by (auto simp: frame_def)

lemma run_schedule_snoc: "run_schedule C X (acts @ [a]) s = act C X a (run_schedule C X acts s)"
  by (simp add: run_schedule_def)

lemma run_schedule_append: "run_schedule C X (acts1 @ acts2) s = run_schedule C X acts2 (run_schedule C X acts1 s)"
  by (simp add: run_schedule_def)

lemma run_frame: "recording_inv C X s \<Longrightarrow> frame (wd_rec s) (wd_rec (run_schedule C X acts s))"
proof (induction acts rule: rev_induct)
  case (snoc a acts)
  with act_frame [OF run_inv [OF snoc.prems, where acts = acts], where a = a] show ?case
    using frame_trans by (simp add: run_schedule_snoc)
qed (simp add: run_schedule_def)


text \<open>
  Property C4: What a concurrent recording publishes is what it logged. Whatever the interleaving
  of appends, bodies, extensions and calls of \<open>finish\<close>, a \<open>finish\<close> that succeeds has published
  exactly the flows whose appending returned without an error, in order, with their bodies, and its
  manifest counts them.
\<close>

theorem concurrent_recording_publishes_its_log:
  assumes "recording_create fsys destination metadata lim u = (fsys1, Inr r0)" and "fsys1 (rc_staging r0) = Some d0"
    and "s = run_schedule C X acts (world_start d0 r0)" and "TFinish (FsDone (Inr se)) \<in> set (wd_tasks s)"
    and "\<forall>fl\<in>set (wd_logged s). flow_coded C fl"
  shows "\<exists>d. wd_published s = Some d \<and> reads_flows C X lim d (wd_logged s)
    \<and> mf_flow_count (se_manifest se) = length (wd_logged s) \<and> se_root se = destination"
proof -
  note start = recording_start [OF assms(1,2)]
  have inv: "recording_inv C X s" using run_inv [OF start(1)] assms(3) by simp
  have same: "rc_limits (wd_rec s) = lim" "rc_destination (wd_rec s) = destination"
    using run_frame [OF start(1) [of C X], where acts = acts] start(2,3) assms(3) by (simp_all add: frame_def world_start_def)
  from inv have rep: "reported C X s" by (simp add: recording_inv_def)
  with assms(4) have op: "open_session C X [destination \<mapsto> wd_dir s] destination lim = Inr se"
    and "wd_published s \<noteq> None" by (simp_all add: reported_def same)
  with rep have d: "wd_published s = Some (wd_dir s)" by (auto simp: reported_def)
  have st: "staged C (wd_logged s) (wd_dir s) (as_writer (wd_rec s))" using inv by (simp add: recording_inv_def)
  then have "\<forall>fl\<in>set (wd_logged s). appendable C lim fl \<and> flow_coded C fl"
    using assms(5) by (simp add: staged_def same)
  from staged_opens [OF op _ _ this] st d show ?thesis by (simp add: staged_def)
qed

section \<open>After shutdown\<close>

lemma shut_sections:
  assumes "rc_shutdown r"
  shows "write_extension_locked e content d r = (d, r, Inl shutting_down)"
    and "append_events_locked C events r = Inl shutting_down"
    and "append_conversation_locked C c r = Inl shutting_down"
    and "register_finalizer_locked r = Inl (StInvalid ''cannot register conversation finalizer after shutdown'')"
    and "flow_admission C r fl = Inl shutting_down"
  using assms
  by (simp_all add: write_extension_locked_def append_events_locked_def append_conversation_locked_def
      register_finalizer_locked_def flow_admission_def)

definition closed_frame :: "recording \<Rightarrow> recording \<Rightarrow> bool" where
  "closed_frame r r' \<longleftrightarrow>
     rc_shutdown r' \<and> rc_websocket r' = rc_websocket r \<and> rc_stream_events r' = rc_stream_events r
     \<and> rc_stream_event_ids r' = rc_stream_event_ids r \<and> rc_finalizers r' \<le> rc_finalizers r"

lemma finish_step_closed:
  assumes "finish_step C X stage d r = (d', r', stage')" and "rc_shutdown r"
  shows "closed_frame r r'"
proof (cases stage)
  case (FsEvents n)
  show ?thesis
  proof (cases "recording_events_extension C d r")
    case (Inr p)
    with assms FsEvents have "recording_events_extension C d r = Inr (d', r')"
      by (auto simp: finish_step_def split: prod.splits)
    from recording_events_extension_cases [OF this] assms(2) show ?thesis by (auto simp: closed_frame_def)
  qed (use assms FsEvents in \<open>auto simp: finish_step_def closed_frame_def\<close>)
next
  case (FsWebsocket n)
  show ?thesis
  proof (cases "recording_websocket_extension C d r")
    case (Inr p)
    with assms FsWebsocket have "recording_websocket_extension C d r = Inr (d', r')"
      by (auto simp: finish_step_def split: prod.splits)
    from recording_websocket_extension_cases [OF this] assms(2) show ?thesis by (auto simp: closed_frame_def)
  qed (use assms FsWebsocket in \<open>auto simp: finish_step_def closed_frame_def\<close>)
next
  case (FsDriving n)
  with assms show ?thesis by (cases n) (auto simp: finish_step_def closed_frame_def split: if_splits)
qed (use assms in \<open>auto simp: finish_step_def closed_frame_def split: if_splits sum.splits\<close>)

lemma run_task_closed:
  assumes "rc_shutdown (wd_rec s)"
  shows "closed_frame (wd_rec s) (wd_rec (run_task C X i t s))"
proof (cases t)
  case (TFlow fl encoded)
  obtain d' r' res where run: "append_flow_locked fl encoded (wd_dir s) (wd_rec s) = (d', r', res)" by (rule prod_cases3)
  then have "closed_frame (wd_rec s) r'"
    using assms by (auto simp: append_flow_locked_def closed_frame_def simp del: checked_add_Some_iff split: if_splits option.splits)
  then show ?thesis by (simp add: run_task_def Let_def TFlow run locked_dir_def become_def)
next
  case (TBlobAdmitted u)
  obtain d' br where "begin_blob (wd_dir s) (rc_limits (wd_rec s)) u = (d', br)" by fastforce
  with assms show ?thesis
    by (cases br) (simp_all add: run_task_def Let_def TBlobAdmitted become_def closed_frame_def)
next
  case (TFinish stage)
  obtain d' r' stage' where run: "finish_step C X stage (wd_dir s) (wd_rec s) = (d', r', stage')" by (rule prod_cases3)
  from finish_step_closed [OF this assms] show ?thesis by (simp add: run_task_def Let_def TFinish run become_def)
qed (use assms in \<open>simp_all add: run_task_def Let_def shut_sections locked_def locked_dir_def become_def closed_frame_def\<close>)

lemma act_closed:
  assumes "rc_shutdown (wd_rec s)"
  shows "closed_frame (wd_rec s) (wd_rec (act C X a s))"
proof (cases a)
  case (Run i)
  with assms run_task_closed [OF assms] show ?thesis by (simp add: act_def closed_frame_def)
qed (use assms in \<open>auto simp: act_def on_body_def become_def spawn_def admit_def closed_frame_def shut_sections
      split: task.splits prod.splits\<close>)

lemma run_closed:
  "rc_shutdown (wd_rec s) \<Longrightarrow> closed_frame (wd_rec s) (wd_rec (run_schedule C X acts s))"
proof (induction acts rule: rev_induct)
  case (snoc a acts)
  then have "closed_frame (wd_rec s) (wd_rec (run_schedule C X acts s))" by simp
  with act_closed [of "run_schedule C X acts s" C X a] show ?case
    by (auto simp: run_schedule_snoc closed_frame_def)
qed (simp add: run_schedule_def closed_frame_def)

lemma log_collects:
  assumes "try_fold (collect_101 C line_limit) ids (map (\<lambda>fl. the (cd_flow_to C fl) @ [newline]) flows) = Inr ids'"
    and "\<forall>fl\<in>set flows. cd_flow_from C (the (cd_flow_to C fl) @ [newline]) = Some fl"
  shows "set ids' = set ids \<union> upgraded flows"
  using assms
proof (induction flows arbitrary: ids)
  case (Cons fl flows)
  then have "collect_101 C line_limit ids (the (cd_flow_to C fl) @ [newline])
      = Inr (if is_websocket_101 fl then List.insert (fl_id fl) ids else ids)"
    by (auto simp: collect_101_def rbind_Inr_iff if_Inl_eq_Inr split: if_splits)
  with Cons.prems(1) have
    "try_fold (collect_101 C line_limit) (if is_websocket_101 fl then List.insert (fl_id fl) ids else ids)
       (map (\<lambda>fl. the (cd_flow_to C fl) @ [newline]) flows) = Inr ids'" by simp
  from Cons.IH [OF this] Cons.prems(2) show ?case by (auto simp: upgraded_def)
qed (simp add: upgraded_def)

lemma upgrade_needs_conversations:
  assumes "staged C flows d w" and "\<forall>fl\<in>set flows. flow_coded C fl" and "fl \<in> set flows" "is_websocket_101 fl"
    and "\<forall>e\<in>set es. ext_name e \<noteq> ''websocket-messages''"
  shows "validate_websocket_fixture C X d es line_limit blob_limit \<noteq> Inr u"
proof
  assume "validate_websocket_fixture C X d es line_limit blob_limit = Inr u"
  moreover have "find (\<lambda>e. ext_name e = ''websocket-messages'') es = None" using assms(5) by (auto simp: find_None_iff)
  ultimately have none: "try_fold (collect_101 C line_limit) [] (jsonl_lines (log_of C flows)) = Inr []"
    using assms(1) by (auto simp: validate_websocket_fixture_def staged_def rbind_Inr_iff if_Inl_eq_Inr)
  have ok: "\<forall>fl\<in>set flows. appendable C (sw_limits w) fl \<and> flow_coded C fl" using assms(1,2) by (simp add: staged_def)
  then have "\<forall>fl\<in>set flows. cd_flow_from C (the (cd_flow_to C fl) @ [newline]) = Some fl"
    by (auto simp: appendable_def flow_coded_def)
  from log_collects [OF none [unfolded jsonl_lines_log [OF ok]] this] assms(3,4) show False by (auto simp: upgraded_def)
qed

text \<open>A call of \<open>finish\<close> that has not passed the check of the conversations.\<close>

fun before_check :: "task \<Rightarrow> bool" where
  "before_check (TFinish (FsManifest n)) = False"
| "before_check (TFinish FsRename) = False"
| "before_check (TFinish (FsDone result)) = (\<not> is_ok result)"
| "before_check _ = True"

definition stuck :: "world \<Rightarrow> bool" where
  "stuck s \<longleftrightarrow>
     rc_shutdown (wd_rec s) \<and> wa_conversations (rc_websocket (wd_rec s)) = []
     \<and> (\<forall>e\<in>set (rc_extensions (wd_rec s)). ext_name e \<noteq> ''websocket-messages'')
     \<and> (\<exists>fl\<in>set (wd_logged s). is_websocket_101 fl) \<and> wd_published s = None \<and> list_all before_check (wd_tasks s)"

lemma finish_step_stuck:
  assumes "finish_step C X stage d r = (d', r', stage')" and "before_check (TFinish stage)"
    and "wa_conversations (rc_websocket r) = []" and "\<forall>e\<in>set (rc_extensions r). ext_name e \<noteq> ''websocket-messages''"
    and "staged C flows d w" and "\<forall>fl\<in>set flows. flow_coded C fl" and "fl \<in> set flows" "is_websocket_101 fl"
  shows "stage \<noteq> FsRename \<and> before_check (TFinish stage')
    \<and> (\<forall>e\<in>set (rc_extensions r'). ext_name e \<noteq> ''websocket-messages'')"
proof (cases stage)
  case (FsEvents n)
  show ?thesis
  proof (cases "recording_events_extension C d r")
    case (Inr p)
    with assms FsEvents have "recording_events_extension C d r = Inr (d', r')" "stage' = FsWebsocket n"
      by (auto simp: finish_step_def split: prod.splits)
    with recording_events_extension_cases [OF this(1)] write_extension_file_Inr assms(4) FsEvents
    show ?thesis by (fastforce simp: stream_extension_def)
  qed (use assms FsEvents in \<open>auto simp: finish_step_def is_ok_def\<close>)
next
  case (FsWebsocket n)
  with assms show ?thesis by (auto simp: finish_step_def recording_websocket_extension_def)
next
  case (FsChecking n)
  with assms upgrade_needs_conversations [OF assms(5-8,4), of X "sl_max_line_bytes (rc_limits r)" "sl_max_blob_bytes (rc_limits r)"]
  show ?thesis by (auto simp: finish_step_def is_ok_def split: sum.splits)
next
  case (FsDriving n)
  with assms show ?thesis by (cases n) (auto simp: finish_step_def is_ok_def split: if_splits)
qed (use assms in \<open>auto simp: finish_step_def is_ok_def split: if_splits\<close>)

lemma before_check_become: "list_all before_check ts \<Longrightarrow> before_check t \<Longrightarrow> list_all before_check (ts[i := t])"
  by (rule list_all_become)

lemma run_task_stuck:
  assumes "stuck s" and "staged C (wd_logged s) (wd_dir s) w" and "\<forall>fl\<in>set (wd_logged s). flow_coded C fl"
    and "t \<in> set (wd_tasks s)"
  shows "stuck (run_task C X i t s)"
proof -
  let ?s = "run_task C X i t s"
  from assms(1) have shut: "rc_shutdown (wd_rec s)" and tasks: "list_all before_check (wd_tasks s)"
    and none: "wd_published s = None" by (simp_all add: stuck_def)
  from run_task_closed [OF shut, of C X i t] assms(1)
  have closed: "rc_shutdown (wd_rec ?s)" "wa_conversations (rc_websocket (wd_rec ?s)) = []"
    by (simp_all add: closed_frame_def stuck_def)
  have suffices: "stuck ?s" if "rc_extensions (wd_rec ?s) = rc_extensions (wd_rec s)" "wd_tasks ?s = (wd_tasks s)[i := t']"
      "before_check t'" "wd_published ?s = None" "set (wd_logged s) \<subseteq> set (wd_logged ?s)" for t'
    using that closed tasks assms(1) before_check_become by (auto simp: stuck_def)
  show ?thesis
  proof (cases t)
    case (TFlow fl encoded)
    obtain d' r' res where run: "append_flow_locked fl encoded (wd_dir s) (wd_rec s) = (d', r', res)" by (rule prod_cases3)
    then have "rc_extensions r' = rc_extensions (wd_rec s)"
      by (auto simp: append_flow_locked_def simp del: checked_add_Some_iff split: if_splits option.splits)
    then show ?thesis
      by (intro suffices [of "TDone res"]) (simp_all add: run_task_def Let_def TFlow run locked_dir_def become_def none)
  next
    case (TFinish stage)
    obtain d' r' stage' where run: "finish_step C X stage (wd_dir s) (wd_rec s) = (d', r', stage')" by (rule prod_cases3)
    have "before_check (TFinish stage)" using tasks assms(4) TFinish by (auto simp: list_all_iff)
    with finish_step_stuck [OF run this _ _ assms(2,3)] assms(1)
    have "stage \<noteq> FsRename \<and> before_check (TFinish stage')
        \<and> (\<forall>e\<in>set (rc_extensions r'). ext_name e \<noteq> ''websocket-messages'')"
      by (auto simp: stuck_def)
    then show ?thesis
      using closed assms(1) tasks before_check_become
      by (auto simp: stuck_def run_task_def Let_def TFinish run become_def)
  next
    case (TBlobAdmitted u)
    obtain d' br where run: "begin_blob (wd_dir s) (rc_limits (wd_rec s)) u = (d', br)" by fastforce
    show ?thesis
      by (intro suffices [of "case br of Inl e \<Rightarrow> TDone (Inl e) | Inr w \<Rightarrow> TBlobCreated w"])
        (auto simp: run_task_def Let_def TBlobAdmitted run become_def none split: sum.splits)
  next
    case (TBlobCreated w)
    show ?thesis by (intro suffices [of "TBlob w"]) (auto simp: run_task_def Let_def TBlobCreated become_def none)
  next
    case (TBlob w)
    with assms(1) show ?thesis by (simp add: run_task_def Let_def)
  next
    case (TDone res)
    with assms(1) show ?thesis by (simp add: run_task_def Let_def)
  next
    case TRelease
    show ?thesis by (intro suffices [of "TDone (Inr ())"]) (auto simp: run_task_def Let_def TRelease become_def none)
  next
    case TFinalizer
    show ?thesis
      by (intro suffices [of "TDone (Inl (StInvalid ''cannot register conversation finalizer after shutdown''))"])
        (auto simp: run_task_def Let_def TFinalizer shut_sections [OF shut] locked_def become_def none)
  next
    case (TExtension e content)
    show ?thesis
      by (intro suffices [of "TDone (Inl shutting_down)"])
        (auto simp: run_task_def Let_def TExtension shut_sections [OF shut] locked_dir_def become_def none)
  next
    case (TEvents events)
    show ?thesis
      by (intro suffices [of "TDone (Inl shutting_down)"])
        (auto simp: run_task_def Let_def TEvents shut_sections [OF shut] locked_def become_def none)
  next
    case (TConversation c)
    show ?thesis
      by (intro suffices [of "TDone (Inl shutting_down)"])
        (auto simp: run_task_def Let_def TConversation shut_sections [OF shut] locked_def become_def none)
  qed
qed

lemma act_stuck:
  assumes "stuck s" and "staged C (wd_logged s) (wd_dir s) w" and "\<forall>fl\<in>set (wd_logged s). flow_coded C fl"
  shows "stuck (act C X a s)"
proof (cases a)
  case (Run i)
  have "wd_published s = None" using assms(1) by (simp add: stuck_def)
  with Run assms(1) run_task_stuck [OF assms nth_mem] show ?thesis by (simp add: act_def)
qed (use assms(1) before_check_become in \<open>auto simp: act_def on_body_def become_def spawn_def admit_def stuck_def shut_sections
      is_ok_def split: task.splits prod.splits\<close>)

text \<open>
  A conversation still open when \<open>finish\<close> is called loses the recording. \<open>finish\<close> stops
  the admission before it waits for the registered conversations, and the conversation's append is
  refused from then on: with an upgraded flow logged and no conversation appended before the
  shutdown, no schedule makes \<open>finish\<close> succeed, however long it waits.
\<close>

theorem open_conversation_loses_the_recording:
  assumes "recording_create fsys destination metadata lim u = (fsys1, Inr r0)" and "fsys1 (rc_staging r0) = Some d0"
    and "s = run_schedule C X acts (world_start d0 r0)" and "stuck s" and "\<forall>fl. flow_coded C fl"
  shows "TFinish (FsDone (Inr se)) \<notin> set (wd_tasks (run_schedule C X acts' s))
    \<and> wd_published (run_schedule C X acts' s) = None"
proof -
  have inv: "recording_inv C X s" using run_inv [OF recording_start(1) [OF assms(1,2)]] assms(3) by simp
  have "stuck (run_schedule C X acts' s)"
  proof (induction acts' rule: rev_induct)
    case (snoc a acts')
    have "staged C (wd_logged (run_schedule C X acts' s)) (wd_dir (run_schedule C X acts' s))
        (as_writer (wd_rec (run_schedule C X acts' s)))"
      using run_inv [OF inv, of acts'] by (simp add: recording_inv_def)
    from act_stuck [OF snoc.IH this] assms(5) show ?case by (simp add: run_schedule_snoc)
  qed (use assms(4) in \<open>simp add: run_schedule_def\<close>)
  then show ?thesis by (auto simp: stuck_def list_all_iff is_ok_def)
qed

section \<open>Demonstration schedules\<close>

definition demo_recording :: recording where
  "demo_recording =
     \<lparr>rc_destination = (''out'', ''s''), rc_staging = (''out'', ''.s.incomplete-7''),
      rc_metadata = session_metadata_default ''0.1'', rc_limits = store_limits_default, rc_flows = True,
      rc_flow_count = 0, rc_total_bytes = 0, rc_active_blobs = 0, rc_shutdown = False, rc_extensions = [],
      rc_stream_events = stream_events_default, rc_stream_event_ids = [], rc_stream_event_records = 0,
      rc_stream_event_object_bytes = 0, rc_websocket = ws_accumulation_default, rc_finalizers = 0\<rparr>"

abbreviation demo_empty :: fixture_dir where
  "demo_empty \<equiv> \<lparr>fd_files = [(''flows.jsonl'', RegularFile [])], fd_blobs = Some []\<rparr>"

lemma demo_recording_create:
  "recording_create Map.empty (''out'', ''s'') (session_metadata_default ''0.1'') store_limits_default ''7'' =
     ([(''out'', ''.s.incomplete-7'') \<mapsto> demo_empty], Inr demo_recording)"
  "[(''out'', ''.s.incomplete-7'') \<mapsto> demo_empty] (rc_staging demo_recording) = Some demo_empty"
  by (simp_all add: recording_create_def Let_def known_session_schema_def session_metadata_default_def SESSION_SCHEMA_V1_def
      SESSION_SCHEMA_VERSION_def staging_path_def demo_recording_def byte_in_def byte_val_def)

text \<open>A body is written while a flow is appended; then the recording is finished.\<close>

definition demo_open_schedule :: "action list" where
  "demo_open_schedule =
     [StartBlob ''1'', StartFlow sample_flow, Run 0, Run 0, WriteBody 0 ''a'', Run 1, WriteBody 0 ''b'', FinishBody 0, Run 0]"

definition demo_schedule :: "action list" where
  "demo_schedule = demo_open_schedule @ StartFinish # replicate 9 (Run 2)"

definition demo_outcome :: "codec \<Rightarrow> action list \<Rightarrow> world" where
  "demo_outcome C acts = run_schedule C demo_lib acts (world_start demo_empty demo_recording)"

lemma demo_open_outcome:
  "rc_flows (wd_rec (demo_outcome demo_codec demo_open_schedule))"
  "wd_logged (demo_outcome demo_codec demo_open_schedule) = [sample_flow]"
  by code_simp+

lemma demo_final_outcome:
  "wd_tasks (demo_outcome demo_codec demo_schedule) =
     [TDone (Inr ()), TDone (Inr ()), TFinish (FsDone (Inr \<lparr>se_root = (''out'', ''s''), se_manifest = demo_manifest 1,
        se_limits = store_limits_default\<rparr>))]"
  "wd_logged (demo_outcome demo_codec demo_schedule) = [sample_flow]"
  by code_simp+


lemma concurrent_recording_publishes_its_log_witness:
  "\<exists>d. wd_published (demo_outcome demo_codec demo_schedule) = Some d
     \<and> reads_flows demo_codec demo_lib store_limits_default d [sample_flow]"
proof -
  have "\<forall>fl\<in>set (wd_logged (demo_outcome demo_codec demo_schedule)). flow_coded demo_codec fl"
    by (simp add: demo_final_outcome flow_coded_def demo_codec_def)
  from concurrent_recording_publishes_its_log [OF demo_recording_create demo_outcome_def _ this]
  show ?thesis by (auto simp: demo_final_outcome)
qed

definition demo_upgrade :: flow where
  "demo_upgrade = sample_flow\<lparr>
     fl_request := sample_request\<lparr>req_headers := [\<lparr>h_name = ''Upgrade'', h_value = ''websocket''\<rparr>]\<rparr>,
     fl_outcome := OutResponse (sample_response\<lparr>resp_status := 101\<rparr>)\<rparr>"

definition upgrade_codec :: codec where
  "upgrade_codec = demo_codec
     \<lparr>cd_flow_to := (\<lambda>fl. if fl = demo_upgrade then Some ''U'' else None),
      cd_flow_from := (\<lambda>b. if b = [CHR ''U'', newline] then Some demo_upgrade else None)\<rparr>"

text \<open>An upgraded flow, its finalizer, and \<open>finish\<close> before the conversation is appended.\<close>

definition demo_upgrade_schedule :: "action list" where
  "demo_upgrade_schedule = [StartFlow demo_upgrade, Run 0, StartFinalizer, Run 1, StartFinish]"

lemma open_conversation_loses_the_recording_witness:
  "stuck (demo_outcome upgrade_codec demo_upgrade_schedule)
   \<and> wd_published (run_schedule upgrade_codec demo_lib [StartConversation (sample_conversation\<lparr>wc_flow_id := fl_id demo_upgrade\<rparr>),
          Run 3, Run 2, Run 2, Run 2, Run 2]
        (demo_outcome upgrade_codec demo_upgrade_schedule)) = None"
proof -
  have coded: "\<forall>fl. flow_coded upgrade_codec fl" by (simp add: flow_coded_def upgrade_codec_def)
  have stuck: "stuck (demo_outcome upgrade_codec demo_upgrade_schedule)" by code_simp
  from open_conversation_loses_the_recording [OF demo_recording_create demo_outcome_def this coded] stuck
  show ?thesis by blast
qed

text \<open>
  The shutdown can race a body. A call of \<open>begin_blob\<close> admitted before the shutdown creates
  its staging file after \<open>finish\<close> has found no active body: the session is published, without an
  error, while that body is open, and its staging file is counted as a blob of the manifest.
\<close>

definition race_schedule :: "action list" where
  "race_schedule = [StartBlob ''1'', StartFinish, Run 1, Run 0, Run 0] @ replicate 8 (Run 1)"

theorem finish_races_with_begin_blob:
  "\<exists>d se. wd_published (demo_outcome demo_codec race_schedule) = Some d
     \<and> map fst (blob_entries d) = [staging_name ''1''] \<and> mf_blob_count (se_manifest se) = 1
     \<and> wd_tasks (demo_outcome demo_codec race_schedule)
         = [TBlob \<lparr>bw_file = True, bw_path = staging_name ''1'', bw_hasher = [], bw_length = 0, bw_max_bytes = 67108864\<rparr>,
            TFinish (FsDone (Inr se))]"
proof -
  have "wd_published (demo_outcome demo_codec race_schedule) =
      Some \<lparr>fd_files = [(''flows.jsonl'', RegularFile []), (''manifest.json'', RegularFile [CHR ''L'', newline])],
        fd_blobs = Some [(staging_name ''1'', RegularFile [])]\<rparr>"
    and "wd_tasks (demo_outcome demo_codec race_schedule)
         = [TBlob \<lparr>bw_file = True, bw_path = staging_name ''1'', bw_hasher = [], bw_length = 0, bw_max_bytes = 67108864\<rparr>,
            TFinish (FsDone (Inr \<lparr>se_root = (''out'', ''s''), se_manifest = demo_manifest 0,
              se_limits = store_limits_default\<rparr>))]"
    by code_simp+
  then show ?thesis by (auto simp: blob_entries_def demo_manifest_def)
qed

end
