(* ===== verification/Har_Document.thy ===== *)
theory Har_Document
  imports Store_Copy Redaction
begin

text \<open>
  The data of \<^verbatim>\<open>crates/eggreplay-har/src/lib.rs\<close>: the tolerant HAR 1.2 document with the decoder
  that its \<^verbatim>\<open>serde\<close> attributes describe, the loss reports, the errors, the double-precision numbers
  of HAR timings, and the external code of the crate as the parameter \<open>har_lib\<close>.
\<close>

section \<open>Losses, reports and errors\<close>

definition HAR_VERSION_1_2 :: string where "HAR_VERSION_1_2 = ''1.2''"
definition MAX_HAR_FILE_BYTES :: usize where "MAX_HAR_FILE_BYTES = 32 * 1024 * 1024"
definition MAX_HAR_ENTRIES :: usize where "MAX_HAR_ENTRIES = 100000"
definition INTEROP_PROVENANCE_SCHEMA_VERSION :: u16 where "INTEROP_PROVENANCE_SCHEMA_VERSION = 1"
definition HAR_LOSSY_NOTICE :: string where
  "HAR_LOSSY_NOTICE = ''Lossy HAR export from EggReplay; not round-trip lossless. See log._eggreplay.losses.''"

definition CURRENT_SESSION_SCHEMA :: u16 where "CURRENT_SESSION_SCHEMA = SESSION_SCHEMA_VERSION"

definition KNOWN_EXTENSIONS :: "(string \<times> u16) list" where
  "KNOWN_EXTENSIONS =
     [(''rules'', RULES_SCHEMA_VERSION), (''stream-events'', STREAM_EVENTS_SCHEMA_VERSION),
      (''websocket-messages'', WEBSOCKET_SCHEMA_VERSION),
      (''interop-provenance'', INTEROP_PROVENANCE_SCHEMA_VERSION)]"

datatype loss_action = Preserved | Annotated | Omitted | Redacted | Rejected

record har_loss =
  hl_entry_index :: "usize option"
  hl_flow_id :: "string option"
  hl_field :: string
  hl_reason :: string
  hl_action :: loss_action

definition loss_global :: "string \<Rightarrow> string \<Rightarrow> loss_action \<Rightarrow> har_loss" where
  "loss_global field reason action =
     \<lparr>hl_entry_index = None, hl_flow_id = None, hl_field = field, hl_reason = reason, hl_action = action\<rparr>"

definition loss_entry :: "usize \<Rightarrow> string \<Rightarrow> string \<Rightarrow> loss_action \<Rightarrow> har_loss" where
  "loss_entry index field reason action =
     \<lparr>hl_entry_index = Some index, hl_flow_id = None, hl_field = field, hl_reason = reason, hl_action = action\<rparr>"

record import_report =
  ir_flows :: usize
  ir_losses :: "har_loss list"
  ir_entries :: usize

record export_report =
  xr_entries :: usize
  xr_losses :: "har_loss list"

text \<open>
  \<^verbatim>\<open>Redaction(String)\<close> carries a literal of the crate or the error of a body transform;
  \<^verbatim>\<open>UnsupportedEntry\<close> a literal or the error of \<^verbatim>\<open>Flow::validate\<close>. \<open>HarPanicked\<close> is not an error of
  the code: it is the result of a computation that panics.
\<close>

datatype redaction_failure = BodyRefused string | TransformFailed redaction_error

datatype har_error =
    HarInvalid string
  | HarUnsupportedEntry usize "string + flow_error"
  | HarStore store_error
  | HarRedaction redaction_failure
  | HarPanicked

datatype migration_error = MigStore store_error | MigBlocked string

record interop_provenance =
  ip_schema_version :: u16
  ip_tool_version :: string
  ip_source :: string
  ip_har_creator :: "string option"
  ip_entries :: usize
  ip_flows :: usize
  ip_losses :: "har_loss list"

section \<open>The document\<close>

record har_name_value =
  nv_name :: string
  nv_value :: string
  nv_comment :: "string option"

record har_cookie =
  ck_name :: string
  ck_value :: string
  ck_path :: "string option"
  ck_domain :: "string option"
  ck_expires :: "string option"
  ck_http_only :: "bool option"
  ck_secure :: "bool option"
  ck_comment :: "string option"

record har_post_param =
  pp_name :: string
  pp_value :: "string option"
  pp_file_name :: "string option"
  pp_content_type :: "string option"
  pp_comment :: "string option"

record har_post_data =
  pd_mime_type :: string
  pd_params :: "har_post_param list"
  pd_text :: "string option"
  pd_encoding :: "string option"
  pd_comment :: "string option"

record har_content =
  ct_size :: "int option"
  ct_compression :: "json option"
  ct_mime_type :: "string option"
  ct_text :: "string option"
  ct_encoding :: "string option"
  ct_comment :: "string option"

record har_request =
  hq_method :: string
  hq_url :: string
  hq_http_version :: "string option"
  hq_cookies :: "har_cookie list"
  hq_headers :: "har_name_value list"
  hq_query_string :: "har_name_value list"
  hq_post_data :: "har_post_data option"
  hq_headers_size :: "json option"
  hq_body_size :: "json option"
  hq_comment :: "string option"

record har_response =
  hr_status :: json
  hr_status_text :: "string option"
  hr_http_version :: "string option"
  hr_cookies :: "har_cookie list"
  hr_headers :: "har_name_value list"
  hr_content :: "har_content option"
  hr_redirect_url :: "string option"
  hr_headers_size :: "json option"
  hr_body_size :: "json option"
  hr_comment :: "string option"

record har_timings =
  tm_blocked :: "json option"
  tm_dns :: "json option"
  tm_connect :: "json option"
  tm_send :: "json option"
  tm_wait :: "json option"
  tm_receive :: "json option"
  tm_ssl :: "json option"
  tm_comment :: "string option"

record har_entry =
  he_pageref :: "string option"
  he_started :: "string option"
  he_time :: "json option"
  he_request :: har_request
  he_response :: har_response
  he_cache :: "json option"
  he_timings :: "har_timings option"
  he_server_ip :: "string option"
  he_connection :: "string option"
  he_comment :: "string option"

record har_creator =
  cr_name :: string
  cr_version :: string
  cr_comment :: "string option"

record har_log =
  lg_version :: string
  lg_creator :: "har_creator option"
  lg_browser :: "json option"
  lg_pages :: "json list option"
  lg_entries :: "har_entry list"
  lg_comment :: "string option"

record har_document =
  doc_log :: har_log

section \<open>Reading a document from JSON\<close>

text \<open>
  What the derived \<^verbatim>\<open>Deserialize\<close> does with a JSON value: a member is looked up by the name of its
  \<^verbatim>\<open>rename\<close>; a missing \<^verbatim>\<open>Option\<close> and a \<^verbatim>\<open>null\<close> are \<open>None\<close>; a missing \<^verbatim>\<open>default\<close> member is empty; unknown
  members are ignored; a member of the wrong type is an error. \<open>None\<close> is that error. (The decoders
  are for the JSON objects the export writes; reading the text of a document is a parameter.)
\<close>

fun js_string :: "json \<Rightarrow> string option" where
  "js_string (JString s) = Some s"
| "js_string _ = None"

fun js_bool :: "json \<Rightarrow> bool option" where
  "js_bool (JBool b) = Some b"
| "js_bool _ = None"

text \<open>The decimal rendering of an integer in the range of \<^verbatim>\<open>i64\<close>.\<close>

fun js_i64 :: "json \<Rightarrow> int option" where
  "js_i64 (JNumber s) =
     (if starts_with ''-'' s then map_option (\<lambda>n. - int n) (parse_uint (2 ^ 63 + 1) (tl s))
      else map_option int (parse_uint (2 ^ 63) s))"
| "js_i64 _ = None"

fun collect_opt :: "('a \<Rightarrow> 'b option) \<Rightarrow> 'a list \<Rightarrow> 'b list option" where
  "collect_opt f [] = Some []"
| "collect_opt f (x # xs) =
     Option.bind (f x) (\<lambda>y. map_option (\<lambda>ys. y # ys) (collect_opt f xs))"

fun js_list :: "(json \<Rightarrow> 'a option) \<Rightarrow> json \<Rightarrow> 'a list option" where
  "js_list f (JArray xs) = collect_opt f xs"
| "js_list f _ = None"

type_synonym members = "(string \<times> json) list"

definition fld :: "members \<Rightarrow> string \<Rightarrow> (json \<Rightarrow> 'a option) \<Rightarrow> 'a option" where
  "fld m k f = Option.bind (map_of m k) f"

definition fld_or :: "members \<Rightarrow> string \<Rightarrow> 'a \<Rightarrow> (json \<Rightarrow> 'a option) \<Rightarrow> 'a option" where
  "fld_or m k d f = (case map_of m k of None \<Rightarrow> Some d | Some v \<Rightarrow> f v)"

definition fld_opt :: "members \<Rightarrow> string \<Rightarrow> (json \<Rightarrow> 'a option) \<Rightarrow> 'a option option" where
  "fld_opt m k f =
     (case map_of m k of None \<Rightarrow> Some None | Some JNull \<Rightarrow> Some None | Some v \<Rightarrow> map_option Some (f v))"

fun de_name_value :: "json \<Rightarrow> har_name_value option" where
  "de_name_value (JObject m) =
     Option.bind (fld m ''name'' js_string) (\<lambda>name.
     Option.bind (fld m ''value'' js_string) (\<lambda>val.
     Option.bind (fld_opt m ''comment'' js_string) (\<lambda>comment.
     Some \<lparr>nv_name = name, nv_value = val, nv_comment = comment\<rparr>)))"
| "de_name_value _ = None"

fun de_cookie :: "json \<Rightarrow> har_cookie option" where
  "de_cookie (JObject m) =
     Option.bind (fld m ''name'' js_string) (\<lambda>name.
     Option.bind (fld m ''value'' js_string) (\<lambda>val.
     Option.bind (fld_opt m ''path'' js_string) (\<lambda>path.
     Option.bind (fld_opt m ''domain'' js_string) (\<lambda>domain.
     Option.bind (fld_opt m ''expires'' js_string) (\<lambda>expires.
     Option.bind (fld_opt m ''httpOnly'' js_bool) (\<lambda>http_only.
     Option.bind (fld_opt m ''secure'' js_bool) (\<lambda>secure.
     Option.bind (fld_opt m ''comment'' js_string) (\<lambda>comment.
     Some \<lparr>ck_name = name, ck_value = val, ck_path = path, ck_domain = domain, ck_expires = expires,
           ck_http_only = http_only, ck_secure = secure, ck_comment = comment\<rparr>))))))))"
| "de_cookie _ = None"

fun de_post_param :: "json \<Rightarrow> har_post_param option" where
  "de_post_param (JObject m) =
     Option.bind (fld_or m ''name'' [] js_string) (\<lambda>name.
     Option.bind (fld_opt m ''value'' js_string) (\<lambda>val.
     Option.bind (fld_opt m ''fileName'' js_string) (\<lambda>file_name.
     Option.bind (fld_opt m ''contentType'' js_string) (\<lambda>content_type.
     Option.bind (fld_opt m ''comment'' js_string) (\<lambda>comment.
     Some \<lparr>pp_name = name, pp_value = val, pp_file_name = file_name, pp_content_type = content_type,
           pp_comment = comment\<rparr>)))))"
| "de_post_param _ = None"

fun de_post_data :: "json \<Rightarrow> har_post_data option" where
  "de_post_data (JObject m) =
     Option.bind (fld_or m ''mimeType'' [] js_string) (\<lambda>mime_type.
     Option.bind (fld_or m ''params'' [] (js_list de_post_param)) (\<lambda>params.
     Option.bind (fld_opt m ''text'' js_string) (\<lambda>text.
     Option.bind (fld_opt m ''encoding'' js_string) (\<lambda>encoding.
     Option.bind (fld_opt m ''comment'' js_string) (\<lambda>comment.
     Some \<lparr>pd_mime_type = mime_type, pd_params = params, pd_text = text, pd_encoding = encoding,
           pd_comment = comment\<rparr>)))))"
| "de_post_data _ = None"

fun de_content :: "json \<Rightarrow> har_content option" where
  "de_content (JObject m) =
     Option.bind (fld_opt m ''size'' js_i64) (\<lambda>size.
     Option.bind (fld_opt m ''compression'' Some) (\<lambda>compression.
     Option.bind (fld_opt m ''mimeType'' js_string) (\<lambda>mime_type.
     Option.bind (fld_opt m ''text'' js_string) (\<lambda>text.
     Option.bind (fld_opt m ''encoding'' js_string) (\<lambda>encoding.
     Option.bind (fld_opt m ''comment'' js_string) (\<lambda>comment.
     Some \<lparr>ct_size = size, ct_compression = compression, ct_mime_type = mime_type, ct_text = text,
           ct_encoding = encoding, ct_comment = comment\<rparr>))))))"
| "de_content _ = None"

fun de_request :: "json \<Rightarrow> har_request option" where
  "de_request (JObject m) =
     Option.bind (fld m ''method'' js_string) (\<lambda>meth.
     Option.bind (fld m ''url'' js_string) (\<lambda>url.
     Option.bind (fld_opt m ''httpVersion'' js_string) (\<lambda>http_version.
     Option.bind (fld_or m ''cookies'' [] (js_list de_cookie)) (\<lambda>cookies.
     Option.bind (fld_or m ''headers'' [] (js_list de_name_value)) (\<lambda>headers.
     Option.bind (fld_or m ''queryString'' [] (js_list de_name_value)) (\<lambda>query_string.
     Option.bind (fld_opt m ''postData'' de_post_data) (\<lambda>post_data.
     Option.bind (fld_opt m ''headersSize'' Some) (\<lambda>headers_size.
     Option.bind (fld_opt m ''bodySize'' Some) (\<lambda>body_size.
     Option.bind (fld_opt m ''comment'' js_string) (\<lambda>comment.
     Some \<lparr>hq_method = meth, hq_url = url, hq_http_version = http_version, hq_cookies = cookies,
           hq_headers = headers, hq_query_string = query_string, hq_post_data = post_data,
           hq_headers_size = headers_size, hq_body_size = body_size, hq_comment = comment\<rparr>))))))))))"
| "de_request _ = None"

fun de_response :: "json \<Rightarrow> har_response option" where
  "de_response (JObject m) =
     Option.bind (fld m ''status'' Some) (\<lambda>status.
     Option.bind (fld_opt m ''statusText'' js_string) (\<lambda>status_text.
     Option.bind (fld_opt m ''httpVersion'' js_string) (\<lambda>http_version.
     Option.bind (fld_or m ''cookies'' [] (js_list de_cookie)) (\<lambda>cookies.
     Option.bind (fld_or m ''headers'' [] (js_list de_name_value)) (\<lambda>headers.
     Option.bind (fld_opt m ''content'' de_content) (\<lambda>content.
     Option.bind (fld_opt m ''redirectURL'' js_string) (\<lambda>redirect_url.
     Option.bind (fld_opt m ''headersSize'' Some) (\<lambda>headers_size.
     Option.bind (fld_opt m ''bodySize'' Some) (\<lambda>body_size.
     Option.bind (fld_opt m ''comment'' js_string) (\<lambda>comment.
     Some \<lparr>hr_status = status, hr_status_text = status_text, hr_http_version = http_version,
           hr_cookies = cookies, hr_headers = headers, hr_content = content,
           hr_redirect_url = redirect_url, hr_headers_size = headers_size, hr_body_size = body_size,
           hr_comment = comment\<rparr>))))))))))"
| "de_response _ = None"

fun de_timings :: "json \<Rightarrow> har_timings option" where
  "de_timings (JObject m) =
     Option.bind (fld_opt m ''blocked'' Some) (\<lambda>blocked.
     Option.bind (fld_opt m ''dns'' Some) (\<lambda>dns.
     Option.bind (fld_opt m ''connect'' Some) (\<lambda>connect.
     Option.bind (fld_opt m ''send'' Some) (\<lambda>send.
     Option.bind (fld_opt m ''wait'' Some) (\<lambda>wait.
     Option.bind (fld_opt m ''receive'' Some) (\<lambda>receive.
     Option.bind (fld_opt m ''ssl'' Some) (\<lambda>ssl.
     Option.bind (fld_opt m ''comment'' js_string) (\<lambda>comment.
     Some \<lparr>tm_blocked = blocked, tm_dns = dns, tm_connect = connect, tm_send = send, tm_wait = wait,
           tm_receive = receive, tm_ssl = ssl, tm_comment = comment\<rparr>))))))))"
| "de_timings _ = None"

fun de_entry :: "json \<Rightarrow> har_entry option" where
  "de_entry (JObject m) =
     Option.bind (fld_opt m ''pageref'' js_string) (\<lambda>pageref.
     Option.bind (fld_opt m ''startedDateTime'' js_string) (\<lambda>started.
     Option.bind (fld_opt m ''time'' Some) (\<lambda>time.
     Option.bind (fld m ''request'' de_request) (\<lambda>request.
     Option.bind (fld m ''response'' de_response) (\<lambda>response.
     Option.bind (fld_opt m ''cache'' Some) (\<lambda>cache.
     Option.bind (fld_opt m ''timings'' de_timings) (\<lambda>timings.
     Option.bind (fld_opt m ''serverIPAddress'' js_string) (\<lambda>server_ip.
     Option.bind (fld_opt m ''connection'' js_string) (\<lambda>connection.
     Option.bind (fld_opt m ''comment'' js_string) (\<lambda>comment.
     Some \<lparr>he_pageref = pageref, he_started = started, he_time = time, he_request = request,
           he_response = response, he_cache = cache, he_timings = timings, he_server_ip = server_ip,
           he_connection = connection, he_comment = comment\<rparr>))))))))))"
| "de_entry _ = None"

fun de_creator :: "json \<Rightarrow> har_creator option" where
  "de_creator (JObject m) =
     Option.bind (fld_or m ''name'' [] js_string) (\<lambda>name.
     Option.bind (fld_or m ''version'' [] js_string) (\<lambda>version.
     Option.bind (fld_opt m ''comment'' js_string) (\<lambda>comment.
     Some \<lparr>cr_name = name, cr_version = version, cr_comment = comment\<rparr>)))"
| "de_creator _ = None"

fun de_log :: "json \<Rightarrow> har_log option" where
  "de_log (JObject m) =
     Option.bind (fld m ''version'' js_string) (\<lambda>version.
     Option.bind (fld_opt m ''creator'' de_creator) (\<lambda>creator.
     Option.bind (fld_opt m ''browser'' Some) (\<lambda>browser.
     Option.bind (fld_opt m ''pages'' (js_list Some)) (\<lambda>pages.
     Option.bind (fld m ''entries'' (js_list de_entry)) (\<lambda>entries.
     Option.bind (fld_opt m ''comment'' js_string) (\<lambda>comment.
     Some \<lparr>lg_version = version, lg_creator = creator, lg_browser = browser, lg_pages = pages,
           lg_entries = entries, lg_comment = comment\<rparr>))))))"
| "de_log _ = None"

fun de_document :: "json \<Rightarrow> har_document option" where
  "de_document (JObject m) = Option.bind (fld m ''log'' de_log) (\<lambda>log. Some \<lparr>doc_log = log\<rparr>)"
| "de_document _ = None"

section \<open>Double precision\<close>

text \<open>
  \<^verbatim>\<open>f64\<close>: a finite number is a sign, a significand and a binary exponent. Only what the crate does
  with a timing is needed: parsing, comparing with zero, and rounding into a bounded integer.
\<close>

datatype f64 = F64_NaN | F64_Infinite bool | F64_Finite bool nat int

fun bit_length :: "nat \<Rightarrow> nat" where
  "bit_length n = (if n = 0 then 0 else Suc (bit_length (n div 2)))"

declare bit_length.simps [simp del]

definition floor_log2_ratio :: "nat \<Rightarrow> nat \<Rightarrow> int" where
  "floor_log2_ratio n d =
     (let k = int (bit_length n) - int (bit_length d)
      in if (if 0 \<le> k then d * 2 ^ nat k \<le> n else d \<le> n * 2 ^ nat (- k)) then k else k - 1)"

text \<open>The nearest double to the ratio of two naturals, ties to even.\<close>

definition f64_of_ratio :: "bool \<Rightarrow> nat \<Rightarrow> nat \<Rightarrow> f64" where
  "f64_of_ratio neg n d =
     (if n = 0 then F64_Finite neg 0 0
      else let e = max (- 1074) (floor_log2_ratio n d - 52);
               num = (if 0 \<le> e then n else n * 2 ^ nat (- e));
               den = (if 0 \<le> e then d * 2 ^ nat e else d);
               q = num div den; r = num mod den;
               m = (if 2 * r > den \<or> (2 * r = den \<and> odd q) then Suc q else q)
           in if 971 < e \<or> (e = 971 \<and> m = 2 ^ 53) then F64_Infinite neg else F64_Finite neg m e)"

definition f64_is_nan :: "f64 \<Rightarrow> bool" where
  "f64_is_nan x \<longleftrightarrow> x = F64_NaN"

fun f64_is_infinite :: "f64 \<Rightarrow> bool" where
  "f64_is_infinite (F64_Infinite _) = True"
| "f64_is_infinite _ = False"

fun f64_less_zero :: "f64 \<Rightarrow> bool" where
  "f64_less_zero (F64_Infinite neg) = neg"
| "f64_less_zero (F64_Finite neg m _) = (neg \<and> m \<noteq> 0)"
| "f64_less_zero F64_NaN = False"

fun f64_ge_zero :: "f64 \<Rightarrow> bool" where
  "f64_ge_zero F64_NaN = False"
| "f64_ge_zero x = (\<not> f64_less_zero x)"

text \<open>\<^verbatim>\<open>value.round().clamp(0.0, bound) as u64\<close>: halves away from zero; \<^verbatim>\<open>NaN as u64\<close> is zero.\<close>

fun f64_round_clamp :: "f64 \<Rightarrow> nat \<Rightarrow> nat" where
  "f64_round_clamp F64_NaN bound = 0"
| "f64_round_clamp (F64_Infinite neg) bound = (if neg then 0 else bound)"
| "f64_round_clamp (F64_Finite neg m e) bound =
     (if neg then 0
      else min bound (if 0 \<le> e then m * 2 ^ nat e else (2 * m + 2 ^ nat (- e)) div (2 * 2 ^ nat (- e))))"

text \<open>
  \<^verbatim>\<open>f64::from_str\<close>: an optional sign, then \<^verbatim>\<open>inf\<close>, \<^verbatim>\<open>infinity\<close> or \<^verbatim>\<open>nan\<close> in any case, or digits with
  at most one point among or around them and an optional exponent.
\<close>

definition dec_all :: "string \<Rightarrow> bool" where
  "dec_all s \<longleftrightarrow> (\<forall>c\<in>set s. is_ascii_digit c)"

definition split_sign :: "string \<Rightarrow> bool \<times> string" where
  "split_sign s =
     (case s of [] \<Rightarrow> (False, [])
      | c # t \<Rightarrow> if c = CHR ''-'' then (True, t) else if c = CHR ''+'' then (False, t) else (False, s))"

definition parse_exponent :: "string \<Rightarrow> int option" where
  "parse_exponent s =
     (let (neg, d) = split_sign s
      in if d \<noteq> [] \<and> dec_all d then Some (if neg then - int (dec_value d) else int (dec_value d)) else None)"

definition parse_mantissa :: "string \<Rightarrow> (nat \<times> nat) option" where
  "parse_mantissa s =
     (let (whole, frac) = (case split_once CHR ''.'' s of None \<Rightarrow> (s, []) | Some parts \<Rightarrow> parts)
      in if dec_all whole \<and> dec_all frac \<and> whole @ frac \<noteq> []
         then Some (dec_value (whole @ frac), length frac) else None)"

definition f64_parse_number :: "bool \<Rightarrow> string \<Rightarrow> f64 option" where
  "f64_parse_number neg s =
     (let (mant, expo) = (case split_once CHR ''e'' (to_lower s) of
                            None \<Rightarrow> (to_lower s, Some 0) | Some (m, e) \<Rightarrow> (m, parse_exponent e))
      in case (parse_mantissa mant, expo) of
           (Some (n, k), Some e) \<Rightarrow>
             (let x = e - int k
              in Some (f64_of_ratio neg (if 0 \<le> x then n * 10 ^ nat x else n) (if 0 \<le> x then 1 else 10 ^ nat (- x))))
         | _ \<Rightarrow> None)"

definition f64_from_str :: "string \<Rightarrow> f64 option" where
  "f64_from_str s =
     (let (neg, t) = split_sign s
      in if to_lower t \<in> {''inf'', ''infinity''} then Some (F64_Infinite neg)
         else if to_lower t = ''nan'' then Some F64_NaN
         else f64_parse_number neg t)"

section \<open>External code\<close>

text \<open>
  A parsed URL of the \<^verbatim>\<open>url\<close> crate is what its accessors return; \<open>hx_url_parse\<close> is \<^verbatim>\<open>str::parse\<close>. The
  other functions are \<^verbatim>\<open>serde_json::from_slice\<close> and \<^verbatim>\<open>to_vec\<close> at the types of the crate (with the text of
  their errors), \<^verbatim>\<open>Value::as_f64\<close>, the standard base64 engine, and \<^verbatim>\<open>chrono\<close>: \<open>hx_rfc3339_ms\<close> is
  \<^verbatim>\<open>parse_from_rfc3339\<close> with \<^verbatim>\<open>timestamp_millis\<close>, \<open>hx_rfc3339_print\<close> is \<^verbatim>\<open>from_timestamp_millis\<close> with
  \<^verbatim>\<open>to_rfc3339_opts(Millis, true)\<close>.
\<close>

record url_parts =
  url_scheme :: string
  url_host :: "string option"
  url_port :: "u16 option"
  url_path :: string
  url_query_pairs :: "(string \<times> string) list"
  url_username :: string
  url_password :: "string option"
  url_as_str :: string

record har_lib =
  hx_from_slice :: "bytes \<Rightarrow> string + har_document"
  hx_provenance_to :: "interop_provenance \<Rightarrow> string + bytes"
  hx_as_f64 :: "json \<Rightarrow> f64 option"
  hx_b64_encode :: "bytes \<Rightarrow> string"
  hx_b64_decode :: "string \<Rightarrow> bytes option"
  hx_rfc3339_ms :: "string \<Rightarrow> int option"
  hx_rfc3339_print :: "int \<Rightarrow> string option"
  hx_url_parse :: "string \<Rightarrow> url_parts option"

section \<open>Rounding facts\<close>

text \<open>A whole number of milliseconds rounds to itself, up to the bound.\<close>

lemma f64_round_clamp_whole: "f64_round_clamp (F64_Finite False n 0) bound = min bound n"
  by simp

lemma f64_round_clamp_bounded: "f64_round_clamp x bound \<le> bound"
  by (cases x) auto

end
