(* ===== verification/Har_Import.thy ===== *)
theory Har_Import
  imports Har_Document
begin

text \<open>
  Importing a HAR document, \<^verbatim>\<open>import_har_to_writer\<close> of \<^verbatim>\<open>crates/eggreplay-har/src/lib.rs\<close>: every entry is
  converted to a flow and two bodies before the first one is published. The loop body is split at
  its comments into one definition per section; each gives its result and the losses it pushes, in
  the order the code pushes them.
\<close>

section \<open>Fields\<close>

definition is_json_media_type :: "string option \<Rightarrow> bool" where
  "is_json_media_type val =
     (case val of None \<Rightarrow> False | Some media \<Rightarrow> media = ''application/json'' \<or> ends_with ''+json'' media)"

definition is_form_media_type :: "string option \<Rightarrow> bool" where
  "is_form_media_type val \<longleftrightarrow> val = Some ''application/x-www-form-urlencoded''"

definition media_essence :: "string \<Rightarrow> string" where
  "media_essence raw = to_lower (trim (hd (split_on CHR '';'' raw)))"

definition base_media_type :: "string option \<Rightarrow> string option" where
  "base_media_type val = map_option media_essence val"

text \<open>\<^verbatim>\<open>text.chars().filter(|c| !c.is_whitespace())\<close>\<close>

function strip_whitespace :: "string \<Rightarrow> string" where
  "strip_whitespace [] = []"
| "strip_whitespace (c # s) =
     (case ws_at (c # s) of
        None \<Rightarrow> c # strip_whitespace s
      | Some n \<Rightarrow> strip_whitespace (drop n (c # s)))"
  by pat_completeness auto
termination
  by (relation "measure length") (auto dest: ws_at_SomeD)

definition body_limit_error :: har_error where
  "body_limit_error = HarInvalid ''HAR body exceeds configured limit''"

definition decode_har_body_text ::
  "har_lib \<Rightarrow> string option \<Rightarrow> string option \<Rightarrow> u64 \<Rightarrow> har_error + bytes" where
  "decode_har_body_text L text encoding max_bytes =
     (case text of
        None \<Rightarrow> Inr []
      | Some t \<Rightarrow>
          (let enc = unwrap_or (map_option to_lower encoding) []
           in if enc = [] then
                (if length t > unat max_bytes then Inl body_limit_error else Inr t)
              else if enc = ''base64'' then
                (let cleaned = strip_whitespace t
                 in if length cleaned > usize_sat_add (min (unat max_bytes * 4) (2 ^ 64 - 1)) 4
                    then Inl body_limit_error
                    else rbind (ok_or (HarInvalid ''HAR body is not valid base64'') (hx_b64_decode L cleaned))
                      (\<lambda>decoded. if length decoded > unat max_bytes then Inl body_limit_error else Inr decoded))
              else Inl (HarInvalid (''unsupported HAR body encoding '' @ enc))))"

definition parse_har_time_ms :: "har_lib \<Rightarrow> json option \<Rightarrow> string \<Rightarrow> har_error + f64 option" where
  "parse_har_time_ms L val field =
     (let not_numeric = HarInvalid (''HAR '' @ field @ '' is not numeric'')
      in case val of
           None \<Rightarrow> Inr None
         | Some v \<Rightarrow>
             (case hx_as_f64 L v of
                Some number \<Rightarrow> Inr (Some number)
              | None \<Rightarrow>
                  (case js_string v of
                     Some text \<Rightarrow> rbind (ok_or not_numeric (f64_from_str text)) (\<lambda>parsed. Inr (Some parsed))
                   | None \<Rightarrow> Inl not_numeric)))"

definition started_ms :: "har_lib \<Rightarrow> string option \<Rightarrow> har_error + u64" where
  "started_ms L started =
     rbind (ok_or (HarInvalid ''HAR entry is missing startedDateTime'') started) (\<lambda>raw.
     rbind (ok_or (HarInvalid ''HAR startedDateTime is not RFC 3339'') (hx_rfc3339_ms L raw)) (\<lambda>millis.
     if max millis 0 < 2 ^ 64 then Inr (word_of_int (max millis 0))
     else Inl (HarInvalid ''HAR startedDateTime is out of range'')))"

definition total_time_ms :: "har_lib \<Rightarrow> json option \<Rightarrow> har_error + u64" where
  "total_time_ms L time =
     rbind (parse_har_time_ms L time ''entry.time'') (\<lambda>parsed.
       case parsed of
         None \<Rightarrow> Inr 0
       | Some v \<Rightarrow>
           (if f64_is_nan v \<or> f64_is_infinite v \<or> f64_less_zero v
            then Inl (HarInvalid ''HAR entry.time is not a valid duration'')
            else Inr (of_nat (f64_round_clamp v 3600000))))"

definition timing_number :: "har_lib \<Rightarrow> json option \<Rightarrow> f64 option" where
  "timing_number L val =
     Option.bind val (\<lambda>v.
       case hx_as_f64 L v of
         Some number \<Rightarrow> (if f64_less_zero number then None else Some number)
       | None \<Rightarrow>
           (case Option.bind (js_string v) f64_from_str of
              Some number \<Rightarrow> (if f64_ge_zero number then Some number else None)
            | None \<Rightarrow> None))"

definition status_number :: "nat \<Rightarrow> har_error + u16 option" where
  "status_number number =
     (if number = 0 then Inr None
      else if \<not> (100 \<le> number \<and> number \<le> 599)
      then Inl (HarInvalid (''HAR response status '' @ to_dec number @ '' is outside 100..=599''))
      else if \<not> number < 2 ^ 16 then Inl (HarInvalid ''HAR response status is out of range'')
      else Inr (Some (of_nat number)))"

definition status_code :: "ext_lib \<Rightarrow> json \<Rightarrow> har_error + u16 option" where
  "status_code X status =
     (case x_json_as_u64 X status of
        Some number \<Rightarrow> status_number (unat number)
      | None \<Rightarrow>
          (case js_string status of
             Some text \<Rightarrow>
               (let trimmed = trim text
                in if trimmed = ''0'' \<or> trimmed = [] then Inr None
                   else rbind (ok_or (HarInvalid ''HAR response status is not numeric'') (parse_uint (2 ^ 64) trimmed))
                     status_number)
           | None \<Rightarrow> Inl (HarInvalid ''HAR response status is not numeric'')))"

definition header_of :: "har_name_value \<Rightarrow> har_error + header_entry" where
  "header_of item =
     (if nv_name item = [] \<or> length (nv_name item) > 256 \<or> length (nv_value item) > 8192
      then Inl (HarInvalid ''HAR header name/value exceeds limit'')
      else Inr \<lparr>h_name = nv_name item, h_value = nv_value item\<rparr>)"

definition har_header_entries :: "har_name_value list \<Rightarrow> usize \<Rightarrow> har_error + header_entry list" where
  "har_header_entries values limit =
     (if length values > limit then Inl (HarInvalid ''HAR header count exceeds limit'')
      else collect_res header_of values)"

definition url_authority :: "string \<Rightarrow> u16 option \<Rightarrow> string" where
  "url_authority host port =
     (case port of None \<Rightarrow> host | Some p \<Rightarrow> host @ '':'' @ to_dec (unat p))"

definition split_url :: "har_lib \<Rightarrow> string \<Rightarrow> usize \<Rightarrow> har_error + string \<times> string \<times> string \<times> string" where
  "split_url L url index =
     rbind (ok_or (HarUnsupportedEntry index (Inl ''URL is not a valid absolute HTTP(S) URL'')) (hx_url_parse L url))
       (\<lambda>parsed.
     if url_scheme parsed \<noteq> ''http'' \<and> url_scheme parsed \<noteq> ''https''
     then Inl (HarUnsupportedEntry index (Inl (''URL scheme '' @ url_scheme parsed @ '' is not http/https'')))
     else rbind (ok_or (HarUnsupportedEntry index (Inl ''URL has no host'')) (url_host parsed)) (\<lambda>host.
       let authority = url_authority host (url_port parsed);
           path = (if url_path parsed = [] then ''/'' else url_path parsed)
       in if \<not> starts_with ''/'' path
          then Inl (HarUnsupportedEntry index (Inl ''URL path is not origin-form''))
          else Inr (url_scheme parsed, authority, path, url_as_str parsed)))"

text \<open>\<^verbatim>\<open>input[..max]\<close> panics when \<^verbatim>\<open>max\<close> is inside a character; what is cut off becomes an ellipsis.\<close>

definition ellipsis :: string where
  "ellipsis = map char_of [226, 128, 166 :: nat]"

definition truncate_bounded :: "string \<Rightarrow> nat \<Rightarrow> har_error + string" where
  "truncate_bounded input bound =
     (if length input \<le> bound then Inr input
      else if is_char_boundary input bound then Inr (take bound input @ ellipsis)
      else Inl HarPanicked)"

section \<open>Body redaction\<close>

definition structured_too_long :: "redaction_config \<Rightarrow> bytes \<Rightarrow> u64 \<Rightarrow> bool" where
  "structured_too_long config original bound \<longleftrightarrow> wants_body_redaction config \<and> length original > unat bound"

definition redact_import_body ::
  "ext_lib \<Rightarrow> bytes \<Rightarrow> string option \<Rightarrow> redaction_config \<Rightarrow> string \<Rightarrow> bool \<Rightarrow> usize \<Rightarrow> string \<Rightarrow> u64
     \<Rightarrow> har_error + (bytes \<times> redaction_marker list) \<times> har_loss list" where
  "redact_import_body X original media_type config profile is_response index side max_structured =
     (if original = [] then Inr (([], []), [])
      else if structured_too_long config original max_structured
      then Inl (HarRedaction (BodyRefused (''entry '' @ to_dec index @ '' '' @ side
                  @ '' body exceeds structured redaction bound; failing closed'')))
      else let base = base_media_type media_type
      in if rc_json_paths config \<noteq> [] \<and> is_json_media_type base then
           rbind (map_err (\<lambda>e. HarRedaction (TransformFailed e)) (apply_json_redaction X original (rc_json_paths config)))
             (\<lambda>(redacted, _).
             Inr ((redacted, push_body_markers [] (rc_json_paths config) profile is_response),
                  [loss_entry index (side @ ''.body.json'') ''JSON body paths redacted per selected profile'' Redacted]))
         else if rc_query_keys config \<noteq> [] \<and> is_form_media_type base then
           rbind (map_err (\<lambda>e. HarRedaction (TransformFailed e)) (apply_form_redaction X original (rc_query_keys config)))
             (\<lambda>(redacted, _).
             Inr ((redacted, map (\<lambda>key. \<lparr>m_field = side @ ''.body.form:'' @ key, m_profile = profile\<rparr>) (rc_query_keys config)),
                  [loss_entry index (side @ ''.body.form'') ''form body keys redacted per selected profile'' Redacted]))
         else if rc_json_paths config \<noteq> [] then
           Inl (HarRedaction (BodyRefused (''entry '' @ to_dec index @ '' '' @ side
                  @ '' body redaction requested but media type is not JSON; failing closed'')))
         else Inr ((original, []), []))"

section \<open>The sections of an entry\<close>

text \<open>\<^verbatim>\<open>// --- Request URL ---\<close>\<close>

definition has_userinfo :: "url_parts option \<Rightarrow> bool" where
  "has_userinfo parsed =
     (case parsed of None \<Rightarrow> False | Some p \<Rightarrow> url_username p \<noteq> [] \<or> url_password p \<noteq> None)"

definition entry_url ::
  "har_lib \<Rightarrow> usize \<Rightarrow> har_request \<Rightarrow> har_error + (string \<times> string \<times> string) \<times> har_loss list" where
  "entry_url L index request =
     (if hq_method request = [] \<or> length (hq_method request) > 32
      then Inl (HarUnsupportedEntry index (Inl ''request method is empty or exceeds limit''))
      else rbind (split_url L (hq_url request) index) (\<lambda>(scheme, authority, path, _).
        Inr ((scheme, authority, path),
             (if CHR ''@'' \<in> set (hq_url request) \<and> has_userinfo (hx_url_parse L (hq_url request))
              then [loss_entry index ''request.url.userinfo'' ''URL userinfo stripped; never persisted'' Redacted]
              else []))))"

text \<open>\<^verbatim>\<open>// --- Query ---\<close>\<close>

definition query_of :: "usize \<Rightarrow> har_name_value \<Rightarrow> har_error + query_pair" where
  "query_of index param =
     (if length (nv_name param) > 1024 \<or> length (nv_value param) > 8192
      then Inl (HarUnsupportedEntry index (Inl ''query parameter exceeds limit''))
      else Inr \<lparr>q_key = nv_name param, q_value = nv_value param\<rparr>)"

definition pair_of :: "query_pair \<Rightarrow> string \<times> string" where
  "pair_of p = (q_key p, q_value p)"

definition entry_query ::
  "har_lib \<Rightarrow> usize \<Rightarrow> har_request \<Rightarrow> har_error + query_pair list \<times> har_loss list" where
  "entry_query L index request =
     (if length (hq_query_string request) > 1024
      then Inl (HarUnsupportedEntry index (Inl ''query parameter count exceeds limit''))
      else rbind (collect_res (query_of index) (hq_query_string request)) (\<lambda>query.
        case hx_url_parse L (hq_url request) of
          None \<Rightarrow> Inr (query, [])
        | Some parsed \<Rightarrow>
            (let url_pairs = url_query_pairs parsed
             in if url_pairs = map pair_of query then Inr (query, [])
                else if hq_query_string request = [] \<and> url_pairs \<noteq> [] then
                  Inr (map (\<lambda>(k, v). \<lparr>q_key = k, q_value = v\<rparr>) url_pairs,
                       [loss_entry index ''request.queryString''
                          ''empty queryString adopted from URL query component'' Annotated])
                else Inr (query,
                       [loss_entry index ''request.queryString''
                          ''queryString array and URL query component disagree; array is authoritative'' Annotated]))))"

text \<open>\<^verbatim>\<open>// --- Headers ---\<close>, the derived cookies, the version and the comment\<close>

fun join_with :: "string \<Rightarrow> string list \<Rightarrow> string" where
  "join_with sep [] = []"
| "join_with sep [w] = w"
| "join_with sep (w # v # ws) = w @ sep @ join_with sep (v # ws)"

definition is_request_cookie :: "header_entry \<Rightarrow> bool" where
  "is_request_cookie header \<longleftrightarrow>
     eq_ignore_case (h_name header) ''cookie'' \<or> eq_ignore_case (h_name header) ''cookie2''"

definition cookie_losses :: "usize \<Rightarrow> header_entry list \<Rightarrow> har_cookie list \<Rightarrow> har_loss list" where
  "cookie_losses index headers cookies =
     (if cookies = [] then []
      else let cookie_text = join_with ''; '' (map h_value (filter is_request_cookie headers));
               missing = length (filter (\<lambda>cookie. find_sub (ck_name cookie) cookie_text = None) cookies)
           in if missing > 0 then
                [loss_entry index ''request.cookies'' (to_dec missing
                   @ '' cookie(s) have no corresponding Cookie header; headers array is authoritative'') Annotated]
              else [loss_entry index ''request.cookies''
                   ''cookies array is a derived view of Cookie headers; headers array is authoritative'' Annotated])"

definition other_http_version :: "string option \<Rightarrow> bool" where
  "other_http_version version =
     (case version of None \<Rightarrow> False | Some v \<Rightarrow> v \<noteq> ''http/1.1'' \<and> v \<noteq> ''HTTP/1.1'')"

definition entry_headers ::
  "usize \<Rightarrow> har_request \<Rightarrow> har_error + header_entry list \<times> har_loss list" where
  "entry_headers index request =
     rbind (har_header_entries (hq_headers request) 256) (\<lambda>headers.
       Inr (headers,
         cookie_losses index headers (hq_cookies request)
         @ (if other_http_version (hq_http_version request)
            then [loss_entry index ''request.httpVersion'' (''HTTP version '' @ unwrap_or (hq_http_version request) []
                    @ '' has no semantic representation; treated as version-agnostic'') Annotated] else [])
         @ (if hq_comment request \<noteq> None
            then [loss_entry index ''request.comment'' ''HAR comment preserved as flow annotation'' Annotated] else [])))"

text \<open>\<^verbatim>\<open>// --- Request body ---\<close>\<close>

definition post_params ::
  "ext_lib \<Rightarrow> usize \<Rightarrow> har_post_param list \<Rightarrow> har_error + bytes" where
  "post_params X index params =
     rbind (check_all (\<lambda>param. if pp_file_name param \<noteq> None
              then Inl (HarUnsupportedEntry index (Inl ''multipart/file upload postData has no semantic body representation''))
              else Inr ()) params) (\<lambda>_.
       Inr (x_form_print X (map (\<lambda>param. (pp_name param, unwrap_or (pp_value param) [])) params)))"

definition post_data_bytes ::
  "har_lib \<Rightarrow> ext_lib \<Rightarrow> usize \<Rightarrow> har_post_data option \<Rightarrow> u64 \<Rightarrow> har_error + (bytes \<times> bool) \<times> har_loss list" where
  "post_data_bytes L X index post_data max_blob =
     (case post_data of
        None \<Rightarrow> Inr (([], False), [])
      | Some post \<Rightarrow>
          rbind (case pd_text post of
                   Some text \<Rightarrow> rbind (decode_har_body_text L (Some text) (pd_encoding post) max_blob) (\<lambda>raw. Inr (raw, []))
                 | None \<Rightarrow>
                     (if pd_params post \<noteq> [] then
                        rbind (post_params X index (pd_params post)) (\<lambda>raw.
                          Inr (raw, [loss_entry index ''request.postData.params''
                            ''form params without text re-encoded as application/x-www-form-urlencoded'' Annotated]))
                      else Inr ([], []))) (\<lambda>(raw, losses).
          Inr ((raw, True),
               losses @ (if pd_params post \<noteq> [] \<and> pd_text post \<noteq> None
                 then [loss_entry index ''request.postData.params''
                         ''postData params duplicate postData.text; text is authoritative'' Annotated] else []))))"

definition entry_request_body ::
  "har_lib \<Rightarrow> ext_lib \<Rightarrow> redaction_config \<Rightarrow> string \<Rightarrow> u64 \<Rightarrow> u64 \<Rightarrow> usize \<Rightarrow> har_request
     \<Rightarrow> har_error + (bytes \<times> redaction_marker list) \<times> har_loss list" where
  "entry_request_body L X config profile max_structured max_blob index request =
     (let media = map_option (\<lambda>post. media_essence (pd_mime_type post)) (hq_post_data request)
      in rbind (post_data_bytes L X index (hq_post_data request) max_blob) (\<lambda>((raw, had_source), losses1).
         rbind (redact_import_body X raw media config profile False index ''request'' max_structured)
           (\<lambda>((content, markers), losses2).
         if length content > unat max_blob then Inl (HarInvalid ''HAR request body exceeds limit'')
         else if \<not> had_source \<and> content \<noteq> [] then Inl (HarInvalid ''request body state is inconsistent'')
         else Inr ((content, markers), losses1 @ losses2))))"

text \<open>\<^verbatim>\<open>// --- Response ---\<close>\<close>

definition response_losses :: "usize \<Rightarrow> har_response \<Rightarrow> har_loss list" where
  "response_losses index response =
     (if hr_cookies response \<noteq> []
      then [loss_entry index ''response.cookies''
              ''cookies array is a derived view of Set-Cookie headers; headers array is authoritative'' Annotated] else [])
     @ (if other_http_version (hr_http_version response)
        then [loss_entry index ''response.httpVersion''
                ''HTTP version has no semantic representation; treated as version-agnostic'' Annotated] else [])
     @ (if hr_redirect_url response \<notin> {None, Some []}
        then [loss_entry index ''response.redirectURL''
                ''redirectURL duplicates the Location header; header is authoritative'' Annotated] else [])
     @ (if hr_comment response \<noteq> None
        then [loss_entry index ''response.comment'' ''HAR comment preserved as flow annotation'' Annotated] else [])"

definition content_bytes ::
  "har_lib \<Rightarrow> usize \<Rightarrow> har_content option \<Rightarrow> u64 \<Rightarrow> har_error + bytes \<times> har_loss list" where
  "content_bytes L index content max_blob =
     (case content of
        None \<Rightarrow> Inr ([], [])
      | Some c \<Rightarrow>
          rbind (decode_har_body_text L (ct_text c) (ct_encoding c) max_blob) (\<lambda>raw.
            Inr (raw,
              (if ct_compression c \<noteq> None
               then [loss_entry index ''response.content.compression''
                       ''compression savings are not represented; decoded body bytes are authoritative'' Annotated] else [])
              @ (if (case ct_size c of None \<Rightarrow> False | Some n \<Rightarrow> n < 0)
                 then [loss_entry index ''response.content.size''
                         ''negative content size treated as unknown; decoded bytes are authoritative'' Annotated] else [])
              @ (if ct_text c = None \<and> unwrap_or (ct_size c) 0 \<noteq> 0
                 then [loss_entry index ''response.content.text''
                         ''missing content text with nonzero size treated as empty body'' Annotated] else []))))"

definition entry_response ::
  "har_lib \<Rightarrow> ext_lib \<Rightarrow> redaction_config \<Rightarrow> string \<Rightarrow> u64 \<Rightarrow> u64 \<Rightarrow> usize \<Rightarrow> har_response
     \<Rightarrow> har_error + (u16 option \<times> header_entry list \<times> bytes \<times> redaction_marker list) \<times> har_loss list" where
  "entry_response L X config profile max_structured max_blob index response =
     rbind (status_code X (hr_status response)) (\<lambda>status.
     rbind (har_header_entries (hr_headers response) 256) (\<lambda>headers.
     let media = base_media_type (Option.bind (hr_content response) ct_mime_type)
     in rbind (content_bytes L index (hr_content response) max_blob) (\<lambda>(raw, losses1).
        rbind (redact_import_body X raw media config profile True index ''response'' max_structured)
          (\<lambda>((content, markers), losses2).
        Inr ((status, headers, content, markers), response_losses index response @ losses1 @ losses2)))))"

text \<open>\<^verbatim>\<open>// --- Timing ---\<close>\<close>

definition timing_values :: "har_timings \<Rightarrow> json option list" where
  "timing_values t =
     [tm_blocked t, tm_dns t, tm_connect t, tm_send t, tm_wait t, tm_receive t, tm_ssl t]"

definition timing_losses :: "har_lib \<Rightarrow> usize \<Rightarrow> har_entry \<Rightarrow> har_loss list" where
  "timing_losses L index entry =
     (case he_timings entry of
        None \<Rightarrow> []
      | Some timings \<Rightarrow>
          (if length (filter (\<lambda>val. timing_number L val \<noteq> None) (timing_values timings)) > 0
           then [loss_entry index ''timings''
                   ''HAR timing breakdown collapsed to total duration; per-phase delays not represented'' Annotated]
           else []))
     @ (if he_server_ip entry \<noteq> None \<or> he_connection entry \<noteq> None
        then [loss_entry index ''serverIPAddress/connection''
                ''physical transport identity has no semantic representation; omitted'' Omitted] else [])
     @ (if he_cache entry \<noteq> None
        then [loss_entry index ''cache'' ''HAR cache state has no semantic representation; omitted'' Omitted] else [])
     @ (if he_pageref entry \<noteq> None
        then [loss_entry index ''pageref'' ''HAR page reference has no semantic representation; omitted'' Omitted] else [])"

definition entry_timing ::
  "har_lib \<Rightarrow> usize \<Rightarrow> har_entry \<Rightarrow> har_error + (u64 \<times> u64) \<times> har_loss list" where
  "entry_timing L index entry =
     rbind (started_ms L (he_started entry)) (\<lambda>started.
     rbind (total_time_ms L (he_time entry)) (\<lambda>duration.
     Inr ((started, duration), timing_losses L index entry)))"

text \<open>\<^verbatim>\<open>// --- Assemble flow ---\<close>\<close>

definition comment_annotation :: "string \<Rightarrow> string option \<Rightarrow> har_error + (string \<times> string) list" where
  "comment_annotation key comment =
     (if comment \<in> {None, Some []} then Inr []
      else rbind (truncate_bounded (the comment) 512) (\<lambda>text. Inr [(key, text)]))"

definition entry_annotations ::
  "har_creator option \<Rightarrow> har_entry \<Rightarrow> u64 \<Rightarrow> har_error + (string \<times> string) list" where
  "entry_annotations creator entry duration =
     rbind (comment_annotation ''har.request.comment'' (hq_comment (he_request entry))) (\<lambda>a1.
     rbind (comment_annotation ''har.response.comment'' (hr_comment (he_response entry))) (\<lambda>a2.
     rbind (case creator of
              None \<Rightarrow> Inr []
            | Some c \<Rightarrow>
                (if cr_name c = [] then Inr []
                 else rbind (truncate_bounded (cr_name c @ ''/'' @ cr_version c) 256) (\<lambda>text.
                   Inr [(''har.creator'', text)]))) (\<lambda>a3.
     Inr (a1 @ a2 @ [(''har.entry.time_ms'', to_dec (unat duration))] @ a3))))"

definition pad6 :: "nat \<Rightarrow> string" where
  "pad6 n = replicate (6 - length (to_dec n)) CHR ''0'' @ to_dec n"

definition entry_outcome :: "usize \<Rightarrow> u16 option \<Rightarrow> header_entry list \<Rightarrow> flow_outcome \<times> har_loss list" where
  "entry_outcome index status headers =
     (case status of
        Some code \<Rightarrow>
          (OutResponse \<lparr>resp_status = code, resp_headers = headers, resp_body = BodyEmpty, resp_trailers = []\<rparr>, [])
      | None \<Rightarrow>
          (OutError (literal_error Cat_Other Phase_Other ''HAR-recorded request with no response (status 0)''),
           [loss_entry index ''response.status''
              ''HAR status 0 mapped to a typed transport error; no response is recorded'' Annotated]))"

text \<open>\<^verbatim>\<open>// Header/query redaction after structural assembly\<close>, the body markers and the representation headers\<close>

definition is_body_marker :: "redaction_marker \<Rightarrow> bool" where
  "is_body_marker marker \<longleftrightarrow>
     find_sub ''body.json'' (m_field marker) \<noteq> None \<or> find_sub ''body.form'' (m_field marker) \<noteq> None"

definition reconcile_imported :: "flow \<Rightarrow> bytes \<Rightarrow> bytes \<Rightarrow> string \<Rightarrow> flow" where
  "reconcile_imported fl request_bytes response_bytes profile =
     (if list_ex is_body_marker (fl_redactions fl) then
        (let (headers, markers, notes) = reconcile_headers_after_body_redaction
               (req_headers (fl_request fl)) (of_nat (length request_bytes)) profile;
             fl = fl\<lparr>fl_request := (fl_request fl)\<lparr>req_headers := headers\<rparr>,
                     fl_redactions := fl_redactions fl @ markers,
                     fl_annotations := fl_annotations fl @ notes\<rparr>
         in case fl_outcome fl of
              OutResponse response \<Rightarrow>
                (let (rheaders, rmarkers, rnotes) = reconcile_headers_after_body_redaction
                       (resp_headers response) (of_nat (length response_bytes)) profile
                 in fl\<lparr>fl_outcome := OutResponse (response\<lparr>resp_headers := rheaders\<rparr>),
                       fl_redactions := fl_redactions fl @ rmarkers,
                       fl_annotations := fl_annotations fl @ rnotes\<rparr>)
            | OutError _ \<Rightarrow> fl)
      else fl)"

definition redact_imported ::
  "flow \<Rightarrow> redaction_config \<Rightarrow> string \<Rightarrow> usize \<Rightarrow> redaction_marker list \<Rightarrow> redaction_marker list \<Rightarrow> bytes \<Rightarrow> bytes
     \<Rightarrow> flow \<times> har_loss list" where
  "redact_imported fl config profile index request_markers response_markers request_bytes response_bytes =
     (let fl = redact_flow fl config profile;
          count = length (fl_redactions fl);
          losses1 = (if count > 0
            then [\<lparr>hl_entry_index = Some index, hl_flow_id = Some (fl_id fl),
                   hl_field = ''request/response.headers,query'',
                   hl_reason = to_dec count @ '' header/query field(s) redacted per selected profile'',
                   hl_action = Redacted\<rparr>] else []);
          fl = fl\<lparr>fl_redactions := fl_redactions fl @ request_markers\<rparr>;
          (fl, losses2) =
            (case fl_outcome fl of
               OutResponse _ \<Rightarrow> (fl\<lparr>fl_redactions := fl_redactions fl @ response_markers\<rparr>, [])
             | OutError _ \<Rightarrow>
                 (fl, if response_markers \<noteq> []
                      then [loss_entry index ''response.body.redaction''
                              ''response body redaction markers omitted for typed-error outcome'' Omitted] else []))
      in (reconcile_imported fl request_bytes response_bytes profile, losses1 @ losses2))"

definition assemble_flow ::
  "usize \<Rightarrow> string \<Rightarrow> string \<times> string \<times> string \<Rightarrow> string \<Rightarrow> query_pair list \<Rightarrow> header_entry list
     \<Rightarrow> flow_outcome \<Rightarrow> u64 \<Rightarrow> u64 \<Rightarrow> (string \<times> string) list \<Rightarrow> flow" where
  "assemble_flow index unique target meth query headers outcome started duration annotations =
     (let (scheme, authority, path) = target
      in \<lparr>fl_schema_version = FLOW_SCHEMA_VERSION,
          fl_id = ''har-import-'' @ pad6 index @ ''-'' @ unique,
          fl_started_at_ms = started,
          fl_completed_at_ms = Some (sat_add started duration),
          fl_request = \<lparr>req_method = meth, req_scheme = scheme, req_authority = authority, req_path = path,
            req_query = query, req_headers = headers, req_body = BodyEmpty, req_trailers = []\<rparr>,
          fl_outcome = outcome,
          fl_physical_route = None,
          fl_provenance = \<lparr>prov_mode = ''har-import'', prov_observer = ''eggreplay-har''\<rparr>,
          fl_annotations = annotations,
          fl_redactions = []\<rparr>)"

section \<open>The import\<close>

type_synonym pending_flow = "flow \<times> bytes \<times> bytes"

text \<open>What the caller chooses: the redaction and its profile, and the two limits.\<close>

record import_options =
  io_redaction :: redaction_config
  io_profile :: string
  io_max_structured :: u64
  io_max_blob :: u64

definition finish_entry ::
  "(usize \<Rightarrow> string) \<Rightarrow> import_options \<Rightarrow> usize \<Rightarrow> string \<Rightarrow> string \<times> string \<times> string \<Rightarrow> query_pair list
     \<Rightarrow> header_entry list \<Rightarrow> bytes \<times> redaction_marker list
     \<Rightarrow> u16 option \<times> header_entry list \<times> bytes \<times> redaction_marker list \<Rightarrow> u64 \<times> u64 \<Rightarrow> (string \<times> string) list
     \<Rightarrow> har_error + pending_flow \<times> har_loss list" where
  "finish_entry uniq opts index meth target query headers body response timing annotations =
     (let (request_bytes, request_markers) = body;
          (status, response_headers, response_bytes, response_markers) = response;
          (started, duration) = timing;
          (outcome, l1) = entry_outcome index status response_headers;
          fl = assemble_flow index (uniq index) target meth query headers outcome started duration annotations;
          (fl, l2) = redact_imported fl (io_redaction opts) (io_profile opts) index request_markers response_markers
                       request_bytes response_bytes
      in rbind (map_err (\<lambda>e. HarUnsupportedEntry index (Inr e)) (flow_validate fl)) (\<lambda>_.
           Inr ((fl, request_bytes, response_bytes), l1 @ l2)))"

definition import_entry ::
  "har_lib \<Rightarrow> ext_lib \<Rightarrow> (usize \<Rightarrow> string) \<Rightarrow> import_options \<Rightarrow> har_creator option \<Rightarrow> usize \<Rightarrow> har_entry
     \<Rightarrow> har_error + pending_flow \<times> har_loss list" where
  "import_entry L X uniq opts creator index entry =
     (let request = he_request entry; config = io_redaction opts; profile = io_profile opts
      in rbind (entry_url L index request) (\<lambda>(target, l1).
         rbind (entry_query L index request) (\<lambda>(query, l2).
         rbind (entry_headers index request) (\<lambda>(headers, l3).
         rbind (entry_request_body L X config profile (io_max_structured opts) (io_max_blob opts) index request)
           (\<lambda>(body, l4).
         rbind (entry_response L X config profile (io_max_structured opts) (io_max_blob opts) index (he_response entry))
           (\<lambda>(response, l5).
         rbind (entry_timing L index entry) (\<lambda>(timing, l6).
         rbind (entry_annotations creator entry (snd timing)) (\<lambda>annotations.
         rbind (finish_entry uniq opts index (hq_method request) target query headers body response timing annotations)
           (\<lambda>(item, l7).
         Inr (item, l1 @ l2 @ l3 @ l4 @ l5 @ l6 @ l7))))))))))"

definition import_step ::
  "har_lib \<Rightarrow> ext_lib \<Rightarrow> (usize \<Rightarrow> string) \<Rightarrow> import_options \<Rightarrow> har_creator option
     \<Rightarrow> pending_flow list \<times> har_loss list \<Rightarrow> usize \<times> har_entry \<Rightarrow> har_error + pending_flow list \<times> har_loss list" where
  "import_step L X uniq opts creator st item =
     rbind (import_entry L X uniq opts creator (fst item) (snd item)) (\<lambda>(p, losses).
       Inr (fst st @ [p], snd st @ losses))"

definition document_losses :: "har_log \<Rightarrow> har_loss list" where
  "document_losses log =
     (if lg_browser log \<noteq> None
      then [loss_global ''log.browser'' ''HAR browser object has no EggReplay representation; omitted'' Omitted] else [])
     @ (if lg_pages log \<notin> {None, Some []}
        then [loss_global ''log.pages''
                ''HAR pages have no EggReplay representation; entry timing uses startedDateTime/time only'' Omitted] else [])
     @ (if (case lg_creator log of None \<Rightarrow> False | Some c \<Rightarrow> cr_name c \<noteq> [] \<and> cr_name c \<noteq> ''eggreplay'')
        then [loss_global ''log.creator'' ''upstream HAR creator preserved in interop-provenance only'' Annotated] else [])"

definition parse_document :: "har_lib \<Rightarrow> bytes \<Rightarrow> har_error + har_log" where
  "parse_document L har_bytes =
     (if length har_bytes > MAX_HAR_FILE_BYTES then Inl (HarInvalid ''HAR document exceeds size limit'')
      else rbind (map_err HarInvalid (hx_from_slice L har_bytes)) (\<lambda>document.
        let log = doc_log document
        in if lg_version log \<noteq> HAR_VERSION_1_2
           then Inl (HarInvalid (''unsupported HAR version '' @ lg_version log @ '' (only 1.2 is accepted)''))
           else if length (lg_entries log) > MAX_HAR_ENTRIES then Inl (HarInvalid ''HAR entry count exceeds limit'')
           else Inr log))"

definition import_flows ::
  "har_lib \<Rightarrow> ext_lib \<Rightarrow> (usize \<Rightarrow> string) \<Rightarrow> import_options \<Rightarrow> har_log
     \<Rightarrow> har_error + pending_flow list \<times> har_loss list" where
  "import_flows L X uniq opts log =
     try_fold (import_step L X uniq opts (lg_creator log)) ([], document_losses log)
       (List.enumerate 0 (lg_entries log))"

text \<open>Publishing. The text of an \<^verbatim>\<open>io::Error\<close> is the message it was made with, or the system's.\<close>

fun io_error_text :: "io_error \<Rightarrow> string" where
  "io_error_text (IoInvalidInput m) = m"
| "io_error_text (IoOther m) = m"
| "io_error_text IoNotFound = ''No such file or directory (os error 2)''"
| "io_error_text IoAlreadyExists = ''File exists (os error 17)''"
| "io_error_text IoIsDirectory = ''Is a directory (os error 21)''"

definition publish_body ::
  "ext_lib \<Rightarrow> string \<Rightarrow> bytes \<Rightarrow> fixture_dir \<Rightarrow> session_writer \<Rightarrow> fixture_dir \<times> (har_error + body_ref)" where
  "publish_body X unique content d w =
     (if content = [] then (d, Inr BodyEmpty)
      else case begin_blob d (sw_limits w) unique of
             (d1, Inl e) \<Rightarrow> (d1, Inl (HarStore e))
           | (d1, Inr sink) \<Rightarrow>
               (case body_write_all d1 sink [content] of
                  (d2, sink2, Inl e) \<Rightarrow> (body_drop d2 sink2, Inl (HarInvalid (''body write failed: '' @ io_error_text e)))
                | (d2, sink2, Inr _) \<Rightarrow>
                    (case body_finish X d2 sink2 of (d3, r) \<Rightarrow> (d3, map_err HarStore r))))"

definition publish_response ::
  "ext_lib \<Rightarrow> string \<Rightarrow> bytes \<Rightarrow> flow \<Rightarrow> fixture_dir \<Rightarrow> session_writer \<Rightarrow> fixture_dir \<times> (har_error + flow)" where
  "publish_response X unique content fl d w =
     (case fl_outcome fl of
        OutError _ \<Rightarrow> (d, Inr fl)
      | OutResponse response \<Rightarrow>
          (case publish_body X unique content d w of
             (d', Inl e) \<Rightarrow> (d', Inl e)
           | (d', Inr body) \<Rightarrow> (d', Inr (fl\<lparr>fl_outcome := OutResponse (response\<lparr>resp_body := body\<rparr>)\<rparr>))))"

definition publish_flow ::
  "codec \<Rightarrow> ext_lib \<Rightarrow> string \<Rightarrow> string \<Rightarrow> pending_flow \<Rightarrow> fixture_dir \<Rightarrow> session_writer
     \<Rightarrow> fixture_dir \<times> session_writer \<times> (har_error + flow)" where
  "publish_flow C X u1 u2 item d w =
     (let (fl, request_bytes, response_bytes) = item
      in case publish_body X u1 request_bytes d w of
           (d1, Inl e) \<Rightarrow> (d1, w, Inl e)
         | (d1, Inr body) \<Rightarrow>
             (case publish_response X u2 response_bytes (fl\<lparr>fl_request := (fl_request fl)\<lparr>req_body := body\<rparr>\<rparr>) d1 w of
                (d2, Inl e) \<Rightarrow> (d2, w, Inl e)
              | (d2, Inr fl2) \<Rightarrow>
                  (case append_flow C fl2 d2 w of
                     (d3, w3, r) \<Rightarrow> (d3, w3, rbind (map_err HarStore r) (\<lambda>_. Inr fl2)))))"

text \<open>The names of the staging files are drawn in order, two for an entry; \<open>count\<close> numbers the entries.\<close>

fun publish_flows ::
  "codec \<Rightarrow> ext_lib \<Rightarrow> (nat \<Rightarrow> string) \<Rightarrow> nat \<Rightarrow> pending_flow list \<Rightarrow> fixture_dir \<Rightarrow> session_writer
     \<Rightarrow> fixture_dir \<times> session_writer \<times> (har_error + flow list)" where
  "publish_flows C X names count [] d w = (d, w, Inr [])"
| "publish_flows C X names count (item # items) d w =
     (case publish_flow C X (names (2 * count)) (names (2 * count + 1)) item d w of
        (d1, w1, Inl e) \<Rightarrow> (d1, w1, Inl e)
      | (d1, w1, Inr fl) \<Rightarrow>
          (case publish_flows C X names (Suc count) items d1 w1 of
             (d2, w2, r) \<Rightarrow> (d2, w2, rbind r (\<lambda>fls. Inr (fl # fls)))))"

definition provenance_extension :: extension_descriptor where
  "provenance_extension = \<lparr>ext_name = ''interop-provenance'', ext_schema_version = INTEROP_PROVENANCE_SCHEMA_VERSION,
     ext_path = ''interop-provenance.json'', ext_required = False\<rparr>"

text \<open>\<^verbatim>\<open>TOOL_VERSION\<close> is set by the build and is an argument.\<close>

definition import_provenance :: "string \<Rightarrow> har_log \<Rightarrow> usize \<Rightarrow> har_loss list \<Rightarrow> interop_provenance" where
  "import_provenance tool_version log count losses =
     \<lparr>ip_schema_version = INTEROP_PROVENANCE_SCHEMA_VERSION, ip_tool_version = tool_version, ip_source = ''har-import'',
      ip_har_creator = map_option (\<lambda>c. cr_name c @ ''/'' @ cr_version c) (lg_creator log),
      ip_entries = length (lg_entries log), ip_flows = count, ip_losses = take 1024 losses\<rparr>"

definition import_har_to_writer ::
  "har_lib \<Rightarrow> codec \<Rightarrow> ext_lib \<Rightarrow> string \<Rightarrow> (usize \<Rightarrow> string) \<Rightarrow> (nat \<Rightarrow> string) \<Rightarrow> import_options \<Rightarrow> bytes
     \<Rightarrow> fixture_dir \<Rightarrow> session_writer \<Rightarrow> fixture_dir \<times> session_writer \<times> (har_error + import_report)" where
  "import_har_to_writer L C X tool_version uniq names opts har_bytes d w =
     (case rbind (parse_document L har_bytes) (\<lambda>log.
            rbind (import_flows L X uniq opts log) (\<lambda>(items, losses). Inr (log, items, losses))) of
        Inl e \<Rightarrow> (d, w, Inl e)
      | Inr (log, items, losses) \<Rightarrow>
          (case publish_flows C X names 0 items d w of
             (d1, w1, Inl e) \<Rightarrow> (d1, w1, Inl e)
           | (d1, w1, Inr flows) \<Rightarrow>
               (case hx_provenance_to L (import_provenance tool_version log (length flows) losses) of
                  Inl text \<Rightarrow> (d1, w1, Inl (HarInvalid (''provenance encode failed: '' @ text)))
                | Inr encoded \<Rightarrow>
                    (case write_extension provenance_extension encoded d1 w1 of
                       (d2, w2, r) \<Rightarrow>
                         (d2, w2, rbind (map_err HarStore r) (\<lambda>_.
                            Inr \<lparr>ir_flows = length flows, ir_losses = losses, ir_entries = length (lg_entries log)\<rparr>))))))"

end
