(* ===== verification/Har_Import_Facts.thy ===== *)
theory Har_Import_Facts
  imports Har_Import
begin

text \<open>
  What an import leaves in the fixture: the conversion phase entry by entry, the identifiers and the
  redaction of the converted flows, and the publication of their bodies through the sequential writer.
\<close>

section \<open>The conversion phase\<close>

lemma ex_list_all2_Cons:
  "(\<exists>rs. list_all2 P (x # xs) rs \<and> Q rs) \<longleftrightarrow> (\<exists>r. P x r \<and> (\<exists>rs. list_all2 P xs rs \<and> Q (r # rs)))"
  by (auto simp: list_all2_Cons1)

lemma import_fold_iff:
  "try_fold (import_step L X uniq opts creator) st entries = Inr (items, losses) \<longleftrightarrow>
     (\<exists>rs. list_all2 (\<lambda>(i, e) r. import_entry L X uniq opts creator i e = Inr r) entries rs
        \<and> items = fst st @ map fst rs \<and> losses = snd st @ concat (map snd rs))"
proof (induction entries arbitrary: st)
  case (Cons ie entries)
  obtain i e where ie: "ie = (i, e)" by fastforce
  show ?case
  proof (cases "import_entry L X uniq opts creator i e")
    case (Inr r)
    obtain p l where r: "r = (p, l)" by fastforce
    have "import_step L X uniq opts creator st (i, e) = Inr (fst st @ [p], snd st @ l)"
      by (simp add: import_step_def Inr r)
    then have "try_fold (import_step L X uniq opts creator) st (ie # entries) = Inr (items, losses) \<longleftrightarrow>
        (\<exists>rs. list_all2 (\<lambda>(i, e) r. import_entry L X uniq opts creator i e = Inr r) entries rs
           \<and> items = fst st @ map fst (r # rs) \<and> losses = snd st @ concat (map snd (r # rs)))"
      using Cons.IH [of "(fst st @ [p], snd st @ l)"] by (simp add: ie r)
    moreover have "(\<exists>rs. list_all2 (\<lambda>(i, e) r. import_entry L X uniq opts creator i e = Inr r) (ie # entries) rs \<and> Q rs)
        \<longleftrightarrow> (\<exists>rs. list_all2 (\<lambda>(i, e) r. import_entry L X uniq opts creator i e = Inr r) entries rs \<and> Q (r # rs))" for Q
      unfolding ex_list_all2_Cons by (simp add: ie Inr del: split_paired_Ex)
    ultimately show ?thesis by simp
  qed (auto simp: import_step_def ie list_all2_Cons1)
qed auto

lemma import_flows_iff:
  "import_flows L X uniq opts log = Inr (items, losses) \<longleftrightarrow>
     (\<exists>rs. list_all2 (\<lambda>(i, e) r. import_entry L X uniq opts (lg_creator log) i e = Inr r)
             (List.enumerate 0 (lg_entries log)) rs
        \<and> items = map fst rs \<and> losses = document_losses log @ concat (map snd rs))"
  by (simp add: import_flows_def import_fold_iff)

lemma import_flows_length:
  "import_flows L X uniq opts log = Inr (items, losses) \<Longrightarrow> length items = length (lg_entries log)"
  by (auto simp: import_flows_iff dest: list_all2_lengthD)

lemma import_flows_nth:
  assumes "import_flows L X uniq opts log = Inr (items, losses)" and "i < length items"
  obtains l where "import_entry L X uniq opts (lg_creator log) i (lg_entries log ! i) = Inr (items ! i, l)"
proof -
  from assms(1) obtain rs where
    rs: "list_all2 (\<lambda>(i, e) r. import_entry L X uniq opts (lg_creator log) i e = Inr r)
           (List.enumerate 0 (lg_entries log)) rs" and items: "items = map fst rs"
    by (auto simp: import_flows_iff)
  have i: "i < length (lg_entries log)" using assms import_flows_length by metis
  then have "List.enumerate 0 (lg_entries log) ! i = (i, lg_entries log ! i)" by (simp add: nth_enumerate_eq)
  with list_all2_nthD [OF rs, of i] i have "import_entry L X uniq opts (lg_creator log) i (lg_entries log ! i) = Inr (rs ! i)"
    by simp
  then show ?thesis using that [of "snd (rs ! i)"] assms(2) by (simp add: items)
qed

text \<open>The stages of an accepted entry.\<close>

lemma import_entry_Inr:
  assumes "import_entry L X uniq opts creator index entry = Inr (item, losses)"
  obtains r1 r2 r3 r4 r5 r6 annotations l7 where
    "entry_url L index (he_request entry) = Inr r1"
    "entry_query L index (he_request entry) = Inr r2"
    "entry_headers index (he_request entry) = Inr r3"
    "entry_request_body L X (io_redaction opts) (io_profile opts) (io_max_structured opts) (io_max_blob opts) index
       (he_request entry) = Inr r4"
    "entry_response L X (io_redaction opts) (io_profile opts) (io_max_structured opts) (io_max_blob opts) index
       (he_response entry) = Inr r5"
    "entry_timing L index entry = Inr r6"
    "entry_annotations creator entry (snd (fst r6)) = Inr annotations"
    "finish_entry uniq opts index (hq_method (he_request entry)) (fst r1) (fst r2) (fst r3) (fst r4) (fst r5) (fst r6)
       annotations = Inr (item, l7)"
    "losses = snd r1 @ snd r2 @ snd r3 @ snd r4 @ snd r5 @ snd r6 @ l7"
  using assms unfolding import_entry_def Let_def rbind_Inr_iff split_def
  by (elim exE conjE) (rule that, assumption+, auto)

lemma finish_entry_Inr:
  assumes "finish_entry uniq opts index meth target query headers (rb, rm) (status, rh, sb, sm) (started, duration) annotations
     = Inr ((fl, rb', sb'), l)"
  shows "rb' = rb" and "sb' = sb" and "flow_validate fl = Inr ()"
    and "fl = fst (redact_imported (assemble_flow index (uniq index) target meth query headers
      (fst (entry_outcome index status rh)) started duration annotations) (io_redaction opts) (io_profile opts) index rm sm rb sb)"
  using assms by (auto simp: finish_entry_def Let_def split_def rbind_Inr_iff map_err_Inr_iff)

section \<open>Identifiers\<close>

lemma dec_value_zeros: "dec_value (replicate k CHR ''0'' @ s) = dec_value s"
proof (induction k)
  case (Suc k)
  have "byte_val CHR ''0'' = 48" by (simp add: byte_val_def)
  then have "dec_value (CHR ''0'' # t) = dec_value t" for t by (simp add: dec_value_def)
  with Suc show ?case by simp
qed simp

lemma pad6_no_dash: "CHR ''-'' \<notin> set (pad6 n)"
proof -
  have "\<not> is_ascii_digit CHR ''-''" by (simp add: is_ascii_digit_def byte_in_def byte_val_def)
  then show ?thesis using to_dec_digits [of "CHR ''-''" n] by (auto simp: pad6_def)
qed

lemma import_id_inject:
  "''har-import-'' @ pad6 i @ ''-'' @ u = ''har-import-'' @ pad6 j @ ''-'' @ v \<longleftrightarrow> i = j \<and> u = v"
proof
  assume "''har-import-'' @ pad6 i @ ''-'' @ u = ''har-import-'' @ pad6 j @ ''-'' @ v"
  then have "pad6 i @ CHR ''-'' # u = pad6 j @ CHR ''-'' # v" by simp
  then have "Some (pad6 i, u) = Some (pad6 j, v)" by (metis split_once_append pad6_no_dash)
  then have "dec_value (pad6 i) = dec_value (pad6 j)" and "u = v" by simp_all
  then show "i = j \<and> u = v" by (simp add: pad6_def dec_value_zeros dec_value_to_dec)
qed simp

text \<open>Redaction and reconciliation touch the headers, the query, the markers and the notes only.\<close>

fun with_response_headers :: "flow_outcome \<Rightarrow> header_entry list \<Rightarrow> flow_outcome" where
  "with_response_headers (OutResponse r) hs = OutResponse (r\<lparr>resp_headers := hs\<rparr>)"
| "with_response_headers (OutError e) hs = OutError e"

lemma reconcile_imported_shape:
  "\<exists>hs rhs markers notes. reconcile_imported fl rb sb profile =
     fl\<lparr>fl_request := (fl_request fl)\<lparr>req_headers := hs\<rparr>, fl_outcome := with_response_headers (fl_outcome fl) rhs,
        fl_redactions := fl_redactions fl @ markers, fl_annotations := fl_annotations fl @ notes\<rparr>
   \<and> (\<forall>h\<in>set hs. h \<in> set (req_headers (fl_request fl)) \<or> h_name h = ''content-length'')
   \<and> (\<forall>r. fl_outcome fl = OutResponse r \<longrightarrow>
        (\<forall>h\<in>set rhs. h \<in> set (resp_headers r) \<or> h_name h = ''content-length''))
   \<and> (\<not> list_ex is_body_marker (fl_redactions fl) \<longrightarrow> reconcile_imported fl rb sb profile = fl)"
proof (cases "list_ex is_body_marker (fl_redactions fl)")
  case False
  then have "reconcile_imported fl rb sb profile =
     fl\<lparr>fl_request := (fl_request fl)\<lparr>req_headers := req_headers (fl_request fl)\<rparr>,
        fl_outcome := with_response_headers (fl_outcome fl) (case fl_outcome fl of OutResponse r \<Rightarrow> resp_headers r | _ \<Rightarrow> []),
        fl_redactions := fl_redactions fl @ [], fl_annotations := fl_annotations fl @ []\<rparr>"
    by (cases "fl_outcome fl") (simp_all add: reconcile_imported_def)
  moreover have "reconcile_imported fl rb sb profile = fl" using False by (simp add: reconcile_imported_def)
  ultimately show ?thesis
    by (intro exI [of _ "req_headers (fl_request fl)"] exI
        [of _ "case fl_outcome fl of OutResponse r \<Rightarrow> resp_headers r | _ \<Rightarrow> []"] exI [of _ "[]"]) simp
next
  case True
  let ?h = "reconcile_headers_after_body_redaction (req_headers (fl_request fl)) (of_nat (length rb)) profile"
  show ?thesis
  proof (cases "fl_outcome fl")
    case (OutResponse r)
    let ?r = "reconcile_headers_after_body_redaction (resp_headers r) (of_nat (length sb)) profile"
    show ?thesis
      using True OutResponse
      by (intro exI [of _ "fst ?h"] exI [of _ "fst ?r"] exI [of _ "fst (snd ?h) @ fst (snd ?r)"]
          exI [of _ "snd (snd ?h) @ snd (snd ?r)"])
        (auto simp: reconcile_imported_def Let_def reconcile_headers_after_body_redaction_def)
  next
    case (OutError e)
    show ?thesis
      using True OutError
      by (intro exI [of _ "fst ?h"] exI [of _ "[]"] exI [of _ "fst (snd ?h)"] exI [of _ "snd (snd ?h)"])
        (auto simp: reconcile_imported_def Let_def reconcile_headers_after_body_redaction_def)
  qed
qed

text \<open>The flow before the representation headers are reconciled.\<close>

definition marked_flow ::
  "flow \<Rightarrow> redaction_config \<Rightarrow> string \<Rightarrow> redaction_marker list \<Rightarrow> redaction_marker list \<Rightarrow> flow" where
  "marked_flow fl config profile rm sm =
     (let fl = redact_flow fl config profile
      in fl\<lparr>fl_redactions := fl_redactions fl @ rm @ (case fl_outcome fl of OutResponse _ \<Rightarrow> sm | OutError _ \<Rightarrow> [])\<rparr>)"

lemma redact_imported_fst:
  "fst (redact_imported fl config profile index rm sm rb sb) =
     reconcile_imported (marked_flow fl config profile rm sm) rb sb profile"
  by (cases "fl_outcome (redact_flow fl config profile)")
    (simp_all add: redact_imported_def marked_flow_def Let_def)

lemma redact_imported_id: "fl_id (fst (redact_imported fl config profile index rm sm rb sb)) = fl_id fl"
  using reconcile_imported_shape [of "marked_flow fl config profile rm sm" rb sb profile]
  by (auto simp: redact_imported_fst marked_flow_def Let_def redact_flow_eq)

lemma import_entry_id:
  assumes "import_entry L X uniq opts creator index entry = Inr ((fl, rb, sb), losses)"
  shows "fl_id fl = ''har-import-'' @ pad6 index @ ''-'' @ uniq index" and "flow_validate fl = Inr ()"
proof -
  have "fl_id fl = ''har-import-'' @ pad6 index @ ''-'' @ uniq index \<and> flow_validate fl = Inr ()"
  proof (rule import_entry_Inr [OF assms])
    fix r1 r2 r3 r4 r5 r6 annotations l7
    assume "finish_entry uniq opts index (hq_method (he_request entry)) (fst r1) (fst r2) (fst r3) (fst r4) (fst r5)
       (fst r6) annotations = Inr ((fl, rb, sb), l7)"
    then have "flow_validate fl = Inr ()" and
      fl: "\<exists>outcome rm sm. fl = fst (redact_imported (assemble_flow index (uniq index) (fst r1) (hq_method (he_request entry))
        (fst r2) (fst r3) outcome (fst (fst r6)) (snd (fst r6)) annotations) (io_redaction opts) (io_profile opts) index rm sm rb sb)"
      by (auto simp: finish_entry_def Let_def split_def rbind_Inr_iff map_err_Inr_iff)
    from fl have "fl_id fl = ''har-import-'' @ pad6 index @ ''-'' @ uniq index"
      by (auto simp: redact_imported_id assemble_flow_def Let_def split_def)
    with \<open>flow_validate fl = Inr ()\<close> show ?thesis by simp
  qed
  then show "fl_id fl = ''har-import-'' @ pad6 index @ ''-'' @ uniq index" and "flow_validate fl = Inr ()" by simp_all
qed

lemma import_flows_distinct:
  assumes "import_flows L X uniq opts log = Inr (items, losses)"
  shows "distinct (map (fl_id \<circ> fst) items)" and "\<forall>item\<in>set items. flow_validate (fst item) = Inr ()"
proof -
  have nth: "fl_id (fst (items ! i)) = ''har-import-'' @ pad6 i @ ''-'' @ uniq i \<and> flow_validate (fst (items ! i)) = Inr ()"
    if i: "i < length items" for i
  proof -
    from import_flows_nth [OF assms i] obtain l where
      "import_entry L X uniq opts (lg_creator log) i (lg_entries log ! i) = Inr (items ! i, l)" .
    then show ?thesis using import_entry_id by (metis prod.collapse)
  qed
  then show "distinct (map (fl_id \<circ> fst) items)"
    using import_id_inject by (fastforce simp: distinct_conv_nth)
  show "\<forall>item\<in>set items. flow_validate (fst item) = Inr ()" using nth by (metis in_set_conv_nth)
qed

section \<open>Publication\<close>

lemma publish_body_cases:
  assumes "publish_body X u c d w = (d', r)"
  shows "(c = [] \<and> d' = d \<and> r = Inr BodyEmpty)
    \<or> (\<exists>s. c \<noteq> [] \<and> store_body X d (sw_limits w) u [c] = (d', s) \<and> (\<forall>body. r = Inr body \<longrightarrow> s = Inr body))"
proof (cases "c = []")
  case False
  obtain d1 r1 where b: "begin_blob d (sw_limits w) u = (d1, r1)" by fastforce
  show ?thesis
  proof (cases r1)
    case (Inl e)
    with assms False b show ?thesis by (auto simp: publish_body_def store_body_def)
  next
    case sink: (Inr sink)
    obtain d2 sink2 r2 where wr: "body_write_all d1 sink [c] = (d2, sink2, r2)" by (rule prod_cases3)
    obtain d3 r3 where fin: "body_finish X d2 sink2 = (d3, r3)" by fastforce
    show ?thesis
      using assms False b sink wr fin
      by (cases r2) (auto simp del: body_write_all.simps simp: publish_body_def store_body_def map_err_Inr_iff)
  qed
qed (use assms in \<open>simp add: publish_body_def\<close>)

lemma publish_body_Inr:
  assumes "publish_body X u c d w = (d', Inr body)"
  shows "if c = [] then d' = d \<and> body = BodyEmpty else store_body X d (sw_limits w) u [c] = (d', Inr body)"
  using publish_body_cases [OF assms] by auto

lemma publish_body_files: "publish_body X u c d w = (d', r) \<Longrightarrow> fd_files d' = fd_files d"
  by (auto dest: publish_body_cases store_body_files)

text \<open>What one publication may change: it adds the content, and whatever could be read still can.\<close>

definition grows :: "ext_lib \<Rightarrow> bytes set \<Rightarrow> fixture_dir \<Rightarrow> fixture_dir \<Rightarrow> bool" where
  "grows X S d d' \<longleftrightarrow> blobs_wf X d' \<and> stored X d' \<subseteq> stored X d \<union> S
     \<and> (\<forall>lim body b. read_body X d lim body = Inr b \<longrightarrow> read_body X d' lim body = Inr b)
     \<and> (\<forall>u. blob_node d (staging_name u) = None \<longrightarrow> blob_node d' (staging_name u) = None)"

lemma grows_refl: "blobs_wf X d \<Longrightarrow> grows X S d d"
  by (simp add: grows_def)

lemma grows_trans: "grows X S d d1 \<Longrightarrow> grows X T d1 d2 \<Longrightarrow> grows X (S \<union> T) d d2"
  by (auto simp: grows_def)

lemma not_collides:
  assumes "blobs_wf X d" and "sha256_lawful X" and "inj_on (x_sha256 X) (stored X d \<union> S)" and "c \<in> S"
  shows "\<not> collides X d c"
proof
  assume "collides X d c"
  then obtain b where b: "blob_node d (x_sha256 X c) = Some (RegularFile b)" "b \<noteq> c" by (auto simp: collides_def)
  from blobs_wf_node [OF assms(1) b(1) digest_ok_sha256 [OF assms(2)]] have "x_sha256 X b = x_sha256 X c" by auto
  with b(1) have "b \<in> stored X d" by (simp add: stored_def)
  with \<open>x_sha256 X b = x_sha256 X c\<close> assms(3,4) b(2) show False by (auto dest: inj_onD)
qed

lemma published_grows:
  assumes "sha256_lawful X" and "blob_published X d (staging_name u) b d'" and "\<not> collides X d b"
  shows "grows X {b} d d'"
proof -
  have "blob_node d' (staging_name v) = None" if "blob_node d (staging_name v) = None" for v
    using assms(2) that digest_ok_sha256 [OF assms(1), of b] staging_not_digest [of v]
    by (auto simp: blob_published_def)
  moreover have "read_body X d lim body = Inr c \<Longrightarrow> read_body X d' lim body = Inr c" for lim body c
    by (rule blob_published_reads [OF assms(2) staging_not_digest assms(3)])
  ultimately show ?thesis
    using blob_published_stored [OF assms(2,1) staging_not_digest assms(3)] assms(2)
    by (auto simp: grows_def blob_published_def split: if_splits)
qed

lemma publish_body_ok:
  assumes X: "sha256_lawful X" and wf: "blobs_wf X d" and fresh: "blob_node d (staging_name u) = None"
    and len: "length c < 2 ^ 64" and unique: "\<not> collides X d c"
    and run: "publish_body X u c d w = (d', Inr body)"
  shows "body = body_ref_of X c \<and> read_body X d' (sw_limits w) body = Inr c \<and> grows X {c} d d'"
proof (cases "c = []")
  case True
  with publish_body_Inr [OF run] wf show ?thesis by (simp add: body_ref_of_def read_body_def grows_refl)
next
  case False
  with publish_body_Inr [OF run] have st: "store_body X d (sw_limits w) u [c] = (d', Inr body)" by simp
  have fits: "length (concat [c]) \<le> unat (sl_max_blob_bytes (sw_limits w))"
    using store_body_too_long [OF wf fresh, where bufs = "[c]" and lim = "sw_limits w"] len st by fastforce
  from store_body_ok [OF X wf fresh _ fits] len unique obtain d1 where
    "store_body X d (sw_limits w) u [c] = (d1, Inr (body_ref_of X c))" "blob_published X d (staging_name u) c d1"
    by auto
  with st have "d' = d1" "body = body_ref_of X c" and pub: "blob_published X d (staging_name u) c d'" by simp_all
  then show ?thesis
    using blob_published_read_back [OF X pub staging_not_digest] published_grows [OF X pub unique] fits by simp
qed

text \<open>A converted entry with the references of its bodies, and the bodies a fixture must hold for it.\<close>

fun with_bodies :: "ext_lib \<Rightarrow> pending_flow \<Rightarrow> flow" where
  "with_bodies X (fl, rb, sb) =
     fl\<lparr>fl_request := (fl_request fl)\<lparr>req_body := body_ref_of X rb\<rparr>,
        fl_outcome := (case fl_outcome fl of
            OutResponse r \<Rightarrow> OutResponse (r\<lparr>resp_body := body_ref_of X sb\<rparr>) | OutError e \<Rightarrow> OutError e)\<rparr>"

fun item_bodies :: "pending_flow \<Rightarrow> bytes set" where
  "item_bodies (fl, rb, sb) = {rb} \<union> (case fl_outcome fl of OutResponse _ \<Rightarrow> {sb} | OutError _ \<Rightarrow> {})"

definition bodies_readable :: "ext_lib \<Rightarrow> fixture_dir \<Rightarrow> store_limits \<Rightarrow> pending_flow \<Rightarrow> bool" where
  "bodies_readable X d lim item \<longleftrightarrow> (\<forall>b\<in>item_bodies item. read_body X d lim (body_ref_of X b) = Inr b)"

lemma bodies_readable_grows: "bodies_readable X d lim item \<Longrightarrow> grows X S d d' \<Longrightarrow> bodies_readable X d' lim item"
  by (auto simp: bodies_readable_def grows_def)

lemma append_flow_keeps_blobs:
  "append_flow C fl d w = (d', w', r) \<Longrightarrow> fd_blobs d' = fd_blobs d \<and> sw_limits w' = sw_limits w"
  by (auto simp: append_flow_def Let_def split: sum.splits)

lemma same_blobs_grows:
  assumes "blobs_wf X d" and "fd_blobs d' = fd_blobs d"
  shows "grows X S d d'"
  using assms
  by (auto simp: grows_def blobs_wf_def stored_def blob_node_def blob_entries_def read_body_def
      read_blob_from_root_iff holds_blob_def split: body_ref.splits)

lemma publish_response_ok:
  assumes X: "sha256_lawful X" and wf: "blobs_wf X d" and fresh: "blob_node d (staging_name u) = None"
    and bodies: "\<And>r. fl_outcome fl = OutResponse r \<Longrightarrow> length c < 2 ^ 64 \<and> \<not> collides X d c"
    and run: "publish_response X u c fl d w = (d', Inr fl')"
  shows "fl' = fl\<lparr>fl_outcome := (case fl_outcome fl of
            OutResponse r \<Rightarrow> OutResponse (r\<lparr>resp_body := body_ref_of X c\<rparr>) | OutError e \<Rightarrow> OutError e)\<rparr>
    \<and> (\<forall>r. fl_outcome fl = OutResponse r \<longrightarrow> read_body X d' (sw_limits w) (body_ref_of X c) = Inr c)
    \<and> grows X (case fl_outcome fl of OutResponse _ \<Rightarrow> {c} | OutError _ \<Rightarrow> {}) d d'"
proof (cases "fl_outcome fl")
  case (OutResponse r)
  with run obtain body where b: "publish_body X u c d w = (d', Inr body)"
    and fl': "fl' = fl\<lparr>fl_outcome := OutResponse (r\<lparr>resp_body := body\<rparr>)\<rparr>"
    by (auto simp: publish_response_def split: prod.splits sum.splits)
  from publish_body_ok [OF X wf fresh _ _ b] bodies [OF OutResponse]
  have "body = body_ref_of X c" "read_body X d' (sw_limits w) body = Inr c" "grows X {c} d d'" by auto
  then show ?thesis using fl' OutResponse by simp
next
  case (OutError e)
  with run have "d' = d" "fl' = fl" by (simp_all add: publish_response_def)
  then show ?thesis using OutError wf by (simp add: grows_refl)
qed

lemma staged_same_files: "staged C flows d w \<Longrightarrow> fd_files d' = fd_files d \<Longrightarrow> staged C flows d' w"
  by (simp add: staged_def file_node_def)

lemma publish_response_files: "publish_response X u c fl d w = (d', r) \<Longrightarrow> fd_files d' = fd_files d"
  by (auto simp: publish_response_def dest: publish_body_files split: flow_outcome.splits prod.splits sum.splits)

text \<open>Whatever happens, the log gains the flow exactly when the step reports it.\<close>

lemma publish_flow_staged:
  assumes "staged C flows d w" and "publish_flow C X u1 u2 item d w = (d', w', r)"
  shows "staged C (flows @ (case r of Inl _ \<Rightarrow> [] | Inr fl \<Rightarrow> [fl])) d' w'"
proof -
  obtain fl rb sb where item: "item = (fl, rb, sb)" by (rule prod_cases3)
  obtain d1 r1 where b1: "publish_body X u1 rb d w = (d1, r1)" by fastforce
  note s1 = staged_same_files [OF assms(1) publish_body_files [OF b1]]
  show ?thesis
  proof (cases r1)
    case (Inr body)
    let ?fl = "fl\<lparr>fl_request := (fl_request fl)\<lparr>req_body := body\<rparr>\<rparr>"
    obtain d2 r2 where b2: "publish_response X u2 sb ?fl d1 w = (d2, r2)" by fastforce
    note s2 = staged_same_files [OF s1 publish_response_files [OF b2]]
    show ?thesis
    proof (cases r2)
      case (Inr fl2)
      obtain d3 w3 r3 where b3: "append_flow C fl2 d2 w = (d3, w3, r3)" by (rule prod_cases3)
      with assms(2) item b1 b2 \<open>r1 = Inr body\<close> Inr have "d' = d3" "w' = w3"
        "r = rbind (map_err HarStore r3) (\<lambda>_. Inr fl2)"
        by (simp_all add: publish_flow_def)
      with staged_flow [OF s2 b3] show ?thesis by (cases r3) simp_all
    qed (use assms(2) item b1 b2 s2 \<open>r1 = Inr body\<close> in \<open>auto simp: publish_flow_def\<close>)
  qed (use assms(2) item b1 s1 in \<open>auto simp: publish_flow_def\<close>)
qed

lemma publish_flow_ok:
  assumes X: "sha256_lawful X" and wf: "blobs_wf X d"
    and fresh: "blob_node d (staging_name u1) = None" "blob_node d (staging_name u2) = None"
    and bodies: "\<forall>b\<in>item_bodies item. length b < 2 ^ 64"
    and unique: "inj_on (x_sha256 X) (stored X d \<union> item_bodies item)"
    and run: "publish_flow C X u1 u2 item d w = (d', w', Inr fl')"
  shows "fl' = with_bodies X item \<and> bodies_readable X d' (sw_limits w) item \<and> grows X (item_bodies item) d d'
    \<and> sw_limits w' = sw_limits w"
proof -
  obtain fl rb sb where item: "item = (fl, rb, sb)" by (rule prod_cases3)
  from run obtain d1 body d2 fl2 where b1: "publish_body X u1 rb d w = (d1, Inr body)"
    and b2: "publish_response X u2 sb (fl\<lparr>fl_request := (fl_request fl)\<lparr>req_body := body\<rparr>\<rparr>) d1 w = (d2, Inr fl2)"
    and b3: "append_flow C fl2 d2 w = (d', w', Inr ())" and fl': "fl' = fl2"
    by (auto simp: publish_flow_def item rbind_Inr_iff map_err_Inr_iff split: prod.splits sum.splits)
  have c1: "\<not> collides X d rb" using not_collides [OF wf X unique] item by simp
  have g1: "body = body_ref_of X rb" "read_body X d1 (sw_limits w) body = Inr rb" "grows X {rb} d d1"
    using publish_body_ok [OF X wf fresh(1) _ c1 b1] bodies item by auto
  have wf1: "blobs_wf X d1" and fresh1: "blob_node d1 (staging_name u2) = None"
    and sub: "stored X d1 \<union> item_bodies item \<subseteq> stored X d \<union> item_bodies item"
    using g1(3) fresh(2) item by (auto simp: grows_def)
  have c2: "\<not> collides X d1 sb" if "fl_outcome fl = OutResponse r" for r
    using not_collides [OF wf1 X inj_on_subset [OF unique sub]] item that by simp
  have "length sb < 2 ^ 64 \<and> \<not> collides X d1 sb"
    if "fl_outcome (fl\<lparr>fl_request := (fl_request fl)\<lparr>req_body := body\<rparr>\<rparr>) = OutResponse r" for r
    using c2 [of r] bodies item that by simp
  note response = publish_response_ok [OF X wf1 fresh1 this b2]
  have g2: "fl2 = with_bodies X item"
    using conjunct1 [OF response] by (simp add: item g1(1))
  have r2: "\<forall>r. fl_outcome fl = OutResponse r \<longrightarrow> read_body X d2 (sw_limits w) (body_ref_of X sb) = Inr sb"
    using conjunct1 [OF conjunct2 [OF response]] by simp
  have s2: "grows X (case fl_outcome fl of OutResponse _ \<Rightarrow> {sb} | OutError _ \<Rightarrow> {}) d1 d2"
    using conjunct2 [OF conjunct2 [OF response]] by simp
  have wf2: "blobs_wf X d2" using s2 by (simp add: grows_def)
  have g3: "grows X {} d2 d'"
    by (rule same_blobs_grows [OF wf2 conjunct1 [OF append_flow_keeps_blobs [OF b3]]])
  have "sw_limits w' = sw_limits w" using append_flow_keeps_blobs [OF b3] by simp
  moreover have "grows X (item_bodies item) d d'"
    using grows_trans [OF grows_trans [OF g1(3) s2] g3] item by simp
  moreover have "bodies_readable X d2 (sw_limits w) item"
    using g1 r2 s2 by (auto simp: bodies_readable_def item grows_def split: flow_outcome.splits)
  ultimately show ?thesis using g2 fl' bodies_readable_grows [OF _ g3] by simp
qed

lemma publish_flows_staged:
  "staged C flows d w \<Longrightarrow> publish_flows C X names n items d w = (d', w', r) \<Longrightarrow>
     \<exists>fls. staged C (flows @ fls) d' w' \<and> length fls \<le> length items \<and> (\<forall>out. r = Inr out \<longrightarrow> fls = out \<and> length out = length items)"
proof (induction items arbitrary: n d w flows r d' w')
  case Nil
  then show ?case by (intro exI [of _ "[]"]) auto
next
  case (Cons item items)
  obtain d1 w1 r1 where b1: "publish_flow C X (names (2 * n)) (names (2 * n + 1)) item d w = (d1, w1, r1)"
    by (rule prod_cases3)
  note s1 = publish_flow_staged [OF Cons.prems(1) b1]
  show ?case
  proof (cases r1)
    case (Inl e)
    with Cons.prems(2) b1 s1 show ?thesis by (intro exI [of _ "[]"]) auto
  next
    case (Inr fl)
    obtain d2 w2 r2 where b2: "publish_flows C X names (Suc n) items d1 w1 = (d2, w2, r2)" by (rule prod_cases3)
    from Inr s1 have "staged C (flows @ [fl]) d1 w1" by simp
    from Cons.IH [OF this b2] obtain fls where
      "staged C ((flows @ [fl]) @ fls) d2 w2" "length fls \<le> length items" "\<forall>out. r2 = Inr out \<longrightarrow> fls = out \<and> length out = length items"
      by blast
    moreover have "d' = d2" "w' = w2" "r = rbind r2 (\<lambda>fls. Inr (fl # fls))"
      using Cons.prems(2) b1 b2 Inr by simp_all
    ultimately show ?thesis by (intro exI [of _ "fl # fls"], cases r2) simp_all
  qed
qed

lemma publish_flows_ok:
  assumes "sha256_lawful X" and "blobs_wf X d" and "\<forall>k. blob_node d (staging_name (names k)) = None"
    and "\<forall>item\<in>set items. \<forall>b\<in>item_bodies item. length b < 2 ^ 64"
    and "inj_on (x_sha256 X) (stored X d \<union> (\<Union>(item_bodies ` set items)))"
    and "publish_flows C X names n items d w = (d', w', Inr out)"
  shows "out = map (with_bodies X) items \<and> (\<forall>item\<in>set items. bodies_readable X d' (sw_limits w) item)
    \<and> grows X (\<Union>(item_bodies ` set items)) d d' \<and> sw_limits w' = sw_limits w"
  using assms(2-)
proof (induction items arbitrary: n d w out)
  case (Cons item items)
  from Cons.prems(5) obtain d1 w1 fl fls where
    b1: "publish_flow C X (names (2 * n)) (names (2 * n + 1)) item d w = (d1, w1, Inr fl)"
    and b2: "publish_flows C X names (Suc n) items d1 w1 = (d', w', Inr fls)" and out: "out = fl # fls"
    by (auto simp: rbind_Inr_iff split: prod.splits sum.splits)
  have "inj_on (x_sha256 X) (stored X d \<union> item_bodies item)"
    using Cons.prems(4) by (rule inj_on_subset) auto
  with publish_flow_ok [OF assms(1) Cons.prems(1) _ _ _ this b1] Cons.prems(2,3)
  have one: "fl = with_bodies X item" "bodies_readable X d1 (sw_limits w) item" "grows X (item_bodies item) d d1"
    "sw_limits w1 = sw_limits w" by simp_all
  then have wf1: "blobs_wf X d1" and fresh1: "\<forall>k. blob_node d1 (staging_name (names k)) = None"
    using Cons.prems(2) by (auto simp: grows_def)
  have "inj_on (x_sha256 X) (stored X d1 \<union> (\<Union>(item_bodies ` set items)))"
    using Cons.prems(4) by (rule inj_on_subset) (use one(3) in \<open>auto simp: grows_def\<close>)
  from Cons.IH [OF wf1 fresh1 _ this b2] Cons.prems(3) one(4)
  have rest: "fls = map (with_bodies X) items" "\<forall>item\<in>set items. bodies_readable X d' (sw_limits w) item"
    "grows X (\<Union>(item_bodies ` set items)) d1 d'" "sw_limits w' = sw_limits w" by simp_all
  then show ?case
    using one out bodies_readable_grows [OF one(2) rest(3)] grows_trans [OF one(3) rest(3)] by simp
qed (simp add: grows_refl)

section \<open>Redaction\<close>

text \<open>
  What a body may be once it was imported: nothing, the outcome of the JSON or of the form transform
  for its media type, or the original when the profile names no JSON path.
\<close>

lemma redact_import_body_Inr:
  assumes "redact_import_body X original media config profile is_response index side bound = Inr ((c, markers), losses)"
  obtains (Nothing) "original = []" "c = []" "markers = []"
    | (Json) m where "rc_json_paths config \<noteq> []" "is_json_media_type (base_media_type media)"
      "apply_json_redaction X original (rc_json_paths config) = Inr (c, m)"
    | (Form) m where "rc_query_keys config \<noteq> []" "is_form_media_type (base_media_type media)"
      "apply_form_redaction X original (rc_query_keys config) = Inr (c, m)"
    | (Untouched) "rc_json_paths config = []" "c = original" "markers = []"
        "rc_query_keys config = [] \<or> \<not> is_form_media_type (base_media_type media)"
  using assms
  by (auto simp: redact_import_body_def Let_def rbind_Inr_iff map_err_Inr_iff split: if_splits)

definition body_was_redacted :: "ext_lib \<Rightarrow> redaction_config \<Rightarrow> bytes \<Rightarrow> bool" where
  "body_was_redacted X config c \<longleftrightarrow>
     c = []
     \<or> (\<exists>original m. apply_json_redaction X original (rc_json_paths config) = Inr (c, m))
     \<or> (\<exists>original m. rc_query_keys config \<noteq> [] \<and> apply_form_redaction X original (rc_query_keys config) = Inr (c, m))"

lemma redact_import_body_fails_closed:
  "redact_import_body X original media config profile is_response index side bound = Inr ((c, markers), losses) \<Longrightarrow>
     rc_json_paths config \<noteq> [] \<Longrightarrow> body_was_redacted X config c"
  by (erule redact_import_body_Inr) (auto simp: body_was_redacted_def)

text \<open>With query keys alone, a body that is not a form is published as it was.\<close>

lemma non_form_body_is_published_unredacted:
  assumes "rc_json_paths config = []" and "rc_query_keys config \<noteq> []" and "original \<noteq> []"
    and "length original \<le> unat bound" and "\<not> is_form_media_type (base_media_type media)"
  shows "wants_body_redaction config"
    and "redact_import_body X original media config profile is_response index side bound = Inr ((original, []), [])"
  using assms by (simp_all add: redact_import_body_def wants_body_redaction_def structured_too_long_def Let_def)

text \<open>A comment whose 512th byte is inside a character panics the import.\<close>

lemma long_comment_panics:
  "truncate_bounded (replicate 511 CHR ''a'' @ map char_of [195, 169 :: nat]) 512 = Inl HarPanicked"
  by (simp add: truncate_bounded_def is_char_boundary_def nth_append is_cont_def byte_in_def byte_val_char_of)

text \<open>The headers and the query of a flow, masked.\<close>

definition headers_masked :: "string list \<Rightarrow> header_entry list \<Rightarrow> bool" where
  "headers_masked names hs \<longleftrightarrow>
     (\<forall>h\<in>set hs. to_lower (h_name h) \<in> set names \<longrightarrow> h_value h = REDACTED \<or> h_name h = ''content-length'')"

fun outcome_headers :: "flow_outcome \<Rightarrow> header_entry list" where
  "outcome_headers (OutResponse r) = resp_headers r"
| "outcome_headers (OutError _) = []"

definition flow_masked :: "redaction_config \<Rightarrow> flow \<Rightarrow> bool" where
  "flow_masked config fl \<longleftrightarrow>
     headers_masked (rc_headers config) (req_headers (fl_request fl))
     \<and> headers_masked (rc_headers config) (outcome_headers (fl_outcome fl))
     \<and> (\<forall>p\<in>set (req_query (fl_request fl)). q_key p \<in> set (rc_query_keys config) \<longrightarrow> q_value p = REDACTED)"

lemma headers_masked_map: "headers_masked names (map (mask_header names) hs)"
  by (auto simp: headers_masked_def mask_header_def)

lemma headers_masked_subset:
  "headers_masked names hs \<Longrightarrow> \<forall>h\<in>set hs'. h \<in> set hs \<or> h_name h = ''content-length'' \<Longrightarrow> headers_masked names hs'"
  by (auto simp: headers_masked_def)

lemma outcome_headers_masked: "outcome_headers (outcome_masked names out) = map (mask_header names) (outcome_headers out)"
  by (cases out) simp_all

lemma outcome_headers_with: "outcome_headers (with_response_headers out hs) = (case out of OutResponse _ \<Rightarrow> hs | OutError _ \<Rightarrow> [])"
  by (cases out) simp_all

lemma redact_imported_masked: "flow_masked config (fst (redact_imported fl config profile index rm sm rb sb))"
proof -
  let ?m = "marked_flow fl config profile rm sm"
  obtain hs rhs markers nts where
    shape: "reconcile_imported ?m rb sb profile = ?m\<lparr>fl_request := (fl_request ?m)\<lparr>req_headers := hs\<rparr>,
        fl_outcome := with_response_headers (fl_outcome ?m) rhs, fl_redactions := fl_redactions ?m @ markers,
        fl_annotations := fl_annotations ?m @ nts\<rparr>"
    and hs: "\<forall>h\<in>set hs. h \<in> set (req_headers (fl_request ?m)) \<or> h_name h = ''content-length''"
    and rhs: "\<forall>r. fl_outcome ?m = OutResponse r \<longrightarrow> (\<forall>h\<in>set rhs. h \<in> set (resp_headers r) \<or> h_name h = ''content-length'')"
    using reconcile_imported_shape [of ?m rb sb profile] by blast
  have req: "req_headers (fl_request ?m) = map (mask_header (rc_headers config)) (req_headers (fl_request fl))"
    and out: "fl_outcome ?m = outcome_masked (rc_headers config) (fl_outcome fl)"
    and query: "req_query (fl_request ?m) = map (mask_pair (rc_query_keys config)) (req_query (fl_request fl))"
    by (simp_all add: marked_flow_def Let_def redact_flow_eq)
  have "headers_masked (rc_headers config) hs"
    using headers_masked_subset [OF headers_masked_map hs [unfolded req]] .
  moreover have "headers_masked (rc_headers config) (case fl_outcome ?m of OutResponse _ \<Rightarrow> rhs | OutError _ \<Rightarrow> [])"
  proof (cases "fl_outcome fl")
    case (OutResponse r)
    then have "\<forall>h\<in>set rhs. h \<in> set (map (mask_header (rc_headers config)) (resp_headers r)) \<or> h_name h = ''content-length''"
      using rhs by (simp add: out)
    from headers_masked_subset [OF headers_masked_map this] show ?thesis by (simp add: out OutResponse)
  qed (simp add: out headers_masked_def)
  ultimately show ?thesis
    unfolding redact_imported_fst shape by (auto simp: flow_masked_def outcome_headers_with query mask_pair_def)
qed

lemma entry_request_body_redacted:
  assumes "entry_request_body L X config profile bound max_blob index request = Inr ((c, markers), losses)"
    and "rc_json_paths config \<noteq> []"
  shows "body_was_redacted X config c"
  using assms by (auto simp: entry_request_body_def Let_def rbind_Inr_iff if_Inl_eq_Inr dest: redact_import_body_fails_closed)

lemma entry_response_redacted:
  assumes "entry_response L X config profile bound max_blob index response = Inr ((status, headers, c, markers), losses)"
    and "rc_json_paths config \<noteq> []"
  shows "body_was_redacted X config c"
  using assms by (auto simp: entry_response_def Let_def rbind_Inr_iff dest: redact_import_body_fails_closed)

lemma import_entry_redacted:
  assumes "import_entry L X uniq opts creator index entry = Inr ((fl, rb, sb), losses)"
  shows "flow_masked (io_redaction opts) fl"
    and "rc_json_paths (io_redaction opts) \<noteq> [] \<Longrightarrow> body_was_redacted X (io_redaction opts) rb \<and> body_was_redacted X (io_redaction opts) sb"
proof -
  let ?c = "io_redaction opts"
  have "flow_masked ?c fl \<and> (rc_json_paths ?c \<noteq> [] \<longrightarrow> body_was_redacted X ?c rb \<and> body_was_redacted X ?c sb)"
  proof (rule import_entry_Inr [OF assms])
    fix r1 r2 r3 r4 r5 r6 annotations l7
    assume r4: "entry_request_body L X ?c (io_profile opts) (io_max_structured opts) (io_max_blob opts) index
       (he_request entry) = Inr r4"
    and r5: "entry_response L X ?c (io_profile opts) (io_max_structured opts) (io_max_blob opts) index
       (he_response entry) = Inr r5"
    and fin: "finish_entry uniq opts index (hq_method (he_request entry)) (fst r1) (fst r2) (fst r3) (fst r4) (fst r5)
       (fst r6) annotations = Inr ((fl, rb, sb), l7)"
    obtain c rm l4 where e4: "r4 = ((c, rm), l4)" by (metis prod.collapse)
    obtain status rh c' sm l5 where e5: "r5 = ((status, rh, c', sm), l5)" by (metis prod.collapse)
    from fin have "rb = c" "sb = c'" and "\<exists>a. fl = fst (redact_imported a ?c (io_profile opts) index rm sm rb sb)"
      by (auto simp: e4 e5 finish_entry_def Let_def split_def rbind_Inr_iff map_err_Inr_iff)
    then show ?thesis
      using redact_imported_masked entry_request_body_redacted [OF r4 [unfolded e4]] entry_response_redacted [OF r5 [unfolded e5]]
      by auto
  qed
  then show "flow_masked ?c fl"
    and "rc_json_paths ?c \<noteq> [] \<Longrightarrow> body_was_redacted X ?c rb \<and> body_was_redacted X ?c sb" by simp_all
qed

section \<open>A demonstration import\<close>

definition demo_har_url :: string where
  "demo_har_url = ''http://example.test/a?token=x''"

definition demo_har_entry :: har_entry where
  "demo_har_entry =
     \<lparr>he_pageref = None, he_started = Some ''1970-01-01T00:00:01Z'', he_time = Some (JString ''2.5''),
      he_request = \<lparr>hq_method = ''POST'', hq_url = demo_har_url, hq_http_version = Some ''HTTP/1.1'', hq_cookies = [],
        hq_headers = [\<lparr>nv_name = ''Authorization'', nv_value = ''Bearer 1'', nv_comment = None\<rparr>], hq_query_string = [],
        hq_post_data = Some \<lparr>pd_mime_type = ''text/plain'', pd_params = [], pd_text = Some ''hi'', pd_encoding = None,
          pd_comment = None\<rparr>,
        hq_headers_size = None, hq_body_size = None, hq_comment = None\<rparr>,
      he_response = \<lparr>hr_status = JNumber ''200'', hr_status_text = None, hr_http_version = None, hr_cookies = [],
        hr_headers = [], hr_content = Some \<lparr>ct_size = Some 2, ct_compression = None, ct_mime_type = Some ''text/plain'',
          ct_text = Some ''ok'', ct_encoding = None, ct_comment = None\<rparr>,
        hr_redirect_url = None, hr_headers_size = None, hr_body_size = None, hr_comment = None\<rparr>,
      he_cache = None, he_timings = None, he_server_ip = None, he_connection = None, he_comment = None\<rparr>"

definition demo_har_log :: har_log where
  "demo_har_log = \<lparr>lg_version = ''1.2'', lg_creator = None, lg_browser = None, lg_pages = None,
     lg_entries = [demo_har_entry], lg_comment = None\<rparr>"

definition demo_url_parse :: "string \<Rightarrow> url_parts option" where
  "demo_url_parse u =
     (if u = demo_har_url
      then Some \<lparr>url_scheme = ''http'', url_host = Some ''example.test'', url_port = None, url_path = ''/a'',
                 url_query_pairs = [(''token'', ''x'')], url_username = [], url_password = None, url_as_str = u\<rparr>
      else None)"

definition demo_har_lib :: har_lib where
  "demo_har_lib =
     \<lparr>hx_from_slice = (\<lambda>b. if b = ''har'' then Inr \<lparr>doc_log = demo_har_log\<rparr> else Inl ''expected value''),
      hx_provenance_to = (\<lambda>_. Inr ''{}''),
      hx_as_f64 = (\<lambda>v. case v of JNumber s \<Rightarrow> f64_from_str s | _ \<Rightarrow> None),
      hx_b64_encode = (\<lambda>b. b), hx_b64_decode = Some,
      hx_rfc3339_ms = (\<lambda>s. if s = ''1970-01-01T00:00:01Z'' then Some 1000 else None),
      hx_rfc3339_print = (\<lambda>n. if n = 1000 then Some ''1970-01-01T00:00:01Z'' else None),
      hx_url_parse = demo_url_parse\<rparr>"

definition demo_import_options :: import_options where
  "demo_import_options =
     \<lparr>io_redaction = \<lparr>rc_headers = [''authorization''], rc_query_keys = [''token''], rc_json_paths = []\<rparr>,
      io_profile = ''p'', io_max_structured = 1000, io_max_blob = 1000\<rparr>"

definition demo_import_codec :: codec where
  "demo_import_codec = demo_codec\<lparr>cd_flow_to := \<lambda>_. Some ''F''\<rparr>"

definition demo_new_dir :: fixture_dir where
  "demo_new_dir = \<lparr>fd_files = [(''flows.jsonl'', RegularFile [])], fd_blobs = Some []\<rparr>"

text \<open>The converted flow: the header and the query value are masked, the query is the one of the URL.\<close>

definition demo_imported_flow :: flow where
  "demo_imported_flow =
     \<lparr>fl_schema_version = 1, fl_id = ''har-import-000000-7'', fl_started_at_ms = 1000, fl_completed_at_ms = Some 1003,
      fl_request = \<lparr>req_method = ''POST'', req_scheme = ''http'', req_authority = ''example.test'', req_path = ''/a'',
        req_query = [\<lparr>q_key = ''token'', q_value = REDACTED\<rparr>],
        req_headers = [\<lparr>h_name = ''Authorization'', h_value = REDACTED\<rparr>], req_body = BodyEmpty, req_trailers = []\<rparr>,
      fl_outcome = OutResponse \<lparr>resp_status = 200, resp_headers = [], resp_body = BodyEmpty, resp_trailers = []\<rparr>,
      fl_physical_route = None, fl_provenance = \<lparr>prov_mode = ''har-import'', prov_observer = ''eggreplay-har''\<rparr>,
      fl_annotations = [(''har.entry.time_ms'', ''3'')],
      fl_redactions = [\<lparr>m_field = ''request.headers.Authorization'', m_profile = ''p''\<rparr>,
        \<lparr>m_field = ''request.query.token'', m_profile = ''p''\<rparr>]\<rparr>"

definition demo_adopted :: har_loss where
  "demo_adopted = loss_entry 0 ''request.queryString'' ''empty queryString adopted from URL query component'' Annotated"

definition demo_masked :: har_loss where
  "demo_masked = \<lparr>hl_entry_index = Some 0, hl_flow_id = Some ''har-import-000000-7'',
     hl_field = ''request/response.headers,query'', hl_reason = ''2 header/query field(s) redacted per selected profile'',
     hl_action = Redacted\<rparr>"

lemma demo_sections:
  "entry_url demo_har_lib 0 (he_request demo_har_entry) = Inr ((''http'', ''example.test'', ''/a''), [])"
  "entry_query demo_har_lib 0 (he_request demo_har_entry) = Inr ([\<lparr>q_key = ''token'', q_value = ''x''\<rparr>], [demo_adopted])"
  "entry_headers 0 (he_request demo_har_entry) = Inr ([\<lparr>h_name = ''Authorization'', h_value = ''Bearer 1''\<rparr>], [])"
  "entry_request_body demo_har_lib demo_lib (io_redaction demo_import_options) ''p'' 1000 1000 0
     (he_request demo_har_entry) = Inr ((''hi'', []), [])"
  "entry_response demo_har_lib demo_lib (io_redaction demo_import_options) ''p'' 1000 1000 0
     (he_response demo_har_entry) = Inr ((Some 200, [], ''ok'', []), [])"
  "entry_timing demo_har_lib 0 demo_har_entry = Inr ((1000, 3), [])"
  "entry_annotations None demo_har_entry 3 = Inr [(''har.entry.time_ms'', ''3'')]"
  by code_simp+

lemma demo_finish_entry:
  "finish_entry (\<lambda>_. ''7'') demo_import_options 0 ''POST'' (''http'', ''example.test'', ''/a'')
     [\<lparr>q_key = ''token'', q_value = ''x''\<rparr>] [\<lparr>h_name = ''Authorization'', h_value = ''Bearer 1''\<rparr>] (''hi'', [])
     (Some 200, [], ''ok'', []) (1000, 3) [(''har.entry.time_ms'', ''3'')]
   = Inr ((demo_imported_flow, ''hi'', ''ok''), [demo_masked])"
  by code_simp

lemma demo_conversion:
  "import_flows demo_har_lib demo_lib (\<lambda>_. ''7'') demo_import_options demo_har_log =
     Inr ([(demo_imported_flow, ''hi'', ''ok'')], [demo_adopted, demo_masked])"
proof -
  have "hq_method (he_request demo_har_entry) = ''POST''" "io_profile demo_import_options = ''p''"
    "io_max_structured demo_import_options = 1000" "io_max_blob demo_import_options = 1000"
    by (simp_all add: demo_har_entry_def demo_import_options_def)
  then have "import_entry demo_har_lib demo_lib (\<lambda>_. ''7'') demo_import_options None 0 demo_har_entry =
      Inr ((demo_imported_flow, ''hi'', ''ok''), [demo_adopted, demo_masked])"
    using demo_finish_entry by (simp add: import_entry_def demo_sections)
  then show ?thesis
    by (simp add: import_flows_def demo_har_log_def document_losses_def import_step_def)
qed

lemma demo_parse: "parse_document demo_har_lib ''har'' = Inr demo_har_log"
  by (simp add: parse_document_def demo_har_lib_def demo_har_log_def MAX_HAR_FILE_BYTES_def MAX_HAR_ENTRIES_def
      HAR_VERSION_1_2_def)

definition demo_import_dir :: fixture_dir where
  "demo_import_dir =
     \<lparr>fd_files = [(''flows.jsonl'', RegularFile [CHR ''F'', newline])],
      fd_blobs = Some [(demo_digest ''hi'', RegularFile ''hi''), (demo_digest ''ok'', RegularFile ''ok'')]\<rparr>"

definition demo_import_writer :: session_writer where
  "demo_import_writer = (demo_writer 1)\<lparr>sw_total_bytes := 4\<rparr>"

definition demo_item :: pending_flow where
  "demo_item = (demo_imported_flow, ''hi'', ''ok'')"

lemma demo_publish_request:
  "publish_body demo_lib ''u'' ''hi'' demo_new_dir (demo_writer 0) =
     (\<lparr>fd_files = [(''flows.jsonl'', RegularFile [])], fd_blobs = Some [(demo_digest ''hi'', RegularFile ''hi'')]\<rparr>,
      Inr (body_ref_of demo_lib ''hi''))"
  by code_simp

lemma demo_publish_response:
  "publish_body demo_lib ''u'' ''ok''
     \<lparr>fd_files = [(''flows.jsonl'', RegularFile [])], fd_blobs = Some [(demo_digest ''hi'', RegularFile ''hi'')]\<rparr> (demo_writer 0) =
     (demo_import_dir\<lparr>fd_files := [(''flows.jsonl'', RegularFile [])]\<rparr>, Inr (body_ref_of demo_lib ''ok''))"
  by code_simp

lemma demo_publish_append:
  "append_flow demo_import_codec (with_bodies demo_lib demo_item) (demo_import_dir\<lparr>fd_files := [(''flows.jsonl'', RegularFile [])]\<rparr>)
     (demo_writer 0) = (demo_import_dir, demo_import_writer, Inr ())"
  by code_simp

lemma demo_publish:
  "publish_flow demo_import_codec demo_lib ''u'' ''u'' demo_item demo_new_dir (demo_writer 0) =
     (demo_import_dir, demo_import_writer, Inr (with_bodies demo_lib demo_item))"
  using demo_publish_append
  by (simp add: publish_flow_def demo_item_def demo_publish_request publish_response_def demo_imported_flow_def
      demo_publish_response)

definition demo_final_dir :: fixture_dir where
  "demo_final_dir = demo_import_dir\<lparr>fd_files := fd_files demo_import_dir @ [(''interop-provenance.json'', RegularFile ''{}'')]\<rparr>"

definition demo_final_writer :: session_writer where
  "demo_final_writer = demo_import_writer\<lparr>sw_extensions := [provenance_extension],
     sw_metadata := (sw_metadata demo_import_writer)\<lparr>sm_schema_version := SESSION_SCHEMA_VERSION\<rparr>\<rparr>"

lemma demo_provenance:
  "write_extension provenance_extension ''{}'' demo_import_dir demo_import_writer = (demo_final_dir, demo_final_writer, Inr ())"
  by code_simp

definition demo_report :: import_report where
  "demo_report = \<lparr>ir_flows = 1, ir_losses = [demo_adopted, demo_masked], ir_entries = 1\<rparr>"

lemma demo_import:
  "import_har_to_writer demo_har_lib demo_import_codec demo_lib ''0.1'' (\<lambda>_. ''7'') (\<lambda>_. ''u'') demo_import_options ''har''
     demo_new_dir (demo_writer 0) = (demo_final_dir, demo_final_writer, Inr demo_report)"
proof -
  have "hx_provenance_to demo_har_lib p = Inr ''{}''" for p by (simp add: demo_har_lib_def)
  then show ?thesis
    using demo_publish
    by (simp add: import_har_to_writer_def demo_parse demo_conversion demo_item_def demo_provenance demo_report_def)
      (simp add: demo_har_log_def)
qed

section \<open>Properties\<close>

text \<open>
  Property C27: A successful import publishes the document and nothing else. The writer holds its
  earlier flows and then one flow for every entry, in order, each with its own identifier and each
  valid; the references of their bodies read back exactly the converted bytes; the report counts
  them. (No stored or imported content may have the digest of another, and no staging file of the
  names that are drawn may exist.)
\<close>

theorem har_import_publishes:
  assumes "sha256_lawful X" and "blobs_wf X d" and "staged C flows d w"
    and "\<forall>k. blob_node d (staging_name (names k)) = None"
    and "parse_document L content = Inr log" and "import_flows L X uniq opts log = Inr (items, losses)"
    and "\<forall>item\<in>set items. \<forall>b\<in>item_bodies item. length b < 2 ^ 64"
    and "inj_on (x_sha256 X) (stored X d \<union> (\<Union>(item_bodies ` set items)))"
    and "import_har_to_writer L C X tool_version uniq names opts content d w = (d', w', Inr report)"
  shows "staged C (flows @ map (with_bodies X) items) d' w'
    \<and> (\<forall>item\<in>set items. bodies_readable X d' (sw_limits w) item \<and> flow_validate (fst item) = Inr ())
    \<and> distinct (map (fl_id \<circ> fst) items) \<and> length items = length (lg_entries log)
    \<and> report = \<lparr>ir_flows = length items, ir_losses = losses, ir_entries = length items\<rparr>"
proof -
  obtain d1 w1 r1 where pub: "publish_flows C X names 0 items d w = (d1, w1, r1)" by (rule prod_cases3)
  with assms(5,6,9) obtain flows' where r1: "r1 = Inr flows'"
    by (cases r1) (auto simp: import_har_to_writer_def)
  obtain encoded where "hx_provenance_to L (import_provenance tool_version log (length flows') losses) = Inr encoded"
    using assms(5,6,9) pub r1
    by (cases "hx_provenance_to L (import_provenance tool_version log (length flows') losses)")
      (auto simp: import_har_to_writer_def)
  with assms(5,6,9) pub r1 have ext: "write_extension provenance_extension encoded d1 w1 = (d', w', Inr ())"
    and report: "report = \<lparr>ir_flows = length flows', ir_losses = losses, ir_entries = length (lg_entries log)\<rparr>"
    by (auto simp: import_har_to_writer_def rbind_Inr_iff map_err_Inr_iff split: prod.splits)
  from publish_flows_ok [OF assms(1,2,4,7,8) pub [unfolded r1]]
  have flows': "flows' = map (with_bodies X) items" and readable: "\<forall>item\<in>set items. bodies_readable X d1 (sw_limits w) item"
    and grows: "grows X (\<Union>(item_bodies ` set items)) d d1" by simp_all
  from publish_flows_staged [OF assms(3) pub] r1 have "staged C (flows @ flows') d1 w1" by auto
  from staged_extension [OF this ext] have "staged C (flows @ map (with_bodies X) items) d' w'" by (simp add: flows')
  note here = this
  have "fd_blobs d' = fd_blobs d1"
    using write_extension_cases [OF ext] by (auto dest: root_create_newD)
  moreover have "blobs_wf X d1" using grows by (simp add: grows_def)
  ultimately have "grows X {} d1 d'" using same_blobs_grows by blast
  then have "\<forall>item\<in>set items. bodies_readable X d' (sw_limits w) item"
    using readable bodies_readable_grows by blast
  with here show ?thesis
    using import_flows_distinct [OF assms(6)] import_flows_length [OF assms(6)] report flows' by simp
qed

lemma har_import_publishes_witness:
  "staged demo_import_codec [with_bodies demo_lib demo_item] demo_final_dir demo_final_writer
   \<and> bodies_readable demo_lib demo_final_dir (sw_limits (demo_writer 0)) demo_item"
proof -
  have "blobs_wf demo_lib demo_new_dir" and empty: "blob_node demo_new_dir k = None" for k
    by (simp_all add: blobs_wf_def demo_new_dir_def blob_node_def blob_entries_def)
  moreover have "staged demo_import_codec [] demo_new_dir (demo_writer 0)"
    by (simp add: staged_def demo_new_dir_def file_node_def log_of_def demo_writer_def known_session_schema_def
        session_metadata_default_def SESSION_SCHEMA_V1_def SESSION_SCHEMA_VERSION_def)
  moreover have "x_sha256 demo_lib ''hi'' \<noteq> x_sha256 demo_lib ''ok''" by code_simp
  then have "inj_on (x_sha256 demo_lib) (stored demo_lib demo_new_dir \<union> (\<Union>(item_bodies ` set [demo_item])))"
    by (auto simp: stored_def empty demo_item_def demo_imported_flow_def)
  moreover have "\<forall>item\<in>set [demo_item]. \<forall>b\<in>item_bodies item. length b < 2 ^ 64"
    by (simp add: demo_item_def demo_imported_flow_def)
  ultimately show ?thesis
    using har_import_publishes [OF demo_sha256_lawful _ _ _ demo_parse demo_conversion [folded demo_item_def] _ _ demo_import]
    by fastforce
qed

text \<open>
  An import is all or nothing until it publishes. When the document is refused, or any
  of its entries cannot be converted, or the redaction of any body fails closed, the result is that
  error and neither the fixture nor the writer has changed, so no entry before it was published;
  otherwise flows are only ever appended, one per entry, all of them when the result is a report.
\<close>

theorem har_import_is_all_or_nothing:
  assumes "staged C flows d w"
    and "import_har_to_writer L C X tool_version uniq names opts content d w = (d', w', result)"
  shows "case rbind (parse_document L content) (import_flows L X uniq opts) of
      Inl e \<Rightarrow> d' = d \<and> w' = w \<and> result = Inl e
    | Inr (items, losses) \<Rightarrow>
        (\<exists>fls. staged C (flows @ fls) d' w' \<and> length fls \<le> length items \<and> (is_ok result \<longrightarrow> length fls = length items))"
proof (cases "rbind (parse_document L content) (import_flows L X uniq opts)")
  case (Inl e)
  with assms(2) show ?thesis
    by (cases "parse_document L content") (auto simp: import_har_to_writer_def)
next
  case (Inr r)
  then obtain log items losses where p: "parse_document L content = Inr log"
    and i: "import_flows L X uniq opts log = Inr (items, losses)" and r: "r = (items, losses)"
    by (cases r) (auto simp: rbind_Inr_iff)
  obtain d1 w1 r1 where pub: "publish_flows C X names 0 items d w = (d1, w1, r1)" by (rule prod_cases3)
  from publish_flows_staged [OF assms(1) pub] obtain fls where
    fls: "staged C (flows @ fls) d1 w1" "length fls \<le> length items" "\<forall>out. r1 = Inr out \<longrightarrow> length fls = length items"
    by auto
  have "staged C (flows @ fls) d' w' \<and> (is_ok result \<longrightarrow> length fls = length items)"
  proof (cases r1)
    case (Inl e)
    with assms(2) p i pub fls(1) show ?thesis by (auto simp: import_har_to_writer_def)
  next
    case (Inr out)
    show ?thesis
    proof (cases "hx_provenance_to L (import_provenance tool_version log (length out) losses)")
      case (Inl msg)
      with assms(2) p i pub fls(1) Inr show ?thesis by (auto simp: import_har_to_writer_def)
    next
      case (Inr encoded)
      obtain r2 where "write_extension provenance_extension encoded d1 w1 = (d', w', r2)"
        using assms(2) p i pub \<open>r1 = Inr out\<close> Inr by (auto simp: import_har_to_writer_def split: prod.splits)
      from staged_extension [OF fls(1) this] fls(3) \<open>r1 = Inr out\<close> show ?thesis by simp
    qed
  qed
  with fls(2) show ?thesis by (auto simp: Inr r)
qed

lemma har_import_is_all_or_nothing_witness:
  "\<exists>fls. staged demo_import_codec fls demo_final_dir demo_final_writer \<and> length fls = 1"
proof -
  have "staged demo_import_codec [] demo_new_dir (demo_writer 0)"
    by (simp add: staged_def demo_new_dir_def file_node_def log_of_def demo_writer_def known_session_schema_def
        session_metadata_default_def SESSION_SCHEMA_V1_def SESSION_SCHEMA_VERSION_def)
  from har_import_is_all_or_nothing [OF this demo_import] show ?thesis
    by (auto simp: demo_parse demo_conversion)
qed

text \<open>
  Property C28: Nothing sensitive is imported. In every flow an import converts, a request or response
  header whose name the profile lists has the redacted value (but for a Content-Length that was
  recomputed), and so has every query parameter the profile lists; and when the profile names JSON
  paths, every body is empty or the outcome of the JSON or form redaction: a body that cannot be
  redacted fails the import.
\<close>

theorem har_import_redacts:
  assumes "import_flows L X uniq opts log = Inr (items, losses)" and "(fl, rb, sb) \<in> set items"
  shows "flow_masked (io_redaction opts) fl
    \<and> (rc_json_paths (io_redaction opts) \<noteq> [] \<longrightarrow>
         body_was_redacted X (io_redaction opts) rb \<and> body_was_redacted X (io_redaction opts) sb)"
proof -
  from assms(2) obtain i where i: "i < length items" "items ! i = (fl, rb, sb)" by (auto simp: in_set_conv_nth)
  from import_flows_nth [OF assms(1) i(1)] i(2) obtain l where
    "import_entry L X uniq opts (lg_creator log) i (lg_entries log ! i) = Inr ((fl, rb, sb), l)" by metis
  from import_entry_redacted [OF this] show ?thesis by blast
qed

lemma har_import_redacts_witness:
  "flow_masked \<lparr>rc_headers = [''authorization''], rc_query_keys = [''token''], rc_json_paths = []\<rparr> demo_imported_flow"
  using har_import_redacts [OF demo_conversion, of demo_imported_flow "''hi''" "''ok''"]
  by (simp add: demo_import_options_def)

end
