(* ===== verification/Har_Export.thy ===== *)
theory Har_Export
  imports Har_Import Report
begin

text \<open>
  Exporting a session to HAR and migrating a session, \<^verbatim>\<open>export_session_to_har\<close> and \<^verbatim>\<open>migrate_session\<close>
  of \<^verbatim>\<open>crates/eggreplay-har/src/lib.rs\<close>. The document is built as JSON values; the members of an
  object literal are written in key order, in which a \<^verbatim>\<open>serde_json::Map\<close> keeps them.
\<close>

section \<open>Values\<close>

definition jnat :: "nat \<Rightarrow> json" where
  "jnat n = JNumber (to_dec n)"

definition name_value_json :: "string \<Rightarrow> string \<Rightarrow> json" where
  "name_value_json name val = JObject [(''name'', JString name), (''value'', JString val)]"

definition har_headers :: "header_entry list \<Rightarrow> json list" where
  "har_headers headers = map (\<lambda>h. name_value_json (h_name h) (h_value h)) headers"

definition har_query :: "query_pair list \<Rightarrow> json list" where
  "har_query pairs = map (\<lambda>p. name_value_json (q_key p) (q_value p)) pairs"

definition cookie_of_header :: "bool \<Rightarrow> header_entry \<Rightarrow> (string \<times> string) option" where
  "cookie_of_header response header =
     (let is_cookie = (if response then eq_ignore_case (h_name header) ''set-cookie'' else is_request_cookie header);
          first = trim (hd (split_on CHR '';'' (h_value header)));
          (name, val) = unwrap_or (split_once CHR ''='' first) (first, [])
      in if \<not> is_cookie \<or> name = [] then None else Some (trim name, trim val))"

definition har_cookies_from_headers :: "header_entry list \<Rightarrow> bool \<Rightarrow> json list" where
  "har_cookies_from_headers headers response =
     take 256 (map (\<lambda>(name, val). name_value_json name val) (List.map_filter (cookie_of_header response) headers))"

definition escape_json_text :: "bytes \<Rightarrow> string option" where
  "escape_json_text content = (if utf8_valid content then Some content else None)"

definition read_body_bytes ::
  "ext_lib \<Rightarrow> fixture_dir \<Rightarrow> store_limits \<Rightarrow> body_ref \<Rightarrow> har_error + bytes" where
  "read_body_bytes X d lim body =
     (case body of BodyBlob blob \<Rightarrow> map_err HarStore (read_blob X d lim blob) | _ \<Rightarrow> Inr [])"

definition content_type_of :: "header_entry list \<Rightarrow> string option" where
  "content_type_of headers =
     map_option (\<lambda>header. trim (hd (split_on CHR '';'' (h_value header))))
       (find (\<lambda>header. eq_ignore_case (h_name header) ''content-type'') headers)"

text \<open>The \<^verbatim>\<open>Debug\<close> text of an error.\<close>

definition error_debug :: "flow_error \<Rightarrow> string" where
  "error_debug e = category_debug (fe_category e) @ ''/'' @ phase_debug (fe_phase e)"

text \<open>The derived \<^verbatim>\<open>Serialize\<close> of markers, provenance and losses.\<close>

definition marker_json :: "redaction_marker \<Rightarrow> json" where
  "marker_json m = JObject [(''field'', JString (m_field m)), (''profile'', JString (m_profile m))]"

definition provenance_json :: "provenance \<Rightarrow> json" where
  "provenance_json p = JObject [(''mode'', JString (prov_mode p)), (''observer'', JString (prov_observer p))]"

fun action_as_str :: "loss_action \<Rightarrow> string" where
  "action_as_str Preserved = ''preserved''"
| "action_as_str Annotated = ''annotated''"
| "action_as_str Omitted = ''omitted''"
| "action_as_str Redacted = ''redacted''"
| "action_as_str Rejected = ''rejected''"

definition loss_json :: "har_loss \<Rightarrow> json" where
  "loss_json l = JObject
     ([(''action'', JString (action_as_str (hl_action l)))]
      @ (case hl_entry_index l of None \<Rightarrow> [] | Some i \<Rightarrow> [(''entry_index'', jnat i)])
      @ [(''field'', JString (hl_field l))]
      @ (case hl_flow_id l of None \<Rightarrow> [] | Some i \<Rightarrow> [(''flow_id'', JString i)])
      @ [(''reason'', JString (hl_reason l))])"

section \<open>One flow\<close>

definition flow_loss :: "usize \<Rightarrow> flow \<Rightarrow> string \<Rightarrow> string \<Rightarrow> loss_action \<Rightarrow> har_loss" where
  "flow_loss index fl field reason action =
     \<lparr>hl_entry_index = Some index, hl_flow_id = Some (fl_id fl), hl_field = field, hl_reason = reason, hl_action = action\<rparr>"

definition export_url :: "ext_lib \<Rightarrow> http_request \<Rightarrow> string" where
  "export_url X request =
     (let query_string = x_form_print X (map pair_of (req_query request));
          base = req_scheme request @ ''://'' @ req_authority request @ req_path request
      in if query_string = [] then base else base @ ''?'' @ query_string)"

text \<open>UTF-8 as text, binary as base64, nothing for an empty body.\<close>

definition body_text :: "har_lib \<Rightarrow> bytes \<Rightarrow> string option \<times> string option" where
  "body_text L content =
     (if content = [] then (None, None)
      else case escape_json_text content of
             Some text \<Rightarrow> (Some text, None)
           | None \<Rightarrow> (Some (hx_b64_encode L content), Some ''base64''))"

definition octet_stream :: string where
  "octet_stream = ''application/octet-stream''"

definition post_data_json :: "header_entry list \<Rightarrow> string option \<times> string option \<Rightarrow> (string \<times> json) list" where
  "post_data_json headers te =
     (case te of
        (None, _) \<Rightarrow> []
      | (Some text, encoding) \<Rightarrow>
          [(''postData'', JObject [(''encoding'', JString (unwrap_or encoding [])),
             (''mimeType'', JString (unwrap_or (content_type_of headers) octet_stream)), (''text'', JString text)])])"

definition export_request ::
  "har_lib \<Rightarrow> ext_lib \<Rightarrow> fixture_dir \<Rightarrow> store_limits \<Rightarrow> usize \<Rightarrow> flow \<Rightarrow> har_error + json \<times> har_loss list" where
  "export_request L X d lim index fl =
     (let request = fl_request fl
      in rbind (read_body_bytes X d lim (req_body request)) (\<lambda>content.
         let te = body_text L content
         in Inr
           (JObject
             ([(''bodySize'', jnat (length content)),
               (''comment'', JString ''EggReplay semantic request; HTTP version assumed http/1.1 (lossy)''),
               (''cookies'', JArray (har_cookies_from_headers (req_headers request) False)),
               (''headers'', JArray (har_headers (req_headers request))),
               (''headersSize'', JNumber ''-1''),
               (''httpVersion'', JString ''http/1.1''),
               (''method'', JString (req_method request))]
              @ post_data_json (req_headers request) te
              @ [(''queryString'', JArray (har_query (req_query request))),
                 (''url'', JString (export_url X request))]),
            (if snd te \<noteq> None
             then [flow_loss index fl ''request.postData.encoding'' ''binary request body base64-encoded for HAR'' Annotated]
             else [])
            @ (if req_trailers request \<noteq> []
               then [flow_loss index fl ''request.trailers'' ''request trailers have no HAR representation; omitted'' Omitted]
               else []))))"

definition content_json :: "header_entry list \<Rightarrow> bytes \<Rightarrow> string option \<times> string option \<Rightarrow> json" where
  "content_json headers content te = JObject
     ((case snd te of None \<Rightarrow> [] | Some encoding \<Rightarrow> [(''encoding'', JString encoding)])
      @ [(''mimeType'', JString (unwrap_or (content_type_of headers) octet_stream)),
         (''size'', jnat (length content))]
      @ (case fst te of None \<Rightarrow> [] | Some text \<Rightarrow> [(''text'', JString text)]))"

definition response_json :: "nat \<Rightarrow> string \<Rightarrow> json list \<Rightarrow> json list \<Rightarrow> json \<Rightarrow> nat \<Rightarrow> string \<Rightarrow> json" where
  "response_json status status_text cookies headers content body_size comment = JObject
     [(''bodySize'', jnat body_size), (''comment'', JString comment), (''content'', content),
      (''cookies'', JArray cookies), (''headers'', JArray headers), (''headersSize'', JNumber ''-1''),
      (''httpVersion'', JString ''http/1.1''), (''redirectURL'', JString []), (''status'', jnat status),
      (''statusText'', JString status_text)]"

definition export_response ::
  "har_lib \<Rightarrow> ext_lib \<Rightarrow> fixture_dir \<Rightarrow> store_limits \<Rightarrow> usize \<Rightarrow> flow \<Rightarrow> har_error + json \<times> har_loss list" where
  "export_response L X d lim index fl =
     (case fl_outcome fl of
        OutResponse response \<Rightarrow>
          rbind (read_body_bytes X d lim (resp_body response)) (\<lambda>content.
            let te = body_text L content
            in Inr
              (response_json (unat (resp_status response)) [] (har_cookies_from_headers (resp_headers response) True)
                 (har_headers (resp_headers response)) (content_json (resp_headers response) content te) (length content)
                 ''EggReplay semantic response; HTTP version assumed http/1.1 (lossy)'',
               (if snd te \<noteq> None
                then [flow_loss index fl ''response.content.encoding'' ''binary response body base64-encoded for HAR'' Annotated]
                else [])
               @ (if resp_trailers response \<noteq> []
                  then [flow_loss index fl ''response.trailers'' ''response trailers have no HAR representation; omitted'' Omitted]
                  else [])))
      | OutError e \<Rightarrow>
          Inr (response_json 0 (error_debug e) [] [] (JObject [(''mimeType'', JString octet_stream), (''size'', jnat 0)]) 0
                 ''EggReplay typed error; see entry._eggreplay (lossy)'',
               [flow_loss index fl ''response''
                  (''typed transport error '' @ error_debug e @ '' has no HAR response; exported as status 0'') Annotated]))"

definition is_websocket_handshake :: "flow \<Rightarrow> bool" where
  "is_websocket_handshake fl \<longleftrightarrow>
     (\<exists>header\<in>set (req_headers (fl_request fl)). eq_ignore_case (h_name header) ''upgrade''
        \<and> find_sub ''websocket'' (to_lower (h_value header)) \<noteq> None)
     \<or> (case fl_outcome fl of OutResponse response \<Rightarrow> resp_status response = 101 | OutError _ \<Rightarrow> False)"

definition flow_losses :: "usize \<Rightarrow> flow \<Rightarrow> har_loss list" where
  "flow_losses index fl =
     (if fl_redactions fl \<noteq> []
      then [flow_loss index fl ''redactions'' (to_dec (length (fl_redactions fl))
              @ '' redacted field(s) remain <redacted>; marker provenance in _eggreplay only'') Annotated] else [])
     @ (if fl_physical_route fl \<noteq> None
        then [flow_loss index fl ''physical_route'' ''physical route has no HAR representation; omitted'' Omitted] else [])
     @ (if is_websocket_handshake fl
        then [flow_loss index fl ''websocket'' ''WebSocket handshake exported without messages; conversation omitted'' Omitted]
        else [])"

definition export_started :: "har_lib \<Rightarrow> u64 \<Rightarrow> string" where
  "export_started L started =
     (let millis = (if unat started < 2 ^ 63 then int (unat started) else 0)
      in unwrap_or (hx_rfc3339_print L millis) ''1970-01-01T00:00:00.000Z'')"

definition export_duration :: "flow \<Rightarrow> u64" where
  "export_duration fl = (case fl_completed_at_ms fl of None \<Rightarrow> 0 | Some end \<Rightarrow> sat_sub end (fl_started_at_ms fl))"

definition eggreplay_json :: "flow \<Rightarrow> json" where
  "eggreplay_json fl = JObject
     [(''annotations'', JArray (map (\<lambda>(k, v). JArray [JString k, JString v]) (fl_annotations fl))),
      (''flow_id'', JString (fl_id fl)), (''provenance'', provenance_json (fl_provenance fl)),
      (''redactions'', JArray (map marker_json (fl_redactions fl)))]"

definition export_flow ::
  "har_lib \<Rightarrow> ext_lib \<Rightarrow> fixture_dir \<Rightarrow> store_limits \<Rightarrow> usize \<Rightarrow> flow \<Rightarrow> har_error + json \<times> har_loss list" where
  "export_flow L X d lim index fl =
     rbind (export_request L X d lim index fl) (\<lambda>(request, l1).
     rbind (export_response L X d lim index fl) (\<lambda>(response, l2).
     Inr
       (JObject
         [(''_eggreplay'', eggreplay_json fl),
          (''cache'', JObject []),
          (''comment'', JString ''Lossy EggReplay projection; timings are synthetic totals''),
          (''request'', request),
          (''response'', response),
          (''startedDateTime'', JString (export_started L (fl_started_at_ms fl))),
          (''time'', jnat (unat (export_duration fl))),
          (''timings'', JObject [(''receive'', jnat 0), (''send'', jnat 0), (''wait'', jnat (unat (export_duration fl)))])],
        l1 @ l2 @ flow_losses index fl)))"

section \<open>The session\<close>

definition session_losses :: "extension_descriptor list \<Rightarrow> har_loss list" where
  "session_losses extensions =
     (let has = (\<lambda>name. \<exists>e\<in>set extensions. ext_name e = name)
      in (if has ''rules'' then [loss_global ''extensions.rules''
             ''authored scenario rules have no HAR representation; omitted'' Omitted] else [])
         @ (if has ''stream-events'' then [loss_global ''extensions.stream-events''
             ''stream event cadence/trailers/mid-body errors collapsed to total duration; metadata omitted'' Omitted] else [])
         @ (if has ''websocket-messages'' then [loss_global ''extensions.websocket-messages''
             ''WebSocket conversations have no HAR representation; 101 flows exported as handshakes only'' Omitted] else [])
         @ (if has ''interop-provenance'' then [loss_global ''extensions.interop-provenance''
             ''import provenance is EggReplay-internal; summarized in log._eggreplay'' Annotated] else [])
         @ map (\<lambda>e. loss_global (''extensions.'' @ ext_name e) ''unknown optional extension omitted from HAR'' Omitted)
             (filter (\<lambda>e. ext_name e \<notin> fst ` set KNOWN_EXTENSIONS \<and> \<not> ext_required e) extensions))"

definition synthetic_losses :: "har_loss list" where
  "synthetic_losses =
     [loss_global ''timings''
        ''HAR timings are synthetic totals (send=0, wait=duration, receive=0); recorded cadence not preserved'' Annotated,
      loss_global ''httpVersion''
        ''EggReplay flows are version-agnostic; HAR httpVersion is assumed http/1.1'' Annotated]"

definition read_flows :: "codec \<Rightarrow> fixture_dir \<Rightarrow> store_limits \<Rightarrow> har_error + flow list" where
  "read_flows C d lim =
     map_err HarStore (rbind (iter_flows C d lim) (\<lambda>items. collect_res (\<lambda>item. item) items))"

definition har_json :: "string \<Rightarrow> session_metadata \<Rightarrow> json list \<Rightarrow> har_loss list \<Rightarrow> json" where
  "har_json tool_version metadata entries losses = JObject
     [(''log'', JObject
       [(''_eggreplay'', JObject
          [(''export_note'', JString HAR_LOSSY_NOTICE), (''losses'', JArray (map loss_json losses)),
           (''session_id'', JString (sm_session_id metadata)),
           (''session_schema'', jnat (unat (sm_schema_version metadata))),
           (''tool_version'', JString tool_version)]),
        (''comment'', JString HAR_LOSSY_NOTICE),
        (''creator'', JObject [(''name'', JString ''eggreplay''), (''version'', JString tool_version)]),
        (''entries'', JArray entries),
        (''version'', JString HAR_VERSION_1_2)])]"

definition export_session_to_har ::
  "har_lib \<Rightarrow> codec \<Rightarrow> ext_lib \<Rightarrow> string \<Rightarrow> fixture_dir \<Rightarrow> session \<Rightarrow> har_error + json \<times> export_report" where
  "export_session_to_har L C X tool_version d se =
     rbind (read_flows C d (se_limits se)) (\<lambda>flows.
     rbind (collect_res (\<lambda>(index, fl). export_flow L X d (se_limits se) index fl) (List.enumerate 0 flows)) (\<lambda>exported.
     let losses = session_losses (mf_extensions (se_manifest se)) @ concat (map snd exported)
           @ (if flows \<noteq> [] then synthetic_losses else [])
     in Inr (har_json tool_version (mf_metadata (se_manifest se)) (map fst exported) losses,
             \<lparr>xr_entries = length flows, xr_losses = losses\<rparr>)))"

section \<open>Migration\<close>

definition registered_migrators :: "(string \<times> u16) list" where
  "registered_migrators = map (\<lambda>(name, version). (name, version)) KNOWN_EXTENSIONS"

definition migration_blocker :: "extension_descriptor \<Rightarrow> string option" where
  "migration_blocker e =
     (case find (\<lambda>known. fst known = ext_name e) KNOWN_EXTENSIONS of
        None \<Rightarrow>
          (if ext_required e
           then Some (''unknown required extension '' @ ext_name e @ '' (schema '' @ to_dec (unat (ext_schema_version e))
                  @ '') has no registered migrator'')
           else None)
      | Some (_, current) \<Rightarrow>
          (if ext_schema_version e \<noteq> current
           then Some (''extension '' @ ext_name e @ '' schema '' @ to_dec (unat (ext_schema_version e))
                  @ '' is not the current schema '' @ to_dec (unat current) @ '' and has no registered migrator'')
           else None))"

definition migration_blockers :: "extension_descriptor list \<Rightarrow> string list" where
  "migration_blockers extensions = List.map_filter migration_blocker extensions"

definition migrate_session ::
  "codec \<Rightarrow> ext_lib \<Rightarrow> (nat \<Rightarrow> string) \<Rightarrow> fs \<Rightarrow> session \<Rightarrow> path \<Rightarrow> u16 \<Rightarrow> string
     \<Rightarrow> fs \<times> (migration_error + session)" where
  "migrate_session C X uniq fsys source destination target_schema unique =
     (if \<not> (SESSION_SCHEMA_V1 \<le> target_schema \<and> target_schema \<le> CURRENT_SESSION_SCHEMA)
      then (fsys, Inl (MigBlocked (''unsupported target session schema '' @ to_dec (unat target_schema))))
      else let blockers = migration_blockers (mf_extensions (se_manifest source))
           in if blockers \<noteq> [] then (fsys, Inl (MigBlocked (join_with ''; '' blockers)))
              else case copy_to C X uniq fsys source destination target_schema unique of
                     (fsys', r) \<Rightarrow> (fsys', map_err MigStore r))"

end
