(* ===== verification/Har_Round_Trip.thy ===== *)
theory Har_Round_Trip
  imports Har_Import_Facts Har_Export
begin

text \<open>
  What survives a trip through HAR: the exported document decodes to entries the import accepts, and
  what HAR cannot represent is in the loss report. The laws of the external code are \<open>har_lawful\<close>;
  what a flow must satisfy to be accepted again is \<open>representable\<close>.
\<close>

section \<open>Numbers of milliseconds\<close>

lemma bit_length_le: "n < 2 ^ k \<Longrightarrow> bit_length n \<le> k"
proof (induction k arbitrary: n)
  case (Suc k)
  show ?case
  proof (cases "n = 0")
    case False
    have "n div 2 < 2 ^ k" using Suc.prems by (simp add: less_mult_imp_div_less)
    from Suc.IH [OF this] show ?thesis by (subst bit_length.simps) simp
  qed (simp add: bit_length.simps)
qed (simp add: bit_length.simps)

lemma floor_log2_whole: "n < 2 ^ 53 \<Longrightarrow> floor_log2_ratio n 1 \<le> 52"
proof -
  assume "n < 2 ^ 53"
  then have "bit_length n \<le> 53" by (rule bit_length_le)
  moreover have "bit_length 1 = 1" by (simp add: bit_length.simps)
  ultimately show ?thesis by (simp add: floor_log2_ratio_def Let_def)
qed

lemma round_whole: "f64_round_clamp (F64_Finite False (n * 2 ^ k) (- int k)) bound = min bound n"
proof (cases "k = 0")
  case False
  have "(2 * (n * 2 ^ k) + 2 ^ k) div (2 * 2 ^ k) = (n * (2 * 2 ^ k) + 2 ^ k) div (2 * 2 ^ k :: nat)"
    by (simp add: algebra_simps)
  also have "\<dots> = n" by simp
  finally show ?thesis using False by simp
qed simp

lemma f64_whole:
  assumes "n < 2 ^ 53"
  shows "\<exists>k. f64_of_ratio False n 1 = F64_Finite False (n * 2 ^ k) (- int k)"
proof (cases "n = 0")
  case False
  let ?e = "max (- 1074) (floor_log2_ratio n 1 - 52)"
  have e: "?e \<le> 0" using floor_log2_whole [OF assms] by simp
  show ?thesis
  proof (cases "?e = 0")
    case True
    then show ?thesis using False by (intro exI [of _ 0]) (simp add: f64_of_ratio_def Let_def)
  next
    case neg: False
    with e have "\<not> 0 \<le> ?e" by simp
    with False e neg show ?thesis by (intro exI [of _ "nat (- ?e)"]) (simp add: f64_of_ratio_def Let_def)
  qed
qed (simp add: f64_of_ratio_def)

section \<open>Laws of the external code\<close>

text \<open>
  Base64 text is visible ASCII of at most four thirds of the length and decodes to what was encoded;
  the RFC 3339 text of a time parses to that time; a rendered number is read as that number.
\<close>

definition har_lawful :: "har_lib \<Rightarrow> ext_lib \<Rightarrow> bool" where
  "har_lawful L X \<longleftrightarrow>
     (\<forall>b. visible (hx_b64_encode L b) \<and> hx_b64_decode L (hx_b64_encode L b) = Some b
        \<and> length (hx_b64_encode L b) \<le> 4 * length b + 4)
     \<and> (\<forall>n t. hx_rfc3339_print L n = Some t \<longrightarrow> hx_rfc3339_ms L t = Some n)
     \<and> (\<forall>n. n < 2 ^ 53 \<longrightarrow> hx_as_f64 L (JNumber (to_dec n)) = Some (f64_of_ratio False n 1))
     \<and> (\<forall>n. n < 2 ^ 64 \<longrightarrow> x_json_as_u64 X (JNumber (to_dec n)) = Some (of_nat n))"

lemma total_time_whole:
  assumes "har_lawful L X" and "n < 2 ^ 53"
  shows "total_time_ms L (Some (jnat n)) = Inr (of_nat (min n 3600000))"
proof -
  obtain k where k: "f64_of_ratio False n 1 = F64_Finite False (n * 2 ^ k) (- int k)" using f64_whole [OF assms(2)] by blast
  have "hx_as_f64 L (jnat n) = Some (F64_Finite False (n * 2 ^ k) (- int k))"
    using assms k by (simp add: har_lawful_def jnat_def)
  then show ?thesis
    using round_whole [of n k 3600000]
    by (simp add: total_time_ms_def parse_har_time_ms_def f64_is_nan_def min.commute del: f64_round_clamp.simps)
qed

lemma to_lower_base64: "to_lower ''base64'' = ''base64''"
  by code_simp

lemma strip_whitespace_visible: "visible s \<Longrightarrow> strip_whitespace s = s"
proof (induction s)
  case (Cons c s)
  from ws_at_visible [OF Cons.prems] Cons show ?case by (simp add: visible_def)
qed simp

lemma body_text_decodes:
  assumes "har_lawful L X" and "length b \<le> unat bound" and "length b < 2 ^ 60"
  shows "decode_har_body_text L (fst (body_text L b)) (Some (unwrap_or (snd (body_text L b)) [])) bound = Inr b"
    and "decode_har_body_text L (fst (body_text L b)) (snd (body_text L b)) bound = Inr b"
proof -
  have b64: "visible (hx_b64_encode L b)" "hx_b64_decode L (hx_b64_encode L b) = Some b"
    "length (hx_b64_encode L b) \<le> 4 * length b + 4"
    using assms(1) by (simp_all add: har_lawful_def)
  have fits: "\<not> usize_sat_add (min (unat bound * 4) (2 ^ 64 - 1)) 4 < length (hx_b64_encode L b)"
    using b64(3) assms(2,3) by (simp add: usize_sat_add_def min_def)
  have binary: "decode_har_body_text L (Some (hx_b64_encode L b)) (Some ''base64'') bound = Inr b"
    using b64 fits assms(2)
    by (simp add: decode_har_body_text_def strip_whitespace_visible to_lower_base64)
  show "decode_har_body_text L (fst (body_text L b)) (Some (unwrap_or (snd (body_text L b)) [])) bound = Inr b"
    and "decode_har_body_text L (fst (body_text L b)) (snd (body_text L b)) bound = Inr b"
    using binary assms(2) by (auto simp: body_text_def escape_json_text_def decode_har_body_text_def)
qed

section \<open>The exported entry, decoded\<close>

lemma fld_simps [simp]:
  "fld ((k, v) # m) k' f = (if k = k' then f v else fld m k' f)"
  "fld_or ((k, v) # m) k' a f = (if k = k' then f v else fld_or m k' a f)"
  "fld_or [] k' a f = Some a"
  "fld_opt [] k' g = Some None"
  by (simp_all add: fld_def fld_or_def fld_opt_def)

lemma fld_opt_Cons:
  "fld_opt ((k, v) # m) k' f =
     (if k = k' then (case v of JNull \<Rightarrow> Some None | _ \<Rightarrow> map_option Some (f v)) else fld_opt m k' f)"
  by (cases v) (simp_all add: fld_opt_def)

lemma collect_opt_map: "(\<And>x. f (g x) = Some (h x)) \<Longrightarrow> collect_opt f (map g xs) = Some (map h xs)"
  by (induction xs) auto

definition plain_name_value :: "string \<Rightarrow> string \<Rightarrow> har_name_value" where
  "plain_name_value name val = \<lparr>nv_name = name, nv_value = val, nv_comment = None\<rparr>"

lemma de_name_value_json: "de_name_value (name_value_json name val) = Some (plain_name_value name val)"
  by (simp add: name_value_json_def plain_name_value_def fld_opt_Cons)

lemma de_headers: "collect_opt de_name_value (har_headers hs) = Some (map (\<lambda>h. plain_name_value (h_name h) (h_value h)) hs)"
  by (simp add: har_headers_def de_name_value_json collect_opt_map)

lemma de_query: "collect_opt de_name_value (har_query ps) = Some (map (\<lambda>p. plain_name_value (q_key p) (q_value p)) ps)"
  by (simp add: har_query_def de_name_value_json collect_opt_map)

definition plain_cookie :: "string \<times> string \<Rightarrow> har_cookie" where
  "plain_cookie nv = \<lparr>ck_name = fst nv, ck_value = snd nv, ck_path = None, ck_domain = None, ck_expires = None,
     ck_http_only = None, ck_secure = None, ck_comment = None\<rparr>"

definition exported_cookies :: "header_entry list \<Rightarrow> bool \<Rightarrow> har_cookie list" where
  "exported_cookies hs response = take 256 (map plain_cookie (List.map_filter (cookie_of_header response) hs))"

lemma de_cookies: "collect_opt de_cookie (har_cookies_from_headers hs response) = Some (exported_cookies hs response)"
proof -
  have "de_cookie ((\<lambda>(name, val). name_value_json name val) nv) = Some (plain_cookie nv)" for nv
    by (cases nv) (simp add: name_value_json_def plain_cookie_def fld_opt_Cons)
  from collect_opt_map [where f = de_cookie and g = "\<lambda>(name, val). name_value_json name val" and h = plain_cookie,
      OF this, of "take 256 (List.map_filter (cookie_of_header response) hs)"] show ?thesis
    by (simp add: har_cookies_from_headers_def exported_cookies_def take_map)
qed

definition exported_post_data :: "header_entry list \<Rightarrow> string option \<times> string option \<Rightarrow> har_post_data option" where
  "exported_post_data headers te =
     map_option (\<lambda>text. \<lparr>pd_mime_type = unwrap_or (content_type_of headers) octet_stream, pd_params = [],
       pd_text = Some text, pd_encoding = Some (unwrap_or (snd te) []), pd_comment = None\<rparr>) (fst te)"

definition exported_request :: "har_lib \<Rightarrow> ext_lib \<Rightarrow> flow \<Rightarrow> bytes \<Rightarrow> har_request" where
  "exported_request L X fl content =
     (let request = fl_request fl
      in \<lparr>hq_method = req_method request, hq_url = export_url X request, hq_http_version = Some ''http/1.1'',
          hq_cookies = exported_cookies (req_headers request) False,
          hq_headers = map (\<lambda>h. plain_name_value (h_name h) (h_value h)) (req_headers request),
          hq_query_string = map (\<lambda>p. plain_name_value (q_key p) (q_value p)) (req_query request),
          hq_post_data = exported_post_data (req_headers request) (body_text L content),
          hq_headers_size = Some (JNumber ''-1''), hq_body_size = Some (jnat (length content)),
          hq_comment = Some ''EggReplay semantic request; HTTP version assumed http/1.1 (lossy)''\<rparr>)"

lemma export_request_decodes:
  assumes "export_request L X d lim index fl = Inr (j, losses)"
  obtains content where "read_body_bytes X d lim (req_body (fl_request fl)) = Inr content"
    and "de_request j = Some (exported_request L X fl content)" and "\<exists>m. j = JObject m"
proof -
  from assms obtain content where content: "read_body_bytes X d lim (req_body (fl_request fl)) = Inr content"
    by (auto simp: export_request_def Let_def rbind_Inr_iff)
  obtain t e where te: "body_text L content = (t, e)" by fastforce
  from assms content have "de_request j = Some (exported_request L X fl content) \<and> (\<exists>m. j = JObject m)"
    by (cases t; auto simp: export_request_def Let_def te post_data_json_def exported_request_def exported_post_data_def
        fld_opt_Cons de_headers de_query de_cookies jnat_def)
  with content that show ?thesis by blast
qed

lemma js_i64_jnat: "n < 2 ^ 63 \<Longrightarrow> js_i64 (jnat n) = Some (int n)"
proof -
  assume n: "n < 2 ^ 63"
  have "\<not> is_ascii_digit CHR ''-''" by (simp add: is_ascii_digit_def byte_in_def byte_val_def)
  then have "\<not> starts_with ''-'' (to_dec n)"
    using to_dec_digits [of "CHR ''-''" n] by (auto simp: starts_with_def prefix_def)
  with n show ?thesis by (simp add: jnat_def parse_to_dec)
qed

definition exported_content :: "header_entry list \<Rightarrow> bytes \<Rightarrow> string option \<times> string option \<Rightarrow> har_content" where
  "exported_content headers content te =
     \<lparr>ct_size = Some (int (length content)), ct_compression = None,
      ct_mime_type = Some (unwrap_or (content_type_of headers) octet_stream), ct_text = fst te, ct_encoding = snd te,
      ct_comment = None\<rparr>"

lemma de_content_json:
  "length content < 2 ^ 63 \<Longrightarrow> de_content (content_json headers content te) = Some (exported_content headers content te)"
  using js_i64_jnat [of "length content"]
  by (cases te; cases "fst te"; cases "snd te")
    (simp_all add: content_json_def exported_content_def fld_opt_Cons jnat_def del: js_i64.simps)

definition exported_response :: "har_lib \<Rightarrow> flow_outcome \<Rightarrow> bytes \<Rightarrow> har_response" where
  "exported_response L out content =
     (let (status, text, headers, cookies, comment) =
        (case out of
           OutResponse r \<Rightarrow> (unat (resp_status r), [], resp_headers r, exported_cookies (resp_headers r) True,
              ''EggReplay semantic response; HTTP version assumed http/1.1 (lossy)'')
         | OutError e \<Rightarrow> (0, error_debug e, [], [], ''EggReplay typed error; see entry._eggreplay (lossy)''))
      in \<lparr>hr_status = jnat status, hr_status_text = Some text, hr_http_version = Some ''http/1.1'', hr_cookies = cookies,
          hr_headers = map (\<lambda>h. plain_name_value (h_name h) (h_value h)) headers,
          hr_content = Some (exported_content headers content (body_text L content)),
          hr_redirect_url = Some [], hr_headers_size = Some (JNumber ''-1''), hr_body_size = Some (jnat (length content)),
          hr_comment = Some comment\<rparr>)"

lemma de_response_json:
  assumes "de_content cj = Some c"
  shows "de_response (response_json status text (har_cookies_from_headers chs b) (har_headers hs) cj len comment) =
    Some \<lparr>hr_status = jnat status, hr_status_text = Some text, hr_http_version = Some ''http/1.1'',
      hr_cookies = exported_cookies chs b, hr_headers = map (\<lambda>h. plain_name_value (h_name h) (h_value h)) hs,
      hr_content = Some c, hr_redirect_url = Some [], hr_headers_size = Some (JNumber ''-1''), hr_body_size = Some (jnat len),
      hr_comment = Some comment\<rparr>"
proof -
  have "fld_opt ((''content'', cj) # m) ''content'' de_content = Some (Some c)" for m
    using assms by (cases cj) (simp_all add: fld_opt_def)
  then show ?thesis
    by (simp add: response_json_def fld_opt_Cons [where k = "''bodySize''"] fld_opt_Cons [where k = "''comment''"]
        fld_opt_Cons [where v = "JNumber n" for n] fld_opt_Cons [where v = "JString n" for n] fld_opt_Cons [where v = "JArray n" for n]
        fld_opt_Cons [where k = "''content''" and k' = "''redirectURL''"] fld_opt_Cons [where k = "''content''" and k' = "''statusText''"]
        fld_opt_Cons [where k = "''content''" and k' = "''httpVersion''"] fld_opt_Cons [where k = "''content''" and k' = "''headersSize''"]
        de_headers de_cookies jnat_def)
qed

text \<open>The bodies an export reads for a flow, and its entry as the import decodes it.\<close>

definition reads_bodies :: "ext_lib \<Rightarrow> fixture_dir \<Rightarrow> store_limits \<Rightarrow> flow \<Rightarrow> bytes \<Rightarrow> bytes \<Rightarrow> bool" where
  "reads_bodies X d lim fl rb sb \<longleftrightarrow>
     read_body_bytes X d lim (req_body (fl_request fl)) = Inr rb
     \<and> (case fl_outcome fl of OutResponse r \<Rightarrow> read_body_bytes X d lim (resp_body r) = Inr sb | OutError _ \<Rightarrow> sb = [])"

definition exported_timings :: "nat \<Rightarrow> har_timings" where
  "exported_timings duration =
     \<lparr>tm_blocked = None, tm_dns = None, tm_connect = None, tm_send = Some (jnat 0), tm_wait = Some (jnat duration),
      tm_receive = Some (jnat 0), tm_ssl = None, tm_comment = None\<rparr>"

definition exported_entry :: "har_lib \<Rightarrow> ext_lib \<Rightarrow> flow \<Rightarrow> bytes \<Rightarrow> bytes \<Rightarrow> har_entry" where
  "exported_entry L X fl rb sb =
     \<lparr>he_pageref = None, he_started = Some (export_started L (fl_started_at_ms fl)),
      he_time = Some (jnat (unat (export_duration fl))), he_request = exported_request L X fl rb,
      he_response = exported_response L (fl_outcome fl) sb, he_cache = Some (JObject []),
      he_timings = Some (exported_timings (unat (export_duration fl))), he_server_ip = None, he_connection = None,
      he_comment = Some ''Lossy EggReplay projection; timings are synthetic totals''\<rparr>"

lemma export_response_decodes:
  assumes "export_response L X d lim index fl = Inr (j, losses)"
  obtains content where "case fl_outcome fl of
      OutResponse r \<Rightarrow> read_body_bytes X d lim (resp_body r) = Inr content | OutError _ \<Rightarrow> content = []"
    and "length content < 2 ^ 63 \<Longrightarrow> de_response j = Some (exported_response L (fl_outcome fl) content)"
proof (cases "fl_outcome fl")
  case (OutResponse r)
  with assms obtain content where content: "read_body_bytes X d lim (resp_body r) = Inr content"
    by (auto simp: export_response_def Let_def rbind_Inr_iff)
  with assms OutResponse have "j = response_json (unat (resp_status r)) [] (har_cookies_from_headers (resp_headers r) True)
      (har_headers (resp_headers r)) (content_json (resp_headers r) content (body_text L content)) (length content)
      ''EggReplay semantic response; HTTP version assumed http/1.1 (lossy)''"
    by (simp add: export_response_def Let_def)
  then have "length content < 2 ^ 63 \<Longrightarrow> de_response j = Some (exported_response L (fl_outcome fl) content)"
    using de_response_json [OF de_content_json] by (simp add: exported_response_def OutResponse Let_def)
  with content OutResponse that show ?thesis by simp
next
  case (OutError e)
  have "content_json [] [] (body_text L []) = JObject [(''mimeType'', JString octet_stream), (''size'', jnat 0)]"
    by (simp add: content_json_def body_text_def content_type_of_def)
  with assms OutError have "j = response_json 0 (error_debug e) (har_cookies_from_headers [] False) (har_headers [])
      (content_json [] [] (body_text L [])) 0 ''EggReplay typed error; see entry._eggreplay (lossy)''"
    by (simp add: export_response_def Let_def har_headers_def har_cookies_from_headers_def List.map_filter_def)
  moreover have "de_content (content_json [] [] (body_text L [])) = Some (exported_content [] [] (body_text L []))"
    by (rule de_content_json) simp
  ultimately have "de_response j = Some (exported_response L (fl_outcome fl) [])"
    by (simp add: de_response_json)
      (simp add: exported_response_def OutError Let_def exported_cookies_def List.map_filter_def)
  with OutError that [of "[]"] show ?thesis by simp
qed

lemma export_flow_decodes:
  assumes "export_flow L X d lim index fl = Inr (j, losses)"
  obtains rb sb where "reads_bodies X d lim fl rb sb"
    and "length sb < 2 ^ 63 \<Longrightarrow> de_entry j = Some (exported_entry L X fl rb sb)"
proof -
  from assms obtain qj l1 pj l2 where q: "export_request L X d lim index fl = Inr (qj, l1)"
    and r: "export_response L X d lim index fl = Inr (pj, l2)"
    and j: "j = JObject
         [(''_eggreplay'', eggreplay_json fl), (''cache'', JObject []),
          (''comment'', JString ''Lossy EggReplay projection; timings are synthetic totals''),
          (''request'', qj), (''response'', pj),
          (''startedDateTime'', JString (export_started L (fl_started_at_ms fl))),
          (''time'', jnat (unat (export_duration fl))),
          (''timings'', JObject [(''receive'', jnat 0), (''send'', jnat 0), (''wait'', jnat (unat (export_duration fl)))])]"
    by (auto simp: export_flow_def rbind_Inr_iff)
  from export_request_decodes [OF q] obtain rb where rb: "read_body_bytes X d lim (req_body (fl_request fl)) = Inr rb"
    and dq: "de_request qj = Some (exported_request L X fl rb)" by metis
  from export_response_decodes [OF r] obtain sb where
    sb: "case fl_outcome fl of OutResponse r \<Rightarrow> read_body_bytes X d lim (resp_body r) = Inr sb | OutError _ \<Rightarrow> sb = []"
    and dp: "length sb < 2 ^ 63 \<Longrightarrow> de_response pj = Some (exported_response L (fl_outcome fl) sb)" by metis
  have "de_entry j = Some (exported_entry L X fl rb sb)" if "length sb < 2 ^ 63"
  proof -
    have skip: "fld_opt ((k, v) # m) k' f = fld_opt m k' f" if "k \<noteq> k'" for k v m k' and f :: "json \<Rightarrow> 'z option"
      using that by (simp add: fld_opt_Cons)
    show ?thesis
      using dq dp [OF that]
      by (simp add: j skip exported_entry_def fld_opt_Cons [where v = "JNumber n" for n]
          fld_opt_Cons [where v = "JString n" for n] fld_opt_Cons [where v = "JObject n" for n] exported_timings_def jnat_def)
  qed
  with rb sb that show ?thesis by (simp add: reads_bodies_def)
qed

section \<open>What the import accepts again\<close>

definition headers_sized :: "header_entry list \<Rightarrow> bool" where
  "headers_sized hs \<longleftrightarrow> length hs \<le> 256
     \<and> (\<forall>h\<in>set hs. h_name h \<noteq> [] \<and> length (h_name h) \<le> 256 \<and> length (h_value h) \<le> 8192)"

text \<open>The URL the export composes is one the \<^verbatim>\<open>url\<close> crate takes apart into the same parts.\<close>

definition url_reads_back :: "har_lib \<Rightarrow> ext_lib \<Rightarrow> http_request \<Rightarrow> bool" where
  "url_reads_back L X request \<longleftrightarrow>
     (\<exists>u host. hx_url_parse L (export_url X request) = Some u \<and> url_scheme u = req_scheme request
        \<and> url_host u = Some host \<and> url_authority host (url_port u) = req_authority request
        \<and> url_path u = req_path request \<and> url_query_pairs u = map pair_of (req_query request))"

definition representable ::
  "har_lib \<Rightarrow> ext_lib \<Rightarrow> u64 \<Rightarrow> flow \<Rightarrow> bytes \<Rightarrow> bytes \<Rightarrow> bool" where
  "representable L X max_blob fl rb sb \<longleftrightarrow>
     flow_validate fl = Inr () \<and> length (req_method (fl_request fl)) \<le> 32
     \<and> req_scheme (fl_request fl) \<in> {''http'', ''https''} \<and> url_reads_back L X (fl_request fl)
     \<and> length (req_query (fl_request fl)) \<le> 1024
     \<and> (\<forall>p\<in>set (req_query (fl_request fl)). length (q_key p) \<le> 1024 \<and> length (q_value p) \<le> 8192)
     \<and> headers_sized (req_headers (fl_request fl)) \<and> headers_sized (outcome_headers (fl_outcome fl))
     \<and> length rb \<le> unat max_blob \<and> length sb \<le> unat max_blob \<and> length rb < 2 ^ 60 \<and> length sb < 2 ^ 60
     \<and> unat (fl_started_at_ms fl) < 2 ^ 63 \<and> hx_rfc3339_print L (int (unat (fl_started_at_ms fl))) \<noteq> None
     \<and> unat (export_duration fl) < 2 ^ 53"

text \<open>An import that redacts nothing, and file names a flow identifier may contain.\<close>

definition plain_import :: "import_options \<Rightarrow> (usize \<Rightarrow> string) \<Rightarrow> bool" where
  "plain_import opts uniq \<longleftrightarrow>
     io_redaction opts = \<lparr>rc_headers = [], rc_query_keys = [], rc_json_paths = []\<rparr>
     \<and> (\<forall>i. length (uniq i) \<le> 200 \<and> CHR ''/'' \<notin> set (uniq i) \<and> CHR 0x5C \<notin> set (uniq i))"

lemma header_entries_plain:
  assumes "headers_sized hs"
  shows "har_header_entries (map (\<lambda>h. plain_name_value (h_name h) (h_value h)) hs) 256 = Inr hs"
proof -
  have "list_all2 (\<lambda>x y. header_of x = Inr y) (map (\<lambda>h. plain_name_value (h_name h) (h_value h)) hs) hs"
    using assms by (auto simp: headers_sized_def list.rel_map header_of_def plain_name_value_def not_less intro: list.rel_refl_strong)
  then show ?thesis using assms by (simp add: har_header_entries_def headers_sized_def collect_res_Inr_iff)
qed

lemma redact_nothing:
  "redact_import_body X b media \<lparr>rc_headers = [], rc_query_keys = [], rc_json_paths = []\<rparr> profile is_response index side bound
     = Inr ((b, []), [])"
  by (simp add: redact_import_body_def structured_too_long_def wants_body_redaction_def Let_def)

lemma exported_url_accepted:
  assumes "representable L X max_blob fl rb sb"
  shows "\<exists>l. entry_url L index (exported_request L X fl rb) =
    Inr ((req_scheme (fl_request fl), req_authority (fl_request fl), req_path (fl_request fl)), l)"
proof -
  from assms obtain u host where u: "hx_url_parse L (export_url X (fl_request fl)) = Some u"
      "url_scheme u = req_scheme (fl_request fl)" "url_host u = Some host"
      "url_authority host (url_port u) = req_authority (fl_request fl)" "url_path u = req_path (fl_request fl)"
    by (auto simp: representable_def url_reads_back_def)
  moreover have "req_method (fl_request fl) \<noteq> []" "\<not> 32 < length (req_method (fl_request fl))"
    "starts_with ''/'' (req_path (fl_request fl))" "req_scheme (fl_request fl) \<in> {''http'', ''https''}"
    using assms by (simp_all add: representable_def flow_validate_iff)
  moreover from this(3) have "req_path (fl_request fl) \<noteq> []" by (auto simp: starts_with_def)
  ultimately show ?thesis
    by (auto simp: entry_url_def split_url_def exported_request_def Let_def)
qed

lemma exported_query_accepted:
  assumes "representable L X max_blob fl rb sb"
  shows "entry_query L index (exported_request L X fl rb) = Inr (req_query (fl_request fl), [])"
proof -
  let ?q = "req_query (fl_request fl)"
  from assms obtain u where u: "hx_url_parse L (export_url X (fl_request fl)) = Some u" "url_query_pairs u = map pair_of ?q"
    by (auto simp: representable_def url_reads_back_def)
  have "list_all2 (\<lambda>x y. query_of index x = Inr y) (map (\<lambda>p. plain_name_value (q_key p) (q_value p)) ?q) ?q"
    using assms by (auto simp: representable_def list.rel_map query_of_def plain_name_value_def not_less intro!: list.rel_refl_strong)
  then have "collect_res (query_of index) (map (\<lambda>p. plain_name_value (q_key p) (q_value p)) ?q) = Inr ?q"
    by (simp add: collect_res_Inr_iff)
  then show ?thesis using assms u by (simp add: entry_query_def exported_request_def Let_def representable_def)
qed

lemma exported_headers_accepted:
  assumes "representable L X max_blob fl rb sb"
  shows "\<exists>l. entry_headers index (exported_request L X fl rb) = Inr (req_headers (fl_request fl), l)"
  using assms header_entries_plain by (simp add: entry_headers_def exported_request_def Let_def representable_def)

lemma exported_body_accepted:
  assumes "har_lawful L X" and "representable L X max_blob fl rb sb"
    and "config = \<lparr>rc_headers = [], rc_query_keys = [], rc_json_paths = []\<rparr>"
  shows "entry_request_body L X config profile bound max_blob index (exported_request L X fl rb) = Inr ((rb, []), [])"
proof -
  have small: "length rb \<le> unat max_blob" "length rb < 2 ^ 60" using assms(2) by (simp_all add: representable_def)
  obtain t e where te: "body_text L rb = (t, e)" by fastforce
  have "post_data_bytes L X index (exported_post_data hs (body_text L rb)) max_blob = Inr ((rb, rb \<noteq> []), [])" for hs
  proof (cases t)
    case None
    with te have "rb = []" by (auto simp: body_text_def split: if_splits option.splits)
    with None te show ?thesis by (simp add: post_data_bytes_def exported_post_data_def)
  next
    case (Some chars)
    with te have "rb \<noteq> []" by (auto simp: body_text_def)
    with Some te show ?thesis
      using body_text_decodes(1) [OF assms(1) small] by (simp add: post_data_bytes_def exported_post_data_def)
  qed
  then show ?thesis
    using small by (simp add: entry_request_body_def exported_request_def Let_def redact_nothing assms(3))
qed

definition outcome_status :: "flow_outcome \<Rightarrow> u16 option" where
  "outcome_status out = (case out of OutResponse r \<Rightarrow> Some (resp_status r) | OutError _ \<Rightarrow> None)"

lemma exported_response_accepted:
  assumes "har_lawful L X" and "representable L X max_blob fl rb sb"
    and "config = \<lparr>rc_headers = [], rc_query_keys = [], rc_json_paths = []\<rparr>"
  shows "\<exists>l. entry_response L X config profile bound max_blob index (exported_response L (fl_outcome fl) sb) =
    Inr ((outcome_status (fl_outcome fl), outcome_headers (fl_outcome fl), sb, []), l)"
proof -
  have small: "length sb \<le> unat max_blob" "length sb < 2 ^ 60" using assms(2) by (simp_all add: representable_def)
  have numbers: "n < 2 ^ 64 \<Longrightarrow> x_json_as_u64 X (jnat n) = Some (of_nat n)" for n
    using assms(1) by (simp add: har_lawful_def jnat_def)
  have status: "status_code X (hr_status (exported_response L (fl_outcome fl) sb)) = Inr (outcome_status (fl_outcome fl))"
  proof (cases "fl_outcome fl")
    case (OutResponse r)
    then have "status_in_range (resp_status r)" using assms(2) by (simp add: representable_def flow_validate_iff)
    moreover obtain n where n: "unat (resp_status r) = n" "of_nat n = resp_status r" by simp
    ultimately have "100 \<le> n" "n \<le> 599" by (auto simp: status_in_range_def word_le_nat_alt)
    moreover from this have "unat (of_nat n :: u64) = n" by (intro u64_of_length) simp
    ultimately show ?thesis
      using OutResponse numbers [of n] n
      by (simp add: exported_response_def Let_def status_code_def status_number_def outcome_status_def)
  next
    case (OutError e)
    with numbers [of 0] show ?thesis
      by (simp add: exported_response_def Let_def status_code_def status_number_def outcome_status_def)
  qed
  have "hr_headers (exported_response L (fl_outcome fl) sb)
      = map (\<lambda>h. plain_name_value (h_name h) (h_value h)) (outcome_headers (fl_outcome fl))"
    by (cases "fl_outcome fl") (simp_all add: exported_response_def)
  then have headers: "har_header_entries (hr_headers (exported_response L (fl_outcome fl) sb)) 256 = Inr (outcome_headers (fl_outcome fl))"
    using assms(2) by (simp add: header_entries_plain representable_def)
  have "\<exists>hs. hr_content (exported_response L (fl_outcome fl) sb) = Some (exported_content hs sb (body_text L sb))"
    by (cases "fl_outcome fl") (auto simp: exported_response_def)
  then have "\<exists>l. content_bytes L index (hr_content (exported_response L (fl_outcome fl) sb)) max_blob = Inr (sb, l)"
    using body_text_decodes(2) [OF assms(1) small] by (auto simp: content_bytes_def exported_content_def)
  then show ?thesis
    using status headers by (auto simp: entry_response_def Let_def redact_nothing assms(3))
qed

lemma exported_timing_accepted:
  assumes "har_lawful L X" and "representable L X max_blob fl rb sb"
  shows "\<exists>l. entry_timing L index (exported_entry L X fl rb sb) =
    Inr ((fl_started_at_ms fl, of_nat (min (unat (export_duration fl)) 3600000)), l)"
proof -
  from assms(2) obtain t where t: "hx_rfc3339_print L (int (unat (fl_started_at_ms fl))) = Some t"
    and small: "unat (fl_started_at_ms fl) < 2 ^ 63" "unat (export_duration fl) < 2 ^ 53"
    by (auto simp: representable_def)
  with assms(1) have "hx_rfc3339_ms L t = Some (int (unat (fl_started_at_ms fl)))" by (simp add: har_lawful_def)
  with t small total_time_whole [OF assms(1) small(2)] unsigned_less [of "fl_started_at_ms fl", where ?'a = int]
  show ?thesis
    by (simp add: entry_timing_def exported_entry_def started_ms_def export_started_def)
qed

definition eggreplay_creator :: "string \<Rightarrow> har_creator" where
  "eggreplay_creator tool_version = \<lparr>cr_name = ''eggreplay'', cr_version = tool_version, cr_comment = None\<rparr>"

lemma exported_annotations_accepted:
  assumes "length tool_version \<le> 246"
  shows "\<exists>a. entry_annotations (Some (eggreplay_creator tool_version)) (exported_entry L X fl rb sb) n = Inr a"
  using assms
  by (cases "fl_outcome fl")
    (simp_all add: entry_annotations_def exported_entry_def exported_request_def exported_response_def Let_def
      comment_annotation_def truncate_bounded_def eggreplay_creator_def)

lemma redact_flow_nothing: "redact_flow fl \<lparr>rc_headers = [], rc_query_keys = [], rc_json_paths = []\<rparr> profile = fl"
proof -
  have "mask_header [] = (\<lambda>h. h)" "mask_pair [] = (\<lambda>p. p)" by (simp_all add: fun_eq_iff mask_header_def mask_pair_def)
  then show ?thesis
    by (cases "fl_outcome fl") (simp_all add: redact_flow_eq header_markers_def query_markers_def)
qed

lemma redact_imported_nothing:
  "redact_imported (assemble_flow index u target meth query headers out started duration annotations)
     \<lparr>rc_headers = [], rc_query_keys = [], rc_json_paths = []\<rparr> profile index [] [] rb sb =
   (assemble_flow index u target meth query headers out started duration annotations, [])"
proof -
  let ?a = "assemble_flow index u target meth query headers out started duration annotations"
  have "fl_redactions ?a = []" by (simp add: assemble_flow_def split_def)
  then show ?thesis
    by (cases "fl_outcome ?a") (simp_all add: redact_imported_def redact_flow_nothing Let_def reconcile_imported_def)
qed

lemma sat_add_ge: "a \<le> sat_add a (b :: u64)"
  using unsigned_less [of a, where ?'a = nat] by (simp add: word_le_nat_alt unat_sat_add)

lemma assembled_valid:
  assumes "req_method request \<noteq> []" and "starts_with ''/'' (req_path request)"
    and "\<And>r. out = OutResponse r \<Longrightarrow> status_in_range (resp_status r)"
    and "length u \<le> 200" and "CHR ''/'' \<notin> set u" and "CHR 0x5C \<notin> set u" and "index < 10 ^ 20"
  shows "flow_validate (assemble_flow index u (req_scheme request, req_authority request, req_path request)
    (req_method request) query headers out started duration annotations) = Inr ()"
proof -
  have "length (to_dec index) \<le> 20" using to_dec_length_aux [of index 19] assms(7) by simp
  then have "length (pad6 index) \<le> 20" by (simp add: pad6_def)
  moreover have "CHR ''/'' \<notin> set (pad6 index)" "CHR 0x5C \<notin> set (pad6 index)"
    using to_dec_no_slash [of index] by (auto simp: pad6_def)
  ultimately show ?thesis
    using assms sat_add_ge by (auto simp: flow_validate_iff assemble_flow_def FLOW_SCHEMA_VERSION_def)
qed

text \<open>What is left of a flow: everything but the trailers, the route, the notes and the text of an error.\<close>

definition without_trailers :: "flow_outcome \<Rightarrow> flow_outcome" where
  "without_trailers out =
     (case out of
        OutResponse r \<Rightarrow> OutResponse (r\<lparr>resp_body := BodyEmpty, resp_trailers := []\<rparr>)
      | OutError _ \<Rightarrow>
          OutError (literal_error Cat_Other Phase_Other ''HAR-recorded request with no response (status 0)''))"

definition har_same :: "flow \<Rightarrow> bytes \<Rightarrow> bytes \<Rightarrow> pending_flow \<Rightarrow> bool" where
  "har_same fl rb sb item \<longleftrightarrow>
     (case item of (fl', rb', sb') \<Rightarrow>
        fl_request fl' = (fl_request fl)\<lparr>req_body := BodyEmpty, req_trailers := []\<rparr>
        \<and> fl_outcome fl' = without_trailers (fl_outcome fl)
        \<and> fl_started_at_ms fl' = fl_started_at_ms fl
        \<and> fl_completed_at_ms fl' =
            Some (sat_add (fl_started_at_ms fl) (of_nat (min (unat (export_duration fl)) 3600000)))
        \<and> rb' = rb \<and> sb' = sb)"

lemma exported_entry_accepted:
  assumes lawful: "har_lawful L X" and ok: "representable L X (io_max_blob opts) fl rb sb"
    and plain: "plain_import opts uniq" and "length tool_version \<le> 246" and "index < 10 ^ 20"
  obtains item losses where
    "import_entry L X uniq opts (Some (eggreplay_creator tool_version)) index (exported_entry L X fl rb sb) = Inr (item, losses)"
    and "har_same fl rb sb item"
proof -
  let ?none = "\<lparr>rc_headers = [], rc_query_keys = [], rc_json_paths = []\<rparr>"
  let ?duration = "of_nat (min (unat (export_duration fl)) 3600000) :: u64"
  have config: "io_redaction opts = ?none" using plain by (simp add: plain_import_def)
  obtain l1 where s1: "entry_url L index (exported_request L X fl rb) =
      Inr ((req_scheme (fl_request fl), req_authority (fl_request fl), req_path (fl_request fl)), l1)"
    using exported_url_accepted [OF ok] by blast
  note s2 = exported_query_accepted [OF ok, of index]
  obtain l3 where s3: "entry_headers index (exported_request L X fl rb) = Inr (req_headers (fl_request fl), l3)"
    using exported_headers_accepted [OF ok] by blast
  note s4 = exported_body_accepted [OF lawful ok refl, of "io_profile opts" "io_max_structured opts" index]
  obtain l5 where s5: "entry_response L X ?none (io_profile opts) (io_max_structured opts) (io_max_blob opts) index
      (exported_response L (fl_outcome fl) sb) = Inr ((outcome_status (fl_outcome fl), outcome_headers (fl_outcome fl), sb, []), l5)"
    using exported_response_accepted [OF lawful ok refl] by blast
  obtain l6 where s6: "entry_timing L index (exported_entry L X fl rb sb) = Inr ((fl_started_at_ms fl, ?duration), l6)"
    using exported_timing_accepted [OF lawful ok] by blast
  obtain a where s7: "entry_annotations (Some (eggreplay_creator tool_version)) (exported_entry L X fl rb sb) ?duration = Inr a"
    using exported_annotations_accepted [OF assms(4)] by blast
  obtain out l7 where o: "entry_outcome index (outcome_status (fl_outcome fl)) (outcome_headers (fl_outcome fl)) = (out, l7)"
    by fastforce
  then have out: "out = without_trailers (fl_outcome fl)"
    by (cases "fl_outcome fl") (auto simp: entry_outcome_def outcome_status_def without_trailers_def)
  let ?f = "assemble_flow index (uniq index) (req_scheme (fl_request fl), req_authority (fl_request fl), req_path (fl_request fl))
      (req_method (fl_request fl)) (req_query (fl_request fl)) (req_headers (fl_request fl)) out (fl_started_at_ms fl) ?duration a"
  have valid: "flow_validate ?f = Inr ()"
    using ok plain assms(5)
    by (intro assembled_valid) (auto simp: representable_def flow_validate_iff plain_import_def out without_trailers_def
        split: flow_outcome.splits)
  have parts: "he_request (exported_entry L X fl rb sb) = exported_request L X fl rb"
      "he_response (exported_entry L X fl rb sb) = exported_response L (fl_outcome fl) sb"
      "hq_method (exported_request L X fl rb) = req_method (fl_request fl)"
    by (simp_all add: exported_entry_def exported_request_def Let_def)
  have "finish_entry uniq opts index (req_method (fl_request fl))
      (req_scheme (fl_request fl), req_authority (fl_request fl), req_path (fl_request fl)) (req_query (fl_request fl))
      (req_headers (fl_request fl)) (rb, []) (outcome_status (fl_outcome fl), outcome_headers (fl_outcome fl), sb, [])
      (fl_started_at_ms fl, ?duration) a = Inr ((?f, rb, sb), l7)"
    using valid by (simp add: finish_entry_def Let_def o config redact_imported_nothing)
  then have "import_entry L X uniq opts (Some (eggreplay_creator tool_version)) index (exported_entry L X fl rb sb) =
      Inr ((?f, rb, sb), l1 @ [] @ l3 @ [] @ l5 @ l6 @ l7)"
    unfolding import_entry_def Let_def parts config
    by (simp only: s1 s2 s3 s4 s5 s6 s7 rbind_simps prod.case snd_conv)
  moreover have "har_same fl rb sb (?f, rb, sb)"
    by (simp add: har_same_def assemble_flow_def out)
  ultimately show ?thesis using that by blast
qed

section \<open>A session through HAR\<close>

definition accepted_entry ::
  "har_lib \<Rightarrow> ext_lib \<Rightarrow> fixture_dir \<Rightarrow> store_limits \<Rightarrow> u64 \<Rightarrow> flow \<Rightarrow> har_entry \<Rightarrow> bool" where
  "accepted_entry L X d lim max_blob fl entry \<longleftrightarrow>
     (\<exists>rb sb. reads_bodies X d lim fl rb sb \<and> representable L X max_blob fl rb sb \<and> entry = exported_entry L X fl rb sb)"

lemma exported_entries_decode:
  assumes "list_all2 (\<lambda>(i, fl) r. export_flow L X d lim i fl = Inr r) (List.enumerate n flows) exported"
    and "\<forall>fl\<in>set flows. \<forall>rb sb. reads_bodies X d lim fl rb sb \<longrightarrow> representable L X max_blob fl rb sb"
  shows "\<exists>es. collect_opt de_entry (map fst exported) = Some es \<and> list_all2 (accepted_entry L X d lim max_blob) flows es"
  using assms
proof (induction flows arbitrary: n exported)
  case (Cons fl flows)
  then obtain j l rest where exported: "exported = (j, l) # rest"
    and one: "export_flow L X d lim n fl = Inr (j, l)"
    and more: "list_all2 (\<lambda>(i, fl) r. export_flow L X d lim i fl = Inr r) (List.enumerate (Suc n) flows) rest"
    by (auto simp: list_all2_Cons1)
  from export_flow_decodes [OF one] obtain rb sb where bodies: "reads_bodies X d lim fl rb sb"
    and entry: "length sb < 2 ^ 63 \<Longrightarrow> de_entry j = Some (exported_entry L X fl rb sb)" by metis
  from bodies Cons.prems(2) have rep: "representable L X max_blob fl rb sb" by simp
  then have "length sb < 2 ^ 60" by (simp add: representable_def)
  with entry have "de_entry j = Some (exported_entry L X fl rb sb)" by simp
  moreover have "accepted_entry L X d lim max_blob fl (exported_entry L X fl rb sb)"
    using bodies rep by (auto simp: accepted_entry_def)
  ultimately show ?case
    using Cons.IH [OF more] Cons.prems(2) exported by auto
qed simp

lemma exported_entries_import:
  assumes "har_lawful L X" and "plain_import opts uniq" and "length tool_version \<le> 246"
    and "list_all2 (accepted_entry L X d lim (io_max_blob opts)) flows es" and "n + length flows \<le> 10 ^ 20"
  shows "\<exists>rs. list_all2 (\<lambda>(i, e) r. import_entry L X uniq opts (Some (eggreplay_creator tool_version)) i e = Inr r)
      (List.enumerate n es) rs
    \<and> list_all2 (\<lambda>fl item. \<exists>rb sb. reads_bodies X d lim fl rb sb \<and> har_same fl rb sb item) flows (map fst rs)"
  using assms(4,5)
proof (induction flows arbitrary: n es)
  case (Cons fl flows)
  then obtain e es' where es: "es = e # es'" and one: "accepted_entry L X d lim (io_max_blob opts) fl e"
    and more: "list_all2 (accepted_entry L X d lim (io_max_blob opts)) flows es'" by (auto simp: list_all2_Cons1)
  from one obtain rb sb where bodies: "reads_bodies X d lim fl rb sb" and rep: "representable L X (io_max_blob opts) fl rb sb"
    and e: "e = exported_entry L X fl rb sb" by (auto simp: accepted_entry_def)
  have "n < 10 ^ 20" using Cons.prems(2) by simp
  from exported_entry_accepted [OF assms(1) rep assms(2,3) this] obtain item losses where
    item: "import_entry L X uniq opts (Some (eggreplay_creator tool_version)) n e = Inr (item, losses)" "har_same fl rb sb item"
    unfolding e by metis
  from Cons.IH [OF more, of "Suc n"] Cons.prems(2) obtain rs where
    rs: "list_all2 (\<lambda>(i, e) r. import_entry L X uniq opts (Some (eggreplay_creator tool_version)) i e = Inr r)
      (List.enumerate (Suc n) es') rs"
    "list_all2 (\<lambda>fl item. \<exists>rb sb. reads_bodies X d lim fl rb sb \<and> har_same fl rb sb item) flows (map fst rs)" by auto
  show ?case
    using item rs bodies by (intro exI [of _ "(item, losses) # rs"]) (auto simp: es)
qed simp

definition serde_reads_back :: "har_lib \<Rightarrow> json \<Rightarrow> bytes \<Rightarrow> bool" where
  "serde_reads_back L har content \<longleftrightarrow> (\<forall>doc. de_document har = Some doc \<longrightarrow> hx_from_slice L content = Inr doc)"

lemma exported_document_decodes:
  assumes "collect_opt de_entry entries = Some es"
  shows "de_document (har_json tool_version metadata entries losses) =
    Some \<lparr>doc_log = \<lparr>lg_version = HAR_VERSION_1_2, lg_creator = Some (eggreplay_creator tool_version), lg_browser = None,
      lg_pages = None, lg_entries = es, lg_comment = Some HAR_LOSSY_NOTICE\<rparr>\<rparr>"
proof -
  have skip: "fld_opt ((k, v) # m) k' f = fld_opt m k' f" if "k \<noteq> k'" for k v m k' and f :: "json \<Rightarrow> 'z option"
    using that by (simp add: fld_opt_Cons)
  show ?thesis
    using assms by (simp add: har_json_def skip fld_opt_Cons [where v = "JString n" for n]
        fld_opt_Cons [where v = "JObject n" for n] eggreplay_creator_def)
qed


section \<open>A demonstration round trip\<close>

text \<open>A text encoding with the laws of base64, and functions that know the sample flow.\<close>

definition hex_encode :: "bytes \<Rightarrow> string" where
  "hex_encode b = concat (map (\<lambda>c. [hex_digit (byte_val c div 16), hex_digit (byte_val c mod 16)]) b)"

definition unhex_digit :: "char \<Rightarrow> nat" where
  "unhex_digit c = (if byte_val c < 58 then byte_val c - 48 else byte_val c - 87)"

fun hex_decode :: "string \<Rightarrow> bytes option" where
  "hex_decode [] = Some []"
| "hex_decode [_] = None"
| "hex_decode (a # b # s) = map_option (\<lambda>t. char_of (16 * unhex_digit a + unhex_digit b) # t) (hex_decode s)"

lemma unhex_hex: "n < 16 \<Longrightarrow> unhex_digit (hex_digit n) = n"
  by (auto simp: unhex_digit_def hex_digit_def byte_val_char_of)

lemma hex_decode_encode: "hex_decode (hex_encode b) = Some b"
proof (induction b)
  case (Cons c b)
  have "byte_val c div 16 < 16" using byte_val_less [of c] by linarith
  then have "char_of (16 * unhex_digit (hex_digit (byte_val c div 16)) + unhex_digit (hex_digit (byte_val c mod 16))) = c"
    by (simp add: unhex_hex) (simp add: byte_val_def)
  with Cons show ?case by (simp add: hex_encode_def)
qed (simp add: hex_encode_def)

lemma hex_encode_visible: "visible (hex_encode b)"
proof -
  have "byte_in 33 127 (hex_digit n)" if "n < 16" for n
    using that by (auto simp: hex_digit_def byte_in_def byte_val_char_of)
  moreover have "byte_val c div 16 < 16" for c using byte_val_less [of c] by linarith
  ultimately show ?thesis by (auto simp: visible_def hex_encode_def)
qed

definition demo_trip_base :: har_lib where
  "demo_trip_base =
     \<lparr>hx_from_slice = (\<lambda>_. Inl []), hx_provenance_to = (\<lambda>_. Inr ''{}''),
      hx_as_f64 = (\<lambda>v. case v of JNumber s \<Rightarrow> map_option (\<lambda>n. f64_of_ratio False n 1) (parse_uint (2 ^ 53) s) | _ \<Rightarrow> None),
      hx_b64_encode = hex_encode, hx_b64_decode = hex_decode,
      hx_rfc3339_ms = (\<lambda>s. if s = ''1970-01-01T00:00:01.000Z'' then Some 1000 else None),
      hx_rfc3339_print = (\<lambda>n. if n = 1000 then Some ''1970-01-01T00:00:01.000Z'' else None),
      hx_url_parse = (\<lambda>u. if u = ''http://example.test/cart/abc?token=x''
        then Some \<lparr>url_scheme = ''http'', url_host = Some ''example.test'', url_port = None, url_path = ''/cart/abc'',
                   url_query_pairs = [(''token'', ''x'')], url_username = [], url_password = None, url_as_str = u\<rparr>
        else None)\<rparr>"

definition demo_trip_session :: session where
  "demo_trip_session = \<lparr>se_root = (''out'', ''s''), se_manifest = demo_manifest 1, se_limits = store_limits_default\<rparr>"

definition demo_exported :: json where
  "demo_exported =
     (case export_session_to_har demo_trip_base demo_codec demo_lib ''0.1'' demo_published demo_trip_session of
        Inl _ \<Rightarrow> JNull | Inr (har, _) \<Rightarrow> har)"

definition demo_trip_lib :: har_lib where
  "demo_trip_lib = demo_trip_base\<lparr>hx_from_slice :=
     (\<lambda>_. case de_document demo_exported of None \<Rightarrow> Inl [] | Some doc \<Rightarrow> Inr doc)\<rparr>"

lemma export_flow_ignores_parser:
  "export_flow (L\<lparr>hx_from_slice := f\<rparr>) X d lim index fl = export_flow L X d lim index fl"
proof -
  have same: "body_text (L\<lparr>hx_from_slice := f\<rparr>) b = body_text L b" for b
    by (cases "escape_json_text b") (simp_all add: body_text_def)
  have "export_request (L\<lparr>hx_from_slice := f\<rparr>) X d lim index fl = export_request L X d lim index fl"
    by (simp add: export_request_def same)
  moreover have "export_response (L\<lparr>hx_from_slice := f\<rparr>) X d lim index fl = export_response L X d lim index fl"
    by (cases "fl_outcome fl") (simp_all add: export_response_def same)
  ultimately show ?thesis by (simp add: export_flow_def export_started_def)
qed

lemma export_ignores_parser:
  "export_session_to_har (L\<lparr>hx_from_slice := f\<rparr>) C X tool_version d se = export_session_to_har L C X tool_version d se"
  by (simp add: export_session_to_har_def export_flow_ignores_parser)

lemma demo_trip_lawful: "har_lawful demo_trip_lib demo_lib"
proof -
  have "length (hex_encode b) = 2 * length b" for b by (induction b) (simp_all add: hex_encode_def)
  then show ?thesis
    using hex_encode_visible hex_decode_encode
    by (simp add: har_lawful_def demo_trip_lib_def demo_trip_base_def demo_lib_def parse_to_dec)
qed

lemma demo_read_flows: "read_flows demo_codec demo_published (se_limits demo_trip_session) = Inr [sample_flow]"
  by code_simp

lemma demo_export:
  "\<exists>report. export_session_to_har demo_trip_lib demo_codec demo_lib ''0.1'' demo_published demo_trip_session
     = Inr (demo_exported, report)"
proof -
  have "\<exists>r. export_flow demo_trip_base demo_lib demo_published (se_limits demo_trip_session) 0 sample_flow = Inr r"
    by (simp add: export_flow_def export_request_def export_response_def Let_def read_body_bytes_def sample_flow_def
        flow_new_def sample_request_def sample_response_def)
  then have "\<exists>r. export_session_to_har demo_trip_base demo_codec demo_lib ''0.1'' demo_published demo_trip_session = Inr r"
    by (auto simp: export_session_to_har_def demo_read_flows Let_def)
  then show ?thesis
    unfolding demo_trip_lib_def export_ignores_parser by (auto simp: demo_exported_def)
qed

definition demo_plain_options :: import_options where
  "demo_plain_options = \<lparr>io_redaction = \<lparr>rc_headers = [], rc_query_keys = [], rc_json_paths = []\<rparr>,
     io_profile = ''p'', io_max_structured = 1000, io_max_blob = 1000\<rparr>"

lemma demo_representable: "representable demo_trip_lib demo_lib 1000 sample_flow [] []"
proof -
  have "export_url demo_lib (fl_request sample_flow) = ''http://example.test/cart/abc?token=x''" by code_simp
  moreover have "flow_validate sample_flow = Inr ()" "headers_sized (req_headers (fl_request sample_flow))"
    "headers_sized (outcome_headers (fl_outcome sample_flow))" "unat (export_duration sample_flow) = 0"
    "unat (fl_started_at_ms sample_flow) = 1000" by code_simp+
  ultimately show ?thesis
    by (simp add: representable_def url_reads_back_def demo_trip_lib_def demo_trip_base_def url_authority_def pair_of_def)
      (simp add: sample_flow_def flow_new_def sample_request_def pair_of_def)
qed


section \<open>What the report names\<close>

text \<open>The features of a flow that HAR has no place for, by the field the report uses.\<close>

definition unrepresented :: "flow \<Rightarrow> bytes \<Rightarrow> bytes \<Rightarrow> string \<Rightarrow> bool" where
  "unrepresented fl rb sb field \<longleftrightarrow>
     field = ''request.postData.encoding'' \<and> \<not> utf8_valid rb
     \<or> field = ''request.trailers'' \<and> req_trailers (fl_request fl) \<noteq> []
     \<or> field = ''response.content.encoding'' \<and> \<not> utf8_valid sb
     \<or> field = ''response.trailers'' \<and> (\<exists>r. fl_outcome fl = OutResponse r \<and> resp_trailers r \<noteq> [])
     \<or> field = ''response'' \<and> (\<exists>e. fl_outcome fl = OutError e)
     \<or> field = ''redactions'' \<and> fl_redactions fl \<noteq> []
     \<or> field = ''physical_route'' \<and> fl_physical_route fl \<noteq> None
     \<or> field = ''websocket'' \<and> is_websocket_handshake fl"

lemma body_text_encoded:
  "snd (body_text L b) = None \<longleftrightarrow> utf8_valid b" "(\<exists>y. snd (body_text L b) = Some y) \<longleftrightarrow> \<not> utf8_valid b"
  by (simp_all add: body_text_def escape_json_text_def)

lemma export_flow_losses:
  assumes "export_flow L X d lim i fl = Inr (j, losses)" and "reads_bodies X d lim fl rb sb"
  shows "hl_field ` set losses = Collect (unrepresented fl rb sb)"
    and "\<forall>l\<in>set losses. hl_entry_index l = Some i \<and> hl_flow_id l = Some (fl_id fl)"
proof -
  from assms obtain qj l1 pj l2 where q: "export_request L X d lim i fl = Inr (qj, l1)"
    and r: "export_response L X d lim i fl = Inr (pj, l2)" and losses: "losses = l1 @ l2 @ flow_losses i fl"
    by (auto simp: export_flow_def rbind_Inr_iff)
  from q assms(2) have l1: "l1 =
      (if \<not> utf8_valid rb
       then [flow_loss i fl ''request.postData.encoding'' ''binary request body base64-encoded for HAR'' Annotated] else [])
      @ (if req_trailers (fl_request fl) \<noteq> []
         then [flow_loss i fl ''request.trailers'' ''request trailers have no HAR representation; omitted'' Omitted] else [])"
    by (auto simp: export_request_def Let_def reads_bodies_def body_text_encoded)
  have l2: "\<exists>t a. l2 = (if \<not> utf8_valid sb
       then [flow_loss i fl ''response.content.encoding'' ''binary response body base64-encoded for HAR'' Annotated] else [])
      @ (case fl_outcome fl of
           OutResponse r \<Rightarrow> if resp_trailers r \<noteq> []
             then [flow_loss i fl ''response.trailers'' ''response trailers have no HAR representation; omitted'' Omitted] else []
         | OutError _ \<Rightarrow> [flow_loss i fl ''response'' t a])"
    using r assms(2) by (cases "fl_outcome fl") (auto simp: export_response_def Let_def reads_bodies_def body_text_encoded)
  have f1: "hl_field ` set l1 = {f. f = ''request.postData.encoding'' \<and> \<not> utf8_valid rb
      \<or> f = ''request.trailers'' \<and> req_trailers (fl_request fl) \<noteq> []}"
    by (auto simp: l1 flow_loss_def)
  have f2: "hl_field ` set l2 = {f. f = ''response.content.encoding'' \<and> \<not> utf8_valid sb
      \<or> f = ''response.trailers'' \<and> (\<exists>r. fl_outcome fl = OutResponse r \<and> resp_trailers r \<noteq> [])
      \<or> f = ''response'' \<and> (\<exists>e. fl_outcome fl = OutError e)}"
    using l2 by (cases "fl_outcome fl") (auto simp: flow_loss_def)
  have f3: "hl_field ` set (flow_losses i fl) = {f. f = ''redactions'' \<and> fl_redactions fl \<noteq> []
      \<or> f = ''physical_route'' \<and> fl_physical_route fl \<noteq> None \<or> f = ''websocket'' \<and> is_websocket_handshake fl}"
    by (auto simp: flow_losses_def flow_loss_def)
  show "hl_field ` set losses = Collect (unrepresented fl rb sb)"
    unfolding losses set_append image_Un f1 f2 f3 unrepresented_def Collect_disj_eq by (simp only: Un_assoc)
  show "\<forall>l\<in>set losses. hl_entry_index l = Some i \<and> hl_flow_id l = Some (fl_id fl)"
    using l1 l2 by (cases "fl_outcome fl") (auto simp: losses flow_losses_def flow_loss_def)
qed



section \<open>Migration\<close>

definition migratable :: "extension_descriptor \<Rightarrow> bool" where
  "migratable e \<longleftrightarrow>
     (case map_of KNOWN_EXTENSIONS (ext_name e) of
        None \<Rightarrow> \<not> ext_required e | Some current \<Rightarrow> ext_schema_version e = current)"

lemma find_map_of: "find (\<lambda>kv. fst kv = k) m = map_option (\<lambda>v. (k, v)) (map_of m k)"
  by (induction m) auto

lemma migration_blockers_Nil_iff: "migration_blockers es = [] \<longleftrightarrow> list_all migratable es"
proof -
  have "migration_blocker e = None \<longleftrightarrow> migratable e" for e
    by (auto simp: migration_blocker_def migratable_def find_map_of split: option.splits)
  moreover have "migration_blockers es = [] \<longleftrightarrow> (\<forall>e\<in>set es. migration_blocker e = None)"
    by (induction es) (auto simp: migration_blockers_def map_filter_simps split: option.splits)
  ultimately show ?thesis by (simp add: list_all_iff)
qed

text \<open>
  A migration is refused before anything is copied. It is blocked exactly when the target
  schema is not a known session schema, or an extension is one the crate knows in another schema or
  one it does not know that replay requires; then no file of the system has changed. Otherwise it is
  the transactional copy.
\<close>

theorem migration_is_blocked_iff:
  "(if known_session_schema target \<and> list_all migratable (mf_extensions (se_manifest source))
    then migrate_session C X uniq fsys source destination target u =
      (fst (copy_to C X uniq fsys source destination target u),
       map_err MigStore (snd (copy_to C X uniq fsys source destination target u)))
    else \<exists>reason. migrate_session C X uniq fsys source destination target u = (fsys, Inl (MigBlocked reason)))"
  by (simp add: migrate_session_def known_session_schema_def CURRENT_SESSION_SCHEMA_def Let_def split_def
      flip: migration_blockers_Nil_iff)

end
