(* ===== verification/Grpc_View.thy ===== *)
theory Grpc_View
  imports External Flow_Model
begin

text \<open>
  The gRPC view of a recorded body, \<^verbatim>\<open>crates/eggreplay-http/src/grpc.rs\<close>: the length-prefixed
  messages of the body, the status of the trailers, and the optional decoding of a message against a
  descriptor set.

  The protobuf library is a parameter: the decoding of a descriptor set, the lookup of a message by
  name, the decoding of a payload and the rendering of a message as JSON.
\<close>

definition GRPC_MAX_BODY_BYTES :: usize where "GRPC_MAX_BODY_BYTES = 16 * 1024 * 1024"
definition GRPC_MAX_FRAMES :: usize where "GRPC_MAX_FRAMES = 4096"
definition GRPC_MAX_DESCRIPTOR_BYTES :: usize where "GRPC_MAX_DESCRIPTOR_BYTES = 1024 * 1024"

datatype grpc_error =
    GrpcTooLarge | GrpcTooManyFrames | GrpcTruncated | GrpcOverrun | GrpcTrailingBytes
  | GrpcDescriptorTooLarge | GrpcDescriptorInvalid string | GrpcUnknownMessage string
  | GrpcDecode string | GrpcJson string

record grpc_frame =
  gf_index :: usize
  gf_compressed :: bool
  gf_length :: u32
  gf_payload :: bytes

record grpc_status =
  gs_code :: u32
  gs_message :: string

record grpc_message_view =
  gm_index :: usize
  gm_compressed :: bool
  gm_length :: u32
  gm_decoded :: "json option"

record grpc_view =
  gv_messages :: "grpc_message_view list"
  gv_status :: "grpc_status option"

definition is_grpc_content_type :: "string option \<Rightarrow> bool" where
  "is_grpc_content_type content_type =
     (case content_type of
        Some val \<Rightarrow> val = ''application/grpc'' \<or> starts_with ''application/grpc+'' val
      | None \<Rightarrow> False)"

section \<open>Frames\<close>

definition from_be_bytes :: "char \<Rightarrow> char \<Rightarrow> char \<Rightarrow> char \<Rightarrow> u32" where
  "from_be_bytes a b c d =
     of_nat (((byte_val a * 256 + byte_val b) * 256 + byte_val c) * 256 + byte_val d)"

text \<open>One iteration of the loop: the frame at the offset and the offset after it.\<close>

definition grpc_frame_at :: "bytes \<Rightarrow> usize \<Rightarrow> usize \<Rightarrow> grpc_error + grpc_frame \<times> usize" where
  "grpc_frame_at body offset index =
     (if index \<ge> GRPC_MAX_FRAMES then Inl GrpcTooManyFrames
      else let rest = drop offset body
           in if length rest < 5 then Inl GrpcTruncated
              else let compressed = odd (byte_val (rest ! 0));
                       len = from_be_bytes (rest ! 1) (rest ! 2) (rest ! 3) (rest ! 4);
                       payload_start = offset + 5
                   in rbind (ok_or GrpcOverrun
                        (case usize_checked_add payload_start (unat len) of
                           Some payload_end \<Rightarrow> if payload_end \<le> length body then Some payload_end else None
                         | None \<Rightarrow> None)) (\<lambda>payload_end.
                      Inr (\<lparr>gf_index = index, gf_compressed = compressed, gf_length = len,
                            gf_payload = take (payload_end - payload_start) (drop payload_start body)\<rparr>,
                           payload_end)))"

lemma grpc_frame_at_advances: "grpc_frame_at body offset index = Inr (frame, next_offset) \<Longrightarrow> offset < next_offset"
  by (auto simp: grpc_frame_at_def Let_def rbind_Inr_iff ok_or_Inr_iff if_Inl_eq_Inr usize_checked_add_def
      split: option.splits if_splits)

function grpc_frames_from :: "bytes \<Rightarrow> usize \<Rightarrow> grpc_frame list \<Rightarrow> grpc_error + grpc_frame list \<times> usize" where
  "grpc_frames_from body offset frames =
     (if offset < length body
      then (case grpc_frame_at body offset (length frames) of
              Inl err \<Rightarrow> Inl err
            | Inr (frame, next_offset) \<Rightarrow> grpc_frames_from body next_offset (frames @ [frame]))
      else Inr (frames, offset))"
  by auto
termination
  by (relation "measure (\<lambda>(body, offset, frames). length body - offset)") (auto dest!: grpc_frame_at_advances)

declare grpc_frames_from.simps [simp del]

definition parse_grpc_frames :: "bytes \<Rightarrow> grpc_error + grpc_frame list" where
  "parse_grpc_frames body =
     (if length body > GRPC_MAX_BODY_BYTES then Inl GrpcTooLarge
      else rbind (grpc_frames_from body 0 []) (\<lambda>(frames, offset).
        if offset \<noteq> length body then Inl GrpcTrailingBytes else Inr frames))"

section \<open>Status\<close>

definition grpc_hex_value :: "char \<Rightarrow> nat option" where
  "grpc_hex_value c =
     (if is_ascii_digit c then Some (byte_val c - 48)
      else if byte_in 97 102 c then Some (byte_val c - 97 + 10)
      else if byte_in 65 70 c then Some (byte_val c - 65 + 10)
      else None)"

text \<open>The loop of \<^verbatim>\<open>decode_grpc_message_text\<close> over what is left of the bytes.\<close>

fun percent_decode :: "bytes \<Rightarrow> bytes" where
  "percent_decode [] = []"
| "percent_decode (c # s) =
     (if c = CHR ''%''
      then (case s of
              h # l # t \<Rightarrow>
                (case (grpc_hex_value h, grpc_hex_value l) of
                   (Some high, Some low) \<Rightarrow> char_of (high * 16 + low) # percent_decode t
                 | _ \<Rightarrow> c # percent_decode s)
            | _ \<Rightarrow> c # percent_decode s)
      else c # percent_decode s)"

text \<open>
  \<^verbatim>\<open>String::from_utf8_lossy\<close>: each maximal ill-formed subpart becomes one replacement character.
  The second byte of a sequence has a range of its own after some first bytes, as in \<open>utf8_valid\<close>.
\<close>

definition replacement_char :: bytes where
  "replacement_char = map char_of [239, 191, 189 :: nat]"

definition second_byte_ok :: "char \<Rightarrow> char \<Rightarrow> bool" where
  "second_byte_ok a b =
     (if byte_val a = 224 then byte_in 160 191 b
      else if byte_val a = 237 then byte_in 128 159 b
      else if byte_val a = 240 then byte_in 144 191 b
      else if byte_val a = 244 then byte_in 128 143 b
      else is_cont b)"

definition sequence_length :: "char \<Rightarrow> nat" where
  "sequence_length a =
     (if byte_in 0 127 a then 1 else if byte_in 194 223 a then 2
      else if byte_in 224 239 a then 3 else if byte_in 240 244 a then 4 else 0)"

text \<open>How many bytes after the first one continue the sequence: at most the ones it needs.\<close>

definition continuation_run :: "char \<Rightarrow> bytes \<Rightarrow> nat" where
  "continuation_run a s =
     (case s of
        [] \<Rightarrow> 0
      | b # t \<Rightarrow> if second_byte_ok a b
                 then 1 + length (takeWhile is_cont (take (sequence_length a - 2) t)) else 0)"

definition lossy_step :: "char \<Rightarrow> bytes \<Rightarrow> bytes \<times> nat" where
  "lossy_step a s =
     (let n = sequence_length a; k = (if n \<le> 1 then 0 else continuation_run a s)
      in (if n = Suc k then a # take k s else replacement_char, k))"

function utf8_lossy :: "bytes \<Rightarrow> string" where
  "utf8_lossy [] = []"
| "utf8_lossy (a # s) = fst (lossy_step a s) @ utf8_lossy (drop (snd (lossy_step a s)) s)"
  by pat_completeness simp_all
termination
  by (relation "measure length") (simp_all add: le_imp_less_Suc)

definition decode_grpc_message_text :: "string \<Rightarrow> string" where
  "decode_grpc_message_text raw = utf8_lossy (percent_decode raw)"

definition grpc_status_from_trailers :: "header_entry list \<Rightarrow> grpc_status option" where
  "grpc_status_from_trailers trailers =
     (case find (\<lambda>entry. eq_ignore_case (h_name entry) ''grpc-status'') (rev trailers) of
        None \<Rightarrow> None
      | Some entry \<Rightarrow>
          (case parse_uint (2 ^ 32) (trim (h_value entry)) of
             None \<Rightarrow> None
           | Some code \<Rightarrow>
               if code > 16 then None
               else Some \<lparr>gs_code = of_nat code,
                          gs_message = unwrap_or (map_option (\<lambda>entry. decode_grpc_message_text (h_value entry))
                            (find (\<lambda>entry. eq_ignore_case (h_name entry) ''grpc-message'') (rev trailers))) []\<rparr>))"

section \<open>Messages\<close>

record ('pool, 'desc, 'msg) proto_lib =
  pl_pool_decode :: "bytes \<Rightarrow> string + 'pool"
  pl_message_by_name :: "'pool \<Rightarrow> string \<Rightarrow> 'desc option"
  pl_message_decode :: "'desc \<Rightarrow> bytes \<Rightarrow> string + 'msg"
  pl_message_json :: "'msg \<Rightarrow> string + json"

definition decode_grpc_payload ::
  "('pool, 'desc, 'msg) proto_lib \<Rightarrow> bytes \<Rightarrow> bytes \<Rightarrow> string \<Rightarrow> grpc_error + json" where
  "decode_grpc_payload P payload descriptor_set message_name =
     (if length descriptor_set > GRPC_MAX_DESCRIPTOR_BYTES then Inl GrpcDescriptorTooLarge
      else if length payload > GRPC_MAX_BODY_BYTES then Inl GrpcTooLarge
      else rbind (map_err GrpcDescriptorInvalid (pl_pool_decode P descriptor_set)) (\<lambda>pool.
           rbind (ok_or (GrpcUnknownMessage message_name) (pl_message_by_name P pool message_name)) (\<lambda>descriptor.
           rbind (map_err GrpcDecode (pl_message_decode P descriptor payload)) (\<lambda>message.
           map_err GrpcJson (pl_message_json P message)))))"

definition grpc_message_view_of ::
  "('pool, 'desc, 'msg) proto_lib \<Rightarrow> (bytes \<times> string) option \<Rightarrow> grpc_frame \<Rightarrow> grpc_message_view" where
  "grpc_message_view_of P descriptor frame =
     (let decoded = (case (descriptor, gf_compressed frame) of
            (Some (descriptor_set, name), False) \<Rightarrow>
              (case decode_grpc_payload P (gf_payload frame) descriptor_set name of Inr v \<Rightarrow> Some v | Inl _ \<Rightarrow> None)
          | _ \<Rightarrow> None)
      in \<lparr>gm_index = gf_index frame, gm_compressed = gf_compressed frame, gm_length = gf_length frame,
          gm_decoded = decoded\<rparr>)"

definition grpc_view_of ::
  "('pool, 'desc, 'msg) proto_lib \<Rightarrow> bytes \<Rightarrow> header_entry list \<Rightarrow> (bytes \<times> string) option
     \<Rightarrow> grpc_error + grpc_view" where
  "grpc_view_of P body trailers descriptor =
     rbind (parse_grpc_frames body) (\<lambda>frames.
     Inr \<lparr>gv_messages = map (grpc_message_view_of P descriptor) frames,
          gv_status = grpc_status_from_trailers trailers\<rparr>)"


section \<open>The wire format\<close>

text \<open>The bytes of a length, and the bodies that are a sequence of frames numbered from \<open>i\<close>.\<close>

definition be_bytes :: "nat \<Rightarrow> bytes" where
  "be_bytes n = map char_of [n div 256 div 256 div 256, n div 256 div 256, n div 256, n]"

inductive framed :: "usize \<Rightarrow> bytes \<Rightarrow> grpc_frame list \<Rightarrow> bool" where
  framed_end: "framed i [] []"
| framed_frame: "length payload < 2 ^ 32 \<Longrightarrow> framed (Suc i) rest frames \<Longrightarrow>
    framed i (flag # be_bytes (length payload) @ payload @ rest)
      (\<lparr>gf_index = i, gf_compressed = odd (byte_val flag), gf_length = of_nat (length payload),
        gf_payload = payload\<rparr> # frames)"

inductive_cases framed_NilE: "framed i body []"
inductive_cases framed_ConsE: "framed i body (frame # frames)"

lemma byte_val_char_of_mod: "byte_val (char_of n) = n mod 256"
  by (simp add: byte_val_def)

lemma be_bytes_length [simp]: "length (be_bytes n) = 4"
  by (simp add: be_bytes_def)

lemma byte_val_le: "byte_val c \<le> 255"
  using byte_val_less [of c] by linarith

lemma u32_of_small: "n \<le> 4294967295 \<Longrightarrow> unat (of_nat n :: u32) = n"
  by (simp add: unat_of_nat take_bit_nat_eq_self)

lemma unat_from_be_bytes:
  "unat (from_be_bytes a b c d)
     = ((byte_val a * 256 + byte_val b) * 256 + byte_val c) * 256 + byte_val d"
proof -
  have step: "m * 256 + byte_val x \<le> n" if "m \<le> k" "k * 256 + 255 \<le> n" for m k n x
    using that byte_val_le [of x] by linarith
  have "((byte_val a * 256 + byte_val b) * 256 + byte_val c) * 256 + byte_val d \<le> 4294967295"
    by (rule step [where k = 16777215], rule step [where k = 65535], rule step [where k = 255])
      (simp_all add: byte_val_le)
  then show ?thesis unfolding from_be_bytes_def by (rule u32_of_small)
qed

lemma char_of_byte: "n mod 256 = byte_val c \<Longrightarrow> char_of n = c"
  by (metis byte_val_def char_of_mod_256 char_of_char)

lemma base_256: "(m * 256 + byte_val c) div 256 = m" "(m * 256 + byte_val c) mod 256 = byte_val c"
  using byte_val_less [of c] by simp_all

lemma be_bytes_from: "be_bytes (unat (from_be_bytes a b c d)) = [a, b, c, d]"
  unfolding be_bytes_def unat_from_be_bytes list.map base_256(1)
  by (simp only: base_256(2) char_of_byte [OF base_256(2)] list.inject char_of_byte [OF mod_less [OF byte_val_less]])

lemma from_be_bytes_of:
  assumes "n < 2 ^ 32"
  obtains a b c d where "be_bytes n = [a, b, c, d]" and "from_be_bytes a b c d = of_nat n"
proof -
  have "n div 256 div 256 div 256 < 256" using assms by (simp add: div_mult2_eq [symmetric])
  then have "((n div 256 div 256 div 256 mod 256 * 256 + n div 256 div 256 mod 256) * 256 + n div 256 mod 256) * 256
      + n mod 256 = n"
    by (simp only: mod_less div_mult_mod_eq)
  then have "from_be_bytes (char_of (n div 256 div 256 div 256)) (char_of (n div 256 div 256)) (char_of (n div 256))
      (char_of n) = of_nat n"
    unfolding from_be_bytes_def byte_val_char_of_mod by (rule arg_cong)
  with that show thesis by (simp add: be_bytes_def)
qed

section \<open>The parser accepts the wire format\<close>

lemma grpc_frame_at_sound:
  assumes "grpc_frame_at body offset i = Inr (frame, next_offset)" and "offset < length body"
  obtains flag payload where
    "frame = \<lparr>gf_index = i, gf_compressed = odd (byte_val flag), gf_length = of_nat (length payload), gf_payload = payload\<rparr>"
    and "length payload < 2 ^ 32" and "drop offset body = flag # be_bytes (length payload) @ payload @ drop next_offset body"
    and "next_offset \<le> length body" and "i < GRPC_MAX_FRAMES"
proof -
  from assms have five: "5 \<le> length (drop offset body)"
    by (auto simp: grpc_frame_at_def Let_def if_Inl_eq_Inr)
  then obtain flag a b c d rest where d: "drop offset body = flag # a # b # c # d # rest"
    by (auto simp: numeral_eq_Suc Suc_le_length_iff simp del: length_drop)
  let ?n = "unat (from_be_bytes a b c d)"
  have rest: "rest = drop (offset + 5) body" using arg_cong [OF d, of "drop 5"] by (simp add: add.commute)
  have "unat (from_be_bytes a b c d) < 2 ^ 32"
    using unsigned_less [of "from_be_bytes a b c d", where ?'a = nat] by simp
  have at: "grpc_frame_at body offset i =
    (if GRPC_MAX_FRAMES \<le> i then Inl GrpcTooManyFrames
     else rbind (ok_or GrpcOverrun (case usize_checked_add (offset + 5) ?n of
            Some payload_end \<Rightarrow> if payload_end \<le> length body then Some payload_end else None | None \<Rightarrow> None))
          (\<lambda>e. Inr (\<lparr>gf_index = i, gf_compressed = odd (byte_val flag), gf_length = from_be_bytes a b c d,
                     gf_payload = take (e - (offset + 5)) rest\<rparr>, e)))"
    unfolding grpc_frame_at_def Let_def d rest [symmetric] by simp
  have i: "i < GRPC_MAX_FRAMES" using assms(1) unfolding at by (cases "GRPC_MAX_FRAMES \<le> i") simp_all
  obtain e where e: "usize_checked_add (offset + 5) ?n = Some e" "e \<le> length body"
    and eq: "(\<lparr>gf_index = i, gf_compressed = odd (byte_val flag), gf_length = from_be_bytes a b c d,
      gf_payload = take (e - (offset + 5)) rest\<rparr>, e) = (frame, next_offset)"
  proof (cases "usize_checked_add (offset + 5) ?n")
    case None
    with assms(1) i show thesis unfolding at by (simp add: rbind_def ok_or_def)
  next
    case (Some e)
    with assms(1) i show thesis
      by (intro that [OF Some]) (auto simp: at rbind_def ok_or_def split: if_splits)
  qed
  have sum: "e = offset + 5 + ?n" using e(1) by (simp add: usize_checked_add_def split: if_splits)
  with eq have n: "next_offset = offset + 5 + ?n" "next_offset \<le> length body"
    and f: "frame = \<lparr>gf_index = i, gf_compressed = odd (byte_val flag), gf_length = from_be_bytes a b c d,
      gf_payload = take ?n rest\<rparr>"
    using e(2) by auto
  from n(1,2) rest have len: "length (take ?n rest) = ?n" by auto
  have "drop next_offset body = drop ?n rest" by (simp add: n rest add.commute add.left_commute)
  then have "drop offset body = flag # be_bytes ?n @ take ?n rest @ drop next_offset body"
    using d by (simp add: be_bytes_from)
  moreover have "?n < 2 ^ 32" using unsigned_less [of "from_be_bytes a b c d", where ?'a = nat] by simp
  ultimately show thesis using that [of flag "take ?n rest", unfolded len] f n i by simp
qed

lemma grpc_frame_at_complete:
  assumes d: "drop offset body = flag # be_bytes (length payload) @ payload @ rest"
    and small: "length payload < 2 ^ 32" and body: "length body \<le> GRPC_MAX_BODY_BYTES" and i: "i < GRPC_MAX_FRAMES"
  shows "grpc_frame_at body offset i =
    Inr (\<lparr>gf_index = i, gf_compressed = odd (byte_val flag), gf_length = of_nat (length payload), gf_payload = payload\<rparr>,
         offset + 5 + length payload)"
proof -
  obtain a b c e where be: "be_bytes (length payload) = [a, b, c, e]"
    and len: "from_be_bytes a b c e = of_nat (length payload)"
    using small by (rule from_be_bytes_of)
  have n: "unat (of_nat (length payload) :: u32) = length payload"
    using small by (simp add: unat_of_nat take_bit_nat_eq_self)
  have "length (drop offset body) = 5 + length payload + length rest" by (simp add: d)
  then have fits: "offset + 5 + length payload \<le> length body" by simp
  then have add: "usize_checked_add (offset + 5) (length payload) = Some (offset + 5 + length payload)"
    using body by (simp add: usize_checked_add_def GRPC_MAX_BODY_BYTES_def)
  have "drop (offset + 5) body = payload @ rest"
    using arg_cong [OF d, of "drop 5"] by (simp add: be add.commute)
  then show ?thesis
    using i fits by (simp add: grpc_frame_at_def Let_def d be len n add rbind_def ok_or_def)
qed

lemma grpc_frames_sound:
  assumes "grpc_frames_from body offset frames = Inr (result, e)"
    and "offset \<le> length body" and "length frames \<le> GRPC_MAX_FRAMES"
  shows "e = length body \<and> length result \<le> GRPC_MAX_FRAMES
    \<and> (\<exists>new. result = frames @ new \<and> framed (length frames) (drop offset body) new)"
  using assms
proof (induction body offset frames rule: grpc_frames_from.induct)
  case (1 body offset frames)
  show ?case
  proof (cases "offset < length body")
    case True
    with 1(2) obtain frame next_offset where at: "grpc_frame_at body offset (length frames) = Inr (frame, next_offset)"
      and more: "grpc_frames_from body next_offset (frames @ [frame]) = Inr (result, e)"
      by (subst (asm) grpc_frames_from.simps) (auto split: sum.splits)
    from at True obtain flag payload where frame: "frame = \<lparr>gf_index = length frames,
        gf_compressed = odd (byte_val flag), gf_length = of_nat (length payload), gf_payload = payload\<rparr>"
      and small: "length payload < 2 ^ 32"
      and d: "drop offset body = flag # be_bytes (length payload) @ payload @ drop next_offset body"
      and bounds: "next_offset \<le> length body" "length frames < GRPC_MAX_FRAMES"
      by (rule grpc_frame_at_sound)
    from 1(1) [OF True at refl more bounds(1)] bounds(2)
    obtain new where e: "e = length body" "length result \<le> GRPC_MAX_FRAMES" "result = frames @ frame # new"
      and new: "framed (Suc (length frames)) (drop next_offset body) new"
      by auto
    have "framed (length frames) (drop offset body) (frame # new)"
      unfolding d frame using small new by (rule framed_frame)
    with e show ?thesis by auto
  next
    case False
    with 1 have "result = frames" "e = offset" "drop offset body = []"
      by (simp_all add: grpc_frames_from.simps)
    with 1 False show ?thesis by (auto intro: framed_end)
  qed
qed

lemma grpc_frames_complete:
  assumes "framed i part new" and "part = drop offset body" and "i = length frames" and "offset \<le> length body"
    and "length body \<le> GRPC_MAX_BODY_BYTES" and "length frames + length new \<le> GRPC_MAX_FRAMES"
  shows "grpc_frames_from body offset frames = Inr (frames @ new, length body)"
  using assms
proof (induction arbitrary: offset frames rule: framed.induct)
  case (framed_frame payload i rest new flag)
  let ?frame = "\<lparr>gf_index = i, gf_compressed = odd (byte_val flag), gf_length = of_nat (length payload),
    gf_payload = payload\<rparr>"
  let ?next = "offset + 5 + length payload"
  have d: "drop offset body = flag # be_bytes (length payload) @ payload @ rest"
    using framed_frame.prems(1) by simp
  have at: "grpc_frame_at body offset (length frames) = Inr (?frame, ?next)"
    using grpc_frame_at_complete [OF d framed_frame.hyps(1)] framed_frame.prems by simp
  have "length (drop offset body) = 5 + length payload + length rest" by (simp add: d)
  then have inside: "offset < length body" "?next \<le> length body" by auto
  have "rest = drop ?next body"
    using arg_cong [OF arg_cong [OF d, of "drop 5"], of "drop (length payload)"]
    by (simp add: be_bytes_def add.commute add.left_commute)
  then have "grpc_frames_from body ?next (frames @ [?frame]) = Inr ((frames @ [?frame]) @ new, length body)"
    using framed_frame.prems inside(2) by (intro framed_frame.IH) auto
  with at inside(1) show ?case by (subst grpc_frames_from.simps) simp
qed (simp add: grpc_frames_from.simps)

text \<open>
  Property C25: The parser accepts exactly the bodies of at most 16 MiB that are a sequence of at most
  4096 frames, and returns these frames: numbered in order, each with bit 0 of its flag, its length
  and its payload. Nothing of an accepted body is left over.
\<close>

theorem grpc_frames_accepted_iff:
  "parse_grpc_frames body = Inr frames \<longleftrightarrow>
     length body \<le> GRPC_MAX_BODY_BYTES \<and> length frames \<le> GRPC_MAX_FRAMES \<and> framed 0 body frames"
proof
  assume parsed: "parse_grpc_frames body = Inr frames"
  then obtain offset where "length body \<le> GRPC_MAX_BODY_BYTES" and "grpc_frames_from body 0 [] = Inr (frames, offset)"
    by (auto simp: parse_grpc_frames_def if_Inl_eq_Inr rbind_Inr_iff)
  with grpc_frames_sound [OF this(2)]
  show "length body \<le> GRPC_MAX_BODY_BYTES \<and> length frames \<le> GRPC_MAX_FRAMES \<and> framed 0 body frames" by simp
next
  assume "length body \<le> GRPC_MAX_BODY_BYTES \<and> length frames \<le> GRPC_MAX_FRAMES \<and> framed 0 body frames"
  with grpc_frames_complete [of 0 body frames 0 body "[]"]
  show "parse_grpc_frames body = Inr frames" by (simp add: parse_grpc_frames_def rbind_def)
qed

text \<open>The error for bytes after the last frame is never returned: they are a truncated frame.\<close>

lemma grpc_trailing_unreachable: "parse_grpc_frames body \<noteq> Inl GrpcTrailingBytes"
proof -
  have "grpc_frame_at body offset i \<noteq> Inl GrpcTrailingBytes" for offset i
    by (simp add: grpc_frame_at_def Let_def rbind_def ok_or_def split: option.splits sum.splits)
  then have "grpc_frames_from body offset frames \<noteq> Inl GrpcTrailingBytes" for offset frames
    by (induction body offset frames rule: grpc_frames_from.induct)
      (subst grpc_frames_from.simps, auto split: sum.splits)
  then show ?thesis
    using grpc_frames_sound [of body 0 "[]"]
    by (auto simp: parse_grpc_frames_def rbind_def split: sum.splits)
qed

section \<open>The status of the trailers\<close>

lemma lossy_step_valid:
  assumes "utf8_valid (a # s)"
  shows "lossy_step a s = (a # take (sequence_length a - 1) s, sequence_length a - 1)
    \<and> utf8_valid (drop (sequence_length a - 1) s)"
proof -
  consider "byte_in 0 127 a" | "byte_in 194 223 a" | "byte_in 224 239 a" | "byte_in 240 244 a"
    using assms by (auto split: if_splits)
  then show ?thesis
  proof cases
    case 1
    with assms show ?thesis by (simp add: lossy_step_def sequence_length_def)
  next
    case 2
    then have "sequence_length a = 2" by (simp add: sequence_length_def byte_in_def)
    with 2 assms show ?thesis
      by (auto simp: lossy_step_def continuation_run_def second_byte_ok_def byte_in_def split: list.splits)
  next
    case 3
    then have "sequence_length a = 3" by (simp add: sequence_length_def byte_in_def)
    with 3 assms show ?thesis
      by (auto simp: lossy_step_def continuation_run_def second_byte_ok_def byte_in_def numeral_eq_Suc
          split: list.splits if_splits)
  next
    case 4
    then have "sequence_length a = 4" by (simp add: sequence_length_def byte_in_def)
    with 4 assms show ?thesis
      by (auto simp: lossy_step_def continuation_run_def second_byte_ok_def byte_in_def numeral_eq_Suc
          split: list.splits if_splits)
  qed
qed

lemma utf8_lossy_valid: "utf8_valid s \<Longrightarrow> utf8_lossy s = s"
proof (induction s rule: utf8_lossy.induct)
  case (2 a s)
  from lossy_step_valid [OF 2(2)] 2(1) show ?case by simp
qed simp

text \<open>The encoding the gRPC specification prescribes for the message.\<close>

definition percent_encode :: "bytes \<Rightarrow> string" where
  "percent_encode s = concat (map (\<lambda>c. if byte_in 32 126 c \<and> c \<noteq> CHR ''%'' then [c]
     else [CHR ''%'', hex_digit (byte_val c div 16), hex_digit (byte_val c mod 16)]) s)"

lemma grpc_hex_value_hex_digit: "n < 16 \<Longrightarrow> grpc_hex_value (hex_digit n) = Some n"
proof -
  assume "n < 16"
  then have "n \<in> set [0..<16]" by simp
  moreover have "\<forall>n\<in>set [0..<16]. grpc_hex_value (hex_digit n) = Some n" by code_simp
  ultimately show ?thesis by blast
qed

lemma percent_decode_encode: "percent_decode (percent_encode s) = s"
proof (induction s)
  case (Cons c s)
  have "char_of (byte_val c div 16 * 16 + byte_val c mod 16) = c"
    by (simp add: byte_val_def)
  moreover have "byte_val c div 16 < 16" using byte_val_less [of c] by linarith
  ultimately show ?case
    using Cons by (simp add: percent_encode_def grpc_hex_value_hex_digit)
qed (simp add: percent_encode_def)

lemma visible_to_dec: "visible (to_dec n)"
  unfolding visible_def
proof
  fix c assume "c \<in> set (to_dec n)"
  then have "is_ascii_digit c" by (rule to_dec_digits)
  then show "byte_in 33 127 c" by (simp add: is_ascii_digit_def byte_in_def)
qed

text \<open>
  The status a server sends is the status the view shows: the last status and message
  fields of the trailers are read, whatever comes before them, and a message encoded as the
  specification says is decoded to itself. A code above 16 gives no status.
\<close>

theorem grpc_status_round_trip:
  assumes "utf8_valid message"
  shows "grpc_status_from_trailers
      (before @ [\<lparr>h_name = ''grpc-status'', h_value = to_dec code\<rparr>,
                 \<lparr>h_name = ''grpc-message'', h_value = percent_encode message\<rparr>])
    = (if code \<le> 16 then Some \<lparr>gs_code = of_nat code, gs_message = message\<rparr> else None)"
proof -
  have "\<not> eq_ignore_case ''grpc-message'' ''grpc-status''" by code_simp
  moreover have "eq_ignore_case ''grpc-message'' ''grpc-message''" "eq_ignore_case ''grpc-status'' ''grpc-status''"
    by code_simp+
  moreover have "trim (to_dec code) = to_dec code" by (rule trim_visible) (rule visible_to_dec)
  moreover have "parse_uint 4294967296 (to_dec code) = (if code < 4294967296 then Some code else None)"
    by (simp add: parse_uint_def strip_plus_digits to_dec_digits dec_value_to_dec unwrap_or_def)
  moreover have "decode_grpc_message_text (percent_encode message) = message"
    using assms by (simp add: decode_grpc_message_text_def percent_decode_encode utf8_lossy_valid)
  ultimately show ?thesis
    by (simp add: grpc_status_from_trailers_def unwrap_or_def)
qed

theorem grpc_status_round_trip_witness:
  "grpc_status_from_trailers
      [\<lparr>h_name = ''Grpc-Status'', h_value = ''0''\<rparr>, \<lparr>h_name = ''grpc-status'', h_value = to_dec 5\<rparr>,
       \<lparr>h_name = ''grpc-message'', h_value = percent_encode ''50% gone''\<rparr>]
    = Some \<lparr>gs_code = 5, gs_message = ''50% gone''\<rparr>"
proof -
  have "utf8_valid ''50% gone''" by code_simp
  from grpc_status_round_trip [OF this, of "[\<lparr>h_name = ''Grpc-Status'', h_value = ''0''\<rparr>]" 5]
  show ?thesis by (simp only: append_Cons append_Nil) simp
qed

end
