(* ===== verification/Fetch_Errors.thy ===== *)
theory Fetch_Errors
  imports Flow_Model Proxy_Headers
begin

text \<open>
  How a failure of the HTTP client becomes an error of a flow,
  \<^verbatim>\<open>crates/eggreplay-http/src/error_classify.rs\<close>, and the two small checks of HTTP/2 traffic of
  \<^verbatim>\<open>crates/eggreplay-http/src/h2.rs\<close>.

  The error type belongs to the client library: its constructors here are the variants the tables
  name, and \<open>FeUnlisted\<close> stands for all the others, which only the wildcard arms see. The kind of a
  custom transport error is what the library's accessor returns, and the rendering of an error is a
  parameter.
\<close>

datatype dial_error_kind = DialConnection | DialTimeout | DialAuthentication | DialRejected | DialOther

datatype fetch_error =
    FeTls | FeCertificateVerification | FeHostnameVerification | FeTlsConfig | FeCaBundle
  | FeTimeout | FeTransportIoTimeout
  | FeBody | FeDecodedBodyTooLarge | FeDecompression | FeDecompressionRatioExceeded
  | FeProtocol | FeHyper | FeHyperClient
  | FeConnect | FeIo | FePool
  | FeCustomTransport "dial_error_kind option"
  | FeUnlisted string

fun custom_transport_kind :: "fetch_error \<Rightarrow> dial_error_kind option" where
  "custom_transport_kind (FeCustomTransport kind) = kind"
| "custom_transport_kind _ = None"

section \<open>The tables\<close>

definition classify_dial_error :: "fetch_error \<Rightarrow> (error_category \<times> error_phase) option" where
  "classify_dial_error err =
     (case custom_transport_kind err of
        None \<Rightarrow> None
      | Some kind \<Rightarrow> Some (case kind of
            DialConnection \<Rightarrow> (Cat_Unreachable, Phase_Connect)
          | DialTimeout \<Rightarrow> (Cat_Timeout, Phase_Timeout)
          | DialAuthentication \<Rightarrow> (Cat_Policy, Phase_Connect)
          | DialRejected \<Rightarrow> (Cat_Policy, Phase_Policy)
          | DialOther \<Rightarrow> (Cat_Other, Phase_Other)))"

text \<open>\<open>None\<close> is the panic of \<^verbatim>\<open>FlowError::new\<close> on the rendering of the error.\<close>

definition map_fetch_error :: "(fetch_error \<Rightarrow> string) \<Rightarrow> fetch_error \<Rightarrow> flow_error option" where
  "map_fetch_error display err =
     (let (category, phase) =
        (case err of
           FeTls \<Rightarrow> (Cat_Tls, Phase_Tls)
         | FeCertificateVerification \<Rightarrow> (Cat_Tls, Phase_Tls)
         | FeHostnameVerification \<Rightarrow> (Cat_Tls, Phase_Tls)
         | FeTlsConfig \<Rightarrow> (Cat_Tls, Phase_Tls)
         | FeCaBundle \<Rightarrow> (Cat_Tls, Phase_Tls)
         | FeTimeout \<Rightarrow> (Cat_Timeout, Phase_Timeout)
         | FeTransportIoTimeout \<Rightarrow> (Cat_Timeout, Phase_Timeout)
         | FeBody \<Rightarrow> (Cat_Other, Phase_Body)
         | FeDecodedBodyTooLarge \<Rightarrow> (Cat_Other, Phase_Body)
         | FeDecompression \<Rightarrow> (Cat_Other, Phase_Body)
         | FeDecompressionRatioExceeded \<Rightarrow> (Cat_Other, Phase_Body)
         | FeProtocol \<Rightarrow> (Cat_Protocol, Phase_Headers)
         | FeHyper \<Rightarrow> (Cat_Protocol, Phase_Headers)
         | FeHyperClient \<Rightarrow> (Cat_Protocol, Phase_Headers)
         | FeConnect \<Rightarrow> (Cat_Unreachable, Phase_Connect)
         | FeIo \<Rightarrow> (Cat_Unreachable, Phase_Connect)
         | FePool \<Rightarrow> (Cat_Unreachable, Phase_Connect)
         | FeCustomTransport _ \<Rightarrow>
             (case classify_dial_error err of Some class \<Rightarrow> class | None \<Rightarrow> (Cat_Other, Phase_Other))
         | _ \<Rightarrow> (Cat_Other, Phase_Other))
      in flow_error_new category phase (display err))"

definition classify_body_error :: "fetch_error \<Rightarrow> error_category \<times> error_phase" where
  "classify_body_error err =
     (case err of
        FeTimeout \<Rightarrow> (Cat_Timeout, Phase_Timeout)
      | FeTransportIoTimeout \<Rightarrow> (Cat_Timeout, Phase_Timeout)
      | FeTls \<Rightarrow> (Cat_Tls, Phase_Body)
      | FeCertificateVerification \<Rightarrow> (Cat_Tls, Phase_Body)
      | FeHostnameVerification \<Rightarrow> (Cat_Tls, Phase_Body)
      | FeTlsConfig \<Rightarrow> (Cat_Tls, Phase_Body)
      | FeCaBundle \<Rightarrow> (Cat_Tls, Phase_Body)
      | FeCustomTransport _ \<Rightarrow>
          (let (category, _) = unwrap_or (classify_dial_error err) (Cat_Other, Phase_Other)
           in (category, Phase_Body))
      | FeBody \<Rightarrow> (Cat_Other, Phase_Body)
      | FeDecodedBodyTooLarge \<Rightarrow> (Cat_Other, Phase_Body)
      | FeDecompression \<Rightarrow> (Cat_Other, Phase_Body)
      | FeDecompressionRatioExceeded \<Rightarrow> (Cat_Other, Phase_Body)
      | FeProtocol \<Rightarrow> (Cat_Protocol, Phase_Body)
      | FeHyper \<Rightarrow> (Cat_Protocol, Phase_Body)
      | FeHyperClient \<Rightarrow> (Cat_Protocol, Phase_Body)
      | FeConnect \<Rightarrow> (Cat_Unreachable, Phase_Body)
      | FeIo \<Rightarrow> (Cat_Unreachable, Phase_Body)
      | FePool \<Rightarrow> (Cat_Unreachable, Phase_Body)
      | _ \<Rightarrow> (Cat_Other, Phase_Body))"

definition body_error_event_fields :: "fetch_error \<Rightarrow> string \<times> string" where
  "body_error_event_fields err =
     (let (category, phase) = classify_body_error err in (category_as_str category, phase_as_str phase))"

section \<open>HTTP/2\<close>

datatype http_version = Http09 | Http10 | Http11 | Http2 | Http3

definition negotiated_version_annotation :: "http_version \<Rightarrow> (string \<times> string) option" where
  "negotiated_version_annotation version =
     (case version of Http2 \<Rightarrow> Some (''transport'', ''http-version:h2'') | _ \<Rightarrow> None)"

definition H2_FORBIDDEN_HEADERS :: "string list" where
  "H2_FORBIDDEN_HEADERS =
     [''connection'', ''keep-alive'', ''proxy-connection'', ''transfer-encoding'', ''upgrade'']"

datatype h2_rejection = H2Forbidden string | H2TeNotTrailers

definition check_h2_headers :: "(bytes \<Rightarrow> string option) \<Rightarrow> header_entries \<Rightarrow> h2_rejection + unit" where
  "check_h2_headers to_str headers =
     rbind (check_all (\<lambda>forbidden.
              if map_of headers forbidden \<noteq> None then Inl (H2Forbidden forbidden) else Inr ()) H2_FORBIDDEN_HEADERS) (\<lambda>_.
     check_all (\<lambda>val.
       let trailers_only = list_all (\<lambda>token. eq_ignore_case token ''trailers'')
             (map trim (split_on CHR '','' (unwrap_or (to_str val) [])))
       in if \<not> trailers_only then Inl H2TeNotTrailers else Inr ()) (hm_get_all headers ''te''))"

section \<open>What the tables agree on\<close>

lemma map_fetch_error_new:
  obtains phase where "map_fetch_error display err
    = flow_error_new (fst (classify_body_error err)) phase (display err)"
proof (cases err)
  case (FeCustomTransport kind)
  show thesis
  proof (cases kind)
    case None
    with FeCustomTransport show thesis
      by (intro that) (simp add: map_fetch_error_def classify_body_error_def classify_dial_error_def unwrap_or_def)
  next
    case (Some k)
    with FeCustomTransport show thesis
      by (cases k; intro that)
        (simp_all add: map_fetch_error_def classify_body_error_def classify_dial_error_def unwrap_or_def)
  qed
qed (auto simp: map_fetch_error_def classify_body_error_def intro: that)

lemma flow_error_new_category: "flow_error_new c p m = Some e \<Longrightarrow> fe_category e = c \<and> fe_phase e = p"
  by (auto simp: flow_error_new_def split: option.splits)

lemma classify_body_phase:
  "snd (classify_body_error err) = (if err = FeTimeout \<or> err = FeTransportIoTimeout then Phase_Timeout else Phase_Body)"
  by (cases err) (auto simp: classify_body_error_def split: prod.splits)

text \<open>
  One failure is classified the same wherever it is observed: the error a flow records for
  it as the outcome of the request has the category that a timeline records for it in the middle of
  a body. There the phase is the body, except for a deadline, and the two strings satisfy the limits
  the timeline's validator puts on them.
\<close>

theorem failures_are_classified_alike:
  "(case map_fetch_error display err of
      None \<Rightarrow> length (display err) > 512
    | Some flow_err \<Rightarrow> fe_category flow_err = fst (classify_body_error err))
   \<and> snd (classify_body_error err)
       = (if err = FeTimeout \<or> err = FeTransportIoTimeout then Phase_Timeout else Phase_Body)
   \<and> length (fst (body_error_event_fields err)) \<le> 64 \<and> length (snd (body_error_event_fields err)) \<le> 64"
proof -
  obtain phase where "map_fetch_error display err = flow_error_new (fst (classify_body_error err)) phase (display err)"
    by (rule map_fetch_error_new)
  moreover have "length (display err) > 512" if "flow_error_new c p (display err) = None" for c p
    using that by (auto simp: flow_error_new_def split: if_splits option.splits)
  ultimately show ?thesis
    by (auto simp: classify_body_phase body_error_event_fields_def category_as_str_length phase_as_str_length
        dest: flow_error_new_category split: option.splits prod.splits)
qed

text \<open>
  The request headers that pass the HTTP/2 check are those without a connection-specific
  header whose \<^verbatim>\<open>te\<close> fields say \<^verbatim>\<open>trailers\<close> and nothing else.
\<close>

theorem h2_headers_accepted_iff:
  "check_h2_headers to_str headers = Inr () \<longleftrightarrow>
     (\<forall>name\<in>set H2_FORBIDDEN_HEADERS. name \<notin> fst ` set headers)
     \<and> (\<forall>val\<in>set (hm_get_all headers ''te''). \<forall>token\<in>set (split_on CHR '','' (unwrap_or (to_str val) [])).
          eq_ignore_case (trim token) ''trailers'')"
  by (auto simp: check_h2_headers_def rbind_Inr_iff check_all_Inr_iff if_Inl_eq_Inr list_all_iff map_of_eq_None_iff
      Let_def image_image)

end
