(* ===== verification/Record_Capture.thy ===== *)
theory Record_Capture
  imports Redaction Streams Fetch_Errors Store_Recording
begin

text \<open>
  What the recording client observes of one exchange, \<^verbatim>\<open>crates/eggreplay-http/src/recording.rs\<close>:
  the conversion of a request head and of header maps, the redaction of a staged body, the stream
  events of a body and the tee that feeds a body to the client and to the store at once.

  A header map and the \<^verbatim>\<open>to_str\<close> of its values are those of \<open>Proxy_Headers\<close>. The parts of a
  \<^verbatim>\<open>http::Uri\<close> are a record of what its accessors return. A clock reading is an argument of the
  operation that takes it. Locks are never poisoned here.
\<close>

section \<open>Errors\<close>

text \<open>
  The cause of \<^verbatim>\<open>HttpError::Body\<close>, which is a message in the code, is kept as the error it was
  rendered from. \<open>HePanic\<close> is not an error of the code: it is the panic of \<^verbatim>\<open>FlowError::new\<close>.
\<close>

datatype body_failure =
    BfMessage string | BfIo io_error | BfStore store_error | BfRedaction redaction_error

datatype http_error = HeConversion string | HeBody body_failure | HeStore store_error | HePanic

section \<open>Heads\<close>

record http_uri =
  uri_scheme :: "string option"
  uri_authority :: "string option"
  uri_path :: string
  uri_query :: "string option"

record recorded_request =
  rr_request :: http_request
  rr_lossy :: bool

definition hex_bytes :: "bytes \<Rightarrow> string" where
  "hex_bytes b = concat (map (\<lambda>c. [hex_digit (byte_val c div 16), hex_digit (byte_val c mod 16)]) b)"

definition entry_of :: "(bytes \<Rightarrow> string option) \<Rightarrow> string \<times> bytes \<Rightarrow> header_entry" where
  "entry_of to_str p =
     \<lparr>h_name = to_lower (fst p), h_value = (case to_str (snd p) of Some v \<Rightarrow> v | None \<Rightarrow> hex_bytes (snd p))\<rparr>"

definition recorded_entries :: "(bytes \<Rightarrow> string option) \<Rightarrow> header_entries \<Rightarrow> header_entry list \<times> bool" where
  "recorded_entries to_str headers =
     (map (entry_of to_str) (flatten headers), list_ex (\<lambda>p. to_str (snd p) = None) (flatten headers))"

definition content_type :: "(bytes \<Rightarrow> string option) \<Rightarrow> header_entries \<Rightarrow> string option" where
  "content_type to_str headers =
     map_option (\<lambda>val. to_lower (trim (hd (split_on CHR '';'' val))))
       (Option.bind (case hm_get_all headers ''content-type'' of [] \<Rightarrow> None | v # _ \<Rightarrow> Some v) to_str)"

definition is_json_content_type :: "string option \<Rightarrow> bool" where
  "is_json_content_type ct =
     (case ct of Some val \<Rightarrow> val = ''application/json'' \<or> ends_with ''+json'' val | None \<Rightarrow> False)"

definition is_form_content_type :: "string option \<Rightarrow> bool" where
  "is_form_content_type ct \<longleftrightarrow> ct = Some ''application/x-www-form-urlencoded''"

text \<open>\<^verbatim>\<open>raw_authority.rsplit('@').next()\<close>: what follows the last at sign.\<close>

definition request_head ::
  "ext_lib \<Rightarrow> (bytes \<Rightarrow> string option) \<Rightarrow> string \<Rightarrow> http_uri \<Rightarrow> header_entries \<Rightarrow> http_error + recorded_request" where
  "request_head X to_str request_method uri headers =
     rbind (ok_or (HeConversion ''request URI has no scheme'') (uri_scheme uri)) (\<lambda>scheme.
     rbind (ok_or (HeConversion ''request URI has no authority'') (uri_authority uri)) (\<lambda>raw_authority.
     let authority = last (split_on CHR ''@'' raw_authority);
         query = (case uri_query uri of
             None \<Rightarrow> []
           | Some val \<Rightarrow> map (\<lambda>(k, v). \<lparr>q_key = k, q_value = v\<rparr>) (x_form_parse X val));
         (headers, lossy) = recorded_entries to_str headers
     in Inr \<lparr>rr_request = \<lparr>req_method = request_method, req_scheme = scheme, req_authority = authority,
               req_path = uri_path uri, req_query = query, req_headers = headers,
               req_body = BodyAbsent, req_trailers = []\<rparr>,
             rr_lossy = lossy\<rparr>))"

section \<open>Body redaction\<close>

definition transform_body ::
  "ext_lib \<Rightarrow> bytes \<Rightarrow> string option \<Rightarrow> redaction_config \<Rightarrow> string \<Rightarrow> bool
     \<Rightarrow> http_error + bytes \<times> redaction_marker list" where
  "transform_body X original ct config profile is_response =
     (if original = [] then Inr ([], [])
      else if rc_json_paths config \<noteq> [] \<and> is_json_content_type ct then
        rbind (map_err (\<lambda>e. HeBody (BfRedaction e)) (apply_json_redaction X original (rc_json_paths config)))
          (\<lambda>(redacted, _). Inr (redacted, push_body_markers [] (rc_json_paths config) profile is_response))
      else if rc_query_keys config \<noteq> [] \<and> is_form_content_type ct then
        rbind (map_err (\<lambda>e. HeBody (BfRedaction e)) (apply_form_redaction X original (rc_query_keys config)))
          (\<lambda>(redacted, _). Inr (redacted,
             map (\<lambda>key. \<lparr>m_field = (if is_response then ''response.'' else ''request.'') @ ''body.form:'' @ key,
                         m_profile = profile\<rparr>) (rc_query_keys config)))
      else if rc_json_paths config \<noteq> [] then
        Inl (HeBody (BfMessage ''body redaction requested but media type unsupported; failing closed''))
      else Inr (original, []))"

section \<open>Stream events\<close>

definition MAX_EVENTS_PER_DIRECTION :: usize where
  "MAX_EVENTS_PER_DIRECTION = MAX_STREAM_EVENTS_PER_FLOW div 2"

definition elapsed_ns :: "nat \<Rightarrow> u64" where
  "elapsed_ns nanos = of_nat (min nanos (2 ^ 64 - 1))"

text \<open>\<open>merge_data\<close> is the merge of a data event into the last one, where they touch.\<close>

definition merge_data :: "stream_event list \<Rightarrow> stream_event \<Rightarrow> stream_event list option" where
  "merge_data events event =
     (if events = [] then None
      else case (se_event (last events), se_event event) of
             (SData start covered, SData offset len) \<Rightarrow>
               if sat_add start covered = offset
               then Some (butlast events @ [(last events)\<lparr>se_event := SData start (sat_add covered len)\<rparr>])
               else None
           | _ \<Rightarrow> None)"

definition is_empty_data :: "stream_event \<Rightarrow> bool" where
  "is_empty_data event = (case se_event event of SData _ len \<Rightarrow> len = 0 | _ \<Rightarrow> False)"

definition push_stream_event :: "stream_event list \<Rightarrow> stream_event \<Rightarrow> string + stream_event list" where
  "push_stream_event events event =
     (if is_empty_data event then Inr events
      else if length events < MAX_EVENTS_PER_DIRECTION then Inr (events @ [event])
      else case merge_data events event of
             Some merged \<Rightarrow> Inr merged
           | None \<Rightarrow> Inl ''stream event count exceeds configured limit'')"

fun is_data :: "stream_event \<Rightarrow> bool" where
  "is_data event = (case se_event event of SData _ _ \<Rightarrow> True | _ \<Rightarrow> False)"

definition move_error :: "u64 \<Rightarrow> stream_event \<Rightarrow> stream_event" where
  "move_error expected event =
     (case se_event event of
        SError _ category phase \<Rightarrow> event\<lparr>se_event := SError expected category phase\<rparr>
      | _ \<Rightarrow> event)"

fun position :: "('a \<Rightarrow> bool) \<Rightarrow> 'a list \<Rightarrow> nat option" where
  "position P [] = None"
| "position P (x # xs) = (if P x then Some 0 else map_option Suc (position P xs))"

definition reconcile_stream_event_body_length :: "stream_event list \<Rightarrow> flow_outcome \<Rightarrow> stream_event list" where
  "reconcile_stream_event_body_length events outcome =
     (case outcome of
        OutError _ \<Rightarrow> events
      | OutResponse response \<Rightarrow>
          (let expected = unwrap_or (body_ref_len (resp_body response)) 0
           in if delivered events = expected then events
              else let first_data = position is_data events;
                       first_delta = (case first_data of None \<Rightarrow> 0 | Some i \<Rightarrow> se_delta_ns (events ! i));
                       kept = filter (\<lambda>event. \<not> is_data event) events;
                       insert_at = min (unwrap_or first_data (length kept)) (length kept);
                       inserted = (if expected > 0
                          then take insert_at kept
                                 @ \<lparr>se_delta_ns = first_delta, se_event = SData 0 expected\<rparr> # drop insert_at kept
                          else kept)
                   in map (move_error expected) inserted))"

section \<open>The response body\<close>

datatype body_frame = FrData bytes | FrTrailers header_entries | FrOther

text \<open>\<^verbatim>\<open>write_all\<close> of one buffer: it does not call \<^verbatim>\<open>write\<close> on an empty one.\<close>

definition write_buffer ::
  "fixture_dir \<Rightarrow> body_writer \<Rightarrow> bytes \<Rightarrow> fixture_dir \<times> body_writer \<times> (io_error + unit)" where
  "write_buffer d w data =
     (if data = [] then (d, w, Inr ())
      else case body_write d w data of
             (d', w', Inl e) \<Rightarrow> (d', w', Inl e) | (d', w', Inr _) \<Rightarrow> (d', w', Inr ()))"

text \<open>The local variables of the loop over the frames of a response.\<close>

record capture =
  cap_events :: "stream_event list"
  cap_trailers :: "header_entry list"
  cap_offset :: u64

definition capture_start :: capture where
  "capture_start = \<lparr>cap_events = [], cap_trailers = [], cap_offset = 0\<rparr>"

definition capture_event :: "capture \<Rightarrow> nat \<Rightarrow> stream_event_kind \<Rightarrow> http_error + capture" where
  "capture_event c now kind =
     rbind (map_err (\<lambda>m. HeBody (BfMessage m)) (push_stream_event (cap_events c)
       \<lparr>se_delta_ns = elapsed_ns now, se_event = kind\<rparr>)) (\<lambda>events. Inr (c\<lparr>cap_events := events\<rparr>))"

text \<open>
  The frames with the time each arrived at; a body that ends does so at \<open>end_ns\<close>, where the end
  event is pushed. A frame that is an error is the last one read.
\<close>

fun response_loop ::
  "(bytes \<Rightarrow> string option) \<Rightarrow> nat \<Rightarrow> (nat \<times> (fetch_error + body_frame)) list
     \<Rightarrow> fixture_dir \<Rightarrow> body_writer \<Rightarrow> capture \<Rightarrow> fixture_dir \<times> body_writer \<times> (http_error + capture)" where
  "response_loop to_str end_ns [] d w c = (d, w, capture_event c end_ns SEnd)"
| "response_loop to_str end_ns ((now, Inl err) # frames) d w c =
     (let (category, phase) = classify_body_error err
      in (d, w, capture_event c now (SError (cap_offset c) (category_as_str category) (phase_as_str phase))))"
| "response_loop to_str end_ns ((now, Inr (FrData data)) # frames) d w c =
     (case write_buffer d w data of
        (d1, w1, Inl e) \<Rightarrow> (d1, w1, Inl (HeBody (BfIo e)))
      | (d1, w1, Inr _) \<Rightarrow>
          (case capture_event c now (SData (cap_offset c) (of_nat (length data))) of
             Inl e \<Rightarrow> (d1, w1, Inl e)
           | Inr c1 \<Rightarrow> response_loop to_str end_ns frames d1 w1
                (c1\<lparr>cap_offset := sat_add (cap_offset c1) (of_nat (length data))\<rparr>)))"
| "response_loop to_str end_ns ((now, Inr (FrTrailers trailers)) # frames) d w c =
     (let entries = fst (recorded_entries to_str trailers)
      in case capture_event (c\<lparr>cap_trailers := entries\<rparr>) now (STrailers entries) of
           Inl e \<Rightarrow> (d, w, Inl e)
         | Inr c1 \<Rightarrow> response_loop to_str end_ns frames d w c1)"
| "response_loop to_str end_ns ((now, Inr FrOther) # frames) d w c = response_loop to_str end_ns frames d w c"

section \<open>The request body\<close>

text \<open>
  One poll of the client for the next frame of the request body, and what the tee answers. A poll
  that finds nothing ready changes nothing and is left out.
\<close>

datatype body_poll = PollEnd | PollFailed string | PollFrame body_frame

datatype tee_answer = TeeEnd | TeeFailed body_failure | TeeFrame body_frame

record tee_stream =
  ts_trailers :: "header_entry list"
  ts_done :: bool

definition tee_start :: tee_stream where
  "tee_start = \<lparr>ts_trailers = [], ts_done = False\<rparr>"

definition tee_poll ::
  "(bytes \<Rightarrow> string option) \<Rightarrow> body_poll \<Rightarrow> fixture_dir \<Rightarrow> body_writer \<Rightarrow> tee_stream
     \<Rightarrow> fixture_dir \<times> body_writer \<times> tee_stream \<times> tee_answer" where
  "tee_poll to_str poll d w this =
     (if ts_done this then (d, w, this, TeeEnd)
      else case poll of
        PollEnd \<Rightarrow> (d, w, this\<lparr>ts_done := True\<rparr>, TeeEnd)
      | PollFailed e \<Rightarrow> (d, w, this\<lparr>ts_done := True\<rparr>, TeeFailed (BfMessage e))
      | PollFrame (FrData data) \<Rightarrow>
          (case write_buffer d w data of
             (d', w', result) \<Rightarrow>
               (d', w', this, (case result of Inr _ \<Rightarrow> TeeFrame (FrData data) | Inl e \<Rightarrow> TeeFailed (BfIo e))))
      | PollFrame (FrTrailers trailers) \<Rightarrow>
          (d, w, this\<lparr>ts_trailers := ts_trailers this @ fst (recorded_entries to_str trailers)\<rparr>,
           TeeFrame (FrTrailers trailers))
      | PollFrame FrOther \<Rightarrow> (d, w, this, TeeFrame FrOther))"

record tee_session_stream = tee_stream +
  ts_events :: "stream_event list"
  ts_offset :: u64

definition tee_session_start :: tee_session_stream where
  "tee_session_start = \<lparr>ts_trailers = [], ts_done = False, ts_events = [], ts_offset = 0\<rparr>"

text \<open>\<open>push_quietly\<close> is \<^verbatim>\<open>let _ = push_stream_event_inner(..)\<close>: an event that does not fit is lost.\<close>

definition push_quietly :: "nat \<Rightarrow> stream_event_kind \<Rightarrow> tee_session_stream \<Rightarrow> tee_session_stream" where
  "push_quietly now kind this =
     (case push_stream_event (ts_events this) \<lparr>se_delta_ns = elapsed_ns now, se_event = kind\<rparr> of
        Inr events \<Rightarrow> this\<lparr>ts_events := events\<rparr> | Inl _ \<Rightarrow> this)"

definition tee_session_poll ::
  "(bytes \<Rightarrow> string option) \<Rightarrow> nat \<Rightarrow> body_poll \<Rightarrow> fixture_dir \<Rightarrow> body_writer \<Rightarrow> tee_session_stream
     \<Rightarrow> fixture_dir \<times> body_writer \<times> tee_session_stream \<times> tee_answer" where
  "tee_session_poll to_str now poll d w this =
     (if ts_done this then (d, w, this, TeeEnd)
      else case poll of
        PollEnd \<Rightarrow> (d, w, push_quietly now SEnd (this\<lparr>ts_done := True\<rparr>), TeeEnd)
      | PollFailed e \<Rightarrow>
          (d, w, push_quietly now (SError (ts_offset this) (category_as_str Cat_Other) (phase_as_str Phase_Body))
                   (this\<lparr>ts_done := True\<rparr>), TeeFailed (BfMessage e))
      | PollFrame (FrData data) \<Rightarrow>
          (case write_buffer d w data of
             (d', w', Inl e) \<Rightarrow> (d', w', this, TeeFailed (BfIo e))
           | (d', w', Inr _) \<Rightarrow>
               (case push_stream_event (ts_events this)
                       \<lparr>se_delta_ns = elapsed_ns now, se_event = SData (ts_offset this) (of_nat (length data))\<rparr> of
                  Inl m \<Rightarrow> (d', w', this\<lparr>ts_done := True\<rparr>, TeeFailed (BfMessage m))
                | Inr events \<Rightarrow>
                    (d', w', this\<lparr>ts_events := events,
                                  ts_offset := sat_add (ts_offset this) (of_nat (length data))\<rparr>,
                     TeeFrame (FrData data))))
      | PollFrame (FrTrailers trailers) \<Rightarrow>
          (let entries = fst (recorded_entries to_str trailers);
               this = this\<lparr>ts_trailers := ts_trailers this @ entries\<rparr>
           in case push_stream_event (ts_events this) \<lparr>se_delta_ns = elapsed_ns now, se_event = STrailers entries\<rparr> of
                Inl m \<Rightarrow> (d, w, this\<lparr>ts_done := True\<rparr>, TeeFailed (BfMessage m))
              | Inr events \<Rightarrow> (d, w, this\<lparr>ts_events := events\<rparr>, TeeFrame (FrTrailers trailers)))
      | PollFrame FrOther \<Rightarrow> (d, w, this, TeeFrame FrOther))"

text \<open>The polls of the client, each at its time.\<close>

fun tee_polls ::
  "(bytes \<Rightarrow> string option) \<Rightarrow> (nat \<times> body_poll) list \<Rightarrow> fixture_dir \<Rightarrow> body_writer \<Rightarrow> tee_stream
     \<Rightarrow> fixture_dir \<times> body_writer \<times> tee_stream" where
  "tee_polls to_str [] d w this = (d, w, this)"
| "tee_polls to_str ((_, poll) # polls) d w this =
     (case tee_poll to_str poll d w this of (d', w', this', _) \<Rightarrow> tee_polls to_str polls d' w' this')"

fun tee_session_polls ::
  "(bytes \<Rightarrow> string option) \<Rightarrow> (nat \<times> body_poll) list \<Rightarrow> fixture_dir \<Rightarrow> body_writer \<Rightarrow> tee_session_stream
     \<Rightarrow> fixture_dir \<times> body_writer \<times> tee_session_stream" where
  "tee_session_polls to_str [] d w this = (d, w, this)"
| "tee_session_polls to_str ((now, poll) # polls) d w this =
     (case tee_session_poll to_str now poll d w this of
        (d', w', this', _) \<Rightarrow> tee_session_polls to_str polls d' w' this')"

end
