(* ===== verification/Record_Request.thy ===== *)
theory Record_Request
  imports Record_Capture
begin

text \<open>
  Recording one exchange, \<^verbatim>\<open>record_request\<close> and \<^verbatim>\<open>record_request_with_session\<close> of
  \<^verbatim>\<open>crates/eggreplay-http/src/recording.rs\<close>: the body of the request is teed into the store while
  the client sends it, the response is staged, both are redacted before a blob of them is published,
  and one flow with its timeline is appended.

  The client is outside of the model: an \<open>exchange\<close> holds what it was asked and what it answered,
  with the clock readings, the identifier and the staging names the call draws. Other users of a
  concurrent session may run between two calls to it; their interleavings are the subject of
  \<open>Store_Recording\<close>, and this model follows a call that runs alone.
\<close>

section \<open>The store\<close>

text \<open>
  What recording needs of a store: the sequential writer and the concurrent session offer the same
  operations.
\<close>

record 's store_ops =
  so_dir :: "'s \<Rightarrow> fixture_dir"
  so_set_dir :: "fixture_dir \<Rightarrow> 's \<Rightarrow> 's"
  so_begin_blob :: "string \<Rightarrow> 's \<Rightarrow> 's \<times> (store_error + body_writer)"
  so_finish :: "body_writer \<Rightarrow> 's \<Rightarrow> 's \<times> (store_error + body_ref)"
  so_drop :: "body_writer \<Rightarrow> 's \<Rightarrow> 's"
  so_append_flow :: "flow \<Rightarrow> 's \<Rightarrow> 's \<times> (store_error + unit)"
  so_append_events :: "flow_stream_events \<Rightarrow> 's \<Rightarrow> 's \<times> (store_error + unit)"

type_synonym writer_state = "fixture_dir \<times> session_writer"
type_synonym session_state = "fixture_dir \<times> recording"

definition writer_store :: "codec \<Rightarrow> ext_lib \<Rightarrow> writer_state store_ops" where
  "writer_store C X =
     \<lparr>so_dir = fst,
      so_set_dir = (\<lambda>d (_, w). (d, w)),
      so_begin_blob = (\<lambda>u (d, w). case begin_blob d (sw_limits w) u of (d', r) \<Rightarrow> ((d', w), r)),
      so_finish = (\<lambda>bw (d, w). case body_finish X d bw of (d', r) \<Rightarrow> ((d', w), r)),
      so_drop = (\<lambda>bw (d, w). (body_drop d bw, w)),
      so_append_flow = (\<lambda>fl (d, w). case append_flow C fl d w of (d', w', r) \<Rightarrow> ((d', w'), r)),
      so_append_events = (\<lambda>events (d, w).
        case append_stream_events C events w of
          Inl e \<Rightarrow> ((d, w), Inl e) | Inr w' \<Rightarrow> ((d, w'), Inr ()))\<rparr>"

definition session_begin_blob :: "string \<Rightarrow> session_state \<Rightarrow> session_state \<times> (store_error + body_writer)" where
  "session_begin_blob unique s =
     (let (d, r) = s
      in if rc_shutdown r then (s, Inl shutting_down)
         else case begin_blob d (rc_limits r) unique of
                (d', Inl e) \<Rightarrow> ((d', r), Inl e)
              | (d', Inr w) \<Rightarrow> ((d', r\<lparr>rc_active_blobs := Suc (rc_active_blobs r)\<rparr>), Inr w))"

definition release :: "recording \<Rightarrow> recording" where
  "release r = r\<lparr>rc_active_blobs := rc_active_blobs r - 1\<rparr>"

definition session_append_flow :: "codec \<Rightarrow> flow \<Rightarrow> session_state \<Rightarrow> session_state \<times> (store_error + unit)" where
  "session_append_flow C fl s =
     (let (d, r) = s
      in case flow_admission C r fl of
           Inl e \<Rightarrow> (s, Inl e)
         | Inr encoded \<Rightarrow> (case append_flow_locked fl encoded d r of (d', r', res) \<Rightarrow> ((d', r'), res)))"

definition session_store :: "codec \<Rightarrow> ext_lib \<Rightarrow> session_state store_ops" where
  "session_store C X =
     \<lparr>so_dir = fst,
      so_set_dir = (\<lambda>d (_, r). (d, r)),
      so_begin_blob = session_begin_blob,
      so_finish = (\<lambda>bw (d, r). case recording_body_finish X d bw of (d', res) \<Rightarrow> ((d', release r), res)),
      so_drop = (\<lambda>bw (d, r). (body_drop d bw, release r)),
      so_append_flow = session_append_flow C,
      so_append_events = (\<lambda>events (d, r).
        case append_events_locked C events r of
          Inl e \<Rightarrow> ((d, r), Inl e) | Inr r' \<Rightarrow> ((d, r'), Inr ()))\<rparr>"

section \<open>Finishing a staged body\<close>

definition needs_transform :: "redaction_config \<Rightarrow> string option \<Rightarrow> bool" where
  "needs_transform config ct \<longleftrightarrow>
     (rc_json_paths config \<noteq> [] \<and> is_json_content_type ct)
     \<or> (rc_query_keys config \<noteq> [] \<and> is_form_content_type ct)"

definition finish_raw :: "'s store_ops \<Rightarrow> 's \<Rightarrow> body_writer \<Rightarrow> 's \<times> (http_error + body_ref \<times> redaction_marker list)" where
  "finish_raw S s sink =
     (case so_finish S sink s of
        (s1, Inl e) \<Rightarrow> (s1, Inl (HeStore e)) | (s1, Inr body) \<Rightarrow> (s1, Inr (body, [])))"

text \<open>The redacted bytes as a blob of their own.\<close>

definition publish_fresh :: "'s store_ops \<Rightarrow> string \<Rightarrow> 's \<Rightarrow> bytes \<Rightarrow> 's \<times> (http_error + body_ref)" where
  "publish_fresh S unique s redacted =
     (if redacted = [] then (s, Inr BodyEmpty)
      else case so_begin_blob S unique s of
             (s1, Inl e) \<Rightarrow> (s1, Inl (HeStore e))
           | (s1, Inr fresh) \<Rightarrow>
               (case write_buffer (so_dir S s1) fresh redacted of
                  (d2, fresh2, Inl e) \<Rightarrow> (so_drop S fresh2 (so_set_dir S d2 s1), Inl (HeBody (BfIo e)))
                | (d2, fresh2, Inr _) \<Rightarrow>
                    (case so_finish S fresh2 (so_set_dir S d2 s1) of
                       (s3, Inl e) \<Rightarrow> (s3, Inl (HeStore e)) | (s3, Inr body) \<Rightarrow> (s3, Inr body))))"

definition finish_redacted ::
  "ext_lib \<Rightarrow> 's store_ops \<Rightarrow> string \<Rightarrow> string option \<Rightarrow> redaction_config \<Rightarrow> string \<Rightarrow> u64 \<Rightarrow> bool
     \<Rightarrow> 's \<Rightarrow> body_writer \<Rightarrow> 's \<times> (http_error + body_ref \<times> redaction_marker list)" where
  "finish_redacted X S unique ct redaction profile max_structured is_response s sink =
     (if bw_length sink = 0 then finish_raw S s sink
      else if \<not> wants_body_redaction redaction then finish_raw S s sink
      else if \<not> needs_transform redaction ct then
        (if rc_json_paths redaction \<noteq> []
         then (so_drop S sink s,
               Inl (HeBody (BfMessage ''body redaction requested but media type unsupported; failing closed'')))
         else finish_raw S s sink)
      else (case read_staging_bounded (so_dir S s) sink max_structured of
              Inl e \<Rightarrow> (so_drop S sink s, Inl (HeBody (BfStore e)))
            | Inr raw \<Rightarrow>
                (let s1 = so_drop S sink s
                 in case transform_body X raw ct redaction profile is_response of
                      Inl e \<Rightarrow> (s1, Inl e)
                    | Inr (redacted, markers) \<Rightarrow>
                        (case publish_fresh S unique s1 redacted of
                           (s2, Inl e) \<Rightarrow> (s2, Inl e) | (s2, Inr body) \<Rightarrow> (s2, Inr (body, markers))))))"

definition finish_sink_redacted where
  "finish_sink_redacted C X = finish_redacted X (writer_store C X)"

definition finish_session_sink_redacted where
  "finish_session_sink_redacted C X = finish_redacted X (session_store C X)"

section \<open>Exchanges\<close>

record wire_response =
  wr_version :: http_version
  wr_status :: u16
  wr_headers :: header_entries
  wr_frames :: "(nat \<times> (fetch_error + body_frame)) list"
  wr_end_ns :: nat

text \<open>The two names are those of the staged body and of its redacted copy.\<close>

record exchange =
  ex_method :: string
  ex_uri :: http_uri
  ex_headers :: header_entries
  ex_polls :: "(nat \<times> body_poll) list"
  ex_result :: "fetch_error + wire_response"
  ex_started_at_ms :: u64
  ex_completed_at_ms :: u64
  ex_offset_ns :: nat
  ex_uuid :: string
  ex_request_names :: "string \<times> string"
  ex_response_names :: "string \<times> string"

text \<open>The arguments of the two functions, and the libraries behind them.\<close>

record recorder =
  re_to_str :: "bytes \<Rightarrow> string option"
  re_display :: "fetch_error \<Rightarrow> string"
  re_redaction :: redaction_config
  re_profile :: string
  re_max_structured :: u64
  re_route :: "physical_route option"

section \<open>The request\<close>

definition observe_request ::
  "codec \<Rightarrow> ext_lib \<Rightarrow> recorder \<Rightarrow> exchange \<Rightarrow> writer_state
     \<Rightarrow> writer_state \<times> (http_error + recorded_request \<times> redaction_marker list)" where
  "observe_request C X R ex s =
     (let S = writer_store C X
      in case request_head X (re_to_str R) (ex_method ex) (ex_uri ex) (ex_headers ex) of
        Inl e \<Rightarrow> (s, Inl e)
      | Inr converted \<Rightarrow>
          (case so_begin_blob S (fst (ex_request_names ex)) s of
             (s1, Inl e) \<Rightarrow> (s1, Inl (HeStore e))
           | (s1, Inr sink) \<Rightarrow>
               (case tee_polls (re_to_str R) (ex_polls ex) (so_dir S s1) sink tee_start of
                  (d2, sink2, tee) \<Rightarrow>
                    (case finish_sink_redacted C X (snd (ex_request_names ex)) (content_type (re_to_str R) (ex_headers ex))
                            (re_redaction R) (re_profile R) (re_max_structured R) False (so_set_dir S d2 s1) sink2 of
                       (s3, Inl e) \<Rightarrow> (s3, Inl e)
                     | (s3, Inr (body, markers)) \<Rightarrow>
                         (s3, Inr (converted\<lparr>rr_request := (rr_request converted)
                                     \<lparr>req_body := body, req_trailers := ts_trailers tee\<rparr>\<rparr>, markers))))))"

definition observe_session_request ::
  "codec \<Rightarrow> ext_lib \<Rightarrow> recorder \<Rightarrow> exchange \<Rightarrow> session_state
     \<Rightarrow> session_state \<times> (http_error + recorded_request \<times> redaction_marker list \<times> stream_event list)" where
  "observe_session_request C X R ex s =
     (let S = session_store C X
      in case request_head X (re_to_str R) (ex_method ex) (ex_uri ex) (ex_headers ex) of
        Inl e \<Rightarrow> (s, Inl e)
      | Inr converted \<Rightarrow>
          (case so_begin_blob S (fst (ex_request_names ex)) s of
             (s1, Inl e) \<Rightarrow> (s1, Inl (HeStore e))
           | (s1, Inr sink) \<Rightarrow>
               (case tee_session_polls (re_to_str R) (ex_polls ex) (so_dir S s1) sink tee_session_start of
                  (d2, sink2, tee) \<Rightarrow>
                    (case finish_session_sink_redacted C X (snd (ex_request_names ex)) (content_type (re_to_str R) (ex_headers ex))
                            (re_redaction R) (re_profile R) (re_max_structured R) False (so_set_dir S d2 s1) sink2 of
                       (s3, Inl e) \<Rightarrow> (s3, Inl e)
                     | (s3, Inr (body, markers)) \<Rightarrow>
                         (s3, Inr (converted\<lparr>rr_request := (rr_request converted)
                                     \<lparr>req_body := body, req_trailers := ts_trailers tee\<rparr>\<rparr>, markers,
                                   ts_events tee))))))"

section \<open>The response\<close>

record observation =
  ob_outcome :: flow_outcome
  ob_events :: "stream_event list"
  ob_note :: "(string \<times> string) option"
  ob_markers :: "redaction_marker list"

text \<open>
  The headers of a response whose body was rewritten are reconciled with the new body; the notes of
  the reconciliation are dropped.
\<close>

definition reconciled_response ::
  "recorder \<Rightarrow> wire_response \<Rightarrow> capture \<Rightarrow> body_ref \<Rightarrow> redaction_marker list \<Rightarrow> observation" where
  "reconciled_response R response cap body resp_markers =
     (let entries = fst (recorded_entries (re_to_str R) (wr_headers response));
          (headers, markers) =
            (if resp_markers \<noteq> [] then
               (case reconcile_headers_after_body_redaction entries
                       (case body of BodyBlob blob \<Rightarrow> blob_length blob | _ \<Rightarrow> 0) (re_profile R) of
                  (headers, reconciled, _) \<Rightarrow> (headers, resp_markers @ reconciled))
             else (entries, []))
      in \<lparr>ob_outcome = OutResponse \<lparr>resp_status = wr_status response, resp_headers = headers, resp_body = body,
                                    resp_trailers = cap_trailers cap\<rparr>,
          ob_events = cap_events cap, ob_note = negotiated_version_annotation (wr_version response),
          ob_markers = markers\<rparr>)"

definition observe_response ::
  "ext_lib \<Rightarrow> recorder \<Rightarrow> exchange \<Rightarrow> 's store_ops \<Rightarrow> 's \<Rightarrow> 's \<times> (http_error + observation)" where
  "observe_response X R ex S s =
     (case ex_result ex of
        Inl err \<Rightarrow>
          (case map_fetch_error (re_display R) err of
             None \<Rightarrow> (s, Inl HePanic)
           | Some flow_err \<Rightarrow>
               (s, Inr \<lparr>ob_outcome = OutError flow_err, ob_events = [], ob_note = None, ob_markers = []\<rparr>))
      | Inr response \<Rightarrow>
          (case so_begin_blob S (fst (ex_response_names ex)) s of
             (s1, Inl e) \<Rightarrow> (s1, Inl (HeStore e))
           | (s1, Inr sink) \<Rightarrow>
               (case response_loop (re_to_str R) (wr_end_ns response) (wr_frames response) (so_dir S s1) sink
                       capture_start of
                  (d2, sink2, Inl e) \<Rightarrow> (so_drop S sink2 (so_set_dir S d2 s1), Inl e)
                | (d2, sink2, Inr cap) \<Rightarrow>
                    (case finish_redacted X S (snd (ex_response_names ex))
                            (content_type (re_to_str R) (wr_headers response)) (re_redaction R) (re_profile R)
                            (re_max_structured R) True (so_set_dir S d2 s1) sink2 of
                       (s3, Inl e) \<Rightarrow> (s3, Inl e)
                     | (s3, Inr (body, markers)) \<Rightarrow> (s3, Inr (reconciled_response R response cap body markers))))))"

definition observe_session_response where
  "observe_session_response C X R ex = observe_response X R ex (session_store C X)"

section \<open>The flow\<close>

text \<open>From \<^verbatim>\<open>Flow::new\<close> to the markers of the bodies.\<close>

definition draft_flow ::
  "recorder \<Rightarrow> exchange \<Rightarrow> http_request \<Rightarrow> observation \<Rightarrow> redaction_marker list \<Rightarrow> flow" where
  "draft_flow R ex request ob body_markers =
     (let fl = flow_new (ex_uuid ex) request (ob_outcome ob) (ex_started_at_ms ex);
          fl = fl\<lparr>fl_completed_at_ms := Some (ex_completed_at_ms ex),
                 fl_annotations := fl_annotations fl @ (case ob_note ob of Some note \<Rightarrow> [note] | None \<Rightarrow> []),
                 fl_provenance := \<lparr>prov_mode = ''eggfetch-native'', prov_observer = ''eggreplay-http''\<rparr>,
                 fl_physical_route := re_route R\<rparr>;
          fl = redact_flow fl (re_redaction R) (re_profile R)
      in fl\<lparr>fl_redactions := fl_redactions fl @ body_markers\<rparr>)"

definition names_request_body :: "redaction_marker \<Rightarrow> bool" where
  "names_request_body marker \<longleftrightarrow>
     starts_with ''request.body.json:'' (m_field marker) \<or> starts_with ''request.body.form:'' (m_field marker)"

definition reconcile_request :: "recorder \<Rightarrow> flow \<Rightarrow> flow" where
  "reconcile_request R fl =
     (case reconcile_headers_after_body_redaction (req_headers (fl_request fl))
             (unwrap_or (body_ref_len (req_body (fl_request fl))) 0) (re_profile R) of
        (headers, markers, notes) \<Rightarrow>
          fl\<lparr>fl_request := (fl_request fl)\<lparr>req_headers := headers\<rparr>,
             fl_redactions := fl_redactions fl @ markers, fl_annotations := fl_annotations fl @ notes\<rparr>)"

definition note_lossy :: "bool \<Rightarrow> flow \<Rightarrow> flow" where
  "note_lossy lossy fl =
     (if lossy
      then fl\<lparr>fl_annotations := fl_annotations fl @ [(''conversion'', ''opaque-header-values-escaped'')]\<rparr> else fl)"

text \<open>The flow and its timeline are two appends; an error of the second leaves the first in the log.\<close>

definition append_both ::
  "'s store_ops \<Rightarrow> flow \<Rightarrow> flow_stream_events \<Rightarrow> 's \<Rightarrow> 's \<times> (http_error + flow)" where
  "append_both S fl events s =
     (case so_append_flow S fl s of
        (s1, Inl e) \<Rightarrow> (s1, Inl (HeStore e))
      | (s1, Inr _) \<Rightarrow>
          (case so_append_events S events s1 of
             (s2, Inl e) \<Rightarrow> (s2, Inl (HeStore e)) | (s2, Inr _) \<Rightarrow> (s2, Inr fl)))"

text \<open>
  \<^verbatim>\<open>flow.redactions.append(&mut req_markers)\<close> empties \<^verbatim>\<open>req_markers\<close>, which the writer's function
  looks into afterwards; the session's function looks into the markers of the flow.
\<close>

definition conclude ::
  "recorder \<Rightarrow> exchange \<Rightarrow> recorded_request \<Rightarrow> observation \<Rightarrow> redaction_marker list
     \<Rightarrow> flow \<times> flow_stream_events" where
  "conclude R ex converted ob req_markers =
     (let fl = draft_flow R ex (rr_request converted) ob (req_markers @ ob_markers ob);
          req_markers = [];
          fl = (if list_ex names_request_body req_markers then reconcile_request R fl else fl);
          fl = note_lossy (rr_lossy converted) fl
      in (fl, \<lparr>fse_flow_id = fl_id fl, fse_start_offset_ns = elapsed_ns (ex_offset_ns ex), fse_request = [],
               fse_response = reconcile_stream_event_body_length (ob_events ob) (fl_outcome fl)\<rparr>))"

definition conclude_session ::
  "recorder \<Rightarrow> exchange \<Rightarrow> recorded_request \<Rightarrow> observation \<Rightarrow> redaction_marker list \<Rightarrow> stream_event list
     \<Rightarrow> flow \<times> flow_stream_events" where
  "conclude_session R ex converted ob all_markers request_events =
     (let fl = draft_flow R ex (rr_request converted) ob (all_markers @ ob_markers ob);
          fl = (if list_ex names_request_body (fl_redactions fl) then reconcile_request R fl else fl);
          fl = note_lossy (rr_lossy converted) fl
      in (fl, \<lparr>fse_flow_id = fl_id fl, fse_start_offset_ns = elapsed_ns (ex_offset_ns ex), fse_request = request_events,
               fse_response = reconcile_stream_event_body_length (ob_events ob) (fl_outcome fl)\<rparr>))"

definition record_request ::
  "codec \<Rightarrow> ext_lib \<Rightarrow> recorder \<Rightarrow> exchange \<Rightarrow> writer_state \<Rightarrow> writer_state \<times> (http_error + flow)" where
  "record_request C X R ex s =
     (let S = writer_store C X
      in case observe_request C X R ex s of
           (s1, Inl e) \<Rightarrow> (s1, Inl e)
         | (s1, Inr (converted, req_markers)) \<Rightarrow>
             (case observe_response X R ex S s1 of
                (s2, Inl e) \<Rightarrow> (s2, Inl e)
              | (s2, Inr ob) \<Rightarrow>
                  (case conclude R ex converted ob req_markers of (fl, events) \<Rightarrow> append_both S fl events s2)))"

definition record_request_with_session ::
  "codec \<Rightarrow> ext_lib \<Rightarrow> recorder \<Rightarrow> exchange \<Rightarrow> session_state \<Rightarrow> session_state \<times> (http_error + flow)" where
  "record_request_with_session C X R ex s =
     (let S = session_store C X
      in case observe_session_request C X R ex s of
           (s1, Inl e) \<Rightarrow> (s1, Inl e)
         | (s1, Inr (converted, req_markers, request_events)) \<Rightarrow>
             (case observe_session_response C X R ex s1 of
                (s2, Inl e) \<Rightarrow> (s2, Inl e)
              | (s2, Inr ob) \<Rightarrow>
                  (case conclude_session R ex converted ob req_markers request_events of
                     (fl, events) \<Rightarrow> append_both S fl events s2)))"

end
