(* ===== verification/Record_Capture_Facts.thy ===== *)
theory Record_Capture_Facts
  imports Record_Capture
begin

text \<open>
  What a captured response is: its events and bytes as a function of the frames of the wire, the
  captures the store accepts, and the repair of a timeline after its body was redacted.
\<close>

section \<open>The capture as a function of the wire\<close>

fun wire_events ::
  "(bytes \<Rightarrow> string option) \<Rightarrow> nat \<Rightarrow> u64 \<Rightarrow> (nat \<times> (fetch_error + body_frame)) list \<Rightarrow> stream_event list" where
  "wire_events to_str end_ns offset [] = [\<lparr>se_delta_ns = elapsed_ns end_ns, se_event = SEnd\<rparr>]"
| "wire_events to_str end_ns offset ((now, Inl err) # frames) =
     [\<lparr>se_delta_ns = elapsed_ns now, se_event = SError offset (fst (body_error_event_fields err))
        (snd (body_error_event_fields err))\<rparr>]"
| "wire_events to_str end_ns offset ((now, Inr (FrData data)) # frames) =
     (if data = [] then wire_events to_str end_ns offset frames
      else \<lparr>se_delta_ns = elapsed_ns now, se_event = SData offset (of_nat (length data))\<rparr>
        # wire_events to_str end_ns (sat_add offset (of_nat (length data))) frames)"
| "wire_events to_str end_ns offset ((now, Inr (FrTrailers trailers)) # frames) =
     \<lparr>se_delta_ns = elapsed_ns now, se_event = STrailers (fst (recorded_entries to_str trailers))\<rparr>
       # wire_events to_str end_ns offset frames"
| "wire_events to_str end_ns offset ((now, Inr FrOther) # frames) = wire_events to_str end_ns offset frames"

fun wire_bytes :: "(nat \<times> (fetch_error + body_frame)) list \<Rightarrow> bytes" where
  "wire_bytes ((_, Inr (FrData data)) # frames) = data @ wire_bytes frames"
| "wire_bytes ((_, Inr _) # frames) = wire_bytes frames"
| "wire_bytes _ = []"

fun wire_trailers ::
  "(bytes \<Rightarrow> string option) \<Rightarrow> header_entry list \<Rightarrow> (nat \<times> (fetch_error + body_frame)) list \<Rightarrow> header_entry list" where
  "wire_trailers to_str found ((_, Inr (FrTrailers trailers)) # frames) =
     wire_trailers to_str (fst (recorded_entries to_str trailers)) frames"
| "wire_trailers to_str found ((_, Inr _) # frames) = wire_trailers to_str found frames"
| "wire_trailers to_str found _ = found"

definition sized_frames :: "(nat \<times> (fetch_error + body_frame)) list \<Rightarrow> bool" where
  "sized_frames frames \<longleftrightarrow> (\<forall>now data. (now, Inr (FrData data)) \<in> set frames \<longrightarrow> length data < 2 ^ 64)"

lemma wire_events_not_Nil [simp]: "wire_events to_str end_ns offset frames \<noteq> []"
  by (induction to_str end_ns offset frames rule: wire_events.induct) auto

lemma merge_data_length: "merge_data events event = Some merged \<Longrightarrow> length merged = length events"
  by (auto simp: merge_data_def split: if_splits stream_event_kind.splits)

lemma push_stream_event_length:
  assumes "push_stream_event events event = Inr pushed" and "MAX_EVENTS_PER_DIRECTION \<le> length events"
  shows "length pushed = length events"
  using assms by (auto simp: push_stream_event_def merge_data_length split: if_splits option.splits)

lemma push_other:
  assumes "\<not> is_data event"
  shows "push_stream_event events event =
    (if length events < MAX_EVENTS_PER_DIRECTION then Inr (events @ [event])
     else Inl ''stream event count exceeds configured limit'')"
  using assms by (auto simp: push_stream_event_def is_empty_data_def merge_data_def split: stream_event_kind.splits)

lemma capture_event_other:
  assumes "\<not> is_data \<lparr>se_delta_ns = elapsed_ns now, se_event = kind\<rparr>"
  shows "capture_event c now kind =
    (if length (cap_events c) < MAX_EVENTS_PER_DIRECTION
     then Inr (c\<lparr>cap_events := cap_events c @ [\<lparr>se_delta_ns = elapsed_ns now, se_event = kind\<rparr>]\<rparr>)
     else Inl (HeBody (BfMessage ''stream event count exceeds configured limit'')))"
  by (simp add: capture_event_def push_other [OF assms] rbind_def map_err_def)

lemma write_buffer_frame:
  assumes "writer_ok d w" and "length data < 2 ^ 64" and "write_buffer d w data = (d', w', r)"
  shows "writes_frame d w d' w'
    \<and> (is_ok r \<longleftrightarrow> data = [] \<or> length (bw_hasher w @ data) \<le> unat (bw_max_bytes w))
    \<and> (is_ok r \<longrightarrow> bw_hasher w' = bw_hasher w @ data)"
proof (cases "data = []")
  case True
  with assms show ?thesis by (auto simp: write_buffer_def writes_frame_def is_ok_def)
next
  case False
  obtain d1 w1 r1 where step: "body_write d w data = (d1, w1, r1)" by (rule prod_cases3)
  have "unat (bw_max_bytes w) < 2 ^ 64"
    using unsigned_less [of "bw_max_bytes w", where ?'a = nat] by simp
  with False step assms body_write_frame [OF assms(1,2) step] show ?thesis
    by (cases r1) (auto simp: write_buffer_def body_write_eq is_ok_def split: if_splits)
qed

text \<open>
  The merge of touching data events only ever happens in a capture that is at its limit already, and
  such a capture cannot take the event that ends it: what is recorded is never merged.
\<close>

lemma response_loop_result:
  assumes "writer_ok d w" and "sized_frames frames" and "length (bw_hasher w) \<le> unat (bw_max_bytes w)"
    and "response_loop to_str end_ns frames d w c = (d', w', r)"
  shows "writes_frame d w d' w' \<and>
    (if length (bw_hasher w @ wire_bytes frames) \<le> unat (bw_max_bytes w)
        \<and> length (cap_events c) + length (wire_events to_str end_ns (cap_offset c) frames) \<le> MAX_EVENTS_PER_DIRECTION
     then \<exists>cap. r = Inr cap \<and> cap_events cap = cap_events c @ wire_events to_str end_ns (cap_offset c) frames
          \<and> cap_trailers cap = wire_trailers to_str (cap_trailers c) frames
          \<and> bw_hasher w' = bw_hasher w @ wire_bytes frames
     else \<exists>e. r = Inl e)"
  using assms
proof (induction to_str end_ns frames d w c rule: response_loop.induct)
  case (1 to_str end_ns d w c)
  then show ?case by (auto simp: capture_event_other writes_frame_def)
next
  case (2 to_str end_ns now err frames d w c)
  then show ?case
    by (auto simp: capture_event_other writes_frame_def body_error_event_fields_def split: prod.splits if_splits)
next
  case (3 to_str end_ns now data frames d w c)
  have sized: "length data < 2 ^ 64" "sized_frames frames"
    using 3(3) by (auto simp: sized_frames_def)
  obtain d1 w1 r1 where wr: "write_buffer d w data = (d1, w1, r1)" by (rule prod_cases3)
  note buffer = write_buffer_frame [OF 3(2) sized(1) wr]
  then have ok1: "writer_ok d1 w1" and max1: "bw_max_bytes w1 = bw_max_bytes w" by (simp_all add: writes_frame_def)
  show ?case
  proof (cases r1)
    case (Inl e)
    with buffer 3(4) have "\<not> length (bw_hasher w @ data) \<le> unat (bw_max_bytes w)" by (auto simp: is_ok_def)
    with Inl wr 3(5) buffer show ?thesis by auto
  next
    case (Inr u)
    with buffer 3(4) have hash: "bw_hasher w1 = bw_hasher w @ data" and fits: "length (bw_hasher w1) \<le> unat (bw_max_bytes w1)"
      by (auto simp: is_ok_def max1)
    let ?len = "of_nat (length data) :: u64"
    let ?event = "\<lparr>se_delta_ns = elapsed_ns now, se_event = SData (cap_offset c) ?len\<rparr>"
    have zero: "?len = 0 \<longleftrightarrow> data = []"
      using u64_of_length [OF sized(1)] by (auto simp: word_unat_eq_iff)
    show ?thesis
    proof (cases "push_stream_event (cap_events c) ?event")
      case (Inl m)
      then have full: "\<not> length (cap_events c) < MAX_EVENTS_PER_DIRECTION" "data \<noteq> []"
        by (auto simp: push_stream_event_def is_empty_data_def zero split: if_splits)
      then have "\<not> length (cap_events c) + length (wire_events to_str end_ns (cap_offset c) ((now, Inr (FrData data)) # frames))
          \<le> MAX_EVENTS_PER_DIRECTION"
        by simp
      moreover have "r = Inl (HeBody (BfMessage m))" "d' = d1" "w' = w1"
        using 3(5) wr Inr \<open>r1 = Inr u\<close> Inl by (simp_all add: capture_event_def rbind_def map_err_def)
      ultimately show ?thesis using buffer by simp
    next
      case (Inr events)
      let ?c1 = "c\<lparr>cap_events := events, cap_offset := sat_add (cap_offset c) ?len\<rparr>"
      have event: "capture_event c now (SData (cap_offset c) ?len) = Inr (c\<lparr>cap_events := events\<rparr>)"
        using Inr by (simp add: capture_event_def rbind_def map_err_def)
      have more: "response_loop to_str end_ns frames d1 w1 ?c1 = (d', w', r)"
        using 3(5) wr \<open>r1 = Inr u\<close> event by simp
      note IH = 3(1) [OF wr [symmetric] refl \<open>r1 = Inr u\<close> event ok1 sized(2) fits, simplified, OF more]
      have events: "events = cap_events c @ (if data = [] then [] else [?event])
          \<or> length events = length (cap_events c) \<and> MAX_EVENTS_PER_DIRECTION \<le> length (cap_events c) \<and> data \<noteq> []"
        using Inr push_stream_event_length [OF Inr]
        by (auto simp: push_stream_event_def is_empty_data_def zero split: if_splits)
      from events show ?thesis
      proof
        assume "events = cap_events c @ (if data = [] then [] else [?event])"
        with IH hash max1 buffer zero show ?thesis
          by (cases "data = []") (auto intro: writes_frame_trans simp: add.assoc)
      next
        assume full: "length events = length (cap_events c) \<and> MAX_EVENTS_PER_DIRECTION \<le> length (cap_events c) \<and> data \<noteq> []"
        have "0 < length (wire_events to_str end_ns (sat_add (cap_offset c) ?len) frames)" by simp
        with full IH have "\<exists>e. r = Inl e" by (auto split: if_splits)
        with full IH buffer show ?thesis by (auto intro: writes_frame_trans)
      qed
    qed
  qed
next
  case (4 to_str end_ns now trailers frames d w c)
  let ?entries = "fst (recorded_entries to_str trailers)"
  have sized: "sized_frames frames" using 4(3) by (auto simp: sized_frames_def)
  show ?case
  proof (cases "length (cap_events c) < MAX_EVENTS_PER_DIRECTION")
    case True
    let ?c1 = "c\<lparr>cap_trailers := ?entries,
      cap_events := cap_events c @ [\<lparr>se_delta_ns = elapsed_ns now, se_event = STrailers ?entries\<rparr>]\<rparr>"
    have event: "capture_event (c\<lparr>cap_trailers := ?entries\<rparr>) now (STrailers ?entries) = Inr ?c1"
      using True by (simp add: capture_event_other)
    then have "response_loop to_str end_ns frames d w ?c1 = (d', w', r)" using 4(5) by (simp add: Let_def)
    from 4(1) [OF refl event 4(2) sized 4(4) this] show ?thesis by (auto split: if_splits)
  next
    case False
    with 4 show ?thesis by (auto simp: capture_event_other Let_def writes_frame_def)
  qed
next
  case (5 to_str end_ns now frames d w c)
  then show ?case by (auto simp: sized_frames_def)
qed

section \<open>The captures the store accepts\<close>

text \<open>Trailers come at most once, are small, and no data follows them.\<close>

fun frames_legal :: "(bytes \<Rightarrow> string option) \<Rightarrow> bool \<Rightarrow> (nat \<times> (fetch_error + body_frame)) list \<Rightarrow> bool" where
  "frames_legal to_str seen ((_, Inr (FrData data)) # frames) =
     ((data = [] \<or> \<not> seen) \<and> frames_legal to_str seen frames)"
| "frames_legal to_str seen ((_, Inr (FrTrailers trailers)) # frames) =
     (\<not> seen \<and> length (fst (recorded_entries to_str trailers)) \<le> 256
      \<and> (\<forall>f\<in>set (fst (recorded_entries to_str trailers)). length (h_name f) \<le> 256 \<and> length (h_value f) \<le> 8192)
      \<and> frames_legal to_str True frames)"
| "frames_legal to_str seen ((_, Inr FrOther) # frames) = frames_legal to_str seen frames"
| "frames_legal to_str seen _ = True"

lemma event_fields_length:
  "length (fst (body_error_event_fields err)) \<le> 64" "length (snd (body_error_event_fields err)) \<le> 64"
  by (simp_all add: body_error_event_fields_def category_as_str_length phase_as_str_length split: prod.splits)

lemma sat_add_0_left: "sat_add 0 b = (b :: u64)"
  by (simp add: sat_add_def)

lemma unat_elapsed_ns: "unat (elapsed_ns n) = min n (2 ^ 64 - 1)"
  by (simp add: elapsed_ns_def unat_of_nat take_bit_nat_eq_self)

lemma elapsed_ns_mono: "m \<le> n \<Longrightarrow> elapsed_ns m \<le> elapsed_ns n"
  by (simp add: word_le_nat_alt unat_elapsed_ns)

lemma elapsed_ns_delay: "n \<le> 60000000000 \<Longrightarrow> elapsed_ns n \<le> MAX_STREAM_DELAY_NS"
  by (simp add: word_le_nat_alt unat_elapsed_ns MAX_STREAM_DELAY_NS_def)

definition cursor_at :: "stream_event list \<Rightarrow> u64 \<Rightarrow> nat \<Rightarrow> bool \<Rightarrow> bool" where
  "cursor_at before offset now seen \<longleftrightarrow>
     timeline_ok before \<and> \<not> terminal (cursor_of before) \<and> delivered before = offset
     \<and> last_delta (cursor_of before) \<le> elapsed_ns now \<and> ((\<exists>e\<in>set before. is_trailers e) \<longleftrightarrow> seen)"

lemma cursor_at_snoc:
  assumes "cursor_at before offset now seen" and "now \<le> 60000000000"
    and "event_ok before \<lparr>se_delta_ns = elapsed_ns now, se_event = kind\<rparr>"
  shows "timeline_ok (before @ [\<lparr>se_delta_ns = elapsed_ns now, se_event = kind\<rparr>])"
  using assms by (simp add: cursor_at_def timeline_ok_snoc elapsed_ns_delay)

lemma cursor_at_later:
  assumes "cursor_at before offset now seen" and "now \<le> now'"
  shows "cursor_at before offset now' seen"
  using assms elapsed_ns_mono [of now now'] by (auto simp: cursor_at_def)

lemma wire_timeline:
  assumes "cursor_at before offset start seen" and "frames_legal to_str seen frames" and "sized_frames frames"
    and "sorted (start # map fst frames @ [end_ns])" and "end_ns \<le> 60000000000"
  shows "timeline_ok (before @ wire_events to_str end_ns offset frames)"
  using assms
proof (induction to_str end_ns offset frames arbitrary: before start seen rule: wire_events.induct)
  case (1 to_str end_ns offset)
  then have "cursor_at before offset end_ns seen" by (auto intro: cursor_at_later)
  then show ?case using 1 by (simp add: cursor_at_snoc event_ok_def)
next
  case (2 to_str end_ns offset now err frames)
  then have "cursor_at before offset now seen" by (auto intro: cursor_at_later)
  then show ?case
    using 2 by (auto intro!: cursor_at_snoc simp: event_ok_def cursor_at_def event_fields_length)
next
  case (3 to_str end_ns offset now data frames)
  then have at: "cursor_at before offset now seen" by (auto intro: cursor_at_later)
  show ?case
  proof (cases "data = []")
    case True
    with 3 at show ?thesis by (auto simp: sized_frames_def)
  next
    case False
    let ?len = "of_nat (length data) :: u64"
    let ?event = "\<lparr>se_delta_ns = elapsed_ns now, se_event = SData offset ?len\<rparr>"
    have "?len \<noteq> 0" using 3(5) False u64_of_length [of "length data"] by (auto simp: sized_frames_def word_unat_eq_iff)
    then have ok: "event_ok before ?event" using 3(4) at False by (auto simp: event_ok_def cursor_at_def)
    then have "timeline_ok (before @ [?event])" using at 3(6,7) by (intro cursor_at_snoc) auto
    with at have "cursor_at (before @ [?event]) (sat_add offset ?len) now seen"
      by (auto simp: cursor_at_def cursor_of_snoc is_terminal_def data_length_def is_trailers_def)
    from 3(2) [OF False this] 3(4-7) False show ?thesis by (auto simp: sized_frames_def)
  qed
next
  case (4 to_str end_ns offset now trailers frames)
  then have at: "cursor_at before offset now seen" by (auto intro: cursor_at_later)
  let ?event = "\<lparr>se_delta_ns = elapsed_ns now, se_event = STrailers (fst (recorded_entries to_str trailers))\<rparr>"
  have ok: "event_ok before ?event" using 4(3) at by (auto simp: event_ok_def cursor_at_def)
  then have "timeline_ok (before @ [?event])" using at 4(5,6) by (intro cursor_at_snoc) auto
  with at have "cursor_at (before @ [?event]) offset now True"
    by (auto simp: cursor_at_def cursor_of_snoc is_terminal_def data_length_def is_trailers_def)
  from 4(1) [OF this] 4(3-6) show ?case by (auto simp: sized_frames_def)
next
  case (5 to_str end_ns offset now frames)
  then show ?case by (fastforce simp: sized_frames_def intro: cursor_at_later)
qed

lemma cursor_at_start: "cursor_at [] 0 now False"
  by (simp add: cursor_at_def timeline_ok_def cursor_of_def delivered_def)

section \<open>Repairing a timeline\<close>

lemma timeline_prefix: "timeline_ok (xs @ ys) \<Longrightarrow> timeline_ok xs"
  using timeline.good_prefix prefixI by blast

text \<open>Data comes first in a legal timeline.\<close>

lemma timeline_data_first:
  assumes "timeline_ok es"
  shows "filter is_data es = takeWhile is_data es \<and> filter (\<lambda>e. \<not> is_data e) es = dropWhile is_data es"
  using assms
proof (induction es rule: rev_induct)
  case (snoc e es)
  then have tl: "timeline_ok es" and unended: "\<not> terminal (cursor_of es)" and ok: "event_ok es e"
    by (simp_all add: timeline_ok_snoc)
  show ?case
  proof (cases "is_data e \<and> (\<exists>x\<in>set es. \<not> is_data x)")
    case True
    then obtain x where "x \<in> set es" "\<not> is_data x" by blast
    with unended ok True show ?thesis
      by (cases "se_event x") (auto simp: cursor_of_def event_ok_def is_terminal_def is_trailers_def
          split: stream_event_kind.splits)
  next
    case False
    with snoc.IH [OF tl] show ?thesis
      by (cases "\<forall>x\<in>set es. is_data x")
        (auto simp: takeWhile_append2 takeWhile_append1 dropWhile_append2 dropWhile_append1 takeWhile_tail
          simp del: is_data.simps)
  qed
qed simp

lemma move_error_sel [simp]:
  "se_delta_ns (move_error n e) = se_delta_ns e" "is_data (move_error n e) = is_data e"
  "is_terminal (move_error n e) = is_terminal e" "is_trailers (move_error n e) = is_trailers e"
  "data_length (move_error n e) = data_length e"
  by (auto simp: move_error_def is_terminal_def is_trailers_def data_length_def split: stream_event_kind.splits)

lemma move_error_event:
  "se_event (move_error n e) = (case se_event e of SError _ c p \<Rightarrow> SError n c p | kind \<Rightarrow> kind)"
  by (simp add: move_error_def split: stream_event_kind.splits)

lemma move_error_id: "\<not> is_terminal e \<Longrightarrow> move_error n e = e"
  by (auto simp: move_error_def is_terminal_def split: stream_event_kind.splits)

text \<open>Another beginning that delivers \<open>n\<close> bytes, in front of the same rest.\<close>

lemma timeline_rebase:
  assumes "timeline_ok (ds @ rest)" and "\<forall>e\<in>set rest. \<not> is_data e"
    and "timeline_ok base" and "delivered base = n" and "\<forall>e\<in>set base. \<not> is_terminal e \<and> \<not> is_trailers e"
    and "last_delta (cursor_of base) \<le> last_delta (cursor_of ds)"
  shows "timeline_ok (base @ map (move_error n) rest) \<and> delivered (base @ map (move_error n) rest) = n
    \<and> last_delta (cursor_of (base @ map (move_error n) rest)) \<le> last_delta (cursor_of (ds @ rest))"
  using assms(1,2)
proof (induction rest rule: rev_induct)
  case Nil
  with assms show ?case by simp
next
  case (snoc e rest)
  let ?new = "base @ map (move_error n) rest" and ?old = "ds @ rest"
  from snoc.prems(1) have old: "timeline_ok ?old" "\<not> terminal (cursor_of ?old)"
      "last_delta (cursor_of ?old) \<le> se_delta_ns e" "se_delta_ns e \<le> MAX_STREAM_DELAY_NS" "event_ok ?old e"
    by (simp_all add: timeline_ok_snoc flip: append_assoc)
  from snoc.IH [OF old(1)] snoc.prems(2) have IH: "timeline_ok ?new" "delivered ?new = n"
      "last_delta (cursor_of ?new) \<le> last_delta (cursor_of ?old)"
    by simp_all
  have "\<not> terminal (cursor_of ?new)" using old(2) assms(5) by (auto simp: cursor_of_def)
  moreover have "event_ok ?new (move_error n e)"
    using old(5) snoc.prems(2) IH(2) assms(5)
    by (cases "se_event e") (auto simp: event_ok_def move_error_event)
  moreover have "data_length e = 0"
    using snoc.prems(2) by (auto simp: data_length_def split: stream_event_kind.splits)
  ultimately have "timeline_ok (?new @ [move_error n e]) \<and> delivered (?new @ [move_error n e]) = n
      \<and> last_delta (cursor_of (?new @ [move_error n e])) \<le> last_delta (cursor_of (?old @ [e]))"
    unfolding timeline_ok_snoc cursor_of_snoc delivered_snoc
    using IH old(3,4) order_trans [OF IH(3) old(3)] by simp
  then show ?case by simp
qed

lemma position_takeWhile: "takeWhile P es \<noteq> [] \<Longrightarrow> position P es = Some 0"
  by (cases es) (auto split: if_splits)

text \<open>
  Property C14: Repairing the timeline of a response after its body was rewritten keeps it acceptable:
  the repaired timeline is legal and delivers exactly the recorded length, provided the original
  was legal and delivered something or nothing is to be delivered. Everything but the data and the
  offset of an error stays as it was observed.
\<close>

theorem repaired_timeline_delivers_the_body:
  assumes "timeline_ok es" and "delivered es \<noteq> 0 \<or> body_ref_len (resp_body response) \<in> {None, Some 0}"
  shows "timeline_ok (reconcile_stream_event_body_length es (OutResponse response))
    \<and> delivered (reconcile_stream_event_body_length es (OutResponse response))
        = unwrap_or (body_ref_len (resp_body response)) 0
    \<and> map se_event (filter (\<lambda>e. \<not> is_data e \<and> \<not> is_terminal e)
          (reconcile_stream_event_body_length es (OutResponse response)))
        = map se_event (filter (\<lambda>e. \<not> is_data e \<and> \<not> is_terminal e) es)"
proof -
  let ?n = "unwrap_or (body_ref_len (resp_body response)) 0"
  let ?ds = "takeWhile is_data es" and ?rest = "dropWhile is_data es"
  have kept: "filter (\<lambda>e. \<not> is_data e) es = ?rest" using timeline_data_first [OF assms(1)] by simp
  then have none: "\<forall>e\<in>set ?rest. \<not> is_data e" unfolding kept [symmetric] by simp
  have ok: "timeline_ok (?ds @ ?rest)" using assms(1) by simp
  have same: "map se_event (filter (\<lambda>e. \<not> is_data e \<and> \<not> is_terminal e) (map (move_error n) xs))
      = map se_event (filter (\<lambda>e. \<not> is_data e \<and> \<not> is_terminal e) xs)" for n xs
    by (induction xs) (simp_all add: move_error_id del: is_data.simps)
  have others: "filter (\<lambda>e. \<not> is_data e \<and> \<not> is_terminal e) es = filter (\<lambda>e. \<not> is_data e \<and> \<not> is_terminal e) ?rest"
    unfolding kept [symmetric] by (auto simp: filter_filter intro: filter_cong simp del: is_data.simps)
  show ?thesis
  proof (cases "delivered es = ?n")
    case True
    with assms(1) show ?thesis by (simp add: reconcile_stream_event_body_length_def Let_def)
  next
    case False
    show ?thesis
    proof (cases "?n = 0")
      case True
      then have result: "reconcile_stream_event_body_length es (OutResponse response) = map (move_error 0) ?rest"
        using False by (simp add: reconcile_stream_event_body_length_def Let_def kept del: is_data.simps)
      have "timeline_ok []" by (simp add: timeline_ok_def)
      then show ?thesis
        using timeline_rebase [OF ok none, of "[]" 0] True same others
        unfolding result by (simp add: delivered_def cursor_of_def)
    next
      case n: False
      with assms(2) have "delivered es \<noteq> 0"
        by (auto simp: unwrap_or_def)
      have "?ds \<noteq> []"
      proof
        assume "?ds = []"
        with kept have "\<forall>e\<in>set es. \<not> is_data e" by (metis none self_append_conv2 takeWhile_dropWhile_id)
        then have "delivered es = 0"
          by (induction es rule: rev_induct)
            (auto simp: delivered_def data_length_def split: stream_event_kind.splits)
        with \<open>delivered es \<noteq> 0\<close> show False by simp
      qed
      then obtain d ds where ds: "?ds = d # ds" and "es = d # ds @ ?rest" and d: "is_data d"
        by (metis append_Cons list.exhaust set_takeWhileD list.set_intros(1) takeWhile_dropWhile_id)
      have d0: "es ! 0 = d" by (subst \<open>es = d # ds @ ?rest\<close>) simp
      let ?x = "\<lparr>se_delta_ns = se_delta_ns d, se_event = SData 0 ?n\<rparr>"
      have pos: "position is_data es = Some 0" using \<open>?ds \<noteq> []\<close> by (rule position_takeWhile)
      have moved: "move_error ?n ?x = ?x" by (simp add: move_error_def)
      have result: "reconcile_stream_event_body_length es (OutResponse response) = [?x] @ map (move_error ?n) ?rest"
        using False n moved
        by (simp add: reconcile_stream_event_body_length_def Let_def kept pos d0 word_neq_0_conv unwrap_or_def
            del: is_data.simps)
      have dsok: "timeline_ok (d # ds)" using ok ds timeline_prefix by metis
      then have "se_delta_ns d \<le> se_delta_ns (last (d # ds))" "se_delta_ns d \<le> MAX_STREAM_DELAY_NS"
        by (auto simp: timeline_ok_def)
      moreover have "timeline_ok [?x]"
        using calculation n by (simp add: timeline_ok_def event_ok_def delivered_def)
      moreover have "delivered [?x] = ?n" "\<forall>e\<in>set [?x]. \<not> is_terminal e \<and> \<not> is_trailers e"
        by (simp_all add: delivered_def data_length_def is_terminal_def is_trailers_def sat_add_0_left)
      moreover have "last_delta (cursor_of [?x]) \<le> last_delta (cursor_of ?ds)"
        using calculation(1) by (simp add: cursor_of_def ds)
      ultimately have "timeline_ok ([?x] @ map (move_error ?n) ?rest)
          \<and> delivered ([?x] @ map (move_error ?n) ?rest) = ?n"
        using timeline_rebase [OF ok none, of "[?x]" ?n] by blast
      moreover have "is_data ?x" by simp
      ultimately show ?thesis
        unfolding result using same [of ?n ?rest] others by (simp del: is_data.simps)
    qed
  qed
qed

section \<open>Properties\<close>

text \<open>
  Property C13: What is captured of a response is what was on the wire. The capture succeeds exactly when
  the body is within the writer's limit and the response makes at most 2048 events, the last one
  included; then the events are those of the frames, one for each, with their times and contiguous
  offsets, the trailers are the last ones received, and the bytes staged are the bytes of the body.
\<close>

theorem response_is_captured_iff:
  assumes "writer_ok d w" and "bw_hasher w = []" and "sized_frames frames"
  shows "case response_loop to_str end_ns frames d w capture_start of (d', w', r) \<Rightarrow>
    (is_ok r \<longleftrightarrow> length (wire_bytes frames) \<le> unat (bw_max_bytes w)
       \<and> length (wire_events to_str end_ns 0 frames) \<le> 2048)
    \<and> (\<forall>cap. r = Inr cap \<longrightarrow>
         cap_events cap = wire_events to_str end_ns 0 frames
         \<and> cap_trailers cap = wire_trailers to_str [] frames \<and> bw_hasher w' = wire_bytes frames)"
proof -
  obtain d' w' r where run: "response_loop to_str end_ns frames d w capture_start = (d', w', r)" by (rule prod_cases3)
  from response_loop_result [OF assms(1,3) _ this] assms(2) show ?thesis
    unfolding run by (auto simp: capture_start_def MAX_EVENTS_PER_DIRECTION_def MAX_STREAM_EVENTS_PER_FLOW_def is_ok_def
        split: if_splits)
qed

definition sample_frames :: "(nat \<times> (fetch_error + body_frame)) list" where
  "sample_frames = [(5, Inr (FrData ''ab'')), (7, Inr (FrData [])), (9, Inr (FrData ''c'')),
     (12, Inr (FrTrailers [(''x-sum'', [''1''])]))]"

definition sample_staging :: "fixture_dir \<times> body_writer" where
  "sample_staging = (\<lparr>fd_files = [], fd_blobs = Some [(staging_name ''u'', RegularFile [])]\<rparr>,
     \<lparr>bw_file = True, bw_path = staging_name ''u'', bw_hasher = [], bw_length = 0, bw_max_bytes = 8\<rparr>)"

lemma sized_sample: "sized_frames sample_frames"
  by (auto simp: sized_frames_def sample_frames_def)

theorem response_is_captured_iff_witness:
  "is_ok (snd (snd (response_loop Some 20 sample_frames (fst sample_staging) (snd sample_staging) capture_start)))"
proof -
  have "writer_ok (fst sample_staging) (snd sample_staging)"
    by (simp add: sample_staging_def writer_ok_def staging_not_digest blob_node_def blob_entries_def)
  moreover have "bw_hasher (snd sample_staging) = []" by (simp add: sample_staging_def)
  moreover have "length (wire_bytes sample_frames) \<le> unat (bw_max_bytes (snd sample_staging))"
    "length (wire_events Some 20 0 sample_frames) \<le> 2048" by code_simp+
  ultimately show ?thesis
    using response_is_captured_iff [of "fst sample_staging" "snd sample_staging" sample_frames Some 20] sized_sample
    by (auto split: prod.splits)
qed

text \<open>
  A capture of a response whose frames arrive in time order within a minute, with trailers
  that come once, are small and are not followed by data, is a timeline the store accepts.
\<close>

theorem orderly_response_is_accepted:
  assumes "frames_legal to_str False frames" and "sized_frames frames"
    and "sorted (map fst frames @ [end_ns])" and "end_ns \<le> 60000000000"
  shows "timeline_ok (wire_events to_str end_ns 0 frames)"
proof -
  have "sorted (0 # map fst frames @ [end_ns])" using assms(3) by simp
  from wire_timeline [OF cursor_at_start assms(1,2) this assms(4)] show ?thesis by simp
qed

theorem orderly_response_is_accepted_witness: "timeline_ok (wire_events Some 20 0 sample_frames)"
proof (rule orderly_response_is_accepted)
  show "frames_legal Some False sample_frames" by code_simp
  show "sorted (map fst sample_frames @ [20])" by code_simp
qed (simp_all add: sized_sample)

theorem repaired_timeline_delivers_the_body_witness:
  "delivered (reconcile_stream_event_body_length (wire_events Some 20 0 sample_frames)
     (OutResponse (sample_response\<lparr>resp_body := BodyBlob \<lparr>blob_sha256 = ''d'', blob_length = 40\<rparr>\<rparr>))) = 40"
proof -
  have "timeline_ok ([] @ wire_events Some 20 0 sample_frames)"
  proof (rule wire_timeline [OF cursor_at_start])
    show "frames_legal Some False sample_frames" by code_simp
    show "sorted (0 # map fst sample_frames @ [20])" by code_simp
  qed (simp_all add: sized_sample)
  then have "timeline_ok (wire_events Some 20 0 sample_frames)" by simp
  moreover have "delivered (wire_events Some 20 0 sample_frames) \<noteq> 0" by code_simp
  ultimately show ?thesis
    using repaired_timeline_delivers_the_body [of "wire_events Some 20 0 sample_frames"
        "sample_response\<lparr>resp_body := BodyBlob \<lparr>blob_sha256 = ''d'', blob_length = 40\<rparr>\<rparr>"]
    by (simp add: unwrap_or_def)
qed

end
