(* ===== verification/Record_Request_Facts.thy ===== *)
theory Record_Request_Facts
  imports Record_Request Record_Capture_Facts
begin

text \<open>
  What a recorded exchange leaves in the fixture: the contract of the two stores a recording writes
  to, the bodies and the flow a successful call publishes, and what it hides.
\<close>

section \<open>The contract of a store\<close>

text \<open>
  A call of a store that succeeds acts on the staging directory as the functions of \<open>Store_Blobs\<close>
  do, an appended flow is one more line of the log, and an accepted timeline is a legal one.
\<close>

locale recording_store =
  fixes X :: ext_lib and C :: codec and S :: "'s store_ops" and lim :: "'s \<Rightarrow> store_limits"
  assumes dir_set: "so_dir S (so_set_dir S d s) = d"
    and begin_law: "so_begin_blob S u s = (s', Inr w) \<Longrightarrow> begin_blob (so_dir S s) (lim s) u = (so_dir S s', Inr w)"
    and finish_law: "bw_file w \<Longrightarrow> so_finish S w s = (s', Inr body) \<Longrightarrow>
      body_finish X (so_dir S s) w = (so_dir S s', Inr body)"
    and drop_law: "so_dir S (so_drop S w s) = body_drop (so_dir S s) w"
    and flow_law: "so_append_flow S fl s = (s', Inr ()) \<Longrightarrow>
      \<exists>encoded. cd_flow_to C fl = Some encoded
        \<and> so_dir S s' = (so_dir S s)\<lparr>fd_files := entry_append ''flows.jsonl'' (encoded @ [newline]) (fd_files (so_dir S s))\<rparr>"
    and events_law: "so_append_events S events s = (s', Inr ()) \<Longrightarrow>
      so_dir S s' = so_dir S s \<and> flow_events_ok events"

text \<open>One body more among the blobs, and nothing else.\<close>

definition published :: "ext_lib \<Rightarrow> fixture_dir \<Rightarrow> bytes \<Rightarrow> fixture_dir \<Rightarrow> bool" where
  "published X d b d' \<longleftrightarrow>
     fd_files d' = fd_files d \<and> blobs_wf X d'
     \<and> (\<forall>k. blob_node d' k = (if b \<noteq> [] \<and> k = x_sha256 X b then Some (RegularFile b) else blob_node d k))"

text \<open>A body that is being staged on top of a directory.\<close>

definition staging_on :: "ext_lib \<Rightarrow> fixture_dir \<Rightarrow> fixture_dir \<Rightarrow> body_writer \<Rightarrow> bool" where
  "staging_on X d0 d w \<longleftrightarrow>
     writer_ok d w \<and> blobs_wf X d \<and> fd_files d = fd_files d0
     \<and> (\<forall>k. blob_node d0 k = (if k = bw_path w then None else blob_node d k))"

lemma staging_on_writes: "staging_on X d0 d w \<Longrightarrow> writes_frame d w d' w' \<Longrightarrow> staging_on X d0 d' w'"
  by (auto simp: staging_on_def writes_frame_def)

lemma staging_on_collides:
  assumes "staging_on X d0 d w" and "sha256_lawful X" and "\<not> collides X d0 b"
  shows "\<not> collides X d b"
proof -
  have "x_sha256 X b \<noteq> bw_path w"
    using assms(1) digest_ok_sha256 [OF assms(2), of b] by (auto simp: staging_on_def writer_ok_def)
  with assms(1,3) show ?thesis by (simp add: staging_on_def collides_def)
qed

lemma staging_on_drop:
  assumes "staging_on X d0 d w"
  shows "published X d0 [] (body_drop d w)"
  using assms by (auto simp: staging_on_def published_def body_drop_def blob_node_remove blobs_wf_remove)
    (simp_all add: remove_staging_def)

lemma staging_on_finish:
  assumes "staging_on X d0 d w" and "sha256_lawful X" and "\<not> collides X d0 (bw_hasher w)"
    and "body_finish X d w = (d', Inr body)"
  shows "body = body_ref_of X (bw_hasher w) \<and> published X d0 (bw_hasher w) d'"
proof -
  have w: "writer_ok d w" "blobs_wf X d" using assms(1) by (simp_all add: staging_on_def)
  obtain d1 where "body_finish X d w = (d1, Inr (body_ref_of X (bw_hasher w)))"
    and "blob_published X d (bw_path w) (bw_hasher w) d1"
    by (rule body_finish_ok [OF assms(2) w(2,1) staging_on_collides [OF assms(1-3)]])
  moreover have "bw_path w \<noteq> x_sha256 X (bw_hasher w)"
    using w(1) digest_ok_sha256 [OF assms(2)] by (auto simp: writer_ok_def)
  ultimately show ?thesis
    using assms(1,4) by (auto simp: blob_published_def published_def staging_on_def)
qed

lemma begin_staging:
  assumes "begin_blob d lim u = (d', Inr w)" and "blobs_wf X d"
  shows "staging_on X d d' w \<and> bw_hasher w = [] \<and> bw_max_bytes w = sl_max_blob_bytes lim"
proof -
  obtain es where es: "fd_blobs d = Some es" using assms(2) by (auto simp: blobs_wf_def)
  have fresh: "blob_node d (staging_name u) = None"
    using assms(1) es by (auto simp: begin_blob_def entry_create_new_def blob_node_def blob_entries_def
        split: option.splits if_splits sum.splits)
  obtain d1 w1 where "begin_blob d lim u = (d1, Inr w1)" "writer_ok d1 w1" "bw_hasher w1 = []"
    "bw_path w1 = staging_name u" "bw_max_bytes w1 = sl_max_blob_bytes lim" "blobs_wf X d1"
    "fd_files d1 = fd_files d" "\<forall>k. k \<noteq> staging_name u \<longrightarrow> blob_node d1 k = blob_node d k"
    by (rule store_body_begin [OF assms(2) fresh])
  with assms(1) fresh show ?thesis by (auto simp: staging_on_def)
qed

lemma read_staging_ok:
  assumes "writer_ok d w"
  shows "read_staging_bounded d w bound =
    (if bw_length w > bound then Inl (StInvalid ''staged body exceeds structured redaction limit'')
     else Inr (bw_hasher w))"
  using assms by (simp add: read_staging_bounded_def writer_ok_def rbind_def map_err_def)

section \<open>Finishing\<close>

context recording_store begin

lemma begin_staging_on:
  assumes "so_begin_blob S u s = (s', Inr w)" and "blobs_wf X (so_dir S s)"
  shows "staging_on X (so_dir S s) (so_dir S s') w \<and> bw_hasher w = []
    \<and> bw_max_bytes w = sl_max_blob_bytes (lim s)"
  by (rule begin_staging [OF begin_law [OF assms(1)] assms(2)])

lemma finish_raw_ok:
  assumes "finish_raw S s w = (s', Inr (body, markers))" and "staging_on X d0 (so_dir S s) w"
    and "sha256_lawful X" and "\<not> collides X d0 (bw_hasher w)"
  shows "body = body_ref_of X (bw_hasher w) \<and> published X d0 (bw_hasher w) (so_dir S s') \<and> markers = []"
proof -
  have "bw_file w" using assms(2) by (simp add: staging_on_def writer_ok_def)
  moreover obtain s1 where "so_finish S w s = (s1, Inr body)" "s' = s1" "markers = []"
    using assms(1) by (auto simp: finish_raw_def split: prod.splits sum.splits)
  ultimately show ?thesis using staging_on_finish [OF assms(2-4) finish_law] by blast
qed

lemma publish_fresh_ok:
  assumes "publish_fresh S u s b = (s', Inr body)" and "blobs_wf X (so_dir S s)"
    and "sha256_lawful X" and "\<not> collides X (so_dir S s) b" and "length b < 2 ^ 64"
  shows "body = body_ref_of X b \<and> published X (so_dir S s) b (so_dir S s')"
proof (cases "b = []")
  case True
  with assms show ?thesis by (auto simp: publish_fresh_def body_ref_of_def published_def)
next
  case False
  with assms(1) obtain s1 fresh d2 fresh2 where started: "so_begin_blob S u s = (s1, Inr fresh)"
    and wr: "write_buffer (so_dir S s1) fresh b = (d2, fresh2, Inr ())"
    and fin: "so_finish S fresh2 (so_set_dir S d2 s1) = (s', Inr body)"
    by (auto simp: publish_fresh_def split: prod.splits sum.splits)
  from begin_staging_on [OF started assms(2)] have on: "staging_on X (so_dir S s) (so_dir S s1) fresh"
    and empty: "bw_hasher fresh = []" by simp_all
  from on have "writer_ok (so_dir S s1) fresh" by (simp add: staging_on_def)
  from write_buffer_frame [OF this assms(5) wr] have fr: "writes_frame (so_dir S s1) fresh d2 fresh2"
    and hash: "bw_hasher fresh2 = b" using empty by (simp_all add: is_ok_def)
  from staging_on_writes [OF on fr] have on2: "staging_on X (so_dir S s) d2 fresh2" .
  then have "bw_file fresh2" by (simp add: staging_on_def writer_ok_def)
  from finish_law [OF this fin] staging_on_finish [OF on2 assms(3)] assms(4) hash show ?thesis
    by (simp add: dir_set)
qed

text \<open>Whatever the branch, a successful finish publishes the transformed body and nothing else.\<close>

lemma finish_redacted_ok:
  assumes "finish_redacted X S u ct config profile bound is_response s w = (s', Inr (body, markers))"
    and on: "staging_on X d0 (so_dir S s) w" and X: "sha256_lawful X"
    and b: "transform_body X (bw_hasher w) ct config profile is_response = Inr (b, m)"
    and unique: "\<not> collides X d0 b" and small: "length b < 2 ^ 64"
  shows "body = body_ref_of X b \<and> markers = m \<and> published X d0 b (so_dir S s')"
proof -
  have w: "writer_ok (so_dir S s) w" using on by (simp add: staging_on_def)
  then have zero: "bw_length w = 0 \<longleftrightarrow> bw_hasher w = []"
    by (auto simp: writer_ok_def word_unat_eq_iff)
  note raw = finish_raw_ok [OF _ on X]
  consider (raw) "finish_raw S s w = (s', Inr (body, markers))" "b = bw_hasher w" "m = []"
    | (transformed) raw where "needs_transform config ct" "read_staging_bounded (so_dir S s) w bound = Inr raw"
        "bw_hasher w \<noteq> []"
  proof (cases "bw_length w = 0 \<or> \<not> wants_body_redaction config \<or> \<not> needs_transform config ct")
    case True
    with assms(1) b zero show thesis
      by (intro raw) (auto simp: finish_redacted_def transform_body_def wants_body_redaction_def needs_transform_def
          split: if_splits)
  next
    case False
    then obtain raw where "read_staging_bounded (so_dir S s) w bound = Inr raw"
      using assms(1) by (cases "read_staging_bounded (so_dir S s) w bound") (auto simp: finish_redacted_def)
    with False zero show thesis by (intro transformed) auto
  qed
  then show ?thesis
  proof cases
    case raw
    with finish_raw_ok [OF raw(1) on X] unique show ?thesis by simp
  next
    case (transformed raw)
    have same: "raw = bw_hasher w"
      using transformed(2) unfolding read_staging_ok [OF w] by (simp split: if_splits)
    have "bw_length w \<noteq> 0" using transformed(3) zero by simp
    moreover have "wants_body_redaction config"
      using transformed(1) by (auto simp: needs_transform_def wants_body_redaction_def)
    ultimately have fresh: "publish_fresh S u (so_drop S w s) b = (s', Inr body)" and "markers = m"
      using assms(1) transformed(1,2) b unfolding same
      by (auto simp: finish_redacted_def Let_def split: prod.splits sum.splits)
    have dropped: "published X d0 [] (so_dir S (so_drop S w s))"
      unfolding drop_law by (rule staging_on_drop [OF on])
    then have "blobs_wf X (so_dir S (so_drop S w s))" "\<not> collides X (so_dir S (so_drop S w s)) b"
      using unique by (simp_all add: published_def collides_def)
    from publish_fresh_ok [OF fresh this(1) X this(2) small] dropped \<open>markers = m\<close> show ?thesis
      by (auto simp: published_def)
  qed
qed

end

section \<open>The request body\<close>

text \<open>The bytes the tee writes: a buffer that would pass the limit of the writer is refused as a whole.\<close>

fun sent_bytes :: "nat \<Rightarrow> bytes \<Rightarrow> (nat \<times> body_poll) list \<Rightarrow> bytes" where
  "sent_bytes limit sent ((_, PollFrame (FrData data)) # polls) =
     sent_bytes limit (if length (sent @ data) \<le> limit then sent @ data else sent) polls"
| "sent_bytes limit sent ((_, PollFrame _) # polls) = sent_bytes limit sent polls"
| "sent_bytes limit sent _ = sent"

definition sized_polls :: "(nat \<times> body_poll) list \<Rightarrow> bool" where
  "sized_polls polls \<longleftrightarrow> (\<forall>now data. (now, PollFrame (FrData data)) \<in> set polls \<longrightarrow> length data < 2 ^ 64)"

lemma tee_polls_done: "ts_done this \<Longrightarrow> tee_polls to_str polls d w this = (d, w, this)"
  by (induction polls) (auto simp: tee_poll_def)

lemma tee_session_polls_done: "ts_done this \<Longrightarrow> tee_session_polls to_str polls d w this = (d, w, this)"
  by (induction polls) (auto simp: tee_session_poll_def)

lemma writes_frame_refl: "writer_ok d w \<Longrightarrow> writes_frame d w d w"
  by (simp add: writes_frame_def)

lemma push_quietly_done: "ts_done (push_quietly now kind this) = ts_done this"
  by (simp add: push_quietly_def split: sum.splits)

lemma write_buffer_sent:
  assumes "writer_ok d w" and "length data < 2 ^ 64" and "write_buffer d w data = (d1, w1, r)"
  shows "writes_frame d w d1 w1 \<and> bw_hasher w1 =
    (if length (bw_hasher w @ data) \<le> unat (bw_max_bytes w) then bw_hasher w @ data else bw_hasher w)"
proof (cases "is_ok r")
  case True
  with write_buffer_frame [OF assms] show ?thesis by auto
next
  case False
  have "w1 = w \<or> is_ok r"
    using assms(3) body_write_eq [OF assms(1,2)]
    by (cases "data = []") (auto simp: write_buffer_def is_ok_def split: if_splits)
  with False write_buffer_frame [OF assms] show ?thesis by auto
qed

lemma tee_polls_sent:
  assumes "writer_ok d w" and "sized_polls polls" and "tee_polls to_str polls d w this = (d', w', this')"
    and "\<not> ts_done this"
  shows "writes_frame d w d' w' \<and> bw_hasher w' = sent_bytes (unat (bw_max_bytes w)) (bw_hasher w) polls"
  using assms
proof (induction "unat (bw_max_bytes w)" "bw_hasher w" polls arbitrary: d w this rule: sent_bytes.induct)
  case (1 now data polls)
  obtain d1 w1 r where wr: "write_buffer d w data = (d1, w1, r)" by (rule prod_cases3)
  have "length data < 2 ^ 64" "sized_polls polls" using 1(3) by (auto simp: sized_polls_def)
  note one = write_buffer_sent [OF 1(2) this(1) wr]
  then have ok: "writer_ok d1 w1" and max: "bw_max_bytes w1 = bw_max_bytes w" by (simp_all add: writes_frame_def)
  have more: "tee_polls to_str polls d1 w1 this = (d', w', this')"
    using 1(4,5) wr by (simp add: tee_poll_def)
  have "writes_frame d1 w1 d' w' \<and> bw_hasher w' = sent_bytes (unat (bw_max_bytes w1)) (bw_hasher w1) polls"
    using one max \<open>sized_polls polls\<close> 1(5) more ok by (intro 1(1)) auto
  with one max show ?case by (auto intro: writes_frame_trans)
qed (auto simp: tee_poll_def sized_polls_def tee_polls_done writes_frame_refl)

lemma tee_session_polls_sent:
  assumes "writer_ok d w" and "sized_polls polls" and "tee_session_polls to_str polls d w this = (d', w', this')"
    and "\<not> ts_done this" and "length (ts_events this) + length polls \<le> MAX_EVENTS_PER_DIRECTION"
  shows "writes_frame d w d' w' \<and> bw_hasher w' = sent_bytes (unat (bw_max_bytes w)) (bw_hasher w) polls"
  using assms
proof (induction "unat (bw_max_bytes w)" "bw_hasher w" polls arbitrary: d w this rule: sent_bytes.induct)
  case (1 now data polls)
  obtain d1 w1 r where wr: "write_buffer d w data = (d1, w1, r)" by (rule prod_cases3)
  have "length data < 2 ^ 64" "sized_polls polls" using 1(3) by (auto simp: sized_polls_def)
  note one = write_buffer_sent [OF 1(2) this(1) wr]
  then have ok: "writer_ok d1 w1" and max: "bw_max_bytes w1 = bw_max_bytes w" by (simp_all add: writes_frame_def)
  have room: "length (ts_events this) < MAX_EVENTS_PER_DIRECTION" using 1(6) by simp
  obtain this1 where "tee_session_polls to_str polls d1 w1 this1 = (d', w', this')" "\<not> ts_done this1"
    "length (ts_events this1) + length polls \<le> MAX_EVENTS_PER_DIRECTION"
    using 1(4-6) wr room
    by (cases r) (auto simp: tee_session_poll_def push_stream_event_def split: if_splits)
  then have "writes_frame d1 w1 d' w' \<and> bw_hasher w' = sent_bytes (unat (bw_max_bytes w1)) (bw_hasher w1) polls"
    using one max \<open>sized_polls polls\<close> ok by (intro 1(1)) auto
  with one max show ?case by (auto intro: writes_frame_trans)
qed (auto simp: tee_session_poll_def sized_polls_def tee_session_polls_done writes_frame_refl push_quietly_done
    push_other Let_def)

section \<open>The response\<close>

context recording_store begin

lemma observe_response_ok:
  assumes run: "observe_response X R ex S s = (s', Inr ob)" and response: "ex_result ex = Inr response"
    and wf: "blobs_wf X (so_dir S s)" and X: "sha256_lawful X" and sized: "sized_frames (wr_frames response)"
    and b: "transform_body X (wire_bytes (wr_frames response)) (content_type (re_to_str R) (wr_headers response))
      (re_redaction R) (re_profile R) True = Inr (b, m)"
    and unique: "\<not> collides X (so_dir S s) b" and small: "length b < 2 ^ 64"
  shows "published X (so_dir S s) b (so_dir S s')
    \<and> (\<exists>out. ob_outcome ob = OutResponse out \<and> resp_body out = body_ref_of X b \<and> resp_status out = wr_status response
         \<and> resp_trailers out = wire_trailers (re_to_str R) [] (wr_frames response))
    \<and> ob_events ob = wire_events (re_to_str R) (wr_end_ns response) 0 (wr_frames response)"
proof -
  from run response obtain s1 sink d2 sink2 cap body markers where
    started: "so_begin_blob S (fst (ex_response_names ex)) s = (s1, Inr sink)"
    and loop: "response_loop (re_to_str R) (wr_end_ns response) (wr_frames response) (so_dir S s1) sink capture_start
      = (d2, sink2, Inr cap)"
    and fin: "finish_redacted X S (snd (ex_response_names ex)) (content_type (re_to_str R) (wr_headers response))
      (re_redaction R) (re_profile R) (re_max_structured R) True (so_set_dir S d2 s1) sink2 = (s', Inr (body, markers))"
    and ob: "ob = reconciled_response R response cap body markers"
    by (auto simp: observe_response_def split: prod.splits sum.splits)
  from begin_staging_on [OF started wf] have on: "staging_on X (so_dir S s) (so_dir S s1) sink"
    and empty: "bw_hasher sink = []" by simp_all
  from on have "writer_ok (so_dir S s1) sink" by (simp add: staging_on_def)
  from response_loop_result [OF this sized _ loop] empty
  have fr: "writes_frame (so_dir S s1) sink d2 sink2" and hash: "bw_hasher sink2 = wire_bytes (wr_frames response)"
    and cap: "cap_events cap = wire_events (re_to_str R) (wr_end_ns response) 0 (wr_frames response)"
      "cap_trailers cap = wire_trailers (re_to_str R) [] (wr_frames response)"
    by (auto simp: capture_start_def split: if_splits)
  have "staging_on X (so_dir S s) (so_dir S (so_set_dir S d2 s1)) sink2"
    unfolding dir_set by (rule staging_on_writes [OF on fr])
  from finish_redacted_ok [OF fin this X _ unique small] b hash
  have "body = body_ref_of X b" "published X (so_dir S s) b (so_dir S s')" by auto
  then show ?thesis using cap by (auto simp: ob reconciled_response_def Let_def split: prod.splits if_splits)
qed

lemma append_both_ok:
  assumes "append_both S fl events s = (s', Inr fl')"
  shows "fl' = fl \<and> flow_events_ok events \<and> (\<exists>encoded. cd_flow_to C fl = Some encoded
    \<and> so_dir S s' = (so_dir S s)\<lparr>fd_files := entry_append ''flows.jsonl'' (encoded @ [newline]) (fd_files (so_dir S s))\<rparr>)"
proof -
  obtain s1 where "so_append_flow S fl s = (s1, Inr ())" "so_append_events S events s1 = (s', Inr ())" "fl' = fl"
    using assms by (auto simp: append_both_def split: prod.splits sum.splits)
  with flow_law events_law show ?thesis by metis
qed

end

section \<open>The two stores\<close>

lemma recording_body_finish_ok:
  "bw_file w \<Longrightarrow> recording_body_finish X d w = (d', Inr body) \<Longrightarrow> body_finish X d w = (d', Inr body)"
  by (auto simp: recording_body_finish_def body_finish_def split: if_splits prod.splits sum.splits)

lemma single_timeline:
  "validate_stream_events \<lparr>ses_schema_version = STREAM_EVENTS_SCHEMA_VERSION, ses_flows = [events]\<rparr> = Inr () \<Longrightarrow>
     flow_events_ok events"
  by (simp add: validate_stream_events_Inr_iff flows_ok_def)

interpretation writer_recording: recording_store X C "writer_store C X" "\<lambda>s. sw_limits (snd s)" for X C
proof
  show "\<exists>encoded. cd_flow_to C fl = Some encoded \<and> so_dir (writer_store C X) s'
      = (so_dir (writer_store C X) s)\<lparr>fd_files := entry_append ''flows.jsonl'' (encoded @ [newline])
          (fd_files (so_dir (writer_store C X) s))\<rparr>"
    if "so_append_flow (writer_store C X) fl s = (s', Inr ())" for fl s s'
    using that by (auto simp: writer_store_def append_flow_def Let_def rbind_Inr_iff if_Inl_eq_Inr map_err_Inr_iff
        ok_or_Inr_iff split: prod.splits sum.splits)
  show "so_dir (writer_store C X) s' = so_dir (writer_store C X) s \<and> flow_events_ok events"
    if "so_append_events (writer_store C X) events s = (s', Inr ())" for events s s'
    using that by (auto simp: writer_store_def append_stream_events_def rbind_Inr_iff map_err_Inr_iff
        split: prod.splits sum.splits intro: single_timeline)
qed (auto simp: writer_store_def split: prod.splits)

interpretation session_recording: recording_store X C "session_store C X" "\<lambda>s. rc_limits (snd s)" for X C
proof
  show "\<exists>encoded. cd_flow_to C fl = Some encoded \<and> so_dir (session_store C X) s'
      = (so_dir (session_store C X) s)\<lparr>fd_files := entry_append ''flows.jsonl'' (encoded @ [newline])
          (fd_files (so_dir (session_store C X) s))\<rparr>"
    if "so_append_flow (session_store C X) fl s = (s', Inr ())" for fl s s'
    using that by (auto simp: session_store_def session_append_flow_def flow_admission_def append_flow_locked_def
        rbind_Inr_iff if_Inl_eq_Inr map_err_Inr_iff ok_or_Inr_iff simp del: checked_add_Some_iff
        split: prod.splits sum.splits if_splits option.splits)
  show "so_dir (session_store C X) s' = so_dir (session_store C X) s \<and> flow_events_ok events"
    if "so_append_events (session_store C X) events s = (s', Inr ())" for events s s'
    using that by (auto simp: session_store_def append_events_locked_def rbind_Inr_iff if_Inl_eq_Inr map_err_Inr_iff
        split: prod.splits sum.splits intro: single_timeline)
qed (auto simp: session_store_def session_begin_blob_def Let_def recording_body_finish_ok
    split: prod.splits sum.splits if_splits)

section \<open>What is hidden\<close>

lemma reconcile_headers_members:
  "h \<in> set (fst (reconcile_headers_after_body_redaction headers n profile)) \<Longrightarrow>
     h \<in> set headers \<or> h_name h = ''content-length''"
  by (auto simp: reconcile_headers_after_body_redaction_def)

lemma reconcile_request_fields:
  "req_trailers (fl_request (reconcile_request R fl)) = req_trailers (fl_request fl)"
  "req_query (fl_request (reconcile_request R fl)) = req_query (fl_request fl)"
  "req_body (fl_request (reconcile_request R fl)) = req_body (fl_request fl)"
  "fl_outcome (reconcile_request R fl) = fl_outcome fl" "fl_id (reconcile_request R fl) = fl_id fl"
  "req_headers (fl_request (reconcile_request R fl)) = fst (reconcile_headers_after_body_redaction
     (req_headers (fl_request fl)) (unwrap_or (body_ref_len (req_body (fl_request fl))) 0) (re_profile R))"
  by (simp_all add: reconcile_request_def split: prod.splits)

lemma note_lossy_fields [simp]:
  "fl_request (note_lossy lossy fl) = fl_request fl" "fl_outcome (note_lossy lossy fl) = fl_outcome fl"
  by (simp_all add: note_lossy_def)

lemma draft_flow_fields:
  "fl_request (draft_flow R ex request ob ms) = request
     \<lparr>req_headers := map (mask_header (rc_headers (re_redaction R))) (req_headers request),
      req_trailers := map (mask_header (rc_headers (re_redaction R))) (req_trailers request),
      req_query := map (mask_pair (rc_query_keys (re_redaction R))) (req_query request)\<rparr>"
  "fl_outcome (draft_flow R ex request ob ms) = outcome_masked (rc_headers (re_redaction R)) (ob_outcome ob)"
  by (simp_all add: draft_flow_def Let_def redact_flow_eq flow_new_def)

lemma recorded_steps:
  assumes "record_request_with_session C X R ex s = (s', Inr fl)"
  obtains s1 converted markers request_events s2 ob events where
    "observe_session_request C X R ex s = (s1, Inr (converted, markers, request_events))"
    and "observe_response X R ex (session_store C X) s1 = (s2, Inr ob)"
    and "conclude_session R ex converted ob markers request_events = (fl, events)"
    and "append_both (session_store C X) fl events s2 = (s', Inr fl)"
proof -
  obtain s1 res1 where request: "observe_session_request C X R ex s = (s1, res1)" by (rule prod.exhaust)
  with assms obtain converted markers request_events where res1: "res1 = Inr (converted, markers, request_events)"
    by (cases res1) (auto simp: record_request_with_session_def)
  obtain s2 res2 where response: "observe_response X R ex (session_store C X) s1 = (s2, res2)" by (rule prod.exhaust)
  with assms request res1 obtain ob where res2: "res2 = Inr ob"
    by (cases res2) (auto simp: record_request_with_session_def observe_session_response_def)
  obtain fl' events where fl': "conclude_session R ex converted ob markers request_events = (fl', events)"
    by (rule prod.exhaust)
  with assms request res1 response res2 have "append_both (session_store C X) fl' events s2 = (s', Inr fl)"
    by (simp add: record_request_with_session_def observe_session_response_def)
  moreover from this have "fl' = fl" by (auto simp: append_both_def split: prod.splits sum.splits)
  ultimately show thesis using that request res1 response res2 fl' by blast
qed

lemma concluded_flow:
  assumes "conclude_session R ex converted ob markers request_events = (fl, events)"
  shows "fl = note_lossy (rr_lossy converted)
      (let draft = draft_flow R ex (rr_request converted) ob (markers @ ob_markers ob)
       in if list_ex names_request_body (fl_redactions draft) then reconcile_request R draft else draft)
    \<and> fse_response events = reconcile_stream_event_body_length (ob_events ob) (fl_outcome fl)"
  using assms by (auto simp: conclude_session_def Let_def)

definition masked :: "string list \<Rightarrow> header_entry list \<Rightarrow> bool" where
  "masked names headers \<longleftrightarrow>
     (\<forall>h\<in>set headers. to_lower (h_name h) \<in> set names \<longrightarrow> h_value h = REDACTED)"

lemma masked_map [simp]: "masked names (map (mask_header names) headers)"
  by (auto simp: masked_def mask_header_def)

text \<open>
  Property C12: No sensitive value is left in a recorded flow. Every header and trailer of the request and
  of the response that the configuration names, and every query value it names, is the placeholder;
  the only header added afterwards is the content length of the redacted body.
\<close>

theorem recorded_flow_is_masked:
  assumes "record_request_with_session C X R ex s = (s', Inr fl)"
  shows "masked (rc_headers (re_redaction R)) (filter (\<lambda>h. h_name h \<noteq> ''content-length'') (req_headers (fl_request fl)))
    \<and> masked (rc_headers (re_redaction R)) (req_trailers (fl_request fl))
    \<and> (\<forall>p\<in>set (req_query (fl_request fl)). q_key p \<in> set (rc_query_keys (re_redaction R)) \<longrightarrow> q_value p = REDACTED)
    \<and> (case fl_outcome fl of
         OutResponse response \<Rightarrow>
           masked (rc_headers (re_redaction R)) (resp_headers response)
           \<and> masked (rc_headers (re_redaction R)) (resp_trailers response)
       | OutError _ \<Rightarrow> True)"
proof -
  obtain converted ob markers request_events events where
    done_flow: "conclude_session R ex converted ob markers request_events = (fl, events)"
    by (rule recorded_steps [OF assms])
  let ?draft = "draft_flow R ex (rr_request converted) ob (markers @ ob_markers ob)"
  have fl: "fl = note_lossy (rr_lossy converted)
      (if list_ex names_request_body (fl_redactions ?draft) then reconcile_request R ?draft else ?draft)"
    using concluded_flow [OF done_flow] by (simp add: Let_def)
  have query: "q_value p = REDACTED" if "p \<in> set (map (mask_pair keys) ps)" "q_key p \<in> set keys" for p keys ps
    using that by (auto simp: mask_pair_def)
  have headers: "masked names (filter (\<lambda>h. h_name h \<noteq> ''content-length'')
      (fst (reconcile_headers_after_body_redaction (map (mask_header names) hs) n profile)))" for names hs n profile
    using masked_map [of names hs] by (auto simp: masked_def dest!: reconcile_headers_members)
  have outcome: "case outcome_masked names out of
      OutResponse response \<Rightarrow> masked names (resp_headers response) \<and> masked names (resp_trailers response)
    | OutError _ \<Rightarrow> True" for names out
    by (cases out) simp_all
  have plain: "masked names (filter (\<lambda>h. h_name h \<noteq> ''content-length'') (map (mask_header names) hs))" for names hs
    using masked_map [of names hs] by (auto simp: masked_def)
  show ?thesis
  proof (cases "list_ex names_request_body (fl_redactions ?draft)")
    case True
    then have "fl = note_lossy (rr_lossy converted) (reconcile_request R ?draft)" by (simp add: fl)
    then show ?thesis
      by (simp add: reconcile_request_fields draft_flow_fields headers outcome query del: set_map)
  next
    case False
    then have "fl = note_lossy (rr_lossy converted) ?draft" by (simp add: fl)
    then show ?thesis by (simp add: draft_flow_fields plain outcome query del: set_map)
  qed
qed

section \<open>What is published\<close>

lemma observe_session_request_ok:
  assumes run: "observe_session_request C X R ex (d, r) = (s', Inr (converted, markers, events))"
    and wf: "blobs_wf X d" and X: "sha256_lawful X" and sized: "sized_polls (ex_polls ex)"
    and few: "length (ex_polls ex) \<le> MAX_EVENTS_PER_DIRECTION"
    and b: "transform_body X (sent_bytes (unat (sl_max_blob_bytes (rc_limits r))) [] (ex_polls ex))
      (content_type (re_to_str R) (ex_headers ex)) (re_redaction R) (re_profile R) False = Inr (b, m)"
    and unique: "\<not> collides X d b" and small: "length b < 2 ^ 64"
  shows "published X d b (fst s') \<and> req_body (rr_request converted) = body_ref_of X b"
proof -
  let ?S = "session_store C X"
  from run obtain head s1 sink d2 sink2 tee body ms where
    started: "so_begin_blob ?S (fst (ex_request_names ex)) (d, r) = (s1, Inr sink)"
    and polls: "tee_session_polls (re_to_str R) (ex_polls ex) (so_dir ?S s1) sink tee_session_start = (d2, sink2, tee)"
    and fin: "finish_redacted X ?S (snd (ex_request_names ex)) (content_type (re_to_str R) (ex_headers ex))
      (re_redaction R) (re_profile R) (re_max_structured R) False (so_set_dir ?S d2 s1) sink2 = (s', Inr (body, ms))"
    and body: "req_body (rr_request converted) = body"
    by (auto simp: observe_session_request_def Let_def finish_session_sink_redacted_def split: prod.splits sum.splits)
  have dir: "so_dir ?S (d, r) = d" "so_dir ?S s' = fst s'" by (simp_all add: session_store_def)
  from session_recording.begin_staging_on [OF started] wf
  have on: "staging_on X d (so_dir ?S s1) sink" and empty: "bw_hasher sink = []"
    and max: "bw_max_bytes sink = sl_max_blob_bytes (rc_limits r)" by (simp_all add: dir)
  from on have "writer_ok (so_dir ?S s1) sink" by (simp add: staging_on_def)
  from tee_session_polls_sent [OF this sized polls] few empty max
  have fr: "writes_frame (so_dir ?S s1) sink d2 sink2"
    and hash: "bw_hasher sink2 = sent_bytes (unat (sl_max_blob_bytes (rc_limits r))) [] (ex_polls ex)"
    by (simp_all add: tee_session_start_def)
  have "staging_on X d (so_dir ?S (so_set_dir ?S d2 s1)) sink2"
    unfolding session_recording.dir_set by (rule staging_on_writes [OF on fr])
  from session_recording.finish_redacted_ok [OF fin this X _ unique small] b hash body show ?thesis
    by (simp add: dir)
qed

text \<open>
  Property C11: What a successful recording publishes. Both bodies are the transformed bytes of the wire
  and nothing else: the flow refers to them, the blob directory gained them and no other blob, and
  the log gained one line, the encoding of the flow that is returned.
\<close>

theorem recording_publishes_the_redacted_exchange:
  assumes "record_request_with_session C X R ex (d, r) = ((d', r'), Inr fl)" and "ex_result ex = Inr response"
    and "sha256_lawful X" and "blobs_wf X d"
    and "sized_polls (ex_polls ex)" and "length (ex_polls ex) \<le> 2048" and "sized_frames (wr_frames response)"
    and "transform_body X (sent_bytes (unat (sl_max_blob_bytes (rc_limits r))) [] (ex_polls ex))
      (content_type (re_to_str R) (ex_headers ex)) (re_redaction R) (re_profile R) False = Inr (b1, m1)"
    and "transform_body X (wire_bytes (wr_frames response)) (content_type (re_to_str R) (wr_headers response))
      (re_redaction R) (re_profile R) True = Inr (b2, m2)"
    and "\<not> collides X d b1" and "\<not> collides X d b2" and "x_sha256 X b1 = x_sha256 X b2 \<longrightarrow> b1 = b2"
    and "length b1 < 2 ^ 64" and "length b2 < 2 ^ 64"
  shows "req_body (fl_request fl) = body_ref_of X b1
    \<and> (\<exists>out. fl_outcome fl = OutResponse out \<and> resp_body out = body_ref_of X b2 \<and> resp_status out = wr_status response)
    \<and> (\<forall>k. blob_node d' k = (if b1 \<noteq> [] \<and> k = x_sha256 X b1 then Some (RegularFile b1)
          else if b2 \<noteq> [] \<and> k = x_sha256 X b2 then Some (RegularFile b2) else blob_node d k))
    \<and> (\<exists>encoded. cd_flow_to C fl = Some encoded
         \<and> fd_files d' = entry_append ''flows.jsonl'' (encoded @ [newline]) (fd_files d))"
proof -
  let ?S = "session_store C X"
  have dir: "so_dir ?S s = fst s" for s by (simp add: session_store_def)
  obtain s1 converted markers request_events s2 ob events where
    request: "observe_session_request C X R ex (d, r) = (s1, Inr (converted, markers, request_events))"
    and observed: "observe_response X R ex ?S s1 = (s2, Inr ob)"
    and done_flow: "conclude_session R ex converted ob markers request_events = (fl, events)"
    and app: "append_both ?S fl events s2 = ((d', r'), Inr fl)"
    by (rule recorded_steps [OF assms(1)])
  have few: "length (ex_polls ex) \<le> MAX_EVENTS_PER_DIRECTION"
    using assms(6) by (simp add: MAX_EVENTS_PER_DIRECTION_def MAX_STREAM_EVENTS_PER_FLOW_def)
  from observe_session_request_ok [OF request assms(4,3,5) few assms(8,10,13)]
  have p1: "published X d b1 (fst s1)" and body1: "req_body (rr_request converted) = body_ref_of X b1" by simp_all
  have "\<not> collides X (fst s1) b2"
    using p1 assms(11,12) by (auto simp: published_def collides_def split: if_splits)
  moreover have "blobs_wf X (fst s1)" using p1 by (simp add: published_def)
  ultimately obtain out where p2: "published X (fst s1) b2 (fst s2)" and out: "ob_outcome ob = OutResponse out"
    "resp_body out = body_ref_of X b2" "resp_status out = wr_status response"
    using session_recording.observe_response_ok [OF observed assms(2) _ assms(3,7,9) _ assms(14)] by (auto simp: dir)
  let ?draft = "draft_flow R ex (rr_request converted) ob (markers @ ob_markers ob)"
  have fl: "fl = note_lossy (rr_lossy converted)
      (if list_ex names_request_body (fl_redactions ?draft) then reconcile_request R ?draft else ?draft)"
    using concluded_flow [OF done_flow] by (simp add: Let_def)
  have "req_body (fl_request fl) = body_ref_of X b1" unfolding fl
    using body1 by (simp add: reconcile_request_fields draft_flow_fields)
  moreover have "fl_outcome fl = outcome_masked (rc_headers (re_redaction R)) (OutResponse out)" unfolding fl
    using out by (simp add: reconcile_request_fields draft_flow_fields)
  moreover obtain encoded where "cd_flow_to C fl = Some encoded"
    "d' = (fst s2)\<lparr>fd_files := entry_append ''flows.jsonl'' (encoded @ [newline]) (fd_files (fst s2))\<rparr>"
    using session_recording.append_both_ok [OF app] by (auto simp: dir)
  moreover have "blob_node d' k = blob_node (fst s2) k" for k
    using calculation(4) by (simp add: blob_node_def blob_entries_def)
  ultimately show ?thesis
    using p1 p2 out assms(12) by (auto simp: published_def)
qed

section \<open>What is not hidden\<close>

lemma reconcile_keeps_trailers:
  assumes "STrailers fs \<in> se_event ` set es"
  shows "STrailers fs \<in> se_event ` set (reconcile_stream_event_body_length es outcome)"
proof -
  obtain e where e: "e \<in> set es" "se_event e = STrailers fs" using assms by auto
  have moved: "move_error n e = e" for n using e(2) by (simp add: move_error_def)
  have kept: "e \<in> set (filter (\<lambda>event. \<not> is_data event) es)" using e by simp
  have "e \<in> set (reconcile_stream_event_body_length es outcome)"
  proof (cases outcome)
    case (OutResponse response)
    let ?n = "unwrap_or (body_ref_len (resp_body response)) 0" and ?ks = "filter (\<lambda>event. \<not> is_data event) es"
    have "e \<in> set (take i ?ks @ x # drop i ?ks)" for i x
      using kept append_take_drop_id [of i ?ks] by (metis Un_iff list.set_intros(2) set_append)
    then have "e \<in> set (map (move_error ?n) (take i ?ks @ x # drop i ?ks))"
      and "e \<in> set (map (move_error ?n) ?ks)" for i x
      using kept moved by (metis (no_types) image_eqI set_map)+
    with OutResponse e(1) show ?thesis
      by (simp add: reconcile_stream_event_body_length_def Let_def del: is_data.simps set_append set_map list.map map_append)
  qed (use e(1) in \<open>simp add: reconcile_stream_event_body_length_def\<close>)
  with e(2) show ?thesis by (metis image_eqI)
qed

text \<open>
  The trailers of a response reach the timeline of its flow as they were on the wire, whatever the
  configuration hides: the masking covers the flow only.
\<close>

lemma trailers_reach_the_timeline:
  assumes "conclude_session R ex converted ob markers request_events = (fl, events)"
    and "ob_events ob = wire_events to_str end_ns 0 ((now, Inr (FrTrailers trailers)) # frames)"
  shows "STrailers (fst (recorded_entries to_str trailers)) \<in> se_event ` set (fse_response events)"
  using concluded_flow [OF assms(1)] reconcile_keeps_trailers assms(2) by simp

text \<open>
  The writer's function looks for the markers of the request body after it has moved them into the
  flow, and so never repairs the request headers; the session's function does.
\<close>

lemma writer_keeps_request_headers:
  "req_headers (fl_request (fst (conclude R ex converted ob markers)))
    = map (mask_header (rc_headers (re_redaction R))) (req_headers (rr_request converted))"
  by (simp add: conclude_def Let_def draft_flow_fields)

section \<open>A recorded exchange\<close>

definition record_codec :: codec where
  "record_codec = demo_codec\<lparr>cd_flow_to := (\<lambda>_. Some ''F''), cd_flow_events_to := (\<lambda>_. Some ''E''),
     cd_events_to := (\<lambda>_. Some ''[]'')\<rparr>"

definition record_demo :: recorder where
  "record_demo = \<lparr>re_to_str = Some, re_display = (\<lambda>_. ''failed''),
     re_redaction = default_secure\<lparr>rc_query_keys := [''t'']\<rparr>, re_profile = ''p'', re_max_structured = 64,
     re_route = None\<rparr>"

definition record_exchange :: exchange where
  "record_exchange =
     \<lparr>ex_method = ''POST'',
      ex_uri = \<lparr>uri_scheme = Some ''http'', uri_authority = Some ''u@h'', uri_path = ''/'',
                uri_query = Some ''t=1''\<rparr>,
      ex_headers = [(''authorization'', [''Basic x'']),
                    (''content-type'', [''application/x-www-form-urlencoded'']), (''content-length'', [''3''])],
      ex_polls = [(1, PollFrame (FrData ''t=a'')), (2, PollEnd)],
      ex_result = Inr \<lparr>wr_version = Http11, wr_status = 200, wr_headers = [(''set-cookie'', [''s=1''])],
                       wr_frames = [(3, Inr (FrData ''ok''))], wr_end_ns = 4\<rparr>,
      ex_started_at_ms = 5, ex_completed_at_ms = 6, ex_offset_ns = 0, ex_uuid = ''u'',
      ex_request_names = (''1'', ''2''), ex_response_names = (''3'', ''4'')\<rparr>"

lemma record_exchange_runs:
  "is_ok (snd (record_request_with_session record_codec demo_lib record_demo record_exchange (demo_empty, demo_recording)))"
  by code_simp

theorem recorded_flow_is_masked_witness:
  "\<exists>fl. snd (record_request_with_session record_codec demo_lib record_demo record_exchange (demo_empty, demo_recording)) = Inr fl
     \<and> masked [''authorization'', ''cookie'', ''proxy-authorization'', ''set-cookie''] (req_trailers (fl_request fl))"
proof -
  obtain s' res where run: "record_request_with_session record_codec demo_lib record_demo record_exchange
      (demo_empty, demo_recording) = (s', res)" by (rule prod.exhaust)
  with record_exchange_runs obtain fl where "res = Inr fl" by (auto simp: is_ok_def split: sum.splits)
  moreover have "rc_headers (re_redaction record_demo) = [''authorization'', ''cookie'', ''proxy-authorization'', ''set-cookie'']"
    by code_simp
  ultimately show ?thesis using run recorded_flow_is_masked [of record_codec demo_lib record_demo record_exchange] by auto
qed

theorem recording_publishes_the_redacted_exchange_witness:
  "\<exists>fl. snd (record_request_with_session record_codec demo_lib record_demo record_exchange (demo_empty, demo_recording)) = Inr fl
     \<and> req_body (fl_request fl) = body_ref_of demo_lib ''t=<redacted>''"
proof -
  obtain d' r' res where run: "record_request_with_session record_codec demo_lib record_demo record_exchange
      (demo_empty, demo_recording) = ((d', r'), res)" by (metis prod.exhaust)
  with record_exchange_runs obtain fl where res: "res = Inr fl" by (auto simp: is_ok_def split: sum.splits)
  let ?response = "\<lparr>wr_version = Http11, wr_status = 200, wr_headers = [(''set-cookie'', [''s=1''])],
    wr_frames = [(3, Inr (FrData ''ok''))], wr_end_ns = 4\<rparr>"
  have "req_body (fl_request fl) = body_ref_of demo_lib ''t=<redacted>''"
  proof (rule recording_publishes_the_redacted_exchange [where ?b2.0 = "''ok''", THEN conjunct1])
    show "record_request_with_session record_codec demo_lib record_demo record_exchange (demo_empty, demo_recording)
        = ((d', r'), Inr fl)" using run res by simp
    show "ex_result record_exchange = Inr ?response" by (simp add: record_exchange_def)
    show "blobs_wf demo_lib demo_empty" by (simp add: blobs_wf_def)
    show "sized_polls (ex_polls record_exchange)" by (auto simp: sized_polls_def record_exchange_def)
    show "sized_frames (wr_frames ?response)" by (auto simp: sized_frames_def)
    show "transform_body demo_lib (sent_bytes (unat (sl_max_blob_bytes (rc_limits demo_recording))) [] (ex_polls record_exchange))
        (content_type (re_to_str record_demo) (ex_headers record_exchange)) (re_redaction record_demo)
        (re_profile record_demo) False = Inr (''t=<redacted>'', [\<lparr>m_field = ''request.body.form:t'', m_profile = ''p''\<rparr>])"
      by code_simp
    show "transform_body demo_lib (wire_bytes (wr_frames ?response))
        (content_type (re_to_str record_demo) (wr_headers ?response)) (re_redaction record_demo)
        (re_profile record_demo) True = Inr (''ok'', [])"
      by code_simp
    show "\<not> collides demo_lib demo_empty ''t=<redacted>''" "\<not> collides demo_lib demo_empty ''ok''"
      by (simp_all add: collides_def blob_node_def blob_entries_def)
    show "x_sha256 demo_lib ''t=<redacted>'' = x_sha256 demo_lib ''ok'' \<longrightarrow> ''t=<redacted>'' = ''ok''"
      by code_simp
    show "length (ex_polls record_exchange) \<le> 2048" by code_simp
  qed (simp_all add: demo_sha256_lawful)
  then show ?thesis using run res by simp
qed

end
