(* ===== verification/Replay_Load.thy ===== *)
theory Replay_Load
  imports Scenario Matching Streams Websocket Store_Session
begin

text \<open>
  Loading a fixture for replay, \<^verbatim>\<open>ReplayFixture\<close> of \<^verbatim>\<open>crates/eggreplay-http/src/replay.rs\<close>: what has to
  be understood of a session before it is served, the candidates its flows become, and the state a
  replay server holds. The features \<^verbatim>\<open>eggserve\<close> and \<^verbatim>\<open>websocket\<close> are on. A \<^verbatim>\<open>HashMap\<close> is an association
  list with distinct keys; it is never iterated.
\<close>

section \<open>Errors and state\<close>

text \<open>The message of \<^verbatim>\<open>ReplayError::State\<close> is a literal, or what it was formatted from.\<close>

datatype state_problem =
    SpText string
  | SpRequired string
  | SpStream stream_error
  | SpByteCount string
  | SpTranscript ws_error
  | SpScenario scenario_error

datatype replay_error = RpStore store_error | RpState state_problem

record 'f replay_state =
  rp_candidates :: "match_candidate list"
  rp_in_append :: "bool list"
  rp_matcher :: matcher
  rp_session :: matcher_session
  rp_store :: session
  rp_scenario :: "scenario_runtime option"
  rp_stream_events :: "(string \<times> flow_stream_events) list"
  rp_timing :: "'f stream_timing_mode"
  rp_websockets :: "(string \<times> ws_conversation) list"

section \<open>Loading\<close>

definition extension_enabled :: "bool \<Rightarrow> extension_descriptor \<Rightarrow> replay_error + unit" where
  "extension_enabled has_scenario e =
     (if \<not> ext_required e then Inr ()
      else if ext_name e = ''rules'' \<and> has_scenario then Inr ()
      else if ext_name e = ''stream-events'' \<or> ext_name e = ''websocket-messages'' then Inr ()
      else Inl (RpState (SpRequired (ext_name e))))"

definition load_candidates ::
  "codec \<Rightarrow> fixture_dir \<Rightarrow> store_limits \<Rightarrow> replay_error + match_candidate list" where
  "load_candidates C d lim =
     rbind (map_err RpStore (iter_flows C d lim)) (\<lambda>items.
       collect_res (\<lambda>item. rbind (map_err RpStore item) (\<lambda>fl. Inr (match_candidate_from_flow fl))) items)"

definition insert_new :: "string \<Rightarrow> string \<Rightarrow> 'v \<Rightarrow> (string \<times> 'v) list \<Rightarrow> replay_error + (string \<times> 'v) list" where
  "insert_new message k v entries =
     (if map_of entries k \<noteq> None then Inl (RpState (SpText message)) else Inr ((k, v) # entries))"

definition load_stream_events ::
  "codec \<Rightarrow> fixture_dir \<Rightarrow> manifest \<Rightarrow> 'f stream_timing_mode \<Rightarrow> replay_error + (string \<times> flow_stream_events) list" where
  "load_stream_events C d mf timing_mode =
     rbind (map_err RpStore (read_extension d mf ''stream-events'')) (\<lambda>content.
       case content of
         Some b \<Rightarrow>
           rbind (ok_or (RpState (SpText ''invalid stream-events extension'')) (cd_events_from C b)) (\<lambda>decoded.
           rbind (map_err (\<lambda>e. RpState (SpStream e)) (validate_stream_events decoded)) (\<lambda>_.
           try_fold (\<lambda>entries events. insert_new ''duplicate stream event flow id'' (fse_flow_id events) events entries)
             [] (ses_flows decoded)))
       | None \<Rightarrow>
           if timing_mode \<noteq> Immediate
           then Inl (RpState (SpText ''timed replay requires a stream-events extension'')) else Inr [])"

text \<open>The fold over the response events, and what the body of the recorded response has.\<close>

definition check_event_length :: "(string \<times> flow_stream_events) list \<Rightarrow> match_candidate \<Rightarrow> replay_error + unit" where
  "check_event_length stream_events candidate =
     (case map_of stream_events (fl_id (mc_flow candidate)) of
        None \<Rightarrow> Inr ()
      | Some events \<Rightarrow>
          (let counted = fold (\<lambda>event total. sat_add total
                 (case se_event event of SData _ len \<Rightarrow> len | _ \<Rightarrow> 0)) (fse_response events) 0;
               expected = (case fl_outcome (mc_flow candidate) of
                   OutResponse response \<Rightarrow> unwrap_or (body_ref_len (resp_body response)) 0 | OutError _ \<Rightarrow> 0)
           in if counted \<noteq> expected then Inl (RpState (SpByteCount (fl_id (mc_flow candidate)))) else Inr ()))"

definition load_websockets ::
  "codec \<Rightarrow> fixture_dir \<Rightarrow> manifest \<Rightarrow> replay_error + (string \<times> ws_conversation) list" where
  "load_websockets C d mf =
     rbind (map_err RpStore (read_extension d mf ''websocket-messages'')) (\<lambda>content.
       case content of
         Some b \<Rightarrow>
           rbind (ok_or (RpState (SpText ''invalid websocket-messages extension'')) (cd_transcript_from C b)) (\<lambda>transcript.
           rbind (map_err (\<lambda>e. RpState (SpTranscript e)) (validate_transcript transcript ws_limits_default)) (\<lambda>_.
           try_fold (\<lambda>entries conversation. insert_new ''duplicate WebSocket flow id'' (wc_flow_id conversation)
               conversation entries) [] (wt_conversations transcript)))
       | None \<Rightarrow> Inr [])"

definition lacks_events :: "(string \<times> flow_stream_events) list \<Rightarrow> match_candidate \<Rightarrow> bool" where
  "lacks_events stream_events candidate \<longleftrightarrow>
     (case fl_outcome (mc_flow candidate) of
        OutResponse response \<Rightarrow> (case resp_body response of BodyBlob _ \<Rightarrow> True | _ \<Rightarrow> False)
      | OutError _ \<Rightarrow> False)
     \<and> map_of stream_events (fl_id (mc_flow candidate)) = None"

definition load_inner ::
  "codec \<Rightarrow> fixture_dir \<Rightarrow> session \<Rightarrow> matcher \<Rightarrow> scenario_runtime option \<Rightarrow> 'f stream_timing_mode
     \<Rightarrow> replay_error + 'f replay_state" where
  "load_inner C d se m sc timing_mode =
     (let mf = se_manifest se
      in rbind (check_all (extension_enabled (sc \<noteq> None)) (mf_extensions mf)) (\<lambda>_.
         rbind (load_candidates C d (se_limits se)) (\<lambda>candidates.
         rbind (load_stream_events C d mf timing_mode) (\<lambda>stream_events.
         rbind (check_all (check_event_length stream_events) candidates) (\<lambda>_.
         rbind (load_websockets C d mf) (\<lambda>websockets.
         if timing_mode \<noteq> Immediate \<and> list_ex (lacks_events stream_events) candidates
         then Inl (RpState (SpText ''timed replay is missing response event metadata''))
         else Inr \<lparr>rp_candidates = candidates, rp_in_append = replicate (mf_flow_count mf) False, rp_matcher = m,
                   rp_session = matcher_session_new, rp_store = se, rp_scenario = sc,
                   rp_stream_events = stream_events, rp_timing = timing_mode, rp_websockets = websockets\<rparr>))))))"

definition load_replay :: "codec \<Rightarrow> fixture_dir \<Rightarrow> session \<Rightarrow> replay_error + 'f replay_state" where
  "load_replay C d se = load_inner C d se (matcher_strict 8) None Immediate"

definition load_with_matcher where
  "load_with_matcher C d se m = load_inner C d se m None Immediate"

definition load_with_timing where
  "load_with_timing C d se m timing_mode = load_inner C d se m None timing_mode"

definition load_with_scenario_and_redaction_and_timing ::
  "codec \<Rightarrow> fixture_dir \<Rightarrow> session \<Rightarrow> matcher \<Rightarrow> string \<Rightarrow> redaction_config \<Rightarrow> 'f stream_timing_mode
     \<Rightarrow> replay_error + 'f replay_state" where
  "load_with_scenario_and_redaction_and_timing C d se m scenario_id redaction timing_mode =
     rbind (map_err RpStore (read_extension d (se_manifest se) ''rules'')) (\<lambda>content.
     rbind (ok_or (RpState (SpText ''fixture has no rules extension'')) content) (\<lambda>b.
     rbind (ok_or (RpState (SpText ''invalid rules extension'')) (cd_rules_from C b)) (\<lambda>rules.
     rbind (map_err (\<lambda>e. RpState (SpScenario e)) (runtime_with_redaction rules scenario_id redaction)) (\<lambda>sc.
     load_inner C d se m (Some sc) timing_mode))))"

definition load_with_scenario_and_redaction where
  "load_with_scenario_and_redaction C d se m scenario_id redaction =
     load_with_scenario_and_redaction_and_timing C d se m scenario_id redaction Immediate"

definition load_with_scenario where
  "load_with_scenario C d se m scenario_id =
     load_with_scenario_and_redaction C d se m scenario_id default_secure"

text \<open>\<^verbatim>\<open>start_inner\<close> asks for upgrade tunnels only where conversations were recorded.\<close>

definition candidate_count :: "'f replay_state \<Rightarrow> usize" where
  "candidate_count st = length (rp_candidates st)"

definition tunnel_slots :: "'f replay_state \<Rightarrow> usize option" where
  "tunnel_slots st = (if rp_websockets st \<noteq> [] then Some 16 else None)"

end
