(* ===== verification/Replay_Serve.thy ===== *)
theory Replay_Serve
  imports Replay_Load Record_Request Grpc_View
begin

text \<open>
  Serving a loaded fixture, \<^verbatim>\<open>handle_request\<close> of \<^verbatim>\<open>crates/eggreplay-http/src/replay.rs\<close>: the request as the
  server hands it over, the selection of a recorded flow, and the response with the stream of its
  body. The handler itself is in \<open>Replay_Handle\<close>, the script of an
  upgraded connection in \<open>Replay_Socket\<close>. Locks are never poisoned here; every critical section is one step.

  The server library is a parameter: which status codes and header fields its builders take. A stream
  is the list of what it yields, each item with the time the stream sleeps before it; a read of a
  file returns as many bytes as were asked for, or those that are left.
\<close>

section \<open>The server library\<close>

record egg_lib =
  eg_status :: "u16 \<Rightarrow> string + unit"
  eg_header :: "header_entry \<Rightarrow> string + unit"
  eg_push :: "header_entry \<Rightarrow> string + unit"
  eg_trailers :: "header_entry list \<Rightarrow> string + unit"
  eg_base64 :: "string \<Rightarrow> bytes option"
  eg_accept :: "header_entry list \<Rightarrow> bool"
  eg_accept_key :: "string \<Rightarrow> string"

record request_head =
  hd_version :: http_version
  hd_method :: string
  hd_authority :: "string option"
  hd_path :: string
  hd_query :: "string option"
  hd_headers :: "(string \<times> bytes) list"

text \<open>A request with what the server knows of its connection and what reading its body returns.\<close>

record tunnel_request =
  tn_http1_upgrade :: bool
  tn_protocol :: "string option"

record inbound =
  ib_head :: request_head
  ib_scheme :: string
  ib_body :: "string + bytes \<times> (string \<times> bytes) list option"
  ib_tunnel :: "tunnel_request option"

text \<open>The cause of an error is its message, or what the message was rendered from.\<close>

datatype service_cause =
    CText string
  | CLibrary string
  | CStore store_error
  | CScenario scenario_error
  | CUpstream http_error
  | CPanic

datatype service_error = SvInternal service_cause | SvRejected u16 service_cause

datatype stream_failure =
    FailMessage string
  | FailIntegrity string u64 u64
  | FailOverrun string
  | FailIo io_error

datatype emission = EmData u64 bytes | EmFail u64 stream_failure | EmDone u64

record body_stream =
  bs_items :: "emission list"
  bs_known_length :: "u64 option"
  bs_trailer_delay :: u64
  bs_trailers :: "string + header_entry list option"

datatype reply_body = RbEmpty | RbBytes bytes | RbStream body_stream

record plain_reply =
  pr_status :: u16
  pr_headers :: "header_entry list"
  pr_body :: reply_body

text \<open>A response, after the delay of its head; or an upgraded connection with the headers it was accepted with.\<close>

datatype reply = Reply u64 plain_reply | Upgraded "header_entry list" ws_conversation

definition build_reply :: "egg_lib \<Rightarrow> u16 \<Rightarrow> header_entry list \<Rightarrow> reply_body \<Rightarrow> service_error + plain_reply" where
  "build_reply E status headers body =
     rbind (map_err (\<lambda>e. SvInternal (CLibrary e)) (eg_status E status)) (\<lambda>_.
     rbind (map_err (\<lambda>e. SvInternal (CLibrary e)) (check_all (eg_header E) headers)) (\<lambda>_.
     Inr \<lparr>pr_status = status, pr_headers = headers, pr_body = body\<rparr>))"

definition response_bytes :: "egg_lib \<Rightarrow> u16 \<Rightarrow> header_entry list \<Rightarrow> bytes \<Rightarrow> service_error + reply" where
  "response_bytes E status headers body =
     rbind (build_reply E status headers (RbBytes body)) (\<lambda>r. Inr (Reply 0 r))"

text \<open>The derived \<^verbatim>\<open>Debug\<close> of a category.\<close>

fun category_debug :: "error_category \<Rightarrow> string" where
  "category_debug Cat_Dns = ''Dns''"
| "category_debug Cat_ConnectionRefused = ''ConnectionRefused''"
| "category_debug Cat_Unreachable = ''Unreachable''"
| "category_debug Cat_Tls = ''Tls''"
| "category_debug Cat_Protocol = ''Protocol''"
| "category_debug Cat_Policy = ''Policy''"
| "category_debug Cat_Timeout = ''Timeout''"
| "category_debug Cat_Cancelled = ''Cancelled''"
| "category_debug Cat_Other = ''Other''"

section \<open>The request\<close>

datatype body_policy = PolicyReject | PolicyStream u64

definition request_body_policy :: "body_policy \<Rightarrow> request_head \<Rightarrow> body_policy" where
  "request_body_policy policy head =
     (if \<exists>(name, val)\<in>set (hd_headers head). eq_ignore_case name ''upgrade'' \<and> eq_ignore_case val ''websocket''
      then PolicyReject else policy)"

definition declared_body_length :: "request_head \<Rightarrow> u64 option" where
  "declared_body_length head =
     (case List.map_filter (\<lambda>(name, val).
             if \<not> eq_ignore_case name ''content-length'' then None
             else if \<not> utf8_valid val then None
             else parse_uint (2 ^ 64) (trim val)) (hd_headers head) of
        [] \<Rightarrow> None | n # _ \<Rightarrow> Some (of_nat n))"

definition has_list_token :: "string \<Rightarrow> string \<Rightarrow> bool" where
  "has_list_token token val \<longleftrightarrow> (\<exists>t\<in>set (split_on CHR '','' val). eq_ignore_case (trim t) token)"

definition websocket_intent :: "request_head \<Rightarrow> bool" where
  "websocket_intent head \<longleftrightarrow>
     (\<exists>(name, val)\<in>set (hd_headers head). eq_ignore_case name ''upgrade'' \<and> has_list_token ''websocket'' (utf8_lossy val))"

definition lossy_fields :: "(string \<times> bytes) list \<Rightarrow> header_entry list" where
  "lossy_fields headers = map (\<lambda>(name, val). \<lparr>h_name = name, h_value = utf8_lossy val\<rparr>) headers"

text \<open>\<^verbatim>\<open>crate::websocket::valid_client_key\<close>\<close>

definition valid_client_key :: "egg_lib \<Rightarrow> string \<Rightarrow> bool" where
  "valid_client_key E key = (case eg_base64 E key of Some decoded \<Rightarrow> length decoded = 16 | None \<Rightarrow> False)"

definition values_of :: "string \<Rightarrow> header_entry list \<Rightarrow> string list" where
  "values_of name headers = map h_value (filter (\<lambda>h. eq_ignore_case (h_name h) name) headers)"

definition replay_handshake_ok :: "egg_lib \<Rightarrow> request_head \<Rightarrow> bool" where
  "replay_handshake_ok E head =
     (let headers = lossy_fields (hd_headers head);
          key_valid = map (valid_client_key E) (values_of ''sec-websocket-key'' headers);
          versions = values_of ''sec-websocket-version'' headers
      in hd_version head = Http11 \<and> hd_method head = ''GET''
         \<and> is_ok (validate_websocket_handshake_headers headers ws_limits_default False)
         \<and> length key_valid = 1 \<and> key_valid ! 0
         \<and> length versions = 1 \<and> versions ! 0 = ''13''
         \<and> list_ex (has_list_token ''upgrade'') (values_of ''connection'' headers)
         \<and> list_ex (has_list_token ''websocket'') (values_of ''upgrade'' headers)
         \<and> values_of ''transfer-encoding'' headers = []
         \<and> list_all (\<lambda>v. parse_uint (2 ^ 64) v = Some 0) (values_of ''content-length'' headers))"

definition eggserve_headers :: "(string \<times> bytes) list \<Rightarrow> header_entry list" where
  "eggserve_headers headers =
     map (\<lambda>(name, val). \<lparr>h_name = to_lower name, h_value = utf8_lossy val\<rparr>)
       (filter (\<lambda>(name, val). \<not> eq_ignore_case name ''host'') headers)"

definition eggserve_trailers :: "(string \<times> bytes) list \<Rightarrow> header_entry list" where
  "eggserve_trailers trailers =
     map (\<lambda>(name, val). \<lparr>h_name = to_lower name, h_value = utf8_lossy val\<rparr>) trailers"

definition request_from_eggserve ::
  "ext_lib \<Rightarrow> request_head \<Rightarrow> string \<Rightarrow> bytes \<Rightarrow> (string \<times> bytes) list option \<Rightarrow> http_request" where
  "request_from_eggserve X head scheme body trailers =
     (let query = (case hd_query head of
             None \<Rightarrow> []
           | Some val \<Rightarrow> map (\<lambda>(k, v). \<lparr>q_key = k, q_value = v\<rparr>) (x_form_parse X val));
          authority = (case hd_authority head of
             Some val \<Rightarrow> val
           | None \<Rightarrow> (case find (\<lambda>(name, _). eq_ignore_case name ''host'') (hd_headers head) of
                       Some (_, val) \<Rightarrow> utf8_lossy val | None \<Rightarrow> []));
          raw_headers = eggserve_headers (hd_headers head);
          websocket_request = list_ex (\<lambda>h. eq_ignore_case (h_name h) ''upgrade''
             \<and> eq_ignore_case (h_value h) ''websocket'') raw_headers;
          headers = (if websocket_request then normalize_websocket_handshake_headers raw_headers False else raw_headers)
      in \<lparr>req_method = hd_method head, req_scheme = scheme, req_authority = authority, req_path = hd_path head,
          req_query = query, req_headers = headers, req_body = (if body = [] then BodyEmpty else BodyAbsent),
          req_trailers = (case trailers of Some ts \<Rightarrow> eggserve_trailers ts | None \<Rightarrow> [])\<rparr>)"

section \<open>Scenario responses\<close>

text \<open>
  The stream of a scenario body: chunks, then the pending error, which is raised once. Delays are in
  nanoseconds; those of an accepted scenario are at most 30 seconds.
\<close>

function fault_items :: "nat \<Rightarrow> u64 \<Rightarrow> string option \<Rightarrow> bytes \<Rightarrow> nat \<Rightarrow> emission list" where
  "fault_items chunk_bytes delay pending body offset =
     (if offset < length body then
        (let end = min (offset + max chunk_bytes 1) (length body)
         in EmData delay (take (end - offset) (drop offset body)) # fault_items chunk_bytes delay pending body end)
      else (case pending of Some message \<Rightarrow> [EmFail 0 (FailMessage message)] | None \<Rightarrow> [EmDone 0]))"
  by pat_completeness simp_all
termination
  by (relation "measure (\<lambda>(_, _, _, body, offset). length body - offset)") auto

declare fault_items.simps [simp del]

definition fault_body_stream :: "bytes \<Rightarrow> u64 \<Rightarrow> u64 \<Rightarrow> u64 \<Rightarrow> string option \<Rightarrow> body_stream" where
  "fault_body_stream body declared_length chunk_bytes delay_ms terminal_message =
     \<lparr>bs_items = fault_items (unat chunk_bytes) (1000000 * delay_ms) terminal_message body 0,
      bs_known_length = Some declared_length, bs_trailer_delay = 0, bs_trailers = Inr None\<rparr>"

definition fault_stream_response ::
  "egg_lib \<Rightarrow> u16 \<Rightarrow> header_entry list \<Rightarrow> body_stream \<Rightarrow> service_error + reply" where
  "fault_stream_response E status headers stream =
     rbind (build_reply E status headers (RbStream stream)) (\<lambda>r. Inr (Reply 0 r))"

definition scenario_fault_response :: "egg_lib \<Rightarrow> rendered_scenario_response \<Rightarrow> service_error + reply" where
  "scenario_fault_response E rendered =
     (let len = of_nat (length (rr_body rendered))
      in case rr_fault rendered of
           None \<Rightarrow> response_bytes E (rr_status rendered) (rr_headers rendered) (rr_body rendered)
         | Some (ResponseHeadDelay delay_ms) \<Rightarrow>
             rbind (build_reply E (rr_status rendered) (rr_headers rendered) (RbBytes (rr_body rendered)))
               (\<lambda>r. Inr (Reply (1000000 * delay_ms) r))
         | Some (BodyChunkDelay delay_ms chunk_bytes) \<Rightarrow>
             fault_stream_response E (rr_status rendered) (rr_headers rendered)
               (fault_body_stream (rr_body rendered) len chunk_bytes delay_ms None)
         | Some CloseBeforeResponse \<Rightarrow>
             fault_stream_response E (rr_status rendered) (rr_headers rendered)
               (fault_body_stream [] len 1 0 (Some ''fault: close before response''))
         | Some (CloseAfterBytes n) \<Rightarrow>
             fault_stream_response E (rr_status rendered) (rr_headers rendered)
               (fault_body_stream (take (min (length (rr_body rendered)) (unat n)) (rr_body rendered)) len
                  (2 ^ 64 - 1) 0 (Some ''fault: close after bytes''))
         | Some (TransportError category _) \<Rightarrow>
             response_bytes E 502 [] (''recorded upstream error: '' @ category_debug category @ [newline]))"

section \<open>The body of a recorded response\<close>

text \<open>
  The stream that follows the schedule of the recorded timing while it reads the blob and hashes it.
  The arguments are the steps left, what is left of the current segment, the count and the bytes
  read, and what is left of the file. The digest is checked at the end of the file only, so an error
  that was recorded ends the stream before.
\<close>

definition next_step :: "timed_stream_step list \<Rightarrow> u64 \<Rightarrow> u64 \<times> (string + u64) \<times> timed_stream_step list" where
  "next_step steps segment_remaining =
     (if segment_remaining = 0 then
        (case steps of
           [] \<Rightarrow> (0, Inr segment_remaining, [])
         | TData delay len # rest \<Rightarrow> (delay, Inr len, rest)
         | TError delay message # rest \<Rightarrow> (delay, Inl message, rest))
      else (0, Inr segment_remaining, steps))"

definition max_chunk :: "u64 \<Rightarrow> nat" where
  "max_chunk segment_remaining = (if segment_remaining = 0 then 65536 else min (unat segment_remaining) 65536)"

function blob_items ::
  "ext_lib \<Rightarrow> string \<Rightarrow> u64 \<Rightarrow> timed_stream_step list \<Rightarrow> u64 \<Rightarrow> u64 \<Rightarrow> bytes \<Rightarrow> bytes \<Rightarrow> emission list" where
  "blob_items X digest len steps segment_remaining read_so_far hashed rest =
     (case next_step steps segment_remaining of
        (delay, Inl message, _) \<Rightarrow> [EmFail delay (FailMessage message)]
      | (delay, Inr segment, steps') \<Rightarrow>
          (let buf = take (max_chunk segment) rest
           in if buf = [] then
                (if read_so_far \<noteq> len \<or> x_sha256 X hashed \<noteq> digest
                 then [EmFail delay (FailIntegrity digest read_so_far len)] else [EmDone delay])
              else (let read' = read_so_far + of_nat (length buf)
                    in if read' > len then [EmFail delay (FailOverrun digest)]
                       else EmData delay buf
                            # blob_items X digest len steps' (sat_sub segment (of_nat (length buf))) read'
                                (hashed @ buf) (drop (max_chunk segment) rest))))"
  by pat_completeness simp_all
termination
  by (relation "measure (\<lambda>(_, _, _, _, _, _, _, rest). length rest)") (auto simp: max_chunk_def unat_gt_0)

declare blob_items.simps [simp del]

definition trailer_block :: "egg_lib \<Rightarrow> header_entry list \<Rightarrow> string + header_entry list option" where
  "trailer_block E trailers =
     (if trailers = [] then Inr None
      else rbind (check_all (eg_push E) trailers) (\<lambda>_.
           rbind (eg_trailers E trailers) (\<lambda>_. Inr (Some trailers))))"

definition blob_stream ::
  "ext_lib \<Rightarrow> egg_lib \<Rightarrow> blob_handle \<Rightarrow> schedule_state \<Rightarrow> header_entry list \<Rightarrow> body_stream" where
  "blob_stream X E handle st trailers =
     (let terminal = (if terminal_error st then 0 else terminal_delay st);
          trailer = (if terminal_error st then 0 else trailer_delay st)
      in \<lparr>bs_items = blob_items X (bh_sha256 handle) (bh_length handle) (sch_steps st) 0 0 [] (bh_file handle),
          bs_known_length = (if terminal_error st then None else Some (bh_length handle)),
          bs_trailer_delay = sat_add trailer terminal, bs_trailers = trailer_block E trailers\<rparr>)"

text \<open>\<^verbatim>\<open>response_stream\<close> of \<^verbatim>\<open>recording.rs\<close>: a staged body, read without a check of its own.\<close>

definition response_stream ::
  "egg_lib \<Rightarrow> fixture_dir \<Rightarrow> string option \<Rightarrow> u64 \<Rightarrow> header_entry list \<Rightarrow> body_stream" where
  "response_stream E d path len trailers =
     \<lparr>bs_items = (case path of
          None \<Rightarrow> [EmDone 0]
        | Some digest \<Rightarrow>
            (case open_read (blob_node d digest) of
               Inl e \<Rightarrow> [EmFail 0 (FailIo e)]
             | Inr content \<Rightarrow> map (EmData 0) (read_chunks content) @ [EmDone 0])),
      bs_known_length = Some len, bs_trailer_delay = 0, bs_trailers = trailer_block E trailers\<rparr>"

end
