(* ===== verification/Replay_Handle.thy ===== *)
theory Replay_Handle
  imports Replay_Serve
begin

text \<open>
  The handler of a replay server, \<^verbatim>\<open>handle_request\<close> of \<^verbatim>\<open>crates/eggreplay-http/src/replay.rs\<close>, with the
  recording of a request nothing answers (\<^verbatim>\<open>append_miss\<close>) and the upgrade of a recorded WebSocket
  connection. A call runs alone here: its critical sections follow one another.
\<close>

section \<open>Recording a miss\<close>

text \<open>
  The \<^verbatim>\<open>http\<close> crate's constructors, the JSON encoding of a request and the client are parameters; the
  exchange of a request is what happens when the client sends it.
\<close>

record upstream_lib =
  up_uri :: "string \<Rightarrow> string + http_uri"
  up_method :: "string \<Rightarrow> string + unit"
  up_name :: "bytes \<Rightarrow> string + string"
  up_value :: "bytes \<Rightarrow> string + bytes"
  up_encode :: "http_request \<Rightarrow> string + bytes"
  up_exchange :: "string \<Rightarrow> http_uri \<Rightarrow> header_entries \<Rightarrow> bytes \<Rightarrow> exchange"

record append_context =
  ac_scheme :: "string option"
  ac_authority :: "string option"
  ac_recorder :: recorder

text \<open>
  The registry of miss locks. A mutex is its identity; \<open>ml_held\<close> are the ones a request still refers
  to (\<^verbatim>\<open>strong_count() != 0\<close>).
\<close>

record miss_locks =
  ml_locks :: "(string \<times> nat) list"
  ml_held :: "nat list"
  ml_next :: nat

definition lock_for :: "string \<Rightarrow> miss_locks \<Rightarrow> miss_locks \<times> (service_error + nat)" where
  "lock_for key ml =
     (let locks = filter (\<lambda>(_, lock). lock \<in> set (ml_held ml)) (ml_locks ml)
      in case map_of locks key of
           Some lock \<Rightarrow> (ml\<lparr>ml_locks := locks, ml_held := lock # ml_held ml\<rparr>, Inr lock)
         | None \<Rightarrow>
             (if length locks \<ge> 2048
              then (ml\<lparr>ml_locks := locks\<rparr>, Inl (SvRejected 503 (CText ''too many concurrent miss keys'')))
              else (\<lparr>ml_locks = (key, ml_next ml) # locks, ml_held = ml_next ml # ml_held ml,
                      ml_next = Suc (ml_next ml)\<rparr>, Inr (ml_next ml))))"

text \<open>The end of a request drops its reference.\<close>

definition drop_lock :: "nat \<Rightarrow> miss_locks \<Rightarrow> miss_locks" where
  "drop_lock lock ml = ml\<lparr>ml_held := remove1 lock (ml_held ml)\<rparr>"

definition miss_key :: "ext_lib \<Rightarrow> upstream_lib \<Rightarrow> http_request \<Rightarrow> bytes \<Rightarrow> service_error + string" where
  "miss_key X U actual body =
     rbind (map_err (\<lambda>e. SvInternal (CLibrary e)) (up_encode U actual)) (\<lambda>encoded.
       Inr (x_sha256 X (encoded @ body)))"

text \<open>How the matcher reads a recorded body: from the fixture, or from the recording under way.\<close>

definition in_recording :: "bool list \<Rightarrow> usize \<Rightarrow> bool" where
  "in_recording sources index = unwrap_or (nth_opt sources index) False"

definition fixture_loader ::
  "ext_lib \<Rightarrow> fixture_dir \<Rightarrow> store_limits \<Rightarrow> session_state option \<Rightarrow> bool list
     \<Rightarrow> usize \<Rightarrow> match_candidate \<Rightarrow> bytes option" where
  "fixture_loader X d lim misses sources index candidate =
     (case req_body (fl_request (mc_flow candidate)) of
        BodyBlob blob \<Rightarrow>
          (if in_recording sources index
           then Option.bind misses (\<lambda>(d', r).
                  case read_body X d' (rc_limits r) (BodyBlob blob) of Inr b \<Rightarrow> Some b | Inl _ \<Rightarrow> None)
           else (case read_blob X d lim blob of Inr b \<Rightarrow> Some b | Inl _ \<Rightarrow> None))
      | _ \<Rightarrow> Some (if mc_request_body candidate = [] then [] else mc_request_body candidate))"

text \<open>
  The second look at the candidates, under the lock of the miss: \<open>Inr (Some fl)\<close> is a flow that was
  recorded meanwhile.
\<close>

definition miss_recheck ::
  "ext_lib \<Rightarrow> egg_lib \<Rightarrow> fixture_dir \<Rightarrow> session_state \<Rightarrow> http_request \<Rightarrow> bytes \<Rightarrow> 'f replay_state
     \<Rightarrow> 'f replay_state \<times> ((service_error + reply) + flow option)" where
  "miss_recheck X E d misses actual body st =
     (let loader = (\<lambda>index candidate.
            case req_body (fl_request (mc_flow candidate)) of
              BodyBlob _ \<Rightarrow> fixture_loader X d (se_limits (rp_store st)) (Some misses) (rp_in_append st) index candidate
            | _ \<Rightarrow> Some [])
      in case select_with_loader X (rp_matcher st) actual body (rp_candidates st) Consume_Unlimited
              (rp_session st) (answers loader) () of
           (result, session', _) \<Rightarrow>
             (st\<lparr>rp_session := session'\<rparr>,
              (case result of
                 Matched index \<Rightarrow>
                   (if in_recording (rp_in_append st) index
                    then Inr (Some (mc_flow (rp_candidates st ! index))) else Inr None)
               | Exhausted _ \<Rightarrow> Inl (response_bytes E 409 [] (''eggreplay replay fixture exhausted'' @ [newline]))
               | NoMatch _ \<Rightarrow> Inr None)))"

definition response_from_append_flow ::
  "ext_lib \<Rightarrow> egg_lib \<Rightarrow> session_state \<Rightarrow> flow \<Rightarrow> service_error + reply" where
  "response_from_append_flow X E misses fl =
     (case fl_outcome fl of
        OutError err \<Rightarrow>
          response_bytes E 502 [] (''upstream failure: '' @ category_debug (fe_category err) @ [newline])
      | OutResponse response \<Rightarrow>
          rbind (map_err (\<lambda>e. SvInternal (CLibrary e)) (eg_status E (resp_status response))) (\<lambda>_.
          rbind (map_err (\<lambda>e. SvInternal (CLibrary e)) (check_all (eg_header E) (resp_headers response))) (\<lambda>_.
          case resp_body response of
            BodyBlob blob \<Rightarrow>
              rbind (map_err (\<lambda>e. SvInternal (CStore e))
                       (body_path X (fst misses) (rc_limits (snd misses)) (BodyBlob blob))) (\<lambda>path.
              Inr (Reply 0 \<lparr>pr_status = resp_status response, pr_headers = resp_headers response,
                     pr_body = RbStream (response_stream E (fst misses) path (blob_length blob) (resp_trailers response))\<rparr>))
          | _ \<Rightarrow> Inr (Reply 0 \<lparr>pr_status = resp_status response, pr_headers = resp_headers response,
                                pr_body = RbEmpty\<rparr>))))"

definition upstream_target :: "ext_lib \<Rightarrow> http_request \<Rightarrow> string" where
  "upstream_target X actual =
     (let query = x_form_print X (map (\<lambda>pair. (q_key pair, q_value pair)) (req_query actual))
      in if query = [] then req_path actual else req_path actual @ ''?'' @ query)"

definition hm_append :: "header_entries \<Rightarrow> string \<Rightarrow> bytes \<Rightarrow> header_entries" where
  "hm_append hs name val =
     (if map_of hs name = None then hs @ [(name, [val])]
      else map (\<lambda>(k, vs). (k, if k = name then vs @ [val] else vs)) hs)"

definition upstream_header :: "upstream_lib \<Rightarrow> header_entries \<Rightarrow> header_entry \<Rightarrow> service_error + header_entries" where
  "upstream_header U hs header =
     (if eq_ignore_case (h_name header) ''host'' then Inr hs
      else rbind (map_err (\<lambda>e. SvInternal (CLibrary e)) (up_name U (h_name header))) (\<lambda>name.
           rbind (map_err (\<lambda>e. SvInternal (CLibrary e)) (up_value U (h_value header))) (\<lambda>val.
           Inr (hm_append hs name val))))"

definition upstream_exchange ::
  "ext_lib \<Rightarrow> upstream_lib \<Rightarrow> append_context \<Rightarrow> http_request \<Rightarrow> bytes \<Rightarrow> service_error + exchange" where
  "upstream_exchange X U context actual body =
     rbind (ok_or (SvInternal (CText ''upstream URI has no scheme'')) (ac_scheme context)) (\<lambda>scheme.
     rbind (ok_or (SvInternal (CText ''upstream URI has no authority'')) (ac_authority context)) (\<lambda>authority.
     rbind (map_err (\<lambda>e. SvInternal (CLibrary e))
              (up_uri U (scheme @ ''://'' @ authority @ upstream_target X actual))) (\<lambda>uri.
     rbind (map_err (\<lambda>e. SvInternal (CLibrary e)) (up_method U (req_method actual))) (\<lambda>_.
     rbind (try_fold (upstream_header U) [] (req_headers actual)) (\<lambda>headers.
     Inr ((up_exchange U (req_method actual) uri headers body)
            \<lparr>ex_method := req_method actual, ex_uri := uri, ex_headers := headers\<rparr>))))))"

text \<open>From the critical section of the second look to the response; the lock of the miss is held.\<close>

definition append_miss ::
  "codec \<Rightarrow> ext_lib \<Rightarrow> egg_lib \<Rightarrow> upstream_lib \<Rightarrow> fixture_dir \<Rightarrow> append_context \<Rightarrow> http_request \<Rightarrow> bytes
     \<Rightarrow> 'f replay_state \<Rightarrow> session_state \<Rightarrow> 'f replay_state \<times> session_state \<times> (service_error + reply)" where
  "append_miss C X E U d context actual body st misses =
     (case miss_recheck X E d misses actual body st of
        (st1, Inl answer) \<Rightarrow> (st1, misses, answer)
      | (st1, Inr (Some fl)) \<Rightarrow> (st1, misses, response_from_append_flow X E misses fl)
      | (st1, Inr None) \<Rightarrow>
          (case upstream_exchange X U context actual body of
             Inl e \<Rightarrow> (st1, misses, Inl e)
           | Inr ex \<Rightarrow>
               (case record_request_with_session C X (ac_recorder context) ex misses of
                  (append1, Inl HePanic) \<Rightarrow> (st1, append1, Inl (SvInternal CPanic))
                | (append1, Inl e) \<Rightarrow> (st1, append1, Inl (SvRejected 502 (CUpstream e)))
                | (append1, Inr fl) \<Rightarrow>
                    (st1\<lparr>rp_candidates := rp_candidates st1 @ [match_candidate_from_flow fl],
                         rp_in_append := rp_in_append st1 @ [True]\<rparr>,
                     append1, response_from_append_flow X E append1 fl))))"

section \<open>Selecting a recording\<close>

record served =
  sv_headers :: "header_entry list"
  sv_status :: u16
  sv_body :: body_ref
  sv_trailers :: "header_entry list"
  sv_in_append :: bool
  sv_events :: "stream_event list"
  sv_websocket :: "ws_conversation option"

datatype selection = SelServe served | SelAnswer "service_error + reply" | SelMiss

definition select_recorded ::
  "ext_lib \<Rightarrow> egg_lib \<Rightarrow> fixture_dir \<Rightarrow> session_state option \<Rightarrow> http_request \<Rightarrow> bytes \<Rightarrow> 'f replay_state
     \<Rightarrow> 'f replay_state \<times> selection" where
  "select_recorded X E d misses actual body st =
     (case select_with_loader X (rp_matcher st) actual body (rp_candidates st)
             (if misses \<noteq> None then Consume_Unlimited else Consume_Once) (rp_session st)
             (answers (fixture_loader X d (se_limits (rp_store st)) misses (rp_in_append st))) () of
        (result, session', _) \<Rightarrow>
          (st\<lparr>rp_session := session'\<rparr>,
           (case result of
              Matched index \<Rightarrow>
                (case nth_opt (rp_in_append st) index of
                   None \<Rightarrow> SelAnswer (Inl (SvInternal CPanic))
                 | Some recorded_here \<Rightarrow>
                     (let fl = mc_flow (rp_candidates st ! index)
                      in case fl_outcome fl of
                           OutResponse response \<Rightarrow>
                             SelServe \<lparr>sv_headers = resp_headers response, sv_status = resp_status response,
                               sv_body = resp_body response, sv_trailers = resp_trailers response,
                               sv_in_append = recorded_here,
                               sv_events = (if recorded_here then []
                                  else case map_of (rp_stream_events st) (fl_id fl) of
                                         Some events \<Rightarrow> fse_response events | None \<Rightarrow> []),
                               sv_websocket = map_of (rp_websockets st) (fl_id fl)\<rparr>
                         | OutError err \<Rightarrow>
                             SelAnswer (response_bytes E 502 []
                               (''recorded upstream error: '' @ category_debug (fe_category err) @ [newline]))))
            | Exhausted _ \<Rightarrow> SelAnswer (response_bytes E 409 [] (''eggreplay replay fixture exhausted'' @ [newline]))
            | NoMatch _ \<Rightarrow>
                (if misses \<noteq> None then SelMiss
                 else SelAnswer (response_bytes E 404 [] (''eggreplay replay no match'' @ [newline]))))))"

definition render_recorded_headers :: "http_version \<Rightarrow> header_entry list \<Rightarrow> header_entry list" where
  "render_recorded_headers version headers =
     (if version = Http2 then filter (\<lambda>header. \<not> eq_ignore_case (h_name header) ''content-length'') headers
      else headers)"

section \<open>Upgrading a connection\<close>

definition upgrade_head_ok :: "tunnel_request \<Rightarrow> request_head \<Rightarrow> bool" where
  "upgrade_head_ok tunnel head =
     (let headers = lossy_fields (hd_headers head)
      in hd_version head = Http11 \<and> hd_method head = ''GET'' \<and> tn_http1_upgrade tunnel
         \<and> (case tn_protocol tunnel of Some p \<Rightarrow> eq_ignore_case p ''websocket'' | None \<Rightarrow> False)
         \<and> is_ok (validate_websocket_handshake_headers headers ws_limits_default False)
         \<and> ''13'' \<in> set (values_of ''sec-websocket-version'' headers))"

definition replay_websocket_upgrade ::
  "egg_lib \<Rightarrow> tunnel_request \<Rightarrow> request_head \<Rightarrow> ws_conversation \<Rightarrow> service_error + reply" where
  "replay_websocket_upgrade E tunnel head conversation =
     (let headers = lossy_fields (hd_headers head);
          offered = concat (map (\<lambda>v. map trim (split_on CHR '','' v)) (values_of ''sec-websocket-protocol'' headers))
      in if \<not> upgrade_head_ok tunnel head then Inl (SvRejected 400 (CText ''invalid WebSocket replay handshake''))
         else case values_of ''sec-websocket-key'' headers of
           [] \<Rightarrow> Inl (SvRejected 400 (CText ''missing WebSocket key''))
         | key # _ \<Rightarrow>
             (if \<not> valid_client_key E key then Inl (SvRejected 400 (CText ''invalid WebSocket key''))
              else if \<exists>selected\<in>set_option (wc_selected_subprotocol conversation). selected \<notin> set offered
              then Inl (SvRejected 400 (CText ''recorded WebSocket subprotocol was not offered''))
              else let response =
                     \<lparr>h_name = ''sec-websocket-accept'', h_value = eg_accept_key E key\<rparr>
                     # (case wc_selected_subprotocol conversation of
                          Some protocol \<Rightarrow> [\<lparr>h_name = ''sec-websocket-protocol'', h_value = protocol\<rparr>] | None \<Rightarrow> [])
                   in rbind (map_err (\<lambda>e. SvInternal (CLibrary e)) (check_all (eg_push E) response)) (\<lambda>_.
                      if \<not> eg_accept E response
                      then Inl (SvInternal (CText ''WebSocket replay tunnel could not be accepted''))
                      else Inr (Upgraded response conversation))))"

section \<open>The handler\<close>

definition append_reply ::
  "ext_lib \<Rightarrow> egg_lib \<Rightarrow> session_state \<Rightarrow> served \<Rightarrow> header_entry list \<Rightarrow> service_error + reply" where
  "append_reply X E misses sv headers =
     (case sv_body sv of
        BodyBlob blob \<Rightarrow>
          rbind (map_err (\<lambda>e. SvInternal (CStore e))
                   (body_path X (fst misses) (rc_limits (snd misses)) (BodyBlob blob))) (\<lambda>path.
          rbind (build_reply E (sv_status sv) headers
                   (RbStream (response_stream E (fst misses) path (blob_length blob) (sv_trailers sv)))) (\<lambda>r.
          Inr (Reply 0 r)))
      | _ \<Rightarrow> rbind (build_reply E (sv_status sv) headers RbEmpty) (\<lambda>r. Inr (Reply 0 r)))"

definition delay_error_text :: "stream_error \<Rightarrow> string" where
  "delay_error_text e =
     (if e = StreamDelayLimit then ''recorded stream delay exceeds configured limit''
      else ''total replay delay exceeds configured limit'')"

text \<open>A recording of the fixture: an empty body, or the blob under the recorded timing.\<close>

definition fixture_reply ::
  "ext_lib \<Rightarrow> egg_lib \<Rightarrow> 'f float_ops \<Rightarrow> fixture_dir \<Rightarrow> store_limits \<Rightarrow> 'f stream_timing_mode \<Rightarrow> served
     \<Rightarrow> header_entry list \<Rightarrow> service_error + reply" where
  "fixture_reply X E ops d lim timing_mode sv headers =
     (case sv_body sv of
        BodyBlob blob \<Rightarrow>
          rbind (map_err (\<lambda>e. SvInternal (CStore e)) (open_blob d lim blob)) (\<lambda>handle.
          case timed_schedule ops timing_mode (sv_events sv) of
            Inl e \<Rightarrow> response_bytes E 500 [] (''invalid replay timing: '' @ delay_error_text e @ [newline])
          | Inr sch \<Rightarrow>
              rbind (build_reply E (sv_status sv) headers (RbStream (blob_stream X E handle sch (sv_trailers sv))))
                (\<lambda>r. Inr (Reply 0 r)))
      | _ \<Rightarrow> rbind (build_reply E (sv_status sv) headers RbEmpty) (\<lambda>r. Inr (Reply 0 r)))"

definition serve_selected ::
  "ext_lib \<Rightarrow> egg_lib \<Rightarrow> 'f float_ops \<Rightarrow> fixture_dir \<Rightarrow> session_state option \<Rightarrow> inbound \<Rightarrow> 'f replay_state \<Rightarrow> served
     \<Rightarrow> service_error + reply" where
  "serve_selected X E ops d misses request st sv =
     (let headers = render_recorded_headers (hd_version (ib_head request)) (sv_headers sv)
      in if sv_status sv = 101 then
           rbind (ok_or (SvInternal (CText ''recorded WebSocket flow has no conversation'')) (sv_websocket sv)) (\<lambda>conversation.
           rbind (ok_or (SvRejected 400 (CText ''WebSocket upgrade tunnel unavailable'')) (ib_tunnel request)) (\<lambda>tunnel.
           replay_websocket_upgrade E tunnel (ib_head request) conversation))
         else if sv_in_append sv then
           (case misses of
              None \<Rightarrow> Inl (SvInternal (CText ''append candidate has no recording session''))
            | Some recording \<Rightarrow> append_reply X E recording sv headers)
         else fixture_reply X E ops d (se_limits (rp_store st)) (rp_timing st) sv headers)"

text \<open>What is decided before the body is read.\<close>

definition admit_request :: "egg_lib \<Rightarrow> u64 \<Rightarrow> inbound \<Rightarrow> (service_error + reply) option" where
  "admit_request E body_limit request =
     (let head = ib_head request
      in if (case declared_body_length head of Some declared \<Rightarrow> declared > body_limit | None \<Rightarrow> False)
         then Some (rbind (build_reply E 413 [] RbEmpty) (\<lambda>r. Inr (Reply 0 r)))
         else if websocket_intent head \<and> ib_tunnel request = None
         then Some (Inl (SvRejected 400 (CText ''invalid WebSocket replay handshake'')))
         else if ib_tunnel request \<noteq> None \<and> \<not> replay_handshake_ok E head
         then Some (Inl (SvRejected 400 (CText ''invalid WebSocket replay handshake'')))
         else None)"

definition advance_scenario ::
  "ext_lib \<Rightarrow> http_request \<Rightarrow> bytes \<Rightarrow> 'f replay_state
     \<Rightarrow> 'f replay_state \<times> (service_error + rendered_scenario_response option)" where
  "advance_scenario X actual body st =
     (case rp_scenario st of
        None \<Rightarrow> (st, Inr None)
      | Some scn \<Rightarrow>
          (case advance X scn actual body of
             (scn', Inl e) \<Rightarrow> (st\<lparr>rp_scenario := Some scn'\<rparr>, Inl (SvInternal (CScenario e)))
           | (scn', Inr taken) \<Rightarrow> (st\<lparr>rp_scenario := Some scn'\<rparr>, Inr (map_option step_response taken))))"

text \<open>
  A server that records its misses holds the recording and the miss locks beside the replay state. The
  lock of a miss is taken before the second look and dropped at the end.
\<close>

record 'f server =
  srv_replay :: "'f replay_state"
  srv_misses :: "session_state option"
  srv_locks :: miss_locks

definition handle_miss ::
  "codec \<Rightarrow> ext_lib \<Rightarrow> egg_lib \<Rightarrow> upstream_lib \<Rightarrow> fixture_dir \<Rightarrow> append_context \<Rightarrow> http_request \<Rightarrow> bytes
     \<Rightarrow> session_state \<Rightarrow> 'f server \<Rightarrow> 'f server \<times> (service_error + reply)" where
  "handle_miss C X E U d context actual body recording srv =
     (case miss_key X U actual body of
        Inl e \<Rightarrow> (srv, Inl e)
      | Inr key \<Rightarrow>
          (case lock_for key (srv_locks srv) of
             (ml, Inl e) \<Rightarrow> (srv\<lparr>srv_locks := ml\<rparr>, Inl e)
           | (ml, Inr lock) \<Rightarrow>
               (case append_miss C X E U d context actual body (srv_replay srv) recording of
                  (st, recording', answer) \<Rightarrow>
                    (\<lparr>srv_replay = st, srv_misses = Some recording', srv_locks = drop_lock lock ml\<rparr>, answer))))"

definition handle_request ::
  "codec \<Rightarrow> ext_lib \<Rightarrow> egg_lib \<Rightarrow> upstream_lib \<Rightarrow> 'f float_ops \<Rightarrow> fixture_dir \<Rightarrow> append_context \<Rightarrow> u64 \<Rightarrow> inbound
     \<Rightarrow> 'f server \<Rightarrow> 'f server \<times> (service_error + reply)" where
  "handle_request C X E U ops d context body_limit request srv =
     (case admit_request E body_limit request of
        Some answer \<Rightarrow> (srv, answer)
      | None \<Rightarrow>
          (case ib_body request of
             Inl e \<Rightarrow> (srv, Inl (SvInternal (CLibrary e)))
           | Inr (body, trailers) \<Rightarrow>
               (let actual = request_from_eggserve X (ib_head request) (ib_scheme request) body trailers
                in case advance_scenario X actual body (srv_replay srv) of
                     (st1, Inl e) \<Rightarrow> (srv\<lparr>srv_replay := st1\<rparr>, Inl e)
                   | (st1, Inr (Some rendered)) \<Rightarrow> (srv\<lparr>srv_replay := st1\<rparr>, scenario_fault_response E rendered)
                   | (st1, Inr None) \<Rightarrow>
                       (case select_recorded X E d (srv_misses srv) actual body st1 of
                          (st2, SelAnswer answer) \<Rightarrow> (srv\<lparr>srv_replay := st2\<rparr>, answer)
                        | (st2, SelServe sv) \<Rightarrow>
                            (srv\<lparr>srv_replay := st2\<rparr>, serve_selected X E ops d (srv_misses srv) request st2 sv)
                        | (st2, SelMiss) \<Rightarrow>
                            (case srv_misses srv of
                               None \<Rightarrow> (srv\<lparr>srv_replay := st2\<rparr>, Inl (SvInternal CPanic))
                             | Some recording \<Rightarrow>
                                 handle_miss C X E U d context actual body recording (srv\<lparr>srv_replay := st2\<rparr>))))))"

end
