(* ===== verification/Replay_Streams.thy ===== *)
theory Replay_Streams
  imports Replay_Serve
begin

text \<open>
  What the streams of a replay server deliver: the body of a recording under its timing, and the
  bodies of a scenario under a fault.
\<close>

section \<open>What a stream delivers\<close>

fun em_data :: "emission \<Rightarrow> bytes" where
  "em_data (EmData _ b) = b"
| "em_data _ = []"

text \<open>The stream yields the content in chunks of at most \<open>n\<close> bytes, none empty, and then ends with \<open>final\<close>.\<close>

definition delivers :: "nat \<Rightarrow> emission list \<Rightarrow> bytes \<Rightarrow> (u64 \<Rightarrow> emission) \<Rightarrow> bool" where
  "delivers n items content final \<longleftrightarrow>
     (\<exists>sent delay. items = sent @ [final delay] \<and> concat (map em_data sent) = content
        \<and> (\<forall>x\<in>set sent. \<exists>\<delta> b. x = EmData \<delta> b \<and> b \<noteq> [] \<and> length b \<le> n))"

lemma delivers_end: "delivers n [final delay] [] final"
  unfolding delivers_def by (intro exI [of _ "[]"] exI [of _ delay]) simp

lemma delivers_Cons:
  assumes "delivers n items content final" and "b \<noteq> []" and "length b \<le> n"
  shows "delivers n (EmData \<delta> b # items) (b @ content) final"
proof -
  from assms(1) obtain sent delay where "items = sent @ [final delay]" "concat (map em_data sent) = content"
    "\<forall>x\<in>set sent. \<exists>\<delta> b. x = EmData \<delta> b \<and> b \<noteq> [] \<and> length b \<le> n"
    unfolding delivers_def by blast
  with assms(2,3) show ?thesis
    unfolding delivers_def by (intro exI [of _ "EmData \<delta> b # sent"] exI [of _ delay]) auto
qed

section \<open>A recorded body\<close>

definition ends_at :: "ext_lib \<Rightarrow> string \<Rightarrow> u64 \<Rightarrow> bytes \<Rightarrow> u64 \<Rightarrow> emission" where
  "ends_at X digest len content delay =
     (if x_sha256 X content = digest then EmDone delay else EmFail delay (FailIntegrity digest len len))"

fun is_data_step :: "timed_stream_step \<Rightarrow> bool" where
  "is_data_step (TData _ len) \<longleftrightarrow> len \<noteq> 0"
| "is_data_step (TError _ _) \<longleftrightarrow> False"

fun step_bytes :: "timed_stream_step \<Rightarrow> nat" where
  "step_bytes (TData _ len) = unat len"
| "step_bytes (TError _ _) = 0"

lemma max_chunk_bounds [simp]: "0 < max_chunk s" "max_chunk s \<le> 65536"
  by (auto simp: max_chunk_def unat_gt_0)

lemma read_on:
  fixes read len :: u64
  assumes "unat read + length rest = unat len" and "n \<le> length rest"
  shows "unat (read + of_nat n) = unat read + n"
proof -
  have "unat len < 2 ^ 64" using unsigned_less [of len, where ?'a = nat] by simp
  with assms have "unat read + n < 2 ^ 64" by simp
  then show ?thesis by (simp add: unat_word_ariths unat_of_nat)
qed

text \<open>One turn of the stream, where the file is no longer than the blob says.\<close>

lemma blob_items_turn:
  assumes "unat read + length rest = unat len" and "next_step steps seg = (delay, Inr segment, steps')"
  shows "blob_items X digest len steps seg read hashed rest =
    (if rest = [] then [if x_sha256 X hashed = digest then EmDone delay else EmFail delay (FailIntegrity digest len len)]
     else EmData delay (take (max_chunk segment) rest)
          # blob_items X digest len steps' (sat_sub segment (of_nat (length (take (max_chunk segment) rest))))
              (read + of_nat (length (take (max_chunk segment) rest))) (hashed @ take (max_chunk segment) rest)
              (drop (max_chunk segment) rest))"
proof (cases "rest = []")
  case True
  with assms(1) have "read = len" by (simp add: word_unat_eq_iff)
  with True show ?thesis by (subst blob_items.simps) (simp add: assms(2))
next
  case False
  let ?n = "length (take (max_chunk segment) rest)"
  have "take (max_chunk segment) rest \<noteq> []" using False max_chunk_bounds(1) [of segment] by simp
  moreover have "unat (read + of_nat ?n) = unat read + ?n" by (rule read_on [OF assms(1)]) simp
  then have "\<not> read + of_nat ?n > len" using assms(1) by (simp add: word_less_nat_alt)
  ultimately show ?thesis
    using False by (subst blob_items.simps) (simp add: assms(2) Let_def)
qed

lemma next_step_data:
  assumes "\<forall>s\<in>set steps. is_data_step s"
  obtains delay segment steps' where "next_step steps seg = (delay, Inr segment, steps')"
    and "\<forall>s\<in>set steps'. is_data_step s"
proof (cases "seg = 0 \<and> steps \<noteq> []")
  case True
  then obtain s rest where steps: "steps = s # rest" by (cases steps) auto
  with assms obtain delay len where "s = TData delay len" by (cases s) auto
  with True steps assms show thesis by (intro that [of delay len rest]) (auto simp: next_step_def)
next
  case False
  then show thesis using assms by (intro that [of 0 seg steps]) (auto simp: next_step_def)
qed

lemma whole_body:
  assumes "\<forall>s\<in>set steps. is_data_step s" and "unat read + length rest = unat len"
  shows "delivers 65536 (blob_items X digest len steps seg read hashed rest) rest (ends_at X digest len (hashed @ rest))"
  using assms
proof (induction "length rest" arbitrary: steps seg read hashed rest rule: less_induct)
  case less
  obtain delay segment steps' where step: "next_step steps seg = (delay, Inr segment, steps')"
    and data: "\<forall>s\<in>set steps'. is_data_step s" by (rule next_step_data [OF less.prems(1)])
  let ?buf = "take (max_chunk segment) rest" and ?rest = "drop (max_chunk segment) rest"
  show ?case
  proof (cases "rest = []")
    case True
    then show ?thesis
      using delivers_end [of 65536 "ends_at X digest len hashed" delay]
      unfolding blob_items_turn [OF less.prems(2) step] by (simp add: ends_at_def)
  next
    case False
    have buf: "?buf \<noteq> []" "length ?buf \<le> 65536"
      using False max_chunk_bounds [of segment] by (auto simp: min.coboundedI2)
    have "unat (read + of_nat (length ?buf)) = unat read + length ?buf"
      by (rule read_on [OF less.prems(2)]) simp
    then have "unat (read + of_nat (length ?buf)) + length ?rest = unat len"
      using less.prems(2) by simp
    moreover have "length ?rest < length rest" using False max_chunk_bounds(1) [of segment] by simp
    ultimately have "delivers 65536 (blob_items X digest len steps' (sat_sub segment (of_nat (length ?buf)))
        (read + of_nat (length ?buf)) (hashed @ ?buf) ?rest) ?rest (ends_at X digest len ((hashed @ ?buf) @ ?rest))"
      using data by (intro less.hyps)
    from delivers_Cons [OF this buf, of delay] show ?thesis
      by (simp add: blob_items_turn [OF less.prems(2) step] False)
  qed
qed

lemma body_then_error:
  assumes "\<forall>s\<in>set steps. is_data_step s" and "unat read + length rest = unat len"
    and "unat seg + sum_list (map step_bytes steps) = length rest"
  shows "delivers 65536 (blob_items X digest len (steps @ [TError d m]) seg read hashed rest) rest
           (\<lambda>delay. EmFail delay (FailMessage m))"
  using assms
proof (induction "length rest" arbitrary: steps seg read hashed rest rule: less_induct)
  case less
  show ?case
  proof (cases "seg = 0 \<and> steps = []")
    case True
    with less.prems(3) have "rest = []" by simp
    with True show ?thesis
      using delivers_end [of 65536 "\<lambda>delay. EmFail delay (FailMessage m)" d]
      by (subst blob_items.simps) (simp add: next_step_def)
  next
    case False
    obtain delay segment steps' where step: "next_step (steps @ [TError d m]) seg = (delay, Inr segment, steps' @ [TError d m])"
      and data: "\<forall>s\<in>set steps'. is_data_step s" and segment: "segment \<noteq> 0"
      and sum: "unat segment + sum_list (map step_bytes steps') = length rest"
    proof (cases "seg = 0")
      case True
      with False obtain s rest' where steps: "steps = s # rest'" by (cases steps) auto
      with less.prems(1) obtain delay n where "s = TData delay n" "n \<noteq> 0" by (cases s) auto
      with True steps less.prems show thesis by (intro that) (auto simp: next_step_def)
    next
      case False
      then show thesis using less.prems by (intro that) (auto simp: next_step_def)
    qed
    let ?buf = "take (max_chunk segment) rest" and ?rest = "drop (max_chunk segment) rest"
    have "rest \<noteq> []" using sum segment by (auto simp: unat_eq_zero)
    then have buf: "?buf \<noteq> []" "length ?buf \<le> 65536"
      using max_chunk_bounds [of segment] by (auto simp: min.coboundedI2)
    have small: "length ?buf \<le> unat segment" using segment by (simp add: max_chunk_def)
    have "unat (read + of_nat (length ?buf)) = unat read + length ?buf"
      by (rule read_on [OF less.prems(2)]) simp
    then have read: "unat (read + of_nat (length ?buf)) + length ?rest = unat len"
      using less.prems(2) by simp
    have "unat (of_nat (length ?buf) :: u64) = length ?buf"
      using buf(2) by (intro u64_of_length) simp
    then have "unat (sat_sub segment (of_nat (length ?buf))) + sum_list (map step_bytes steps') = length ?rest"
      using sum small by (simp add: unat_sat_sub del: length_take) (simp add: min_def split: if_splits)
    moreover have "length ?rest < length rest" using \<open>rest \<noteq> []\<close> max_chunk_bounds(1) [of segment] by simp
    ultimately have "delivers 65536 (blob_items X digest len (steps' @ [TError d m]) (sat_sub segment (of_nat (length ?buf)))
        (read + of_nat (length ?buf)) (hashed @ ?buf) ?rest) ?rest (\<lambda>delay. EmFail delay (FailMessage m))"
      using data read by (intro less.hyps)
    from delivers_Cons [OF this buf, of delay] show ?thesis
      by (simp add: blob_items_turn [OF less.prems(2) step] \<open>rest \<noteq> []\<close>)
  qed
qed

text \<open>The schedule of an accepted timeline: data steps, and at most one error, which is the last step.\<close>

definition recorded_failure :: "stream_event list \<Rightarrow> string option" where
  "recorded_failure events =
     (if events = [] then None
      else case se_event (last events) of
             SError _ category phase \<Rightarrow> Some (''recorded stream error: '' @ category @ ''/'' @ phase)
           | _ \<Rightarrow> None)"

definition schedule_shape :: "stream_event list \<Rightarrow> schedule_state \<Rightarrow> bool" where
  "schedule_shape events st \<longleftrightarrow>
     (\<exists>steps. (\<forall>s\<in>set steps. is_data_step s)
        \<and> sum_list (map step_bytes steps) = sum_list (map (\<lambda>e. unat (data_length e)) events)
        \<and> (case recorded_failure events of
             None \<Rightarrow> sch_steps st = steps \<and> \<not> terminal_error st
           | Some m \<Rightarrow> (\<exists>d. sch_steps st = steps @ [TError d m]) \<and> terminal_error st))"

lemma schedule_shaped:
  assumes "timeline_ok events" and "timed_schedule ops mode events = Inr st"
  shows "schedule_shape events st"
  using assms
proof (induction events arbitrary: st rule: rev_induct)
  case Nil
  then show ?case by (auto simp: schedule_shape_def timed_schedule_def schedule_start_def recorded_failure_def)
next
  case (snoc e es)
  from snoc.prems(2) obtain st1 where st1: "timed_schedule ops mode es = Inr st1"
    and step: "schedule_event ops mode st1 e = Inr st"
    by (auto simp: timed_schedule_def try_fold_snoc_Inr)
  have ok: "timeline_ok es" "\<not> terminal (cursor_of es)" "event_ok es e"
    using snoc.prems(1) by (simp_all add: timeline_ok_snoc)
  have "es \<noteq> [] \<Longrightarrow> \<not> is_terminal (last es)" using ok(2) by (simp add: cursor_of_def)
  then have open_end: "recorded_failure es = None"
    by (cases "es = []") (auto simp: recorded_failure_def is_terminal_def split: stream_event_kind.splits)
  from snoc.IH [OF ok(1) st1] obtain steps where steps: "\<forall>s\<in>set steps. is_data_step s"
    "sum_list (map step_bytes steps) = sum_list (map (\<lambda>e. unat (data_length e)) es)"
    "sch_steps st1 = steps" "\<not> terminal_error st1"
    by (auto simp: schedule_shape_def open_end)
  from step obtain delay where "delay_ns ops mode (sat_sub (se_delta_ns e) (previous_delta st1)) (accumulated_delay st1) = Inr delay"
    by (auto simp: schedule_event_def res_simps)
  note st = step [unfolded schedule_event_def this rbind_simps Let_def sum.inject(2), symmetric]
  show ?case
  proof (cases "se_event e")
    case (SData offset n)
    with ok(3) have "n \<noteq> 0" by (simp add: event_ok_def)
    with SData st steps show ?thesis
      by (simp add: schedule_shape_def recorded_failure_def data_length_def)
  qed (use st steps in \<open>auto simp: schedule_shape_def recorded_failure_def data_length_def\<close>)
qed

text \<open>
  Property C17: What a client gets of a recorded body. In every timing mode the stream yields the bytes
  of the blob, in order and all of them, in chunks of at most 64 KiB. It ends cleanly only if the
  digest of what it sent is the one of the recording, and never if the recording ended in an error:
  then it ends with that error, after the last recorded byte, and the length is not announced.
\<close>

theorem replayed_body_is_verified:
  assumes "open_blob d lim blob = Inr handle" and "blob_length blob < - 1"
    and "events = [] \<or> timeline_ok events \<and> delivered events = blob_length blob"
    and "timed_schedule ops mode events = Inr sch"
  shows "delivers 65536 (bs_items (blob_stream X E handle sch trailers)) (bh_file handle)
      (case recorded_failure events of
         Some m \<Rightarrow> (\<lambda>delay. EmFail delay (FailMessage m))
       | None \<Rightarrow> ends_at X (blob_sha256 blob) (blob_length blob) (bh_file handle))
    \<and> bs_known_length (blob_stream X E handle sch trailers)
      = (if recorded_failure events = None then Some (blob_length blob) else None)"
proof -
  let ?len = "blob_length blob"
  have handle: "bh_sha256 handle = blob_sha256 blob" "bh_length handle = ?len" "length (bh_file handle) = unat ?len"
    using assms(1) by (auto simp: open_blob_Inr_iff)
  have "timeline_ok events" using assms(3) by (auto simp: timeline_ok_def)
  from schedule_shaped [OF this assms(4)] obtain steps where steps: "\<forall>s\<in>set steps. is_data_step s"
    "sum_list (map step_bytes steps) = sum_list (map (\<lambda>e. unat (data_length e)) events)"
    "case recorded_failure events of
       None \<Rightarrow> sch_steps sch = steps \<and> \<not> terminal_error sch
     | Some m \<Rightarrow> (\<exists>d. sch_steps sch = steps @ [TError d m]) \<and> terminal_error sch"
    unfolding schedule_shape_def by blast
  show ?thesis
  proof (cases "recorded_failure events")
    case None
    with steps whole_body [OF steps(1), of 0 "bh_file handle" ?len X "blob_sha256 blob" 0 "[]"] show ?thesis
      by (simp add: blob_stream_def handle)
  next
    case (Some m)
    then have "events \<noteq> []" by (auto simp: recorded_failure_def)
    with assms(3) have "unat (delivered events) = unat ?len" by simp
    moreover have "unat ?len < 2 ^ 64 - 1" using assms(2) by (simp add: word_less_nat_alt unat_max_word)
    ultimately have "sum_list (map step_bytes steps) = length (bh_file handle)"
      using steps(2) by (simp add: unat_delivered handle(3) min_def split: if_splits)
    with Some steps body_then_error [OF steps(1), of 0 "bh_file handle" ?len 0] show ?thesis
      by (auto simp: blob_stream_def handle)
  qed
qed

definition demo_egg :: egg_lib where
  "demo_egg = \<lparr>eg_status = (\<lambda>_. Inr ()), eg_header = (\<lambda>_. Inr ()), eg_push = (\<lambda>_. Inr ()), eg_trailers = (\<lambda>_. Inr ()),
     eg_base64 = (\<lambda>_. Some (replicate 16 CHR ''k'')), eg_accept = (\<lambda>_. True), eg_accept_key = (\<lambda>_. ''accepted'')\<rparr>"

definition demo_handle :: blob_handle where
  "demo_handle = \<lparr>bh_file = ''abc'', bh_sha256 = demo_digest ''abc'', bh_length = 3\<rparr>"

definition demo_timeline :: "stream_event list" where
  "demo_timeline = [\<lparr>se_delta_ns = 1, se_event = SData 0 2\<rparr>, \<lparr>se_delta_ns = 4, se_event = SData 2 1\<rparr>,
                    \<lparr>se_delta_ns = 9, se_event = SError 3 ''timeout'' ''body''\<rparr>]"

theorem replayed_body_is_verified_witness:
  "\<exists>sch. timed_schedule no_floats Recorded demo_timeline = Inr sch
     \<and> delivers 65536 (bs_items (blob_stream demo_lib demo_egg demo_handle sch [])) ''abc''
         (\<lambda>delay. EmFail delay (FailMessage ''recorded stream error: timeout/body''))"
proof -
  have handle: "open_blob \<lparr>fd_files = [], fd_blobs = Some [(demo_digest ''abc'', RegularFile ''abc'')]\<rparr> store_limits_default
      \<lparr>blob_sha256 = demo_digest ''abc'', blob_length = 3\<rparr> = Inr demo_handle"
    by code_simp
  have timeline: "timeline_ok demo_timeline" "delivered demo_timeline = 3" by code_simp+
  obtain sch where sch: "timed_schedule no_floats Recorded demo_timeline = Inr sch"
    using recorded_schedule [OF timeline(1)] by blast
  have failure: "recorded_failure demo_timeline = Some ''recorded stream error: timeout/body''" by code_simp
  show ?thesis
    using replayed_body_is_verified [OF handle _ _ sch] sch timeline
    by (auto simp: failure demo_handle_def)
qed

section \<open>A scenario body\<close>

lemma fault_items_whole:
  assumes "offset \<le> length body"
  shows "delivers (max n 1) (fault_items n delay pending body offset) (drop offset body)
    (\<lambda>d. case pending of Some m \<Rightarrow> EmFail d (FailMessage m) | None \<Rightarrow> EmDone d)"
  using assms
proof (induction n delay pending body offset rule: fault_items.induct)
  case (1 n delay pending body offset)
  show ?case
  proof (cases "offset < length body")
    case True
    let ?stop = "min (offset + max n 1) (length body)"
    have "take (?stop - offset) (drop offset body) \<noteq> []" "length (take (?stop - offset) (drop offset body)) \<le> max n 1"
      using True by (auto simp: min_def)
    note turn = delivers_Cons [OF 1(1) [OF True refl] this, of delay]
    have "?stop - offset + offset = ?stop" using True by simp
    then have "take (?stop - offset) (drop offset body) @ drop ?stop body = drop offset body"
      by (metis append_take_drop_id drop_drop)
    with turn show ?thesis
      using True by (subst fault_items.simps) (simp add: Let_def)
  next
    case False
    with 1 show ?thesis
      by (subst fault_items.simps) (auto simp: split: option.splits intro: delivers_end)
  qed
qed

text \<open>How many bytes of the rendered body a fault lets through, where it cuts the response.\<close>

definition cut_at :: "rendered_scenario_response \<Rightarrow> nat option" where
  "cut_at rendered =
     (case rr_fault rendered of
        Some CloseBeforeResponse \<Rightarrow> Some 0
      | Some (CloseAfterBytes n) \<Rightarrow> Some (min (length (rr_body rendered)) (unat n))
      | _ \<Rightarrow> None)"

lemma delivered_bytes: "delivers n items content final \<Longrightarrow> (\<And>d. em_data (final d) = []) \<Longrightarrow> concat (map em_data items) = content"
  by (auto simp: delivers_def)



end
