(* ===== verification/Replay_Facts.thy ===== *)
theory Replay_Facts
  imports Replay_Handle Replay_Streams
begin

text \<open>
  What a replay server guarantees: which opened fixtures load, that its handler never panics, and what
  the stream of a recorded body delivers.
\<close>

section \<open>Loading an opened fixture\<close>

lemma fold_delivered:
  "fold (\<lambda>event total. sat_add total (case se_event event of SData _ len \<Rightarrow> len | _ \<Rightarrow> 0)) es 0 = delivered es"
  unfolding delivered_def foldl_conv_fold by (simp add: data_length_def)

lemma response_length_cases:
  "(case fl_outcome fl of OutResponse response \<Rightarrow> unwrap_or (body_ref_len (resp_body response)) 0 | OutError _ \<Rightarrow> 0)
   = response_length fl"
  by (cases "fl_outcome fl") (simp_all add: response_length_def body_len_or_zero_def)

lemma insert_new_Inr_iff:
  "insert_new message k v es = Inr r \<longleftrightarrow> map_of es k = None \<and> r = (k, v) # es"
  by (auto simp: insert_new_def)

lemma insert_new_fold:
  "try_fold (\<lambda>entries v. insert_new message (key v) v entries) es vs = Inr r \<longleftrightarrow>
     distinct (map key vs) \<and> (\<forall>v\<in>set vs. map_of es (key v) = None) \<and> r = rev (map (\<lambda>v. (key v, v)) vs) @ es"
proof (induction vs arbitrary: es)
  case (Cons v vs)
  show ?case
    unfolding try_fold_Cons_Inr insert_new_Inr_iff Cons.IH
    by (auto split: if_splits) (metis image_eqI)
qed auto

lemma load_candidates_iff:
  assumes "log_holds C d lim flows"
  shows "load_candidates C d lim = Inr (map match_candidate_from_flow flows)"
proof -
  have "iter_flows C d lim = Inr (map Inr flows)" using assms by (simp add: iter_flows_iff)
  then show ?thesis
    by (simp add: load_candidates_def res_simps list_all2_conv_all_nth)
qed

lemma read_extension_regular:
  assumes "find (\<lambda>e. ext_name e = name) (mf_extensions mf) = Some e"
    and "file_node d (ext_path e) = Some (RegularFile content)" and "ext_bytes d e \<le> MAX_EXTENSION_BYTES"
  shows "read_extension d mf name = Inr (Some content)"
  using assms by (simp add: read_extension_def ext_bytes_def)

lemma extension_found:
  assumes "extensions_ok C d es" and "find (\<lambda>e. ext_name e = name) es = Some e"
  shows "ext_name e = name" "extension_ok C d e"
  using assms by (auto simp: find_Some_iff extensions_ok_def)

text \<open>The two extensions as the loader decodes them: the validators have passed at the opening.\<close>

lemma load_stream_events_absent:
  assumes "find (\<lambda>e. ext_name e = ''stream-events'') (mf_extensions mf) = None"
  shows "load_stream_events C d mf mode =
    (if mode \<noteq> Immediate then Inl (RpState (SpText ''timed replay requires a stream-events extension'')) else Inr [])"
  using assms by (simp add: load_stream_events_def read_extension_def)

lemma load_stream_events_opened:
  assumes "fixture_ok C X d lim mf flows"
    and "find (\<lambda>e. ext_name e = ''stream-events'') (mf_extensions mf) = Some e"
  obtains doc where "read_json (cd_events_from C) (file_node d (ext_path e)) = Inr doc"
    and "load_stream_events C d mf mode = Inr (rev (map (\<lambda>fl. (fse_flow_id fl, fl)) (ses_flows doc)))"
proof -
  have "extensions_ok C d (mf_extensions mf)" using assms by (simp add: fixture_ok_def)
  from extension_found [OF this assms(2)] obtain content where e: "ext_name e = ''stream-events''"
    and content: "file_node d (ext_path e) = Some (RegularFile content)" "ext_bytes d e \<le> MAX_EXTENSION_BYTES"
    and payload: "validate_extension_payload C d e = Inr ()"
    by (auto simp: extension_ok_def)
  from payload obtain doc where doc: "read_json (cd_events_from C) (file_node d (ext_path e)) = Inr doc"
      "validate_stream_events doc = Inr ()"
    by (auto simp: validate_extension_payload_def e res_simps split: if_splits)
  from doc(1) have decoded: "cd_events_from C content = Some doc"
    by (simp add: read_json_def content(1) res_simps)
  have "distinct (map fse_flow_id (ses_flows doc))"
    using doc(2) by (simp add: validate_stream_events_Inr_iff flows_ok_def)
  then have "try_fold (\<lambda>entries events. insert_new ''duplicate stream event flow id'' (fse_flow_id events) events entries)
      [] (ses_flows doc) = Inr (rev (map (\<lambda>fl. (fse_flow_id fl, fl)) (ses_flows doc)))"
    by (simp add: insert_new_fold)
  then have "load_stream_events C d mf mode = Inr (rev (map (\<lambda>fl. (fse_flow_id fl, fl)) (ses_flows doc)))"
    by (simp add: load_stream_events_def read_extension_regular [OF assms(2) content] decoded doc)
  with doc(1) show thesis by (rule that)
qed

lemma load_websockets_opened:
  assumes "fixture_ok C X d lim mf flows"
  shows "\<exists>ws. load_websockets C d mf = Inr ws"
proof (cases "find (\<lambda>e. ext_name e = ''websocket-messages'') (mf_extensions mf)")
  case None
  then show ?thesis by (simp add: load_websockets_def read_extension_def)
next
  case (Some e)
  have "extensions_ok C d (mf_extensions mf)" using assms by (simp add: fixture_ok_def)
  from extension_found [OF this Some] obtain content where e: "ext_name e = ''websocket-messages''"
    and content: "file_node d (ext_path e) = Some (RegularFile content)" "ext_bytes d e \<le> MAX_EXTENSION_BYTES"
    and payload: "validate_extension_payload C d e = Inr ()"
    by (auto simp: extension_ok_def)
  from payload obtain doc where doc: "read_json (cd_transcript_from C) (file_node d (ext_path e)) = Inr doc"
      "validate_transcript doc ws_limits_default = Inr ()"
    by (auto simp: validate_extension_payload_def e res_simps split: if_splits)
  from doc(1) have decoded: "cd_transcript_from C content = Some doc"
    by (simp add: read_json_def content(1) res_simps)
  have "conversations_ok ws_limits_default (wt_conversations doc)"
    by (rule accepted_conversations [OF doc(2)])
  then have "distinct (map wc_flow_id (wt_conversations doc))" by (simp add: conversations_ok_def)
  then show ?thesis
    by (auto simp: load_websockets_def read_extension_regular [OF Some content] decoded doc insert_new_fold)
qed

definition extensions_served :: "bool \<Rightarrow> extension_descriptor list \<Rightarrow> bool" where
  "extensions_served has_scenario es \<longleftrightarrow>
     (\<forall>e\<in>set es. ext_required e \<longrightarrow> ext_name e \<in> {''stream-events'', ''websocket-messages''}
        \<or> ext_name e = ''rules'' \<and> has_scenario)"

definition has_stored_response :: "flow \<Rightarrow> bool" where
  "has_stored_response fl \<longleftrightarrow>
     (\<exists>response blob. fl_outcome fl = OutResponse response \<and> resp_body response = BodyBlob blob)"

text \<open>A timeline was recorded for every flow with a stored response body.\<close>

definition timelines_recorded :: "codec \<Rightarrow> fixture_dir \<Rightarrow> manifest \<Rightarrow> flow list \<Rightarrow> bool" where
  "timelines_recorded C d mf flows \<longleftrightarrow>
     (\<exists>e doc. find (\<lambda>e. ext_name e = ''stream-events'') (mf_extensions mf) = Some e
        \<and> read_json (cd_events_from C) (file_node d (ext_path e)) = Inr doc
        \<and> (\<forall>fl\<in>set flows. has_stored_response fl \<longrightarrow> fl_id fl \<in> fse_flow_id ` set (ses_flows doc)))"

lemma extension_enabled_iff:
  "check_all (extension_enabled has_scenario) es = Inr () \<longleftrightarrow> extensions_served has_scenario es"
  by (auto simp: res_simps extension_enabled_def extensions_served_def)

lemma map_of_timelines:
  assumes "distinct (map fse_flow_id fls)"
  shows "map_of (rev (map (\<lambda>fl. (fse_flow_id fl, fl)) fls)) k = Some ev \<longleftrightarrow> ev \<in> set fls \<and> fse_flow_id ev = k"
proof -
  have "distinct (map fst (rev (map (\<lambda>fl. (fse_flow_id fl, fl)) fls)))"
    using assms by (simp add: rev_map [symmetric] comp_def)
  from map_of_eq_Some_iff [OF this] show ?thesis by auto
qed

lemma candidate_flow [simp]: "mc_flow (match_candidate_from_flow fl) = fl"
  by (simp add: match_candidate_from_flow_def)

lemma lacks_events_iff:
  "lacks_events events (match_candidate_from_flow fl) \<longleftrightarrow> has_stored_response fl \<and> map_of events (fl_id fl) = None"
  by (auto simp: lacks_events_def has_stored_response_def split: flow_outcome.splits body_ref.splits)

lemma event_lengths_agree:
  assumes "fixture_ok C X d lim mf flows" and "load_stream_events C d mf mode = Inr events"
  shows "check_all (check_event_length events) (map match_candidate_from_flow flows) = Inr ()"
proof -
  have "check_event_length events (match_candidate_from_flow fl) = Inr ()" if fl: "fl \<in> set flows" for fl
  proof (cases "map_of events (fl_id fl)")
    case None
    then show ?thesis by (simp add: check_event_length_def)
  next
    case (Some ev)
    then have "events \<noteq> []" by auto
    with assms(2) obtain e where e: "find (\<lambda>e. ext_name e = ''stream-events'') (mf_extensions mf) = Some e"
      by (cases "find (\<lambda>e. ext_name e = ''stream-events'') (mf_extensions mf)")
        (auto simp: load_stream_events_absent split: if_splits)
    obtain doc where doc: "read_json (cd_events_from C) (file_node d (ext_path e)) = Inr doc"
      and "load_stream_events C d mf mode = Inr (rev (map (\<lambda>fl. (fse_flow_id fl, fl)) (ses_flows doc)))"
      by (rule load_stream_events_opened [OF assms(1) e])
    then have events: "events = rev (map (\<lambda>fl. (fse_flow_id fl, fl)) (ses_flows doc))" using assms(2) by simp
    have "ev \<in> set (ses_flows doc)" "fse_flow_id ev = fl_id fl"
      using map_of_SomeD [OF Some] by (auto simp: events)
    then obtain fl' where "fl' \<in> set flows" "fl_id fl' = fl_id fl" "delivered (fse_response ev) = response_length fl'"
      using assms(1) by (auto simp: fixture_ok_def timelines_match_def e doc)
    moreover have "distinct (map fl_id flows)"
      using assms(1) by (simp add: fixture_ok_def session_flows_ok_def)
    ultimately have "delivered (fse_response ev) = response_length fl"
      using fl by (metis distinct_map inj_on_eq_iff)
    then show ?thesis
      by (simp add: check_event_length_def Some fold_delivered response_length_cases)
  qed
  then show ?thesis by (simp add: check_all_Inr_iff)
qed

lemma timelines_recorded_iff:
  assumes "fixture_ok C X d lim mf flows" and "load_stream_events C d mf mode = Inr events"
    and "mode \<noteq> Immediate"
  shows "list_ex (lacks_events events) (map match_candidate_from_flow flows) \<longleftrightarrow> \<not> timelines_recorded C d mf flows"
proof -
  obtain e where e: "find (\<lambda>e. ext_name e = ''stream-events'') (mf_extensions mf) = Some e"
    using assms(2,3)
    by (cases "find (\<lambda>e. ext_name e = ''stream-events'') (mf_extensions mf)") (auto simp: load_stream_events_absent)
  obtain doc where doc: "read_json (cd_events_from C) (file_node d (ext_path e)) = Inr doc"
    and "load_stream_events C d mf mode = Inr (rev (map (\<lambda>fl. (fse_flow_id fl, fl)) (ses_flows doc)))"
    by (rule load_stream_events_opened [OF assms(1) e])
  then have events: "events = rev (map (\<lambda>fl. (fse_flow_id fl, fl)) (ses_flows doc))" using assms(2) by simp
  have "map_of events k = None \<longleftrightarrow> k \<notin> fse_flow_id ` set (ses_flows doc)" for k
    by (auto simp: events map_of_eq_None_iff image_image)
  then show ?thesis
    by (auto simp: timelines_recorded_def list_ex_iff lacks_events_iff e doc)
qed

lemma load_opened:
  assumes "fixture_ok C X d (se_limits se) (se_manifest se) flows"
  shows "load_inner C d se m sc mode = Inr st \<longleftrightarrow>
    extensions_served (sc \<noteq> None) (mf_extensions (se_manifest se))
    \<and> (mode = Immediate \<or> timelines_recorded C d (se_manifest se) flows)
    \<and> (\<exists>events ws. load_stream_events C d (se_manifest se) mode = Inr events
         \<and> load_websockets C d (se_manifest se) = Inr ws
         \<and> st = \<lparr>rp_candidates = map match_candidate_from_flow flows, rp_in_append = replicate (length flows) False,
              rp_matcher = m, rp_session = matcher_session_new, rp_store = se, rp_scenario = sc,
              rp_stream_events = events, rp_timing = mode, rp_websockets = ws\<rparr>)"
proof -
  have log: "log_holds C d (se_limits se) flows" and count: "mf_flow_count (se_manifest se) = length flows"
    using assms by (simp_all add: fixture_ok_def)
  show ?thesis
    unfolding load_inner_def Let_def rbind_Inr_iff load_candidates_iff [OF log] count extension_enabled_iff [symmetric]
    using event_lengths_agree [OF assms] timelines_recorded_iff [OF assms, of mode]
    by (auto simp: if_Inl_eq_Inr)
qed


lemma demo_opened:
  "open_session demo_codec demo_lib [(''out'', ''s'') \<mapsto> demo_published] (''out'', ''s'') store_limits_default =
     Inr \<lparr>se_root = (''out'', ''s''), se_manifest = demo_manifest 1, se_limits = store_limits_default\<rparr>"
proof -
  have "read_json (cd_manifest_from demo_codec) (file_node demo_published ''manifest.json'') = Inr (demo_manifest 1)"
    by code_simp
  then show ?thesis using demo_open by (simp add: open_session_def)
qed


section \<open>A sealed server\<close>

text \<open>
  What a server without an upstream answers, as a function of which candidates match: the first one
  that was not served yet, or the reason why there is none.
\<close>

definition recorded_answer ::
  "ext_lib \<Rightarrow> egg_lib \<Rightarrow> 'f float_ops \<Rightarrow> fixture_dir \<Rightarrow> inbound \<Rightarrow> 'f replay_state \<Rightarrow> flow \<Rightarrow> service_error + reply" where
  "recorded_answer X E ops d request st fl =
     (case fl_outcome fl of
        OutResponse response \<Rightarrow>
          (let headers = render_recorded_headers (hd_version (ib_head request)) (resp_headers response);
               sv = \<lparr>sv_headers = resp_headers response, sv_status = resp_status response, sv_body = resp_body response,
                 sv_trailers = resp_trailers response, sv_in_append = False,
                 sv_events = (case map_of (rp_stream_events st) (fl_id fl) of
                    Some events \<Rightarrow> fse_response events | None \<Rightarrow> []),
                 sv_websocket = map_of (rp_websockets st) (fl_id fl)\<rparr>
           in if resp_status response = 101 then serve_selected X E ops d None request st sv
              else fixture_reply X E ops d (se_limits (rp_store st)) (rp_timing st) sv headers)
      | OutError err \<Rightarrow>
          response_bytes E 502 [] (''recorded upstream error: '' @ category_debug (fe_category err) @ [newline]))"

definition sealed_answer ::
  "ext_lib \<Rightarrow> egg_lib \<Rightarrow> 'f float_ops \<Rightarrow> fixture_dir \<Rightarrow> inbound \<Rightarrow> 'f replay_state \<Rightarrow> http_request \<Rightarrow> bytes
     \<Rightarrow> nat set \<Rightarrow> nat set \<times> (service_error + reply)" where
  "sealed_answer X E ops d request st actual body used =
     (let cands = rp_candidates st;
          matches = (\<lambda>i. candidate_matches X (rp_matcher st) actual body
             (fixture_loader X d (se_limits (rp_store st)) None (rp_in_append st)) i (cands ! i))
      in case find (\<lambda>i. matches i \<and> i \<notin> used) [0..<length cands] of
           Some i \<Rightarrow> (insert i used, recorded_answer X E ops d request st (mc_flow (cands ! i)))
         | None \<Rightarrow>
             (used, if list_ex matches [0..<length cands]
                    then response_bytes E 409 [] (''eggreplay replay fixture exhausted'' @ [newline])
                    else response_bytes E 404 [] (''eggreplay replay no match'' @ [newline])))"

fun sealed_run ::
  "ext_lib \<Rightarrow> egg_lib \<Rightarrow> 'f float_ops \<Rightarrow> fixture_dir \<Rightarrow> u64 \<Rightarrow> 'f replay_state \<Rightarrow> nat set \<Rightarrow> inbound list
     \<Rightarrow> (service_error + reply) list" where
  "sealed_run X E ops d limit st used [] = []"
| "sealed_run X E ops d limit st used (request # requests) =
     (let (used', answer) =
        (case admit_request E limit request of
           Some answer \<Rightarrow> (used, answer)
         | None \<Rightarrow>
             (case ib_body request of
                Inl e \<Rightarrow> (used, Inl (SvInternal (CLibrary e)))
              | Inr (body, trailers) \<Rightarrow>
                  sealed_answer X E ops d request st
                    (request_from_eggserve X (ib_head request) (ib_scheme request) body trailers) body used))
      in answer # sealed_run X E ops d limit st used' requests)"

text \<open>The requests of a server, one after the other.\<close>

fun serve_all ::
  "codec \<Rightarrow> ext_lib \<Rightarrow> egg_lib \<Rightarrow> upstream_lib \<Rightarrow> 'f float_ops \<Rightarrow> fixture_dir \<Rightarrow> append_context \<Rightarrow> u64
     \<Rightarrow> inbound list \<Rightarrow> 'f server \<Rightarrow> (service_error + reply) list" where
  "serve_all C X E U ops d context limit [] srv = []"
| "serve_all C X E U ops d context limit (request # requests) srv =
     (case handle_request C X E U ops d context limit request srv of
        (srv', answer) \<Rightarrow> answer # serve_all C X E U ops d context limit requests srv')"

lemma find_first:
  assumes "i < n" and "P i" and "\<forall>j<i. \<not> P j"
  shows "find P [0..<n] = Some i"
  using assms by (auto simp: find_Some_iff)

lemma select_sealed:
  assumes append: "rp_in_append st = replicate (length (rp_candidates st)) False"
    and sel: "select_recorded X E d None actual body st = (st', selection)"
  shows "st' = st\<lparr>rp_session := (rp_session st)\<lparr>ms_consumed :=
      fst (sealed_answer X E ops d request st actual body (ms_consumed (rp_session st)))\<rparr>\<rparr>
    \<and> (case selection of
         SelServe sv \<Rightarrow> serve_selected X E ops d None request st' sv
       | SelAnswer answer \<Rightarrow> answer | SelMiss \<Rightarrow> Inl (SvInternal CPanic))
      = snd (sealed_answer X E ops d request st actual body (ms_consumed (rp_session st)))"
proof -
  let ?g = "fixture_loader X d (se_limits (rp_store st)) None (rp_in_append st)"
  let ?m = "\<lambda>i. candidate_matches X (rp_matcher st) actual body ?g i (rp_candidates st ! i)"
  obtain r session' u where r: "select_with_loader X (rp_matcher st) actual body (rp_candidates st) Consume_Once
      (rp_session st) (answers ?g) () = (r, session', u)" by (rule prod_cases3)
  note res = select_answers_result [OF r]
  have avail: "is_available Consume_Once s i \<longleftrightarrow> i \<notin> ms_consumed s" for s i
    by (simp add: is_available_def)
  show ?thesis
  proof (cases r)
    case (Matched i)
    with res have i: "i < length (rp_candidates st)" "?m i" "i \<notin> ms_consumed (rp_session st)"
        "session' = (rp_session st)\<lparr>ms_consumed := insert i (ms_consumed (rp_session st))\<rparr>"
        "\<forall>j<i. \<not> (?m j \<and> j \<notin> ms_consumed (rp_session st))"
      by (auto simp: avail consume_def)
    have "find (\<lambda>i. ?m i \<and> i \<notin> ms_consumed (rp_session st)) [0..<length (rp_candidates st)] = Some i"
      using i by (intro find_first) auto
    moreover have "nth_opt (rp_in_append st) i = Some False" using i(1) by (simp add: nth_opt_def append)
    ultimately show ?thesis
      using sel i(4)
      by (auto simp: select_recorded_def r Matched sealed_answer_def recorded_answer_def Let_def serve_selected_def
          split: flow_outcome.splits)
  next
    case (NoMatch near)
    with res have none: "session' = rp_session st" "\<forall>j<length (rp_candidates st). \<not> ?m j" by auto
    then have "find (\<lambda>i. ?m i \<and> i \<notin> ms_consumed (rp_session st)) [0..<length (rp_candidates st)] = None"
      "\<not> list_ex ?m [0..<length (rp_candidates st)]"
      by (auto simp: find_None_iff list_ex_iff)
    then show ?thesis
      using sel none(1) by (auto simp: select_recorded_def r NoMatch sealed_answer_def)
  next
    case (Exhausted near)
    with res have ex: "session' = rp_session st" "\<exists>j<length (rp_candidates st). ?m j"
      "\<forall>j<length (rp_candidates st). ?m j \<longrightarrow> j \<in> ms_consumed (rp_session st)" by (auto simp: avail)
    then have "find (\<lambda>i. ?m i \<and> i \<notin> ms_consumed (rp_session st)) [0..<length (rp_candidates st)] = None"
      "list_ex ?m [0..<length (rp_candidates st)]"
      by (auto simp: find_None_iff list_ex_iff)
    then show ?thesis
      using sel ex(1) by (auto simp: select_recorded_def r Exhausted sealed_answer_def)
  qed
qed

abbreviation with_used :: "nat set \<Rightarrow> 'f replay_state \<Rightarrow> 'f replay_state" where
  "with_used used st \<equiv> st\<lparr>rp_session := (rp_session st)\<lparr>ms_consumed := used\<rparr>\<rparr>"

lemma serve_selected_static:
  "serve_selected X E ops d None request (with_used used st) sv = serve_selected X E ops d None request st sv"
  by (simp add: serve_selected_def Let_def)

lemma recorded_answer_static:
  "recorded_answer X E ops d request (with_used used st) fl = recorded_answer X E ops d request st fl"
  by (cases "fl_outcome fl") (simp_all add: recorded_answer_def serve_selected_static Let_def)

lemma sealed_answer_static:
  "sealed_answer X E ops d request (with_used used' st) actual body used = sealed_answer X E ops d request st actual body used"
  by (simp add: sealed_answer_def recorded_answer_static Let_def cong: option.case_cong)

lemma with_used_again: "with_used used (with_used used' st) = with_used used st"
  by simp

lemma sealed_run_static:
  "sealed_run X E ops d limit (with_used u st) used requests = sealed_run X E ops d limit st used requests"
proof (induction requests arbitrary: used)
  case (Cons request requests)
  then show ?case
    by (simp add: sealed_answer_static split: option.splits sum.splits prod.splits)
qed simp

lemma sealed_step:
  assumes "rp_in_append st = replicate (length (rp_candidates st)) False" and "rp_scenario st = None"
    and "admit_request E limit request = None" and "ib_body request = Inr (body, trailers)"
    and "sealed_answer X E ops d request st
           (request_from_eggserve X (ib_head request) (ib_scheme request) body trailers) body (ms_consumed (rp_session st))
         = (used, answer)"
  shows "handle_request C X E U ops d context limit request \<lparr>srv_replay = st, srv_misses = None, srv_locks = ml\<rparr>
    = (\<lparr>srv_replay = with_used used st, srv_misses = None, srv_locks = ml\<rparr>, answer)"
proof -
  let ?actual = "request_from_eggserve X (ib_head request) (ib_scheme request) body trailers"
  obtain st' selection where sel: "select_recorded X E d None ?actual body st = (st', selection)"
    by (rule prod.exhaust)
  from select_sealed [OF assms(1) sel, of ops request]
  have st': "st' = with_used used st" and answer: "(case selection of
         SelServe sv \<Rightarrow> serve_selected X E ops d None request st' sv
       | SelAnswer answer \<Rightarrow> answer | SelMiss \<Rightarrow> Inl (SvInternal CPanic)) = answer"
    by (simp_all add: assms(5))
  show ?thesis
    using answer
    by (cases selection) (simp_all add: handle_request_def assms(2-4) advance_scenario_def sel st')
qed

lemma sealed_runs:
  assumes "rp_in_append st = replicate (length (rp_candidates st)) False" and "rp_scenario st = None"
  shows "serve_all C X E U ops d context limit requests \<lparr>srv_replay = st, srv_misses = None, srv_locks = ml\<rparr>
    = sealed_run X E ops d limit st (ms_consumed (rp_session st)) requests"
  using assms
proof (induction requests arbitrary: st)
  case (Cons request requests)
  note refused = Cons.IH [OF Cons.prems]
  show ?case
  proof (cases "admit_request E limit request")
    case (Some answer)
    then show ?thesis using refused by (simp add: handle_request_def)
  next
    case admitted: None
    show ?thesis
    proof (cases "ib_body request")
      case (Inl e)
      then show ?thesis using refused by (simp add: handle_request_def admitted)
    next
      case (Inr r)
      obtain body trailers where r: "r = (body, trailers)" by (rule prod.exhaust)
      let ?actual = "request_from_eggserve X (ib_head request) (ib_scheme request) body trailers"
      obtain used answer where answer: "sealed_answer X E ops d request st ?actual body (ms_consumed (rp_session st))
          = (used, answer)" by (rule prod.exhaust)
      show ?thesis
        using Cons.IH [of "with_used used st"] Cons.prems
        by (simp add: sealed_step [OF Cons.prems admitted Inr [unfolded r] answer] admitted Inr r answer sealed_run_static)
    qed
  qed
qed simp

text \<open>
  Property C16: A sealed replay server is the reference pool of recordings. Whatever sequence of requests
  reaches a server that was started on an opened fixture without a scenario, every request that is let
  in is answered with the first recorded flow that matches it and was not served before, in the order
  of the log; a request that matches only served recordings gets 409 and one that matches none 404. No
  flow is served twice, a refused request uses up nothing, and the handler never panics.
\<close>

theorem sealed_server_is_a_pool:
  assumes "open_session C X fsys root lim = Inr se" and "fsys root = Some d"
    and "load_inner C d se m None mode = Inr st"
  shows "serve_all C X E U ops d context limit requests
      \<lparr>srv_replay = st, srv_misses = None, srv_locks = \<lparr>ml_locks = [], ml_held = [], ml_next = 0\<rparr>\<rparr>
    = sealed_run X E ops d limit st {} requests"
proof -
  from assms obtain flows where "fixture_ok C X d (se_limits se) (se_manifest se) flows"
    by (auto simp: open_session_iff)
  from assms(3) [unfolded load_opened [OF this]]
  have "rp_in_append st = replicate (length (rp_candidates st)) False" "rp_scenario st = None"
    "ms_consumed (rp_session st) = {}"
    by (auto simp: matcher_session_new_def)
  from sealed_runs [OF this(1,2)] this(3) show ?thesis by simp
qed

definition demo_inbound :: inbound where
  "demo_inbound =
     \<lparr>ib_head = \<lparr>hd_version = Http11, hd_method = ''GET'', hd_authority = None, hd_path = ''/cart/abc'',
        hd_query = Some ''token=x'',
        hd_headers = [(''Host'', ''Example.Test''), (''authorization'', ''Bearer 1''), (''x-id'', ''7'')]\<rparr>,
      ib_scheme = ''http'', ib_body = Inr ([], None), ib_tunnel = None\<rparr>"

definition demo_replay :: "unit replay_state" where
  "demo_replay =
     \<lparr>rp_candidates = [match_candidate_from_flow sample_flow], rp_in_append = [False], rp_matcher = matcher_strict 8,
      rp_session = matcher_session_new,
      rp_store = \<lparr>se_root = (''out'', ''s''), se_manifest = demo_manifest 1, se_limits = store_limits_default\<rparr>,
      rp_scenario = None, rp_stream_events = [], rp_timing = Immediate, rp_websockets = []\<rparr>"

lemma demo_loads:
  "load_inner demo_codec demo_published (rp_store demo_replay) (matcher_strict 8) None Immediate = Inr demo_replay"
proof -
  have "load_candidates demo_codec demo_published store_limits_default = Inr [match_candidate_from_flow sample_flow]"
    by code_simp
  then show ?thesis
    by (simp add: load_inner_def demo_replay_def demo_manifest_def load_stream_events_def read_extension_def
        check_event_length_def load_websockets_def)
qed

theorem sealed_server_is_a_pool_witness:
  "\<forall>U ctx. serve_all demo_codec demo_lib demo_egg U no_floats demo_published ctx 10
       [demo_inbound, demo_inbound]
       \<lparr>srv_replay = demo_replay, srv_misses = None, srv_locks = \<lparr>ml_locks = [], ml_held = [], ml_next = 0\<rparr>\<rparr>
     = [Inr (Reply 0 \<lparr>pr_status = 200, pr_headers = resp_headers sample_response, pr_body = RbEmpty\<rparr>),
        Inr (Reply 0 \<lparr>pr_status = 409, pr_headers = [],
                      pr_body = RbBytes (''eggreplay replay fixture exhausted'' @ [newline])\<rparr>)]"
proof (intro allI)
  fix U ctx
  have store: "rp_store demo_replay = \<lparr>se_root = (''out'', ''s''), se_manifest = demo_manifest 1, se_limits = store_limits_default\<rparr>"
    by (simp add: demo_replay_def)
  have "sealed_run demo_lib demo_egg no_floats demo_published 10 demo_replay {} [demo_inbound, demo_inbound]
    = [Inr (Reply 0 \<lparr>pr_status = 200, pr_headers = resp_headers sample_response, pr_body = RbEmpty\<rparr>),
       Inr (Reply 0 \<lparr>pr_status = 409, pr_headers = [],
                     pr_body = RbBytes (''eggreplay replay fixture exhausted'' @ [newline])\<rparr>)]"
    by code_simp
  then show "serve_all demo_codec demo_lib demo_egg U no_floats demo_published ctx 10 [demo_inbound, demo_inbound]
       \<lparr>srv_replay = demo_replay, srv_misses = None, srv_locks = \<lparr>ml_locks = [], ml_held = [], ml_next = 0\<rparr>\<rparr>
     = [Inr (Reply 0 \<lparr>pr_status = 200, pr_headers = resp_headers sample_response, pr_body = RbEmpty\<rparr>),
        Inr (Reply 0 \<lparr>pr_status = 409, pr_headers = [],
                      pr_body = RbBytes (''eggreplay replay fixture exhausted'' @ [newline])\<rparr>)]"
    using sealed_server_is_a_pool [OF demo_opened, of demo_published "matcher_strict 8" Immediate demo_replay
        demo_egg U no_floats ctx 10 "[demo_inbound, demo_inbound]"] demo_loads
    by (simp add: store)
qed

end
