(* ===== verification/Replay_Socket.thy ===== *)
theory Replay_Socket
  imports Replay_Load Redaction
begin

text \<open>
  The script of a recorded WebSocket conversation, \<^verbatim>\<open>replay_websocket_script\<close> and
  \<^verbatim>\<open>websocket_message_matches\<close> of \<^verbatim>\<open>crates/eggreplay-http/src/replay.rs\<close>: what the client sends has to be
  what was recorded of the client, and what was recorded of the server is sent in its turn.

  The codec is third-party: a message is the variant it yields. The client is the list of the messages
  it sends; where the list ends, the connection is lost, cancelled or past its deadline. Which of the
  output operations fails is a predicate on their number.
\<close>

section \<open>Messages\<close>

datatype ws_frame =
    MText string
  | MBinary bytes
  | MPing bytes
  | MPong bytes
  | MClose "(u16 \<times> string) option"
  | MRaw

fun frame_kind :: "ws_frame \<Rightarrow> ws_kind option" where
  "frame_kind (MText _) = Some WText"
| "frame_kind (MBinary _) = Some WBinary"
| "frame_kind (MPing _) = Some WPing"
| "frame_kind (MPong _) = Some WPong"
| "frame_kind (MClose _) = Some WClose"
| "frame_kind MRaw = None"

fun frame_payload :: "ws_frame \<Rightarrow> bytes" where
  "frame_payload (MText s) = s"
| "frame_payload (MBinary b) = b"
| "frame_payload (MPing b) = b"
| "frame_payload (MPong b) = b"
| "frame_payload _ = []"

fun frame_close :: "ws_frame \<Rightarrow> u16 option \<times> string option" where
  "frame_close (MClose (Some (code, reason))) = (Some code, Some reason)"
| "frame_close _ = (None, None)"

definition reads :: "store_error + bytes \<Rightarrow> bytes option" where
  "reads r = (case r of Inr b \<Rightarrow> Some b | Inl _ \<Rightarrow> None)"

definition first_pointers :: "ws_redaction list \<Rightarrow> string list option" where
  "first_pointers redactions =
     (case List.map_filter (\<lambda>r. case r of JsonPointers pointers \<Rightarrow> Some pointers | _ \<Rightarrow> None) redactions of
        [] \<Rightarrow> None | pointers # _ \<Rightarrow> Some pointers)"

definition payload_agrees :: "ext_lib \<Rightarrow> ws_redaction list \<Rightarrow> bytes \<Rightarrow> bytes \<Rightarrow> bool" where
  "payload_agrees X redactions expected_payload payload =
     (case first_pointers redactions of
        Some pointers \<Rightarrow>
          (case (apply_json_redaction X expected_payload (bset_of_list pointers),
                 apply_json_redaction X payload (bset_of_list pointers)) of
             (Inr (a, _), Inr (b, _)) \<Rightarrow> a = b | _ \<Rightarrow> False)
      | None \<Rightarrow> payload = expected_payload)"

definition websocket_message_matches ::
  "ext_lib \<Rightarrow> fixture_dir \<Rightarrow> store_limits \<Rightarrow> ws_message \<Rightarrow> ws_frame \<Rightarrow> bool" where
  "websocket_message_matches X d lim expected actual =
     (case frame_kind actual of
        None \<Rightarrow> False
      | Some kind \<Rightarrow>
          (let (code, reason) = frame_close actual
           in if kind \<noteq> wm_kind expected \<or> (kind = WClose \<and> code \<noteq> wm_close_code expected) then False
              else if \<exists>r\<in>set (wm_redactions expected). r = WholeMessage \<or> r = CloseReason then True
              else if kind = WClose then reason = wm_close_reason expected
              else (case (case wm_payload expected of
                            Some (BodyBlob blob) \<Rightarrow> reads (read_blob X d lim blob) | _ \<Rightarrow> Some []) of
                      None \<Rightarrow> False
                    | Some expected_payload \<Rightarrow>
                        payload_agrees X (wm_redactions expected) expected_payload (frame_payload actual))))"

text \<open>The message sent for a recorded one; a text that is not UTF-8 is none.\<close>

definition recorded_frame :: "ws_message \<Rightarrow> bytes \<Rightarrow> ws_frame option" where
  "recorded_frame expected payload =
     (case wm_kind expected of
        WText \<Rightarrow> (if utf8_valid payload then Some (MText payload) else None)
      | WBinary \<Rightarrow> Some (MBinary payload)
      | WPing \<Rightarrow> Some (MPing payload)
      | WPong \<Rightarrow> Some (MPong payload)
      | WClose \<Rightarrow> Some (MClose (map_option (\<lambda>code. (code, unwrap_or (wm_close_reason expected) []))
                                  (wm_close_code expected))))"

section \<open>The script\<close>

datatype script_action = ActSend u64 ws_frame | ActFlush u64

record script_state =
  ss_previous_delta :: u64
  ss_accumulated_delay :: u64
  ss_close_reply_pending :: bool
  ss_automatic_pongs :: "bytes list"
  ss_incoming :: "ws_frame list"
  ss_out :: "script_action list"

definition script_start :: "ws_frame list \<Rightarrow> script_state" where
  "script_start incoming =
     \<lparr>ss_previous_delta = 0, ss_accumulated_delay = 0, ss_close_reply_pending = False,
      ss_automatic_pongs = [], ss_incoming = incoming, ss_out = []\<rparr>"

text \<open>A step returns the state and whether the script goes on.\<close>

definition await_client ::
  "ext_lib \<Rightarrow> fixture_dir \<Rightarrow> store_limits \<Rightarrow> ws_message \<Rightarrow> script_state \<Rightarrow> script_state \<times> bool" where
  "await_client X d lim expected st =
     (case ss_incoming st of
        [] \<Rightarrow> (st, False)
      | got # rest \<Rightarrow>
          (let st = st\<lparr>ss_incoming := rest\<rparr>
           in if \<not> websocket_message_matches X d lim expected got then (st, False)
              else let st = (if wm_kind expected = WClose then st\<lparr>ss_close_reply_pending := True\<rparr> else st);
                       st = (case (wm_kind expected, wm_payload expected) of
                               (WPing, Some (BodyBlob blob)) \<Rightarrow>
                                 (case reads (read_blob X d lim blob) of
                                    Some payload \<Rightarrow>
                                      st\<lparr>ss_automatic_pongs := ss_automatic_pongs st @ [payload]\<rparr>
                                  | None \<Rightarrow> st)
                             | _ \<Rightarrow> st)
                   in (st, True)))"

text \<open>
  The reply of a close and a pong are sent by the codec, so the script only flushes where it has read
  what they answer.
\<close>

definition emit_message ::
  "(nat \<Rightarrow> bool) \<Rightarrow> ws_message \<Rightarrow> u64 \<Rightarrow> ws_frame \<Rightarrow> script_state \<Rightarrow> script_state \<times> bool" where
  "emit_message fails expected delay message st =
     (let (automatic_pong, st) =
            (if wm_kind expected = WPong \<and> ss_automatic_pongs st \<noteq> []
             then (True, st\<lparr>ss_automatic_pongs := tl (ss_automatic_pongs st)\<rparr>) else (False, st));
          failed = fails (length (ss_out st))
      in if (wm_kind expected = WClose \<and> ss_close_reply_pending st) \<or> automatic_pong
         then (st\<lparr>ss_close_reply_pending := False, ss_out := ss_out st @ [ActFlush delay]\<rparr>, \<not> failed)
         else (st\<lparr>ss_out := ss_out st @ [ActSend delay message]\<rparr>, \<not> failed))"

definition send_recorded ::
  "ext_lib \<Rightarrow> fixture_dir \<Rightarrow> store_limits \<Rightarrow> 'f float_ops \<Rightarrow> 'f stream_timing_mode \<Rightarrow> (nat \<Rightarrow> bool)
     \<Rightarrow> ws_message \<Rightarrow> script_state \<Rightarrow> script_state \<times> bool" where
  "send_recorded X d lim ops timing_mode fails expected st =
     (case delay_ns ops timing_mode (sat_sub (wm_delta_ns expected) (ss_previous_delta st)) (ss_accumulated_delay st) of
        Inl _ \<Rightarrow> (st, False)
      | Inr delay \<Rightarrow>
          (let st = st\<lparr>ss_previous_delta := wm_delta_ns expected,
                       ss_accumulated_delay := sat_add (ss_accumulated_delay st) delay\<rparr>
           in case (case wm_payload expected of
                      Some (BodyBlob blob) \<Rightarrow> reads (read_blob X d lim blob) | _ \<Rightarrow> Some []) of
                None \<Rightarrow> (st, False)
              | Some payload \<Rightarrow>
                  (case recorded_frame expected payload of
                     None \<Rightarrow> (st, False)
                   | Some message \<Rightarrow> emit_message fails expected delay message st)))"

fun script_loop ::
  "ext_lib \<Rightarrow> fixture_dir \<Rightarrow> store_limits \<Rightarrow> 'f float_ops \<Rightarrow> 'f stream_timing_mode \<Rightarrow> (nat \<Rightarrow> bool)
     \<Rightarrow> ws_message list \<Rightarrow> script_state \<Rightarrow> script_state \<times> bool" where
  "script_loop X d lim ops timing_mode fails [] st = (st, True)"
| "script_loop X d lim ops timing_mode fails (expected # messages) st =
     (case (if wm_direction expected = ClientToServer then await_client X d lim expected st
            else send_recorded X d lim ops timing_mode fails expected st) of
        (st', True) \<Rightarrow> script_loop X d lim ops timing_mode fails messages st'
      | (st', False) \<Rightarrow> (st', False))"

text \<open>An abnormal end of the recording is not turned into a flush.\<close>

definition replay_websocket_script ::
  "ext_lib \<Rightarrow> fixture_dir \<Rightarrow> store_limits \<Rightarrow> 'f float_ops \<Rightarrow> 'f stream_timing_mode \<Rightarrow> (nat \<Rightarrow> bool)
     \<Rightarrow> ws_conversation \<Rightarrow> ws_frame list \<Rightarrow> script_state \<times> bool" where
  "replay_websocket_script X d lim ops timing_mode fails conversation incoming =
     (case script_loop X d lim ops timing_mode fails (wc_messages conversation) (script_start incoming) of
        (st, False) \<Rightarrow> (st, False)
      | (st, True) \<Rightarrow>
          (case wc_terminal conversation of
             CleanClose _ _ \<Rightarrow> (st\<lparr>ss_out := ss_out st @ [ActFlush 0]\<rparr>, True)
           | Abnormal _ \<Rightarrow> (st, True)))"

end
