(* ===== verification/Replay_Socket_Facts.thy ===== *)
theory Replay_Socket_Facts
  imports Replay_Socket
begin

text \<open>
  What the script of a recorded conversation guarantees: it says what was recorded of the server, in
  order, and only after the client has said what was recorded before it.
\<close>

definition from_client :: "ws_message list \<Rightarrow> ws_message list" where
  "from_client ms = filter (\<lambda>m. wm_direction m = ClientToServer) ms"

definition from_server :: "ws_message list \<Rightarrow> ws_message list" where
  "from_server ms = filter (\<lambda>m. wm_direction m \<noteq> ClientToServer) ms"

definition recorded_payload :: "ext_lib \<Rightarrow> fixture_dir \<Rightarrow> store_limits \<Rightarrow> ws_message \<Rightarrow> bytes option" where
  "recorded_payload X d lim m =
     (case wm_payload m of Some (BodyBlob blob) \<Rightarrow> reads (read_blob X d lim blob) | _ \<Rightarrow> Some [])"

text \<open>A recorded message is sent as it was, or, where the codec has answered by itself, not again.\<close>

definition answers_message :: "ext_lib \<Rightarrow> fixture_dir \<Rightarrow> store_limits \<Rightarrow> ws_message \<Rightarrow> script_action \<Rightarrow> bool" where
  "answers_message X d lim m action \<longleftrightarrow>
     (\<exists>payload frame delay. recorded_payload X d lim m = Some payload \<and> recorded_frame m payload = Some frame
        \<and> (action = ActSend delay frame \<or> action = ActFlush delay \<and> wm_kind m \<in> {WPong, WClose}))"

lemma await_client_step:
  assumes "await_client X d lim m st = (st', ok)"
  shows "ss_out st' = ss_out st
    \<and> (if ok then \<exists>got. ss_incoming st = got # ss_incoming st' \<and> websocket_message_matches X d lim m got
       else \<exists>extra. ss_incoming st = extra @ ss_incoming st' \<and> length extra \<le> 1)"
proof (cases "ss_incoming st")
  case Nil
  with assms show ?thesis by (auto simp: await_client_def)
next
  case (Cons got rest)
  show ?thesis
  proof (cases "websocket_message_matches X d lim m got")
    case True
    with assms Cons show ?thesis
      by (auto simp: await_client_def Let_def split: ws_kind.splits option.splits body_ref.splits)
  next
    case False
    with assms Cons show ?thesis by (auto simp: await_client_def intro!: exI [of _ "[got]"])
  qed
qed

lemma emit_message_step:
  assumes "emit_message fails m delay frame st = (st', ok)"
  shows "ss_incoming st' = ss_incoming st
    \<and> (\<exists>action. ss_out st' = ss_out st @ [action]
         \<and> (action = ActSend delay frame \<or> action = ActFlush delay \<and> wm_kind m \<in> {WPong, WClose}))"
  using assms by (auto simp: emit_message_def Let_def split: if_splits)

lemma send_recorded_step:
  assumes "send_recorded X d lim ops mode fails m st = (st', ok)"
  shows "ss_incoming st' = ss_incoming st
    \<and> (\<not> ok \<and> ss_out st' = ss_out st
       \<or> (\<exists>action. ss_out st' = ss_out st @ [action] \<and> answers_message X d lim m action))"
proof (cases "delay_ns ops mode (sat_sub (wm_delta_ns m) (ss_previous_delta st)) (ss_accumulated_delay st)")
  case (Inr delay)
  show ?thesis
  proof (cases "\<exists>payload frame. recorded_payload X d lim m = Some payload \<and> recorded_frame m payload = Some frame")
    case True
    then obtain payload frame where frame: "recorded_payload X d lim m = Some payload" "recorded_frame m payload = Some frame"
      by blast
    let ?st = "st\<lparr>ss_previous_delta := wm_delta_ns m, ss_accumulated_delay := sat_add (ss_accumulated_delay st) delay\<rparr>"
    have "emit_message fails m delay frame ?st = (st', ok)"
      using assms frame by (simp add: send_recorded_def Inr Let_def recorded_payload_def)
    from emit_message_step [OF this] frame show ?thesis by (auto simp: answers_message_def)
  next
    case False
    then show ?thesis
      using assms
      by (cases "recorded_payload X d lim m")
        (auto simp: send_recorded_def Inr Let_def recorded_payload_def)
  qed
qed (use assms in \<open>auto simp: send_recorded_def\<close>)

text \<open>How far a run of the script has come: the messages it is through with, of both sides.\<close>

definition script_progress ::
  "ext_lib \<Rightarrow> fixture_dir \<Rightarrow> store_limits \<Rightarrow> ws_message list \<Rightarrow> ws_frame list \<Rightarrow> ws_frame list \<Rightarrow> script_action list \<Rightarrow> bool \<Rightarrow> bool" where
  "script_progress X d lim ms incoming left actions completed \<longleftrightarrow>
     (\<exists>n matched extra. n \<le> length ms \<and> incoming = matched @ extra @ left \<and> length extra \<le> 1
        \<and> list_all2 (websocket_message_matches X d lim) (from_client (take n ms)) matched
        \<and> list_all2 (answers_message X d lim) (from_server (take n ms)) actions
        \<and> (completed \<longrightarrow> n = length ms \<and> extra = []))"

lemma progress_stops:
  "length extra \<le> 1 \<Longrightarrow> script_progress X d lim ms (extra @ left) left [] False"
  unfolding script_progress_def
  by (intro exI [of _ 0] exI [of _ "[]"] exI [of _ extra]) (simp add: from_client_def from_server_def)

lemma progress_client:
  assumes "script_progress X d lim ms incoming left actions completed"
    and "wm_direction m = ClientToServer" and "websocket_message_matches X d lim m got"
  shows "script_progress X d lim (m # ms) (got # incoming) left actions completed"
proof -
  from assms(1) obtain n matched extra where n: "n \<le> length ms" "incoming = matched @ extra @ left" "length extra \<le> 1"
    "list_all2 (websocket_message_matches X d lim) (from_client (take n ms)) matched"
    "list_all2 (answers_message X d lim) (from_server (take n ms)) actions" "completed \<longrightarrow> n = length ms \<and> extra = []"
    unfolding script_progress_def by blast
  with assms(2,3) show ?thesis
    unfolding script_progress_def
    by (intro exI [of _ "Suc n"] exI [of _ "got # matched"] exI [of _ extra]) (auto simp: from_client_def from_server_def)
qed

lemma progress_server:
  assumes "script_progress X d lim ms incoming left actions completed"
    and "wm_direction m \<noteq> ClientToServer" and "answers_message X d lim m action"
  shows "script_progress X d lim (m # ms) incoming left (action # actions) completed"
proof -
  from assms(1) obtain n matched extra where n: "n \<le> length ms" "incoming = matched @ extra @ left" "length extra \<le> 1"
    "list_all2 (websocket_message_matches X d lim) (from_client (take n ms)) matched"
    "list_all2 (answers_message X d lim) (from_server (take n ms)) actions" "completed \<longrightarrow> n = length ms \<and> extra = []"
    unfolding script_progress_def by blast
  with assms(2,3) show ?thesis
    unfolding script_progress_def
    by (intro exI [of _ "Suc n"] exI [of _ matched] exI [of _ extra]) (auto simp: from_client_def from_server_def)
qed

lemma script_loop_progress:
  assumes "script_loop X d lim ops mode fails ms st = (st', completed)"
  shows "\<exists>actions. ss_out st' = ss_out st @ actions
    \<and> script_progress X d lim ms (ss_incoming st) (ss_incoming st') actions completed"
  using assms
proof (induction ms arbitrary: st)
  case Nil
  then show ?case by (auto simp: script_progress_def from_client_def from_server_def)
next
  case (Cons m ms)
  show ?case
  proof (cases "wm_direction m = ClientToServer")
    case True
    obtain st1 ok where step: "await_client X d lim m st = (st1, ok)" by (rule prod.exhaust)
    note res = await_client_step [OF step]
    show ?thesis
    proof (cases ok)
      case ok: True
      with Cons.prems True step have "script_loop X d lim ops mode fails ms st1 = (st', completed)" by simp
      from Cons.IH [OF this] res ok True show ?thesis by (auto intro: progress_client)
    next
      case False
      with Cons.prems True step have "st' = st1" "\<not> completed" by auto
      with res False show ?thesis by (auto intro!: exI [of _ "[]"] progress_stops)
    qed
  next
    case server: False
    obtain st1 ok where step: "send_recorded X d lim ops mode fails m st = (st1, ok)" by (rule prod.exhaust)
    note res = send_recorded_step [OF step]
    show ?thesis
    proof (cases ok)
      case True
      with Cons.prems server step have "script_loop X d lim ops mode fails ms st1 = (st', completed)" by simp
      from Cons.IH [OF this] res True server show ?thesis by (auto intro: progress_server)
    next
      case False
      with Cons.prems server step have st': "st' = st1" "completed = False" by auto
      have stop: "script_progress X d lim ms' (ss_incoming st) (ss_incoming st) [] False" for ms'
        using progress_stops [of "[]"] by simp
      show ?thesis
      proof (cases "ss_out st1 = ss_out st")
        case True
        with res st' stop show ?thesis by (intro exI [of _ "[]"]) simp
      next
        case False
        with res obtain action where "ss_out st1 = ss_out st @ [action]" "answers_message X d lim m action" by auto
        with res st' progress_server [OF stop server] show ?thesis by (intro exI [of _ "[action]"]) simp
      qed
    qed
  qed
qed

text \<open>
  Property C19: A replayed conversation follows its recording. Whatever the client sends and wherever
  the connection fails, what the script has said are the recorded messages of the server, in order and
  unchanged, except that a pong or a close the codec has sent by itself is not sent again; and it has
  said no message before the client has said, one by one, every message recorded before it. At most
  one message of the client is read that is not the recorded one, and then the script stops.
\<close>

theorem script_follows_the_recording:
  "case replay_websocket_script X d lim ops mode fails conversation incoming of
     (st, completed) \<Rightarrow>
       \<exists>actions. script_progress X d lim (wc_messages conversation) incoming (ss_incoming st) actions completed
         \<and> ss_out st = actions @ (case wc_terminal conversation of
             CleanClose _ _ \<Rightarrow> if completed then [ActFlush 0] else [] | Abnormal _ \<Rightarrow> [])"
proof -
  obtain st completed where loop: "script_loop X d lim ops mode fails (wc_messages conversation) (script_start incoming)
      = (st, completed)" by (rule prod.exhaust)
  have start: "ss_incoming (script_start incoming) = incoming" "ss_out (script_start incoming) = []"
    by (simp_all add: script_start_def)
  from script_loop_progress [OF loop] show ?thesis
    by (cases completed; cases "wc_terminal conversation")
      (auto simp: replay_websocket_script_def loop start)
qed

text \<open>
  A ping without a payload is answered twice: the codec answers every ping it reads, but only pings
  with a stored payload are remembered as answered, so the recorded pong is sent once more.
\<close>

definition ping_message :: "ws_kind \<Rightarrow> ws_direction \<Rightarrow> ws_message" where
  "ping_message kind direction =
     \<lparr>wm_sequence = 0, wm_direction = direction, wm_delta_ns = 0, wm_kind = kind, wm_payload = Some BodyEmpty,
      wm_close_code = None, wm_close_reason = None, wm_redactions = []\<rparr>"

theorem empty_ping_is_answered_twice:
  assumes "wc_messages conversation = [ping_message WPing ClientToServer, ping_message WPong ServerToClient]"
    and "wc_terminal conversation = Abnormal cause" and "\<not> fails 0"
  shows "ss_out (fst (replay_websocket_script X d lim ops Immediate fails conversation [MPing []]))
    = [ActSend 0 (MPong [])]"
proof -
  have "delay_ns ops Immediate 0 0 = Inr 0" by (simp add: delay_ns_Inr_iff)
  then show ?thesis
    using assms
    by (simp add: replay_websocket_script_def ping_message_def await_client_def script_start_def
        websocket_message_matches_def payload_agrees_def first_pointers_def send_recorded_def
        recorded_frame_def emit_message_def List.map_filter_simps)
qed

end
