(* ===== verification/Replay_Locks.thy ===== *)
theory Replay_Locks
  imports Replay_Handle "HOL-Library.Multiset"
begin

text \<open>
  The locks of the misses under way, \<^verbatim>\<open>MissLocks\<close> of \<^verbatim>\<open>crates/eggreplay-http/src/replay.rs\<close>: requests
  take and drop them in any order. A state is the registry and the list of the requests under way,
  each with its key and the mutex it was given.
\<close>

inductive lock_reach :: "miss_locks \<Rightarrow> (string \<times> nat) list \<Rightarrow> bool" where
  lock_start: "lock_reach \<lparr>ml_locks = [], ml_held = [], ml_next = 0\<rparr> []"
| lock_taken: "lock_reach ml refs \<Longrightarrow> lock_for key ml = (ml', Inr lock) \<Longrightarrow> lock_reach ml' ((key, lock) # refs)"
| lock_refused: "lock_reach ml refs \<Longrightarrow> lock_for key ml = (ml', Inl e) \<Longrightarrow> lock_reach ml' refs"
| lock_dropped: "lock_reach ml refs \<Longrightarrow> (key, lock) \<in> set refs \<Longrightarrow>
    lock_reach (drop_lock lock ml) (remove1 (key, lock) refs)"

definition locks_inv :: "miss_locks \<Rightarrow> (string \<times> nat) list \<Rightarrow> bool" where
  "locks_inv ml refs \<longleftrightarrow>
     mset (ml_held ml) = mset (map snd refs)
     \<and> distinct (map fst (ml_locks ml)) \<and> distinct (map snd (ml_locks ml))
     \<and> set refs \<subseteq> set (ml_locks ml)
     \<and> (\<forall>(k, lock)\<in>set (ml_locks ml). lock < ml_next ml)
     \<and> length (ml_locks ml) \<le> 2048"

definition live_locks :: "miss_locks \<Rightarrow> (string \<times> nat) list" where
  "live_locks ml = filter (\<lambda>(_, lock). lock \<in> set (ml_held ml)) (ml_locks ml)"

lemma lock_for_live:
  "lock_for key ml =
     (case map_of (live_locks ml) key of
        Some lock \<Rightarrow> (ml\<lparr>ml_locks := live_locks ml, ml_held := lock # ml_held ml\<rparr>, Inr lock)
      | None \<Rightarrow>
          (if length (live_locks ml) \<ge> 2048
           then (ml\<lparr>ml_locks := live_locks ml\<rparr>, Inl (SvRejected 503 (CText ''too many concurrent miss keys'')))
           else (\<lparr>ml_locks = (key, ml_next ml) # live_locks ml, ml_held = ml_next ml # ml_held ml,
                   ml_next = Suc (ml_next ml)\<rparr>, Inr (ml_next ml))))"
  unfolding lock_for_def live_locks_def Let_def by (rule refl)

lemma inj_locks:
  assumes "locks_inv ml refs" and "x \<in> set (ml_locks ml)" and "y \<in> set (ml_locks ml)"
  shows "fst x = fst y \<Longrightarrow> x = y" "snd x = snd y \<Longrightarrow> x = y"
  using assms by (auto simp: locks_inv_def distinct_map inj_on_def)

lemma held_refs: "locks_inv ml refs \<Longrightarrow> set (ml_held ml) = snd ` set refs"
  unfolding locks_inv_def by (metis list.set_map set_mset_mset)

text \<open>The registered locks someone refers to are those of the requests under way.\<close>

lemma live_refs:
  assumes "locks_inv ml refs"
  shows "set (live_locks ml) = set refs"
proof -
  have sub: "set refs \<subseteq> set (ml_locks ml)" using assms by (simp add: locks_inv_def)
  have "x \<in> set refs" if x: "x \<in> set (ml_locks ml)" "snd x \<in> snd ` set refs" for x
  proof -
    from x(2) obtain y where y: "y \<in> set refs" "snd y = snd x" by auto
    with sub x inj_locks(2) [OF assms] have "x = y" by blast
    with y show ?thesis by simp
  qed
  with sub show ?thesis
    unfolding live_locks_def held_refs [OF assms] by (force simp: case_prod_beta)
qed

lemma live_distinct:
  assumes "locks_inv ml refs"
  shows "distinct (map fst (live_locks ml))" "distinct (map snd (live_locks ml))"
  using assms by (simp_all add: locks_inv_def distinct_map_filter live_locks_def)

lemma live_length:
  assumes "locks_inv ml refs"
  shows "length (live_locks ml) = card (fst ` set refs)"
  using live_distinct(1) [OF assms] live_refs [OF assms] by (metis distinct_card length_map list.set_map)

lemma lock_for_inv:
  assumes inv: "locks_inv ml refs" and run: "lock_for key ml = (ml', r)"
  shows "case r of Inr lock \<Rightarrow> locks_inv ml' ((key, lock) # refs)
    | Inl e \<Rightarrow> locks_inv ml' refs \<and> key \<notin> fst ` set refs \<and> card (fst ` set refs) = 2048"
proof -
  note live = live_refs [OF inv] live_distinct [OF inv] live_length [OF inv]
  have bounded: "length (live_locks ml) \<le> 2048"
    using inv length_filter_le le_trans unfolding locks_inv_def live_locks_def by blast
  have kept: "\<forall>(k, lock)\<in>set refs. lock < ml_next ml" using inv by (auto simp: locks_inv_def)
  have held: "mset (ml_held ml) = mset (map snd refs)" using inv by (simp add: locks_inv_def)
  show ?thesis
  proof (cases "map_of (live_locks ml) key")
    case (Some lock)
    then have "(key, lock) \<in> set refs" using map_of_SomeD [OF Some] live(1) by simp
    with Some run live held kept bounded show ?thesis
      by (auto simp: lock_for_live locks_inv_def)
  next
    case None
    then have fresh_key: "key \<notin> fst ` set refs" using live(1) by (metis map_of_eq_None_iff)
    show ?thesis
    proof (cases "length (live_locks ml) \<ge> 2048")
      case True
      then have "card (fst ` set refs) = 2048" using bounded live(4) by simp
      with True None run live held kept bounded fresh_key show ?thesis
        by (auto simp: lock_for_live locks_inv_def)
    next
      case False
      have "ml_next ml \<notin> snd ` set (live_locks ml)" using kept live(1) by auto
      moreover have "key \<notin> fst ` set (live_locks ml)" using fresh_key live(1) by simp
      ultimately show ?thesis
        using False None run live held kept
        by (auto simp: lock_for_live locks_inv_def less_Suc_eq)
    qed
  qed
qed

lemma drop_lock_inv:
  assumes "locks_inv ml refs" and "(key, lock) \<in> set refs"
  shows "locks_inv (drop_lock lock ml) (remove1 (key, lock) refs)"
proof -
  have "mset (map snd (remove1 (key, lock) refs)) = mset (map snd refs) - {#lock#}"
    using assms(2) by (simp add: image_mset_Diff)
  moreover have "set (remove1 (key, lock) refs) \<subseteq> set (ml_locks ml)"
    using assms(1) by (metis locks_inv_def notin_set_remove1 subset_iff)
  ultimately show ?thesis
    using assms(1) by (simp add: locks_inv_def drop_lock_def)
qed

lemma lock_reach_inv: "lock_reach ml refs \<Longrightarrow> locks_inv ml refs"
proof (induction rule: lock_reach.induct)
  case lock_start
  then show ?case by (simp add: locks_inv_def)
next
  case (lock_taken ml refs key ml' lock)
  from lock_for_inv [OF lock_taken.IH lock_taken.hyps(2)] show ?case by simp
next
  case (lock_refused ml refs key ml' e)
  from lock_for_inv [OF lock_refused.IH lock_refused.hyps(2)] show ?case by simp
next
  case (lock_dropped ml refs key lock)
  from drop_lock_inv [OF lock_dropped.IH lock_dropped.hyps(2)] show ?case .
qed



end
