(* ===== verification/Candidate_Run.thy ===== *)
theory Candidate_Run
  imports Replay_Handle Replay_Socket Report
begin

text \<open>
  Sending a recorded request to a service under test, \<^verbatim>\<open>crates/eggreplay-http/src/regression.rs\<close>: the
  request on the wire, the observation of the response with its events, and the conversation of a
  recorded WebSocket connection.

  The client library is outside of the model. An answer holds the clock readings of the call and what
  arrived, each frame with the time since the response head; the HTTP constructors are those of
  \<open>upstream_lib\<close>.
\<close>

section \<open>Errors\<close>

text \<open>\<open>ReSocket\<close> is \<^verbatim>\<open>RegressionError::WebSocket\<close>, by its cause; \<open>RePanic\<close> the panic of \<^verbatim>\<open>FlowError::new\<close>.\<close>

datatype socket_cause = ScHeader string | ScRequest string | ScPayload store_error

datatype regression_error =
    ReConversion string
  | ReFetch fetch_error
  | ReBodyLimit u64
  | ReBody string
  | ReSocket socket_cause
  | RePanic

section \<open>The request\<close>

definition target_uri :: "ext_lib \<Rightarrow> upstream_lib \<Rightarrow> http_uri \<Rightarrow> http_request \<Rightarrow> regression_error + http_uri" where
  "target_uri X U base request =
     rbind (ok_or (ReConversion ''target base has no scheme'') (uri_scheme base)) (\<lambda>scheme.
     rbind (ok_or (ReConversion ''target base has no authority'') (uri_authority base)) (\<lambda>authority.
     map_err (\<lambda>e. ReConversion (''invalid target URI: '' @ e))
       (up_uri U (scheme @ ''://'' @ authority @ upstream_target X request))))"

definition candidate_header :: "upstream_lib \<Rightarrow> header_entries \<Rightarrow> header_entry \<Rightarrow> regression_error + header_entries" where
  "candidate_header U hs header =
     rbind (map_err ReConversion (up_name U (h_name header))) (\<lambda>name.
     rbind (map_err ReConversion (up_value U (h_value header))) (\<lambda>val.
     Inr (hm_append hs name val)))"

section \<open>The response\<close>

definition push_candidate_event :: "stream_event list \<Rightarrow> stream_event \<Rightarrow> regression_error + stream_event list" where
  "push_candidate_event events event =
     (if is_empty_data event then Inr events
      else if se_delta_ns event > MAX_STREAM_DELAY_NS
      then Inl (ReBody ''candidate stream delay exceeds configured limit'')
      else if length events < MAX_EVENTS_PER_DIRECTION then Inr (events @ [event])
      else case merge_data events event of
             Some merged \<Rightarrow> Inr merged
           | None \<Rightarrow> Inl (ReBody ''candidate stream event count exceeds configured limit''))"

text \<open>A header map with its values as lossy text.\<close>

definition lossy_entries :: "header_entries \<Rightarrow> header_entry list" where
  "lossy_entries headers = map (\<lambda>(name, val). \<lparr>h_name = name, h_value = utf8_lossy val\<rparr>) (flatten headers)"

text \<open>The local variables of the loop over the frames.\<close>

record candidate_capture =
  cc_bytes :: bytes
  cc_events :: "stream_event list"
  cc_trailers :: "header_entry list"
  cc_offset :: u64

definition candidate_start :: candidate_capture where
  "candidate_start = \<lparr>cc_bytes = [], cc_events = [], cc_trailers = [], cc_offset = 0\<rparr>"

definition observe_event :: "candidate_capture \<Rightarrow> nat \<Rightarrow> stream_event_kind \<Rightarrow> regression_error + candidate_capture" where
  "observe_event c now kind =
     rbind (push_candidate_event (cc_events c) \<lparr>se_delta_ns = elapsed_ns now, se_event = kind\<rparr>) (\<lambda>events.
     Inr (c\<lparr>cc_events := events\<rparr>))"

text \<open>
  A frame that is a transport error is the last one, and no end event follows it. The sum of the two
  lengths is that of two buffers and cannot overflow.
\<close>

fun candidate_loop ::
  "u64 \<Rightarrow> nat \<Rightarrow> (nat \<times> (fetch_error + body_frame)) list \<Rightarrow> candidate_capture
     \<Rightarrow> regression_error + candidate_capture" where
  "candidate_loop limit end_ns [] c = observe_event c end_ns SEnd"
| "candidate_loop limit end_ns ((now, Inl err) # frames) c =
     (let (category, phase) = body_error_event_fields err
      in observe_event c now (SError (cc_offset c) category phase))"
| "candidate_loop limit end_ns ((now, Inr (FrData data)) # frames) c =
     (if data = [] then candidate_loop limit end_ns frames c
      else if length (cc_bytes c) + length data > unat limit then Inl (ReBodyLimit limit)
      else rbind (observe_event (c\<lparr>cc_bytes := cc_bytes c @ data\<rparr>) now (SData (cc_offset c) (of_nat (length data)))) (\<lambda>c1.
           candidate_loop limit end_ns frames
             (c1\<lparr>cc_offset := sat_add (cc_offset c1) (of_nat (length data))\<rparr>)))"
| "candidate_loop limit end_ns ((now, Inr (FrTrailers trailers)) # frames) c =
     (let entries = lossy_entries trailers
      in rbind (observe_event (c\<lparr>cc_trailers := entries\<rparr>) now (STrailers entries)) (\<lambda>c1.
         candidate_loop limit end_ns frames c1))"
| "candidate_loop limit end_ns ((now, Inr FrOther) # frames) c = candidate_loop limit end_ns frames c"

section \<open>One candidate flow\<close>

text \<open>\<open>ca_answered_ms\<close> is the clock when the response head, or the failure, is there.\<close>

record candidate_answer =
  ca_started_ms :: u64
  ca_answered_ms :: u64
  ca_result :: "fetch_error + wire_response"
  ca_uuid :: string

record candidate_observation =
  co_flow :: flow
  co_response_body :: bytes
  co_response_events :: "stream_event list"

definition candidate_outcome ::
  "(fetch_error \<Rightarrow> string) \<Rightarrow> u64 \<Rightarrow> fetch_error + wire_response
     \<Rightarrow> regression_error + flow_outcome \<times> bytes \<times> stream_event list" where
  "candidate_outcome display limit result =
     (case result of
        Inl err \<Rightarrow>
          (case map_fetch_error display err of
             None \<Rightarrow> Inl RePanic | Some e \<Rightarrow> Inr (OutError e, [], []))
      | Inr response \<Rightarrow>
          rbind (candidate_loop limit (wr_end_ns response) (wr_frames response) candidate_start) (\<lambda>c.
          Inr (OutResponse \<lparr>resp_status = wr_status response, resp_headers = lossy_entries (wr_headers response),
                 resp_body = (if cc_bytes c = [] then BodyEmpty else BodyAbsent), resp_trailers = cc_trailers c\<rparr>,
               cc_bytes c, cc_events c)))"

definition execute_candidate ::
  "ext_lib \<Rightarrow> upstream_lib \<Rightarrow> (fetch_error \<Rightarrow> string) \<Rightarrow> (string \<Rightarrow> http_uri \<Rightarrow> header_entries \<Rightarrow> bytes \<Rightarrow> candidate_answer)
     \<Rightarrow> http_request \<Rightarrow> bytes \<Rightarrow> http_uri \<Rightarrow> u64 \<Rightarrow> physical_route option \<Rightarrow> regression_error + candidate_observation" where
  "execute_candidate X U display client request request_body target_base limit route =
     rbind (target_uri X U target_base request) (\<lambda>uri.
     rbind (map_err ReConversion (up_method U (req_method request))) (\<lambda>_.
     rbind (try_fold (candidate_header U) [] (req_headers request)) (\<lambda>headers.
     let answer = client (req_method request) uri headers request_body;
         start = ca_started_ms answer;
         elapsed = sat_sub (ca_answered_ms answer) start
     in rbind (candidate_outcome display limit (ca_result answer)) (\<lambda>(outcome, body, events).
        let fl = flow_new (ca_uuid answer) request outcome start
        in Inr \<lparr>co_flow = fl\<lparr>fl_completed_at_ms := Some (sat_add start elapsed),
                              fl_provenance := (fl_provenance fl)\<lparr>prov_mode := ''eggfetch-native-candidate''\<rparr>,
                              fl_physical_route := route\<rparr>,
                co_response_body = body, co_response_events = events\<rparr>))))"

section \<open>Messages of a conversation\<close>

definition ws_finding :: "string \<Rightarrow> string \<Rightarrow> string \<Rightarrow> diff_finding" where
  "ws_finding field baseline candidate =
     \<lparr>df_kind = DWebSocket, df_field = field, df_baseline = baseline, df_candidate = candidate\<rparr>"

fun ws_kind_debug :: "ws_kind \<Rightarrow> string" where
  "ws_kind_debug WText = ''Text''"
| "ws_kind_debug WBinary = ''Binary''"
| "ws_kind_debug WPing = ''Ping''"
| "ws_kind_debug WPong = ''Pong''"
| "ws_kind_debug WClose = ''Close''"

definition message_kind :: "ws_frame \<Rightarrow> ws_kind" where
  "message_kind message = unwrap_or (frame_kind message) WBinary"

definition message_summary :: "ext_lib \<Rightarrow> ws_kind \<Rightarrow> bytes \<Rightarrow> string" where
  "message_summary X kind content =
     ws_kind_debug kind @ '':length:'' @ to_dec (length content) @ '':sha256:'' @ x_sha256 X content"

definition stored_payload :: "ext_lib \<Rightarrow> fixture_dir \<Rightarrow> store_limits \<Rightarrow> ws_message \<Rightarrow> store_error + bytes" where
  "stored_payload X d lim message =
     (case wm_payload message of Some (BodyBlob blob) \<Rightarrow> read_blob X d lim blob | _ \<Rightarrow> Inr [])"

definition expected_message_summary :: "ext_lib \<Rightarrow> fixture_dir \<Rightarrow> store_limits \<Rightarrow> ws_message \<Rightarrow> string" where
  "expected_message_summary X d lim message =
     (if WholeMessage \<in> set (wm_redactions message) then ws_kind_debug (wm_kind message) @ '':redacted''
      else message_summary X (wm_kind message)
             (case stored_payload X d lim message of Inr b \<Rightarrow> b | Inl _ \<Rightarrow> []))"

definition candidate_message_summary :: "ext_lib \<Rightarrow> ws_frame \<Rightarrow> string" where
  "candidate_message_summary X message = message_summary X (message_kind message) (frame_payload message)"

fun ws_message_of :: "ws_kind \<Rightarrow> bytes \<Rightarrow> u16 option \<Rightarrow> string option \<Rightarrow> ws_frame" where
  "ws_message_of WText payload code reason = MText (utf8_lossy payload)"
| "ws_message_of WBinary payload code reason = MBinary payload"
| "ws_message_of WPing payload code reason = MPing payload"
| "ws_message_of WPong payload code reason = MPong payload"
| "ws_message_of WClose payload code reason = MClose (map_option (\<lambda>c. (c, unwrap_or reason [])) code)"

definition is_json_pointers :: "ws_redaction \<Rightarrow> bool" where
  "is_json_pointers r = (case r of JsonPointers _ \<Rightarrow> True | _ \<Rightarrow> False)"

definition candidate_message_matches ::
  "ext_lib \<Rightarrow> fixture_dir \<Rightarrow> store_limits \<Rightarrow> ws_message \<Rightarrow> ws_frame \<Rightarrow> bool" where
  "candidate_message_matches X d lim expected actual =
     (case frame_kind actual of
        None \<Rightarrow> False
      | Some kind \<Rightarrow>
          (let (code, reason) = frame_close actual; payload = frame_payload actual
           in if kind \<noteq> wm_kind expected \<or> kind = WClose \<and> code \<noteq> wm_close_code expected then False
              else if list_ex (\<lambda>r. r = WholeMessage \<or> r = CloseReason) (wm_redactions expected) then True
              else if kind = WClose then reason = wm_close_reason expected
              else case stored_payload X d lim expected of
                Inl _ \<Rightarrow> False
              | Inr expected_payload \<Rightarrow>
                  (case find is_json_pointers (wm_redactions expected) of
                     Some (JsonPointers pointers) \<Rightarrow>
                       (let paths = bset_of_list pointers
                        in case (apply_json_redaction X expected_payload paths, apply_json_redaction X payload paths) of
                             (Inr (a, _), Inr (b, _)) \<Rightarrow> a = b | _ \<Rightarrow> False)
                   | _ \<Rightarrow> payload = expected_payload)))"

end
