(* ===== verification/Candidate_Socket.thy ===== *)
theory Candidate_Socket
  imports Candidate_Run
begin

text \<open>
  The conversation of a recorded WebSocket connection with a service under test,
  \<^verbatim>\<open>compare_websocket_candidate\<close> of \<^verbatim>\<open>crates/eggreplay-http/src/regression.rs\<close>, and when it reports nothing.

  The service is a record of how it answers: the handshake, and for the message with a given index
  what a read yields, how a write ends and what the clock shows before and after.
\<close>

section \<open>The service\<close>

record socket_lib =
  sk_append :: "header_entry \<Rightarrow> string + unit"
  sk_request :: "http_uri \<Rightarrow> string + unit"
  sk_accept_key :: "string \<Rightarrow> string"
  sk_status_text :: "u16 \<Rightarrow> string"
  sk_to_str :: "bytes \<Rightarrow> string option"

datatype handshake_reply = HsUnavailable | HsReply u16 header_entries bool

datatype read_result = RdMessage ws_frame | RdFailed string | RdNothing

datatype write_result = WrDone | WrFailed string | WrTimeout

datatype last_result = LsMessage ws_frame | LsClosed | LsOpen

record socket_peer =
  pe_handshake :: handshake_reply
  pe_elapsed :: "nat \<Rightarrow> nat"
  pe_observed :: "nat \<Rightarrow> nat"
  pe_send :: "nat \<Rightarrow> write_result"
  pe_flush :: "nat \<Rightarrow> string option"
  pe_read :: "nat \<Rightarrow> read_result"
  pe_last :: last_result

section \<open>The handshake\<close>

definition own_handshake_header :: "string \<Rightarrow> bool" where
  "own_handshake_header name \<longleftrightarrow> to_lower name \<in> {''host'', ''connection'', ''upgrade'', ''content-length'',
     ''transfer-encoding'', ''sec-websocket-key'', ''sec-websocket-accept'', ''sec-websocket-version'',
     ''sec-websocket-extensions''}"

definition socket_request :: "socket_lib \<Rightarrow> string \<Rightarrow> http_request \<Rightarrow> header_entry list" where
  "socket_request L key request =
     filter (\<lambda>header. \<not> own_handshake_header (h_name header)) (req_headers request)
     @ [\<lparr>h_name = ''Connection'', h_value = ''Upgrade''\<rparr>, \<lparr>h_name = ''Upgrade'', h_value = ''websocket''\<rparr>,
        \<lparr>h_name = ''Sec-WebSocket-Version'', h_value = ''13''\<rparr>, \<lparr>h_name = ''Sec-WebSocket-Key'', h_value = key\<rparr>]"

text \<open>\<^verbatim>\<open>headers.get(name).and_then(|v| v.to_str().ok())\<close>: the first value, if it is text.\<close>

definition first_text :: "socket_lib \<Rightarrow> header_entries \<Rightarrow> string \<Rightarrow> string option" where
  "first_text L headers name =
     Option.bind (case hm_get_all headers name of [] \<Rightarrow> None | v # _ \<Rightarrow> Some v) (sk_to_str L)"

definition upgrade_confirmed :: "socket_lib \<Rightarrow> header_entries \<Rightarrow> bool" where
  "upgrade_confirmed L headers \<longleftrightarrow>
     (case first_text L headers ''upgrade'' of Some v \<Rightarrow> eq_ignore_case v ''websocket'' | None \<Rightarrow> False)
     \<and> (case first_text L headers ''connection'' of
          Some v \<Rightarrow> (\<exists>token\<in>set (split_on CHR '','' v). eq_ignore_case (trim token) ''upgrade'') | None \<Rightarrow> False)"

definition handshake_findings ::
  "socket_lib \<Rightarrow> string \<Rightarrow> ws_conversation \<Rightarrow> header_entries \<Rightarrow> diff_finding list" where
  "handshake_findings L key conversation headers =
     (let selected = first_text L headers ''sec-websocket-protocol''
      in (if first_text L headers ''sec-websocket-accept'' \<noteq> Some (sk_accept_key L key)
          then [ws_finding ''handshake.accept'' ''valid'' ''invalid''] else [])
       @ (if \<not> upgrade_confirmed L headers
          then [ws_finding ''handshake.upgrade'' ''websocket_upgrade'' ''invalid''] else [])
       @ (if map_of headers ''sec-websocket-extensions'' \<noteq> None
          then [ws_finding ''handshake.extensions'' ''none'' ''negotiated''] else [])
       @ (if selected \<noteq> wc_selected_subprotocol conversation
          then [ws_finding ''handshake.subprotocol'' (unwrap_or (wc_selected_subprotocol conversation) ''none'')
                  (unwrap_or selected ''none'')] else []))"

section \<open>The script\<close>

datatype candidate_action = CaSend ws_frame | CaFlush

record candidate_script =
  cs_findings :: "diff_finding list"
  cs_close_reply_pending :: bool
  cs_auto_pong_pending :: bool
  cs_out :: "candidate_action list"

definition report :: "string \<Rightarrow> string \<Rightarrow> string \<Rightarrow> candidate_script \<Rightarrow> candidate_script" where
  "report field baseline candidate st =
     st\<lparr>cs_findings := cs_findings st @ [ws_finding field baseline candidate]\<rparr>"

text \<open>A turn returns the state and whether the loop goes on.\<close>

definition flush_turn ::
  "string option \<Rightarrow> string \<Rightarrow> string \<Rightarrow> candidate_script \<Rightarrow> candidate_script \<times> bool" where
  "flush_turn result field baseline st =
     (let st = st\<lparr>cs_out := cs_out st @ [CaFlush]\<rparr>
      in case result of None \<Rightarrow> (st, True) | Some e \<Rightarrow> (report field baseline (''error:'' @ e) st, False))"

definition send_turn ::
  "ext_lib \<Rightarrow> fixture_dir \<Rightarrow> store_limits \<Rightarrow> socket_peer \<Rightarrow> nat \<Rightarrow> ws_message \<Rightarrow> candidate_script
     \<Rightarrow> regression_error + candidate_script \<times> bool" where
  "send_turn X d lim peer i expected st =
     rbind (map_err (\<lambda>e. ReSocket (ScPayload e)) (stored_payload X d lim expected)) (\<lambda>payload.
     let message = ws_message_of (wm_kind expected) payload (wm_close_code expected) (wm_close_reason expected)
     in Inr (if wm_kind expected = WClose \<and> cs_close_reply_pending st
             then flush_turn (pe_flush peer i) ''message.close'' ''clean'' (st\<lparr>cs_close_reply_pending := False\<rparr>)
             else if wm_kind expected = WPong \<and> cs_auto_pong_pending st
             then flush_turn (pe_flush peer i) ''message.pong'' ''automatic'' (st\<lparr>cs_auto_pong_pending := False\<rparr>)
             else (let st = st\<lparr>cs_out := cs_out st @ [CaSend message]\<rparr>
                   in case pe_send peer i of
                        WrDone \<Rightarrow> (st, True)
                      | WrFailed e \<Rightarrow> (report ''message.write'' ''success'' (''error:'' @ e) st, False)
                      | WrTimeout \<Rightarrow> (report ''message.write'' ''success'' ''timeout'' st, False))))"

definition message_field :: "ws_message \<Rightarrow> string \<Rightarrow> string" where
  "message_field expected part = ''message.'' @ to_dec (unat (wm_sequence expected)) @ part"

definition read_turn ::
  "ext_lib \<Rightarrow> fixture_dir \<Rightarrow> store_limits \<Rightarrow> socket_peer \<Rightarrow> nat \<Rightarrow> ws_message \<Rightarrow> candidate_script
     \<Rightarrow> candidate_script \<times> bool" where
  "read_turn X d lim peer i expected st =
     (case pe_read peer i of
        RdFailed e \<Rightarrow> (report (message_field expected ''.read'') ''message'' (''error:'' @ e) st, False)
      | RdNothing \<Rightarrow> (report (message_field expected ''.read'') ''message'' ''timeout_or_eof'' st, False)
      | RdMessage actual \<Rightarrow>
          (if \<not> candidate_message_matches X d lim expected actual
           then (report (message_field expected []) (expected_message_summary X d lim expected)
                   (candidate_message_summary X actual) st, False)
           else (st\<lparr>cs_close_reply_pending := cs_close_reply_pending st \<or> wm_kind expected = WClose,
                   cs_auto_pong_pending := cs_auto_pong_pending st \<or> wm_kind expected = WPing\<rparr>, True)))"

definition cadence_check ::
  "u64 option \<Rightarrow> socket_peer \<Rightarrow> nat \<Rightarrow> ws_message \<Rightarrow> candidate_script \<Rightarrow> candidate_script" where
  "cadence_check tolerance peer i expected st =
     (case tolerance of
        None \<Rightarrow> st
      | Some bound \<Rightarrow>
          (let observed = elapsed_ns (pe_observed peer i)
           in if abs_diff observed (wm_delta_ns expected) > bound
              then report (message_field expected ''.cadence'') (to_dec (unat (wm_delta_ns expected)))
                     (to_dec (unat observed)) st
              else st))"

definition CONVERSATION_LIMIT_NS :: nat where
  "CONVERSATION_LIMIT_NS = 60 * 60 * 1000000000"

fun candidate_script_loop ::
  "ext_lib \<Rightarrow> fixture_dir \<Rightarrow> store_limits \<Rightarrow> socket_peer \<Rightarrow> u64 option \<Rightarrow> nat \<Rightarrow> ws_message list
     \<Rightarrow> candidate_script \<Rightarrow> regression_error + candidate_script" where
  "candidate_script_loop X d lim peer tolerance i [] st = Inr st"
| "candidate_script_loop X d lim peer tolerance i (expected # messages) st =
     (if pe_elapsed peer i \<ge> CONVERSATION_LIMIT_NS
      then Inr (report ''terminal'' ''completed_within_limit'' ''duration_limit'' st)
      else rbind (if wm_direction expected = ClientToServer then send_turn X d lim peer i expected st
                  else Inr (read_turn X d lim peer i expected st)) (\<lambda>(st', goes_on).
           if goes_on then candidate_script_loop X d lim peer tolerance (Suc i) messages
                             (cadence_check tolerance peer i expected st')
           else Inr st'))"

definition terminal_check :: "ext_lib \<Rightarrow> socket_peer \<Rightarrow> ws_terminal \<Rightarrow> candidate_script \<Rightarrow> candidate_script" where
  "terminal_check X peer terminal_state st =
     (case terminal_state of
        CleanClose _ _ \<Rightarrow> st
      | Abnormal _ \<Rightarrow>
          (case pe_last peer of
             LsMessage message \<Rightarrow> report ''terminal'' ''abnormal_end'' (candidate_message_summary X message) st
           | LsClosed \<Rightarrow> st
           | LsOpen \<Rightarrow> report ''terminal'' ''abnormal_end'' ''connection_remained_open'' st))"

definition script_begin :: candidate_script where
  "script_begin = \<lparr>cs_findings = [], cs_close_reply_pending = False, cs_auto_pong_pending = False, cs_out = []\<rparr>"

definition compare_websocket_candidate ::
  "ext_lib \<Rightarrow> upstream_lib \<Rightarrow> socket_lib \<Rightarrow> fixture_dir \<Rightarrow> store_limits \<Rightarrow> string \<Rightarrow> socket_peer \<Rightarrow> http_request
     \<Rightarrow> http_uri \<Rightarrow> ws_conversation \<Rightarrow> u64 option \<Rightarrow> regression_error + diff_finding list" where
  "compare_websocket_candidate X U L d lim key peer request target_base conversation tolerance =
     rbind (target_uri X U target_base request) (\<lambda>uri.
     rbind (map_err (\<lambda>e. ReSocket (ScHeader e)) (check_all (sk_append L) (socket_request L key request))) (\<lambda>_.
     rbind (map_err (\<lambda>e. ReSocket (ScRequest e)) (sk_request L uri)) (\<lambda>_.
     case pe_handshake peer of
       HsUnavailable \<Rightarrow> Inr [ws_finding ''handshake.transport'' ''101'' ''unavailable'']
     | HsReply status headers switched \<Rightarrow>
         (if status \<noteq> 101 then Inr [ws_finding ''handshake.status'' ''101'' (sk_status_text L status)]
          else let findings = handshake_findings L key conversation headers
               in if findings \<noteq> [] then Inr findings
                  else if \<not> switched then Inr [ws_finding ''handshake.stream'' ''upgraded'' ''unavailable'']
                  else rbind (candidate_script_loop X d lim peer tolerance 0 (wc_messages conversation) script_begin) (\<lambda>st.
                       Inr (cs_findings (terminal_check X peer (wc_terminal conversation) st)))))))"

section \<open>When nothing is reported\<close>

text \<open>What the codec still answers by itself: a close and a ping it has read.\<close>

definition codec_pending :: "bool \<times> bool \<Rightarrow> ws_message \<Rightarrow> bool \<times> bool" where
  "codec_pending pending m =
     (let (closing, pinged) = pending
      in if wm_direction m = ClientToServer
         then (closing \<and> wm_kind m \<noteq> WClose, pinged \<and> wm_kind m \<noteq> WPong)
         else (closing \<or> wm_kind m = WClose, pinged \<or> wm_kind m = WPing))"

definition codec_answers :: "bool \<times> bool \<Rightarrow> ws_message \<Rightarrow> bool" where
  "codec_answers pending m \<longleftrightarrow> wm_kind m = WClose \<and> fst pending \<or> wm_kind m = WPong \<and> snd pending"

text \<open>One message goes as recorded: it is written, or the recorded one is read, in time.\<close>

definition turn_agrees ::
  "ext_lib \<Rightarrow> fixture_dir \<Rightarrow> store_limits \<Rightarrow> socket_peer \<Rightarrow> u64 option \<Rightarrow> bool \<times> bool \<Rightarrow> nat \<Rightarrow> ws_message \<Rightarrow> bool" where
  "turn_agrees X d lim peer tolerance pending i m \<longleftrightarrow>
     pe_elapsed peer i < CONVERSATION_LIMIT_NS
     \<and> (if wm_direction m = ClientToServer
        then (\<exists>payload. stored_payload X d lim m = Inr payload)
             \<and> (if codec_answers pending m then pe_flush peer i = None else pe_send peer i = WrDone)
        else \<exists>f. pe_read peer i = RdMessage f \<and> candidate_message_matches X d lim m f)
     \<and> (\<forall>bound. tolerance = Some bound \<longrightarrow> abs_diff (elapsed_ns (pe_observed peer i)) (wm_delta_ns m) \<le> bound)"

definition conversation_agrees ::
  "ext_lib \<Rightarrow> fixture_dir \<Rightarrow> store_limits \<Rightarrow> socket_peer \<Rightarrow> u64 option \<Rightarrow> ws_conversation \<Rightarrow> bool" where
  "conversation_agrees X d lim peer tolerance conversation \<longleftrightarrow>
     (\<forall>i<length (wc_messages conversation).
        turn_agrees X d lim peer tolerance (foldl codec_pending (False, False) (take i (wc_messages conversation))) i
          (wc_messages conversation ! i))
     \<and> (case wc_terminal conversation of CleanClose _ _ \<Rightarrow> True | Abnormal _ \<Rightarrow> pe_last peer = LsClosed)"

lemma reporting_adds [simp]: "cs_findings (report field b c st) \<noteq> []"
  by (simp add: report_def)

text \<open>Findings are only ever added.\<close>

lemma flush_turn_clean:
  "flush_turn result field b st = (st', goes_on) \<Longrightarrow> cs_findings st' = [] \<longleftrightarrow> goes_on \<and> cs_findings st = []"
  by (auto simp: flush_turn_def Let_def report_def split: option.splits)

lemma send_turn_payload:
  "(\<exists>r. send_turn X d lim peer i m st = Inr r) \<longleftrightarrow> (\<exists>payload. stored_payload X d lim m = Inr payload)"
  by (cases "stored_payload X d lim m") (simp_all add: send_turn_def map_err_def Let_def)

lemma send_turn_step:
  assumes "wm_direction m = ClientToServer" and "send_turn X d lim peer i m st = Inr (st', goes_on)"
  shows "(goes_on \<longleftrightarrow> (if codec_answers (cs_close_reply_pending st, cs_auto_pong_pending st) m
           then pe_flush peer i = None else pe_send peer i = WrDone))
    \<and> (cs_findings st' = [] \<longleftrightarrow> goes_on \<and> cs_findings st = [])
    \<and> (cs_close_reply_pending st', cs_auto_pong_pending st')
        = codec_pending (cs_close_reply_pending st, cs_auto_pong_pending st) m"
proof -
  obtain payload where "stored_payload X d lim m = Inr payload"
    using assms(2) send_turn_payload by blast
  with assms show ?thesis
    by (cases "wm_kind m"; cases "pe_flush peer i"; cases "pe_send peer i")
      (auto simp: send_turn_def codec_answers_def codec_pending_def flush_turn_def report_def Let_def split: if_splits)
qed

lemma read_turn_step:
  assumes "wm_direction m \<noteq> ClientToServer" and "read_turn X d lim peer i m st = (st', goes_on)"
  shows "(goes_on \<longleftrightarrow> (\<exists>f. pe_read peer i = RdMessage f \<and> candidate_message_matches X d lim m f))
    \<and> (cs_findings st' = [] \<longleftrightarrow> goes_on \<and> cs_findings st = [])
    \<and> (goes_on \<longrightarrow> (cs_close_reply_pending st', cs_auto_pong_pending st')
        = codec_pending (cs_close_reply_pending st, cs_auto_pong_pending st) m)"
  using assms
  by (auto simp: read_turn_def codec_pending_def report_def Let_def split: read_result.splits if_splits)

lemma cadence_check_sel [simp]:
  "cs_close_reply_pending (cadence_check tolerance peer i m st) = cs_close_reply_pending st"
  "cs_auto_pong_pending (cadence_check tolerance peer i m st) = cs_auto_pong_pending st"
  by (auto simp: cadence_check_def report_def Let_def split: option.splits)

lemma cadence_check_clean:
  "cs_findings (cadence_check tolerance peer i m st) = [] \<longleftrightarrow>
     cs_findings st = [] \<and> (\<forall>bound. tolerance = Some bound \<longrightarrow>
       abs_diff (elapsed_ns (pe_observed peer i)) (wm_delta_ns m) \<le> bound)"
  by (auto simp: cadence_check_def report_def Let_def not_less split: option.splits)

fun turns_agree ::
  "ext_lib \<Rightarrow> fixture_dir \<Rightarrow> store_limits \<Rightarrow> socket_peer \<Rightarrow> u64 option \<Rightarrow> bool \<times> bool \<Rightarrow> nat \<Rightarrow> ws_message list
     \<Rightarrow> bool" where
  "turns_agree X d lim peer tolerance pending i [] = True"
| "turns_agree X d lim peer tolerance pending i (m # ms) =
     (turn_agrees X d lim peer tolerance pending i m
      \<and> turns_agree X d lim peer tolerance (codec_pending pending m) (Suc i) ms)"

lemma turns_agree_nth:
  "turns_agree X d lim peer tolerance pending i ms \<longleftrightarrow>
     (\<forall>k<length ms. turn_agrees X d lim peer tolerance (foldl codec_pending pending (take k ms)) (i + k) (ms ! k))"
proof (induction ms arbitrary: pending i)
  case (Cons m ms)
  have "(\<forall>k<length (m # ms). P k) \<longleftrightarrow> P 0 \<and> (\<forall>k<length ms. P (Suc k))" for P
    by (auto simp: less_Suc_eq_0_disj)
  then show ?case by (simp add: Cons.IH)
qed simp

lemma script_loop_clean:
  "(\<exists>st'. candidate_script_loop X d lim peer tolerance i ms st = Inr st' \<and> cs_findings st' = []) \<longleftrightarrow>
     cs_findings st = []
     \<and> turns_agree X d lim peer tolerance (cs_close_reply_pending st, cs_auto_pong_pending st) i ms"
proof (induction ms arbitrary: i st)
  case (Cons m ms)
  let ?pending = "(cs_close_reply_pending st, cs_auto_pong_pending st)"
  show ?case
  proof (cases "pe_elapsed peer i < CONVERSATION_LIMIT_NS")
    case True
    show ?thesis
    proof (cases "wm_direction m = ClientToServer")
      case client: True
      show ?thesis
      proof (cases "stored_payload X d lim m")
        case (Inl e)
        then show ?thesis
          using True client by (auto simp: send_turn_def turn_agrees_def rbind_Inr_iff)
      next
        case (Inr payload)
        then obtain st1 goes_on where run: "send_turn X d lim peer i m st = Inr (st1, goes_on)"
          using send_turn_payload by fastforce
        from send_turn_step [OF client this] run Inr show ?thesis
          using True client Cons.IH [of "Suc i" "cadence_check tolerance peer i m st1"]
          by (cases goes_on) (auto simp: turn_agrees_def cadence_check_clean split: if_splits)
      qed
    next
      case server: False
      obtain st1 goes_on where run: "read_turn X d lim peer i m st = (st1, goes_on)" by (rule prod.exhaust)
      note step = read_turn_step [OF server run]
      then show ?thesis
        using True server run Cons.IH [of "Suc i" "cadence_check tolerance peer i m st1"]
        by (cases goes_on) (auto simp: turn_agrees_def cadence_check_clean)
    qed
  qed (simp add: turn_agrees_def not_less)
qed simp

lemma terminal_check_clean:
  "cs_findings (terminal_check X peer t st) = [] \<longleftrightarrow>
     cs_findings st = [] \<and> (case t of CleanClose _ _ \<Rightarrow> True | Abnormal _ \<Rightarrow> pe_last peer = LsClosed)"
  by (auto simp: terminal_check_def report_def split: ws_terminal.splits last_result.splits)

definition handshake_agrees :: "socket_lib \<Rightarrow> string \<Rightarrow> ws_conversation \<Rightarrow> handshake_reply \<Rightarrow> bool" where
  "handshake_agrees L key conversation reply \<longleftrightarrow>
     (\<exists>headers. reply = HsReply 101 headers True
        \<and> first_text L headers ''sec-websocket-accept'' = Some (sk_accept_key L key)
        \<and> upgrade_confirmed L headers \<and> map_of headers ''sec-websocket-extensions'' = None
        \<and> first_text L headers ''sec-websocket-protocol'' = wc_selected_subprotocol conversation)"

lemma handshake_findings_Nil_iff:
  "handshake_findings L key conversation headers = [] \<longleftrightarrow>
     first_text L headers ''sec-websocket-accept'' = Some (sk_accept_key L key)
     \<and> upgrade_confirmed L headers \<and> map_of headers ''sec-websocket-extensions'' = None
     \<and> first_text L headers ''sec-websocket-protocol'' = wc_selected_subprotocol conversation"
  by (auto simp: handshake_findings_def Let_def)


text \<open>
  Two pings before their pongs: the codec answers both, but only one pong is remembered as answered,
  and the second one is sent once more.
\<close>

theorem second_pong_is_sent_again:
  assumes "pe_elapsed peer = (\<lambda>_. 0)" and "pe_read peer = (\<lambda>_. RdMessage (MPing []))"
    and "pe_send peer = (\<lambda>_. WrDone)" and "pe_flush peer = (\<lambda>_. None)"
  shows "\<exists>st. candidate_script_loop X d lim peer None 0
      (map (\<lambda>(k, dir). \<lparr>wm_sequence = 0, wm_direction = dir, wm_delta_ns = 0, wm_kind = k, wm_payload = None,
             wm_close_code = None, wm_close_reason = None, wm_redactions = []\<rparr>)
        [(WPing, ServerToClient), (WPing, ServerToClient), (WPong, ClientToServer), (WPong, ClientToServer)])
      script_begin = Inr st \<and> cs_out st = [CaFlush, CaSend (MPong [])]"
  using assms
  by (simp add: script_begin_def read_turn_def send_turn_def candidate_message_matches_def stored_payload_def
      flush_turn_def cadence_check_def CONVERSATION_LIMIT_NS_def)

end
