(* ===== verification/Cli_Compare.thy ===== *)
theory Cli_Compare
  imports Candidate_Socket
begin

text \<open>
  The commands that compare, \<^verbatim>\<open>crates/eggreplay-cli/src/main.rs\<close>: \<^verbatim>\<open>replay\<close> and \<^verbatim>\<open>test\<close> run a fixture
  against a service, one flow after the other or along its timeline, \<^verbatim>\<open>diff\<close> compares two fixtures; the
  verdict with its exit code, and the JUnit report.

  What is printed is a value: whether and with which findings a command reports. The service is a
  parameter.
\<close>

section \<open>Arguments\<close>

text \<open>A failure is its class, which decides the exit code, and its cause.\<close>

datatype cli_cause =
    KStore store_error
  | KStream stream_error
  | KTranscript ws_error
  | KCandidate regression_error
  | KText string
  | KFlow string string

type_synonym cli_failure = "string \<times> cli_cause"

definition exit_code_for_class :: "string \<Rightarrow> nat" where
  "exit_code_for_class cls =
     (if cls = ''regression'' \<or> cls = ''diff'' then 1
      else if cls = ''configuration'' then 2
      else if cls = ''fixture'' then 3
      else if cls = ''runtime'' then 4
      else 5)"

record comparison_args =
  arg_compare_stream_events :: bool
  arg_cadence_tolerance_ms :: "u64 option"
  arg_compare_sse :: bool
  arg_sse_ignore :: "string list"
  arg_websocket_cadence_tolerance_ms :: "u64 option"
  arg_max_elapsed_ms :: "u64 option"

definition millis_to_nanos :: "string \<Rightarrow> u64 option \<Rightarrow> cli_failure + u64 option" where
  "millis_to_nanos message ms =
     (case ms of
        None \<Rightarrow> Inr None
      | Some n \<Rightarrow>
          (if unat n * 1000000 < 2 ^ 64 then Inr (Some (n * 1000000))
           else Inl (''configuration'', KText message)))"

definition comparison_policy_of :: "comparison_args \<Rightarrow> cli_failure + comparison_policy" where
  "comparison_policy_of args =
     rbind (millis_to_nanos ''cadence tolerance overflows'' (arg_cadence_tolerance_ms args)) (\<lambda>cadence.
     rbind (millis_to_nanos ''WebSocket cadence tolerance overflows'' (arg_websocket_cadence_tolerance_ms args)) (\<lambda>websocket.
     let policy = comparison_policy_default
           \<lparr>cp_compare_stream_events := arg_compare_stream_events args, cp_cadence_tolerance_ns := cadence,
            cp_compare_sse := arg_compare_sse args, cp_sse_ignored := arg_sse_ignore args,
            cp_websocket_cadence_tolerance_ns := websocket\<rparr>
     in rbind (map_err (\<lambda>m. (''configuration'', KText m)) (policy_validate policy)) (\<lambda>_. Inr policy)))"

definition timing_assertion_of :: "comparison_args \<Rightarrow> timing_assertion option" where
  "timing_assertion_of args = map_option timing_assertion.make (arg_max_elapsed_ms args)"

section \<open>One flow against the service\<close>

text \<open>An opened fixture: its directory and what \<^verbatim>\<open>Session::open\<close> returned.\<close>

type_synonym fixture = "fixture_dir \<times> session"

definition body_of :: "ext_lib \<Rightarrow> fixture \<Rightarrow> body_ref \<Rightarrow> store_error + bytes" where
  "body_of X fx b = (case b of BodyBlob blob \<Rightarrow> read_blob X (fst fx) (se_limits (snd fx)) blob | _ \<Rightarrow> Inr [])"

definition read_extension_of :: "fixture \<Rightarrow> string \<Rightarrow> store_error + bytes option" where
  "read_extension_of fx name = read_extension (fst fx) (se_manifest (snd fx)) name"

text \<open>
  The libraries, the client, and for a flow the connection and the key of its WebSocket handshake.
\<close>

record cli_world =
  cw_ext :: ext_lib
  cw_codec :: codec
  cw_http :: upstream_lib
  cw_socket :: socket_lib
  cw_display :: "fetch_error \<Rightarrow> string"
  cw_client :: "string \<Rightarrow> http_uri \<Rightarrow> header_entries \<Rightarrow> bytes \<Rightarrow> candidate_answer"
  cw_peer :: "string \<Rightarrow> string \<times> socket_peer"
  cw_target :: http_uri
  cw_route :: physical_route

definition sort_findings :: "diff_finding list \<Rightarrow> diff_finding list" where
  "sort_findings findings = sort_key (\<lambda>f. (kind_debug (df_kind f), df_field f)) findings"

definition only_response :: "string \<Rightarrow> stream_event list \<Rightarrow> flow_stream_events" where
  "only_response flow_id events =
     \<lparr>fse_flow_id = flow_id, fse_start_offset_ns = 0, fse_request = [], fse_response = events\<rparr>"

definition compare_upgraded ::
  "cli_world \<Rightarrow> fixture \<Rightarrow> flow \<Rightarrow> report_scheduler \<Rightarrow> comparison_policy \<Rightarrow> cli_cause + regression_report" where
  "compare_upgraded W fx baseline scheduler policy =
     rbind (map_err KStore (read_extension_of fx ''websocket-messages'')) (\<lambda>content.
     rbind (ok_or (KText ''WebSocket 101 baseline is missing websocket-messages metadata'') content) (\<lambda>b.
     rbind (ok_or (KText ''invalid websocket-messages extension'') (cd_transcript_from (cw_codec W) b)) (\<lambda>transcript.
     rbind (ok_or (KFlow ''WebSocket 101 baseline flow has no conversation'' (fl_id baseline))
              (find (\<lambda>conversation. wc_flow_id conversation = fl_id baseline) (wt_conversations transcript))) (\<lambda>conversation.
     rbind (map_err KCandidate (case cw_peer W (fl_id baseline) of (key, peer) \<Rightarrow>
              compare_websocket_candidate (cw_ext W) (cw_http W) (cw_socket W) (fst fx) (se_limits (snd fx)) key peer
                (fl_request baseline) (cw_target W) conversation (cp_websocket_cadence_tolerance_ns policy))) (\<lambda>findings.
     Inr \<lparr>rep_schema_version = REPORT_SCHEMA_VERSION, rep_scheduler = scheduler,
          rep_baseline_flow_ids = [fl_id baseline], rep_findings = findings, rep_suppressed = []\<rparr>)))))"

definition compare_candidate_flow ::
  "cli_world \<Rightarrow> fixture \<Rightarrow> flow \<Rightarrow> report_scheduler \<Rightarrow> comparison_policy \<Rightarrow> timing_assertion option
     \<Rightarrow> (string \<times> flow_stream_events) list option \<Rightarrow> cli_cause + regression_report" where
  "compare_candidate_flow W fx baseline scheduler policy timing baseline_streams =
     (if (case fl_outcome baseline of OutResponse response \<Rightarrow> resp_status response = 101 | OutError _ \<Rightarrow> False)
      then compare_upgraded W fx baseline scheduler policy
      else
        rbind (map_err KStore (body_of (cw_ext W) fx (req_body (fl_request baseline)))) (\<lambda>request_body.
        rbind (map_err KCandidate (execute_candidate (cw_ext W) (cw_http W) (cw_display W) (cw_client W)
                 (fl_request baseline) request_body (cw_target W) (sl_max_blob_bytes store_limits_default)
                 (Some (cw_route W)))) (\<lambda>candidate.
        rbind (case fl_outcome baseline of
                 OutResponse response \<Rightarrow> map_err KStore (body_of (cw_ext W) fx (resp_body response))
               | OutError _ \<Rightarrow> Inr []) (\<lambda>baseline_response.
        let rep = compare_flows_with_timing_and_policy (cw_ext W) baseline (co_flow candidate) baseline_response
                    (co_response_body candidate) scheduler timing policy
        in if is_stream_enabled policy then
             rbind (ok_or (KText ''stream comparison requested but baseline stream metadata is missing'')
                      baseline_streams) (\<lambda>streams.
             rbind (ok_or (KFlow ''stream comparison requested but baseline metadata is missing'' (fl_id baseline))
                      (map_of streams (fl_id baseline))) (\<lambda>events.
             Inr (rep\<lparr>rep_findings := sort_findings (rep_findings rep
                    @ compare_stream_events (only_response (fl_id baseline) (fse_response events))
                        (only_response (fl_id baseline) (co_response_events candidate))
                        (cp_cadence_tolerance_ns policy))\<rparr>)))
           else Inr rep))))"

section \<open>A run\<close>

definition stream_metadata ::
  "codec \<Rightarrow> string \<Rightarrow> string \<Rightarrow> string \<Rightarrow> fixture \<Rightarrow> cli_failure + stream_events" where
  "stream_metadata C cls missing invalid fx =
     rbind (map_err (\<lambda>e. (''fixture'', KStore e)) (read_extension_of fx ''stream-events'')) (\<lambda>content.
     rbind (ok_or (cls, KText missing) content) (\<lambda>b.
     rbind (ok_or (''fixture'', KText invalid) (cd_events_from C b)) (\<lambda>decoded.
     rbind (map_err (\<lambda>e. (''fixture'', KStream e)) (validate_stream_events decoded)) (\<lambda>_. Inr decoded))))"

definition streams_by_flow :: "stream_events \<Rightarrow> (string \<times> flow_stream_events) list" where
  "streams_by_flow decoded = rev (map (\<lambda>events. (fse_flow_id events, events)) (ses_flows decoded))"

definition requested_streams ::
  "codec \<Rightarrow> comparison_policy \<Rightarrow> string \<Rightarrow> string \<Rightarrow> fixture \<Rightarrow> cli_failure + (string \<times> flow_stream_events) list option" where
  "requested_streams C policy missing invalid fx =
     (if is_stream_enabled policy
      then rbind (stream_metadata C ''fixture'' missing invalid fx) (\<lambda>decoded. Inr (Some (streams_by_flow decoded)))
      else Inr None)"

definition recorded_flows :: "codec \<Rightarrow> fixture \<Rightarrow> cli_failure + flow list" where
  "recorded_flows C fx =
     map_err (\<lambda>e. (''fixture'', KStore e))
       (rbind (iter_flows C (fst fx) (se_limits (snd fx))) (collect_res id))"

definition timeline_offsets :: "codec \<Rightarrow> fixture \<Rightarrow> flow list \<Rightarrow> cli_failure + u64 list" where
  "timeline_offsets C fx flows =
     rbind (stream_metadata C ''configuration'' ''timeline scheduler requires a stream-events extension''
              ''invalid stream-events extension'' fx) (\<lambda>events.
     let offsets = rev (map (\<lambda>e. (fse_flow_id e, fse_start_offset_ns e)) (ses_flows events))
     in collect_res (\<lambda>fl. ok_or (''fixture'', KFlow ''timeline offset is missing for flow'' (fl_id fl))
          (map_of offsets (fl_id fl))) flows)"

text \<open>
  The tasks of the timeline. Each flow is compared once, so the result of the run for the flow with an
  index is a function of the index, whatever else runs beside it; which of the running tasks is the
  next to be done is up to the scheduler, and \<open>pick\<close> is any choice.
\<close>

definition pick_task :: "(nat list \<Rightarrow> nat) \<Rightarrow> nat list \<Rightarrow> nat" where
  "pick_task pick running = running ! (pick running mod length running)"

lemma picked_task: "running \<noteq> [] \<Longrightarrow> pick_task pick running \<in> set running"
  by (simp add: pick_task_def)

function timeline_loop ::
  "(nat \<Rightarrow> 'e + 'r) \<Rightarrow> (nat list \<Rightarrow> nat) \<Rightarrow> nat \<Rightarrow> nat list \<Rightarrow> nat list \<Rightarrow> 'r option list
     \<Rightarrow> 'e + 'r option list" where
  "timeline_loop results pick max_concurrency waiting tasks reports =
     (let started = take (max_concurrency - length tasks) waiting;
          waiting' = drop (max_concurrency - length tasks) waiting;
          running = tasks @ started
      in if running = [] then Inr reports
         else let index = pick_task pick running
              in rbind (results index) (\<lambda>rep.
                 timeline_loop results pick max_concurrency waiting' (remove1 index running)
                   (reports[index := Some rep])))"
  by pat_completeness simp_all

termination
proof (relation "measure (\<lambda>(_, _, _, waiting, tasks, _). length waiting + length tasks)", goal_cases)
  case (2 results pick n waiting tasks reports started waiting' running index rep)
  then have "index \<in> set running" using picked_task by metis
  then have "length (remove1 index running) < length running"
    using length_pos_if_in_set [of index running] by (simp add: length_remove1)
  moreover have "length waiting' + length running = length waiting + length tasks"
    using 2(1-3) by simp
  ultimately show ?case by simp
qed simp

declare timeline_loop.simps [simp del]

datatype scheduler_choice = ChooseSequential | ChooseTimeline

record scheduler_options =
  so_choice :: scheduler_choice
  so_max_concurrency :: usize

definition run_sequential ::
  "(nat \<Rightarrow> cli_cause + regression_report) \<Rightarrow> nat \<Rightarrow> cli_failure + regression_report option list" where
  "run_sequential results n =
     try_fold (\<lambda>reports index. rbind (map_err (Pair ''runtime'') (results index)) (\<lambda>rep.
       Inr (reports[index := Some rep]))) (replicate n None) [0..<n]"

definition run_timeline ::
  "codec \<Rightarrow> fixture \<Rightarrow> flow list \<Rightarrow> (nat \<Rightarrow> cli_cause + regression_report) \<Rightarrow> (nat list \<Rightarrow> nat) \<Rightarrow> usize
     \<Rightarrow> cli_failure + regression_report option list" where
  "run_timeline C fx flows results pick max_concurrency =
     (if max_concurrency = 0 \<or> max_concurrency > 1024
      then Inl (''configuration'', KText ''--max-concurrency must be within 1..=1024'')
      else rbind (timeline_offsets C fx flows) (\<lambda>offsets.
           rbind (map_err (\<lambda>e. (''configuration'', KStream e)) (timeline_order_offsets offsets max_concurrency)) (\<lambda>order.
           map_err (Pair ''runtime'')
             (timeline_loop results pick max_concurrency order [] (replicate (length flows) None)))))"

definition regression_reports ::
  "cli_world \<Rightarrow> fixture \<Rightarrow> flow list \<Rightarrow> (nat list \<Rightarrow> nat) \<Rightarrow> scheduler_options \<Rightarrow> comparison_policy
     \<Rightarrow> timing_assertion option \<Rightarrow> cli_failure + regression_report list" where
  "regression_reports W fx flows pick scheduler policy timing =
     rbind (requested_streams (cw_codec W) policy
              ''stream comparison requested but baseline fixture has no stream-events extension''
              ''invalid stream-events extension'' fx) (\<lambda>baseline_streams.
     let results = (\<lambda>kind index. compare_candidate_flow W fx (flows ! index) kind policy timing baseline_streams)
     in rbind (case so_choice scheduler of
                 ChooseSequential \<Rightarrow> run_sequential (results Sequential) (length flows)
               | ChooseTimeline \<Rightarrow> run_timeline (cw_codec W) fx flows (results Timeline) pick
                                     (so_max_concurrency scheduler)) (\<lambda>reports.
        ok_or (''runtime'', KText ''scheduler omitted a flow result'') (those reports)))"

text \<open>What a command prints, for every output format, and what it returns.\<close>

record emitted =
  em_success :: bool
  em_failure :: "string option"
  em_flow_ids :: "string list"
  em_reports :: "regression_report list"
  em_finding_count :: usize

definition emitted_failure :: "string \<Rightarrow> emitted" where
  "emitted_failure cls =
     \<lparr>em_success = False, em_failure = Some cls, em_flow_ids = [], em_reports = [], em_finding_count = 0\<rparr>"

definition verdict :: "bool \<Rightarrow> string list \<Rightarrow> regression_report list \<Rightarrow> emitted \<times> (cli_failure + unit)" where
  "verdict enforce flow_ids reports =
     (let findings = concat (map rep_findings reports);
          success = (enforce \<longrightarrow> findings = [])
      in (\<lparr>em_success = success, em_failure = (if success then None else Some ''regression''),
           em_flow_ids = flow_ids, em_reports = reports, em_finding_count = length findings\<rparr>,
          if success then Inr () else Inl (''regression'', KText ''candidate differs from baseline'')))"

text \<open>
  \<^verbatim>\<open>replay\<close> and \<^verbatim>\<open>test\<close>; the latter enforces. The target and the client come with the world, whose
  construction fails with a class that is reported.
\<close>

definition regression ::
  "codec \<Rightarrow> ext_lib \<Rightarrow> fs \<Rightarrow> path \<Rightarrow> cli_failure + cli_world \<Rightarrow> (nat list \<Rightarrow> nat) \<Rightarrow> bool \<Rightarrow> scheduler_options
     \<Rightarrow> comparison_policy \<Rightarrow> timing_assertion option \<Rightarrow> emitted option \<times> (cli_failure + unit)" where
  "regression C X fsys root world pick enforce scheduler policy timing =
     (case (open_session C X fsys root store_limits_default, fsys root) of
        (Inr se, Some d) \<Rightarrow>
          (case world of
             Inl (cls, e) \<Rightarrow> (Some (emitted_failure cls), Inl (cls, e))
           | Inr W \<Rightarrow>
               (case rbind (recorded_flows C (d, se)) (\<lambda>flows.
                       rbind (regression_reports W (d, se) flows pick scheduler policy timing) (\<lambda>reports.
                       Inr (map fl_id flows, reports))) of
                  Inl e \<Rightarrow> (None, Inl e)
                | Inr (flow_ids, reports) \<Rightarrow>
                    (case verdict enforce flow_ids reports of (out, result) \<Rightarrow> (Some out, result))))
      | (Inl e, _) \<Rightarrow> (Some (emitted_failure ''fixture''), Inl (''fixture'', KStore e))
      | (_, None) \<Rightarrow> (Some (emitted_failure ''fixture''), Inl (''fixture'', KStore (StIo IoNotFound))))"

end
