(* ===== verification/Cli_Diff.thy ===== *)
theory Cli_Diff
  imports Cli_Compare
begin

text \<open>
  Comparing two fixtures, \<^verbatim>\<open>diff\<close> of \<^verbatim>\<open>crates/eggreplay-cli/src/main.rs\<close>, with the comparison of two
  recorded conversations, the JUnit rendering of a report and the redaction policy of the command
  line.
\<close>

section \<open>Conversations\<close>

definition fixture_websockets :: "codec \<Rightarrow> fixture \<Rightarrow> cli_failure + (string \<times> ws_conversation) list" where
  "fixture_websockets C fx =
     rbind (map_err (\<lambda>e. (''fixture'', KStore e)) (read_extension_of fx ''websocket-messages'')) (\<lambda>content.
     case content of
       None \<Rightarrow> Inr []
     | Some b \<Rightarrow>
         rbind (ok_or (''fixture'', KText ''invalid websocket-messages extension'') (cd_transcript_from C b)) (\<lambda>transcript.
         rbind (map_err (\<lambda>e. (''fixture'', KTranscript e)) (validate_transcript transcript ws_limits_default)) (\<lambda>_.
         Inr (rev (map (\<lambda>c. (wc_flow_id c, c)) (wt_conversations transcript))))))"

text \<open>\<open>debug_terminal\<close> is the derived \<^verbatim>\<open>Debug\<close> of a terminal state, which escapes its strings.\<close>

fun direction_debug :: "ws_direction \<Rightarrow> string" where
  "direction_debug ClientToServer = ''ClientToServer''"
| "direction_debug ServerToClient = ''ServerToClient''"

definition code_debug :: "u16 option \<Rightarrow> string" where
  "code_debug code = (case code of None \<Rightarrow> ''None'' | Some c \<Rightarrow> ''Some('' @ to_dec (unat c) @ '')'')"

definition fixture_payload :: "ext_lib \<Rightarrow> fixture \<Rightarrow> body_ref \<Rightarrow> bytes option" where
  "fixture_payload X fx b = (case b of BodyBlob blob \<Rightarrow> reads (body_of X fx b) | _ \<Rightarrow> Some [])"

definition payload_summary :: "ws_message \<Rightarrow> string" where
  "payload_summary message =
     (case wm_payload message of
        Some (BodyBlob blob) \<Rightarrow> ''sha256:'' @ blob_sha256 blob @ '';length:'' @ to_dec (unat (blob_length blob))
      | Some b \<Rightarrow> ''length:'' @ to_dec (unat (unwrap_or (body_ref_len b) 0))
      | None \<Rightarrow> ''length:0'')"

definition wildcard :: "ws_redaction set \<Rightarrow> ws_message \<Rightarrow> ws_message \<Rightarrow> bool" where
  "wildcard kinds a b \<longleftrightarrow> (\<exists>r\<in>set (wm_redactions a @ wm_redactions b). r \<in> kinds)"

definition pointer_set :: "ws_message \<Rightarrow> ws_message \<Rightarrow> string list" where
  "pointer_set a b =
     bset_of_list (concat (map (\<lambda>r. case r of JsonPointers pointers \<Rightarrow> pointers | _ \<Rightarrow> [])
       (wm_redactions a @ wm_redactions b)))"

definition payloads_equal :: "ext_lib \<Rightarrow> fixture \<Rightarrow> fixture \<Rightarrow> ws_message \<Rightarrow> ws_message \<Rightarrow> bool" where
  "payloads_equal X baseline candidate a b =
     (case (Option.bind (wm_payload a) (fixture_payload X baseline),
            Option.bind (wm_payload b) (fixture_payload X candidate)) of
        (Some l, Some r) \<Rightarrow>
          (let pointers = pointer_set a b
           in if pointers \<noteq> [] then
                (case (apply_json_redaction X l pointers, apply_json_redaction X r pointers) of
                   (Inr (l', _), Inr (r', _)) \<Rightarrow> l' = r' | _ \<Rightarrow> False)
              else l = r)
      | (None, None) \<Rightarrow> True
      | _ \<Rightarrow> False)"

definition compare_messages ::
  "ext_lib \<Rightarrow> fixture \<Rightarrow> fixture \<Rightarrow> u64 option \<Rightarrow> nat \<times> ws_message \<times> ws_message \<Rightarrow> diff_finding list" where
  "compare_messages X baseline candidate cadence =
     (\<lambda>(index, a, b).
        let field = (\<lambda>part. ''message.'' @ to_dec index @ part)
        in (if wm_direction a \<noteq> wm_direction b
            then [ws_finding (field ''.direction'') (direction_debug (wm_direction a)) (direction_debug (wm_direction b))]
            else [])
         @ (if wm_kind a \<noteq> wm_kind b
            then [ws_finding (field ''.kind'') (ws_kind_debug (wm_kind a)) (ws_kind_debug (wm_kind b))]
            else
              (if wm_close_code a \<noteq> wm_close_code b
               then [ws_finding (field ''.close_code'') (code_debug (wm_close_code a)) (code_debug (wm_close_code b))]
               else [])
            @ (if wm_close_reason a \<noteq> wm_close_reason b \<and> \<not> wildcard {CloseReason, WholeMessage} a b
               then [ws_finding (field ''.close_reason'') ''different'' ''different''] else [])
            @ (case cadence of
                 Some tolerance \<Rightarrow>
                   (if abs_diff (wm_delta_ns a) (wm_delta_ns b) > tolerance
                    then [ws_finding (field ''.cadence'') (to_dec (unat (wm_delta_ns a))) (to_dec (unat (wm_delta_ns b)))]
                    else [])
               | None \<Rightarrow> [])
            @ (if wildcard {WholeMessage} a b \<or> wm_kind a = WClose then []
               else if \<not> payloads_equal X baseline candidate a b
               then [ws_finding (field ''.payload'') (payload_summary a) (payload_summary b)] else [])))"

definition compare_fixture_websockets ::
  "ext_lib \<Rightarrow> (ws_terminal \<Rightarrow> string) \<Rightarrow> fixture \<Rightarrow> fixture \<Rightarrow> ws_conversation \<Rightarrow> ws_conversation \<Rightarrow> u64 option
     \<Rightarrow> diff_finding list" where
  "compare_fixture_websockets X debug_terminal baseline candidate left right cadence =
     (if wc_selected_subprotocol left \<noteq> wc_selected_subprotocol right
      then [ws_finding ''handshake.subprotocol'' (unwrap_or (wc_selected_subprotocol left) ''none'')
              (unwrap_or (wc_selected_subprotocol right) ''none'')] else [])
     @ (if wc_terminal left \<noteq> wc_terminal right
        then [ws_finding ''terminal'' (debug_terminal (wc_terminal left)) (debug_terminal (wc_terminal right))] else [])
     @ (if length (wc_messages left) \<noteq> length (wc_messages right)
        then [ws_finding ''messages.count'' (to_dec (length (wc_messages left))) (to_dec (length (wc_messages right)))]
        else [])
     @ concat (map (compare_messages X baseline candidate cadence)
         (enumerate 0 (zip (wc_messages left) (wc_messages right))))"

section \<open>Two fixtures\<close>

definition is_upgraded :: "flow \<Rightarrow> bool" where
  "is_upgraded fl = (case fl_outcome fl of OutResponse r \<Rightarrow> resp_status r = 101 | OutError _ \<Rightarrow> False)"

definition response_body_or_empty :: "ext_lib \<Rightarrow> fixture \<Rightarrow> flow \<Rightarrow> bytes" where
  "response_body_or_empty X fx fl =
     (case fl_outcome fl of
        OutResponse response \<Rightarrow> unwrap_or (reads (body_of X fx (resp_body response))) []
      | OutError _ \<Rightarrow> [])"

text \<open>The metadata of one side: the timelines if they are compared, and the conversations.\<close>

record diff_side =
  ds_fixture :: fixture
  ds_streams :: "(string \<times> flow_stream_events) list option"
  ds_websockets :: "(string \<times> ws_conversation) list"

definition side_events :: "diff_side \<Rightarrow> flow \<Rightarrow> cli_failure + stream_event list" where
  "side_events side fl =
     rbind (ok_or (''fixture'', KText ''stream comparison requested but stream metadata is missing'')
              (ds_streams side)) (\<lambda>streams.
     rbind (ok_or (''fixture'', KFlow ''stream comparison requested but metadata is missing for flow'' (fl_id fl))
              (map_of streams (fl_id fl))) (\<lambda>events. Inr (fse_response events)))"

definition diff_pair ::
  "ext_lib \<Rightarrow> (ws_terminal \<Rightarrow> string) \<Rightarrow> comparison_policy \<Rightarrow> timing_assertion option \<Rightarrow> diff_side \<Rightarrow> diff_side
     \<Rightarrow> flow \<times> flow \<Rightarrow> cli_failure + regression_report" where
  "diff_pair X debug_terminal policy timing baseline candidate =
     (\<lambda>(left, right).
        let rep = compare_flows_with_timing_and_policy X left right
                    (response_body_or_empty X (ds_fixture baseline) left)
                    (response_body_or_empty X (ds_fixture candidate) right) Sequential timing policy
        in rbind (if is_stream_enabled policy then
                    rbind (side_events baseline left) (\<lambda>left_events.
                    rbind (side_events candidate right) (\<lambda>right_events.
                    Inr (rep\<lparr>rep_findings := sort_findings (rep_findings rep
                       @ compare_stream_events (only_response (fl_id left) left_events)
                           (only_response (fl_id left) right_events) (cp_cadence_tolerance_ns policy))\<rparr>)))
                  else Inr rep) (\<lambda>rep.
           if is_upgraded left \<or> is_upgraded right then
             (case (map_of (ds_websockets baseline) (fl_id left), map_of (ds_websockets candidate) (fl_id right)) of
                (Some left_ws, Some right_ws) \<Rightarrow>
                  Inr (rep\<lparr>rep_findings := sort_findings (rep_findings rep
                    @ compare_fixture_websockets X debug_terminal (ds_fixture baseline) (ds_fixture candidate) left_ws
                        right_ws (cp_websocket_cadence_tolerance_ns policy))\<rparr>)
              | _ \<Rightarrow> Inl (''fixture'', KText ''WebSocket 101 flow has missing conversation metadata''))
           else Inr rep))"

definition open_fixture :: "codec \<Rightarrow> ext_lib \<Rightarrow> fs \<Rightarrow> path \<Rightarrow> cli_failure + fixture" where
  "open_fixture C X fsys root =
     rbind (map_err (\<lambda>e. (''fixture'', KStore e)) (open_session C X fsys root store_limits_default)) (\<lambda>se.
     rbind (ok_or (''fixture'', KStore (StIo IoNotFound)) (fsys root)) (\<lambda>d. Inr (d, se)))"

text \<open>The reports of all pairs, and the verdict.\<close>

definition diff_verdict :: "flow list \<Rightarrow> flow list \<Rightarrow> regression_report list \<Rightarrow> emitted \<times> (cli_failure + unit)" where
  "diff_verdict left right reports =
     (let success = (length left = length right \<and> list_all is_success reports)
      in (\<lparr>em_success = success, em_failure = (if success then None else Some ''diff''),
           em_flow_ids = map fl_id left, em_reports = reports,
           em_finding_count = sum_list (map (\<lambda>rep. length (rep_findings rep)) reports)\<rparr>,
          if success then Inr () else Inl (''diff'', KText ''fixtures differ'')))"

definition diff_reports ::
  "codec \<Rightarrow> ext_lib \<Rightarrow> (ws_terminal \<Rightarrow> string) \<Rightarrow> comparison_policy \<Rightarrow> timing_assertion option \<Rightarrow> fixture \<Rightarrow> fixture
     \<Rightarrow> flow list \<Rightarrow> flow list \<Rightarrow> cli_failure + regression_report list" where
  "diff_reports C X debug_terminal policy timing baseline candidate left right =
     rbind (fixture_websockets C baseline) (\<lambda>baseline_websockets.
     rbind (fixture_websockets C candidate) (\<lambda>candidate_websockets.
     rbind (requested_streams C policy ''stream comparison requested but baseline fixture has no stream-events extension''
              ''invalid baseline stream-events extension'' baseline) (\<lambda>baseline_streams.
     rbind (requested_streams C policy ''stream comparison requested but candidate fixture has no stream-events extension''
              ''invalid candidate stream-events extension'' candidate) (\<lambda>candidate_streams.
     collect_res (diff_pair X debug_terminal policy timing
         \<lparr>ds_fixture = baseline, ds_streams = baseline_streams, ds_websockets = baseline_websockets\<rparr>
         \<lparr>ds_fixture = candidate, ds_streams = candidate_streams, ds_websockets = candidate_websockets\<rparr>)
       (zip left right)))))"

definition diff ::
  "codec \<Rightarrow> ext_lib \<Rightarrow> (ws_terminal \<Rightarrow> string) \<Rightarrow> fs \<Rightarrow> path \<Rightarrow> path \<Rightarrow> comparison_args
     \<Rightarrow> emitted option \<times> (cli_failure + unit)" where
  "diff C X debug_terminal fsys baseline_root candidate_root args =
     (case rbind (comparison_policy_of args) (\<lambda>policy.
           rbind (open_fixture C X fsys baseline_root) (\<lambda>baseline.
           rbind (open_fixture C X fsys candidate_root) (\<lambda>candidate.
           rbind (recorded_flows C baseline) (\<lambda>left.
           rbind (recorded_flows C candidate) (\<lambda>right.
           rbind (diff_reports C X debug_terminal policy (timing_assertion_of args) baseline candidate left right) (\<lambda>reports.
           Inr (diff_verdict left right reports))))))) of
        Inl e \<Rightarrow> (None, Inl e)
      | Inr (out, result) \<Rightarrow> (Some out, result))"

section \<open>JUnit\<close>

definition replace_char :: "char \<Rightarrow> string \<Rightarrow> string \<Rightarrow> string" where
  "replace_char c escape s = concat (map (\<lambda>x. if x = c then escape else [x]) s)"

definition quote_char :: char where "quote_char = CHR 0x22"

definition apostrophe :: char where "apostrophe = CHR 0x27"

definition escape_xml :: "string \<Rightarrow> string" where
  "escape_xml input =
     replace_char apostrophe ''&apos;'' (replace_char quote_char ''&quot;'' (replace_char CHR ''>'' ''&gt;''
       (replace_char CHR ''<'' ''&lt;'' (replace_char CHR ''&'' ''&amp;'' input))))"

definition quoted :: "string \<Rightarrow> string" where
  "quoted s = [quote_char] @ s @ [quote_char]"

fun join_with :: "string \<Rightarrow> string list \<Rightarrow> string" where
  "join_with sep [] = []"
| "join_with sep [x] = x"
| "join_with sep (x # y # xs) = x @ sep @ join_with sep (y # xs)"

definition finding_line :: "diff_finding \<Rightarrow> string" where
  "finding_line f =
     escape_xml (kind_debug (df_kind f)) @ '' '' @ escape_xml (df_field f) @ '' baseline='' @ escape_xml (df_baseline f)
     @ '' candidate='' @ escape_xml (df_candidate f)"

definition test_case :: "string \<Rightarrow> regression_report list \<Rightarrow> nat \<times> string \<Rightarrow> string" where
  "test_case command reports =
     (\<lambda>(index, flow_id).
        let (failed, details) =
              (case nth_opt reports index of
                 Some rep \<Rightarrow>
                   (if \<not> is_success rep then (True, join_with ''; '' (map finding_line (rep_findings rep)))
                    else (False, []))
               | None \<Rightarrow> (False, []))
        in ''<testcase name='' @ quoted (escape_xml flow_id) @ '' classname='' @ quoted (escape_xml command) @ ''>''
           @ (if failed then ''<failure message='' @ quoted ''mismatch'' @ ''>'' @ details @ ''</failure>'' else [])
           @ ''</testcase>'')"

definition junit_for_reports :: "string \<Rightarrow> string list \<Rightarrow> regression_report list \<Rightarrow> string" where
  "junit_for_reports command flow_ids reports =
     ''<testsuite name='' @ quoted (escape_xml command) @ '' tests='' @ quoted (to_dec (length flow_ids))
     @ '' failures='' @ quoted (to_dec (length (filter (\<lambda>rep. \<not> is_success rep) reports)))
     @ '' errors='' @ quoted ''0'' @ ''>''
     @ concat (map (test_case command reports) (enumerate 0 flow_ids))
     @ ''</testsuite>''"

section \<open>The redaction policy\<close>

definition redaction_policy ::
  "string list \<Rightarrow> string list \<Rightarrow> string list \<Rightarrow> string \<Rightarrow> bool \<Rightarrow> redaction_config \<times> string" where
  "redaction_policy extra_headers extra_queries extra_paths profile unsafe_replace =
     (if unsafe_replace
      then (\<lparr>rc_headers = bset_of_list (map to_lower extra_headers), rc_query_keys = bset_of_list extra_queries,
             rc_json_paths = bset_of_list extra_paths\<rparr>, profile)
      else (let config = default_secure
            in (config\<lparr>rc_headers := bset_extend (rc_headers config) (map to_lower extra_headers),
                       rc_query_keys := bset_extend (rc_query_keys config) extra_queries,
                       rc_json_paths := bset_extend (rc_json_paths config) extra_paths\<rparr>, profile)))"

end
