(* ===== verification/Cli_Facts.thy ===== *)
theory Cli_Facts
  imports Cli_Diff Record_Capture_Facts
begin

text \<open>
  What the comparing commands show: the schedulers agree, a service that answers as recorded passes,
  and which fixtures \<^verbatim>\<open>diff\<close> takes for equal.
\<close>

section \<open>The schedulers\<close>

lemma remove_picked:
  assumes "distinct (running @ waiting)" and "i \<in> set running"
  shows "set (remove1 i running @ waiting) = set (running @ waiting) - {i}" "distinct (remove1 i running @ waiting)"
  using assms by (auto simp: set_remove1_eq distinct_remove1)

lemma timeline_loop_step:
  assumes "tasks @ take (n - length tasks) waiting \<noteq> []"
    and "pick_task pick (tasks @ take (n - length tasks) waiting) = i"
  shows "timeline_loop results pick n waiting tasks reports
    = rbind (results i) (\<lambda>rep. timeline_loop results pick n (drop (n - length tasks) waiting)
        (remove1 i (tasks @ take (n - length tasks) waiting)) (reports[i := Some rep]))"
  using assms by (subst timeline_loop.simps) (simp only: Let_def if_False)

lemma timeline_loop_stop:
  assumes "tasks @ take (n - length tasks) waiting = []"
  shows "timeline_loop results pick n waiting tasks reports = Inr reports"
  by (subst timeline_loop.simps) (simp only: Let_def assms if_True simp_thms)

text \<open>
  Whatever task is done next, a run that is over has put the result of every flow at the place of the
  flow, or it stopped at a flow that failed.
\<close>

lemma timeline_loop_reports:
  assumes "distinct (tasks @ waiting)" and "set (tasks @ waiting) \<subseteq> {..<length reports}" and "0 < n"
    and "\<forall>i\<in>set (tasks @ waiting). results i = Inr (r i)"
  shows "timeline_loop results pick n waiting tasks reports
    = Inr (map (\<lambda>i. if i \<in> set (tasks @ waiting) then Some (r i) else reports ! i) [0..<length reports])"
  using assms
proof (induction results pick n waiting tasks reports rule: timeline_loop.induct)
  case (1 results pick n waiting tasks reports)
  define running where "running = tasks @ take (n - length tasks) waiting"
  define rest where "rest = drop (n - length tasks) waiting"
  have same: "tasks @ waiting = running @ rest" by (simp add: running_def rest_def)
  show ?case
  proof (cases "running = []")
    case True
    then have "tasks = []" "waiting = []" using 1(4) by (auto simp: running_def)
    then show ?thesis by (simp add: timeline_loop.simps map_nth)
  next
    case False
    define i where "i = pick_task pick running"
    have i: "i \<in> set running" unfolding i_def by (rule picked_task [OF False])
    then have member: "i \<in> set (running @ rest)" by simp
    with 1(3,5) same have result: "results i = Inr (r i)" and in_range: "i < length reports" by auto
    note left = remove_picked [OF 1(2) [unfolded same] i]
    have bound: "set (remove1 i running @ rest) \<subseteq> {..<length (reports[i := Some (r i)])}"
      and good: "\<forall>k\<in>set (remove1 i running @ rest). results k = Inr (r k)"
      unfolding left(1) using 1(3,5) same by auto
    have "timeline_loop results pick n rest (remove1 i running) (reports[i := Some (r i)])
      = Inr (map (\<lambda>k. if k \<in> set (remove1 i running @ rest) then Some (r k) else reports[i := Some (r i)] ! k)
               [0..<length reports])"
      using 1(1) [OF refl refl refl, folded running_def rest_def, OF False refl, folded i_def, OF left(2) bound 1(4) good]
      by (simp only: length_list_update)
    also have "\<dots> = Inr (map (\<lambda>k. if k \<in> set (tasks @ waiting) then Some (r k) else reports ! k) [0..<length reports])"
      unfolding left(1) same using member in_range by (auto simp: nth_list_update)
    finally show ?thesis
      using False result by (subst timeline_loop.simps) (auto simp: Let_def running_def rest_def i_def)
  qed
qed

lemma timeline_loop_fails:
  assumes "timeline_loop results pick n waiting tasks reports = Inl e"
  shows "\<exists>i\<in>set (tasks @ waiting). results i = Inl e"
  using assms
proof (induction results pick n waiting tasks reports rule: timeline_loop.induct)
  case (1 results pick n waiting tasks reports)
  let ?running = "tasks @ take (n - length tasks) waiting"
  have sub: "set ?running \<subseteq> set (tasks @ waiting)" "set (drop (n - length tasks) waiting) \<subseteq> set (tasks @ waiting)"
    by (auto dest: in_set_takeD in_set_dropD)
  have running: "?running \<noteq> []"
  proof
    assume "?running = []"
    from timeline_loop_stop [OF this, of results pick reports] 1(2) show False by simp
  qed
  note picked = picked_task [OF this, of pick]
  note step = 1(2) [unfolded timeline_loop_step [OF running refl]]
  show ?case
  proof (cases "results (pick_task pick ?running)")
    case (Inl e')
    with step picked sub show ?thesis by auto
  next
    case (Inr rep)
    with step have "timeline_loop results pick n (drop (n - length tasks) waiting)
        (remove1 (pick_task pick ?running) ?running) (reports[pick_task pick ?running := Some rep]) = Inl e"
      by (simp only: rbind_simps)
    note IH = 1(1) [OF refl refl refl running refl this]
    have "set (remove1 (pick_task pick ?running) ?running @ drop (n - length tasks) waiting) \<subseteq> set (tasks @ waiting)"
      using sub set_remove1_subset [of "pick_task pick ?running" ?running] by (simp only: set_append) blast
    with IH show ?thesis by blast
  qed
qed

text \<open>Every flow of the waiting list is compared, so a run is successful only if all of them are.\<close>

lemma timeline_loop_all:
  assumes "0 < n" and "timeline_loop results pick n waiting tasks reports = Inr done_reports"
  shows "\<forall>i\<in>set (tasks @ waiting). \<exists>rep. results i = Inr rep"
  using assms
proof (induction results pick n waiting tasks reports rule: timeline_loop.induct)
  case (1 results pick n waiting tasks reports)
  let ?running = "tasks @ take (n - length tasks) waiting"
  have same: "set (tasks @ waiting) = set (?running @ drop (n - length tasks) waiting)"
    by (metis append.assoc append_take_drop_id)
  show ?case
  proof (cases "?running = []")
    case True
    with 1(2) show ?thesis by auto
  next
    case False
    from 1(3) [unfolded timeline_loop_step [OF False refl] rbind_Inr_iff]
    obtain rep where rep: "results (pick_task pick ?running) = Inr rep"
      and rest: "timeline_loop results pick n (drop (n - length tasks) waiting)
        (remove1 (pick_task pick ?running) ?running) (reports[pick_task pick ?running := Some rep]) = Inr done_reports"
      by blast
    note IH = 1(1) [OF refl refl refl False refl 1(2) rest]
    have "i = pick_task pick ?running \<or> i \<in> set (remove1 (pick_task pick ?running) ?running @ drop (n - length tasks) waiting)"
      if "i \<in> set (tasks @ waiting)" for i
      using that unfolding same by (metis Un_iff in_set_remove1 set_append)
    with IH rep show ?thesis by blast
  qed
qed

text \<open>The sequential run is the timeline with one slot.\<close>

lemma sequential_is_timeline:
  "run_sequential results n
     = map_err (Pair ''runtime'') (timeline_loop results pick 1 [0..<n] [] (replicate n None))"
proof -
  have "try_fold (\<lambda>reports index. rbind (map_err (Pair ''runtime'') (results index)) (\<lambda>rep. Inr (reports[index := Some rep])))
      reports waiting = map_err (Pair ''runtime'') (timeline_loop results pick 1 waiting [] reports)" for waiting reports
  proof (induction waiting arbitrary: reports)
    case Nil
    then show ?case by (subst timeline_loop.simps) (simp add: Let_def map_err_def)
  next
    case (Cons i waiting)
    then show ?case
      by (subst timeline_loop.simps, cases "results i") (simp_all add: Let_def map_err_def pick_task_def)
  qed
  then show ?thesis by (simp add: run_sequential_def)
qed

lemma timeline_loop_run:
  assumes "distinct order" and "set order = {..<k}" and "0 < n"
  shows "case timeline_loop results pick n order [] (replicate k None) of
      Inr reports \<Rightarrow> (\<forall>i<k. \<exists>rep. results i = Inr rep) \<and> reports = map (\<lambda>i. Some (projr (results i))) [0..<k]
    | Inl e \<Rightarrow> \<exists>i<k. results i = Inl e"
proof (cases "timeline_loop results pick n order [] (replicate k None)")
  case (Inl e)
  from timeline_loop_fails [OF this] assms(2) show ?thesis by (auto simp: Inl)
next
  case (Inr reports)
  from timeline_loop_all [OF assms(3) this] assms(2)
  have good: "\<forall>i<k. \<exists>rep. results i = Inr rep" by auto
  then have "\<forall>i\<in>set ([] @ order). results i = Inr (projr (results i))" using assms(2) by fastforce
  from timeline_loop_reports [OF _ _ assms(3) this, of "replicate k None" pick] assms(1,2) Inr good
  show ?thesis by auto
qed

lemma compare_candidate_scheduler:
  "compare_candidate_flow W fx baseline s policy timing streams
     = map_sum id (rep_scheduler_update (\<lambda>_. s)) (compare_candidate_flow W fx baseline s' policy timing streams)"
  by (auto simp: compare_candidate_flow_def compare_upgraded_def compare_flows_with_timing_and_policy_def rbind_def Let_def
      split: sum.splits prod.splits)

text \<open>The order of the timeline visits every flow once.\<close>

lemma timeline_order_visits:
  "timeline_order_offsets offsets n = Inr order \<Longrightarrow> distinct order \<and> set order = {..<length offsets} \<and> 0 < n \<and> n \<le> 1024"
  by (auto simp: timeline_order_offsets_def split: if_splits)

lemma timeline_offsets_length: "timeline_offsets C fx flows = Inr offsets \<Longrightarrow> length offsets = length flows"
  by (auto simp: timeline_offsets_def Let_def res_simps dest: list_all2_lengthD)

lemma run_timeline_ordered:
  assumes "timeline_offsets C fx flows = Inr offsets" and "timeline_order_offsets offsets n = Inr order"
  shows "run_timeline C fx flows results pick n
    = map_err (Pair ''runtime'') (timeline_loop results pick n order [] (replicate (length flows) None))"
  using assms timeline_order_visits [OF assms(2)] by (auto simp: run_timeline_def)

lemma those_map_Some [simp]: "those (map Some xs) = Some xs" "those (map (Some \<circ> f) xs) = Some (map f xs)"
  by (induction xs) auto

text \<open>Two runs with the same results, but for a label, agree whatever their order, slots and picks are.\<close>

lemma runs_agree:
  assumes "distinct order" "set order = {..<k}" "0 < n" and "distinct order'" "set order' = {..<k}" "0 < n'"
    and label: "\<And>i. results' i = map_sum id f (results i)"
  shows "case timeline_loop results pick n order [] (replicate k None) of
      Inr reports \<Rightarrow> (\<exists>reps. reports = map Some reps
        \<and> timeline_loop results' pick' n' order' [] (replicate k None) = Inr (map Some (map f reps)))
    | Inl _ \<Rightarrow> \<exists>e. timeline_loop results' pick' n' order' [] (replicate k None) = Inl e"
proof -
  let ?run = "timeline_loop results pick n order [] (replicate k None)"
  let ?run' = "timeline_loop results' pick' n' order' [] (replicate k None)"
  note R = timeline_loop_run [OF assms(1-3), of results pick]
  note R' = timeline_loop_run [OF assms(4-6), of results' pick']
  have same: "(\<exists>rep. results' i = Inr rep) \<longleftrightarrow> (\<exists>rep. results i = Inr rep)" for i
    unfolding label by (cases "results i") simp_all
  show ?thesis
  proof (cases ?run)
    case (Inl e)
    with R obtain i where "i < k" "results i = Inl e" by auto
    with R' label [of i] obtain e' where "?run' = Inl e'" by (cases ?run') auto
    then show ?thesis by (simp add: Inl)
  next
    case (Inr reports)
    with R have good: "\<forall>i<k. \<exists>rep. results i = Inr rep"
      and reports: "reports = map Some (map (\<lambda>i. projr (results i)) [0..<k])" by simp_all
    from good R' same obtain reports' where run': "?run' = Inr reports'"
      and "reports' = map Some (map (\<lambda>i. projr (results' i)) [0..<k])"
      by (cases ?run') (auto, metis Inl_Inr_False)
    moreover have "projr (results' i) = f (projr (results i))" if "i < k" for i
      using good that label [of i] by auto
    ultimately have "?run' = Inr (map Some (map f (map (\<lambda>i. projr (results i)) [0..<k])))" by simp
    then show ?thesis unfolding Inr reports by (simp only: sum.case) blast
  qed
qed


section \<open>A recorded timeline\<close>

definition timeline_codec :: codec where
  "timeline_codec = demo_codec\<lparr>cd_events_from := (\<lambda>b. if b = ''E'' then Some
     \<lparr>ses_schema_version = STREAM_EVENTS_SCHEMA_VERSION,
      ses_flows = [\<lparr>fse_flow_id = fl_id sample_flow, fse_start_offset_ns = 7, fse_request = [], fse_response = []\<rparr>,
                   \<lparr>fse_flow_id = ''other'', fse_start_offset_ns = 3, fse_request = [], fse_response = []\<rparr>]\<rparr> else None)\<rparr>"

definition timeline_fixture :: fixture where
  "timeline_fixture =
     (\<lparr>fd_files = [(''events.json'', RegularFile ''E'')], fd_blobs = Some []\<rparr>,
      \<lparr>se_root = (''out'', ''s''),
       se_manifest = demo_manifest 2\<lparr>mf_extensions := [\<lparr>ext_name = ''stream-events'', ext_schema_version = 1,
         ext_path = ''events.json'', ext_required = False\<rparr>]\<rparr>,
       se_limits = store_limits_default\<rparr>)"

lemma timeline_fixture_offsets:
  "timeline_offsets timeline_codec timeline_fixture [sample_flow, demo_other] = Inr [7, 3]"
  by code_simp

lemma timeline_fixture_order: "timeline_order_offsets [7, 3] 2 = Inr [1, 0]"
  by code_simp

definition timeline_world :: cli_world where
  "timeline_world =
     (let uri = \<lparr>uri_scheme = Some ''http'', uri_authority = Some ''127.0.0.1'', uri_path = ''/'', uri_query = None\<rparr>
      in \<lparr>cw_ext = demo_lib, cw_codec = timeline_codec,
          cw_http = \<lparr>up_uri = (\<lambda>_. Inr uri), up_method = (\<lambda>_. Inr ()), up_name = Inr, up_value = Inr,
                     up_encode = (\<lambda>_. Inl ''no wire''), up_exchange = (\<lambda>_ _ _ _. undefined)\<rparr>,
          cw_socket = undefined, cw_display = (\<lambda>_. ''failed''),
          cw_client = (\<lambda>_ _ _ _. \<lparr>ca_started_ms = 5, ca_answered_ms = 6,
            ca_result = Inr \<lparr>wr_version = Http11, wr_status = 200, wr_headers = [(''Date'', [''Mon''])],
              wr_frames = [], wr_end_ns = 4\<rparr>,
            ca_uuid = ''u''\<rparr>),
          cw_peer = undefined, cw_target = uri,
          cw_route = \<lparr>route_kind = ''direct'', route_description = None\<rparr>\<rparr>)"

abbreviation timeline_run :: "scheduler_choice \<Rightarrow> cli_failure + regression_report list" where
  "timeline_run choice \<equiv> regression_reports timeline_world timeline_fixture [sample_flow, demo_other] length
     \<lparr>so_choice = choice, so_max_concurrency = 2\<rparr> comparison_policy_default None"

lemma timeline_world_runs: "is_ok (timeline_run ChooseSequential)"
  by code_simp


end
