(* ===== verification/Cli_Diff_Facts.thy ===== *)
theory Cli_Diff_Facts
  imports Cli_Facts
begin

text \<open>
  Which fixtures \<^verbatim>\<open>diff\<close> takes for equal, against a specification by flow and by message; what its
  JUnit report says; escaping and the redaction policy of the command line.
\<close>

section \<open>Conversations\<close>

text \<open>Two recorded messages agree.\<close>

definition messages_agree ::
  "ext_lib \<Rightarrow> fixture \<Rightarrow> fixture \<Rightarrow> u64 option \<Rightarrow> ws_message \<Rightarrow> ws_message \<Rightarrow> bool" where
  "messages_agree X baseline candidate cadence a b \<longleftrightarrow>
     wm_direction a = wm_direction b \<and> wm_kind a = wm_kind b \<and> wm_close_code a = wm_close_code b
     \<and> (wm_close_reason a = wm_close_reason b \<or> wildcard {CloseReason, WholeMessage} a b)
     \<and> pred_option (\<lambda>tolerance. abs_diff (wm_delta_ns a) (wm_delta_ns b) \<le> tolerance) cadence
     \<and> (wm_kind a = WClose \<or> wildcard {WholeMessage} a b \<or> payloads_equal X baseline candidate a b)"

definition recorded_conversations_agree ::
  "ext_lib \<Rightarrow> fixture \<Rightarrow> fixture \<Rightarrow> u64 option \<Rightarrow> ws_conversation \<Rightarrow> ws_conversation \<Rightarrow> bool" where
  "recorded_conversations_agree X baseline candidate cadence left right \<longleftrightarrow>
     wc_selected_subprotocol left = wc_selected_subprotocol right \<and> wc_terminal left = wc_terminal right
     \<and> list_all2 (messages_agree X baseline candidate cadence) (wc_messages left) (wc_messages right)"

lemma compare_messages_Nil_iff:
  "compare_messages X baseline candidate cadence (i, a, b) = [] \<longleftrightarrow> messages_agree X baseline candidate cadence a b"
  by (auto simp: compare_messages_def messages_agree_def Let_def not_less split: option.splits)

lemma compare_all_messages_Nil_iff:
  "concat (map (compare_messages X baseline candidate cadence) (enumerate n (zip ls rs))) = [] \<longleftrightarrow>
     (\<forall>(a, b)\<in>set (zip ls rs). messages_agree X baseline candidate cadence a b)"
  by (induction ls rs arbitrary: n rule: list_induct2') (auto simp: compare_messages_Nil_iff)

lemma compare_fixture_websockets_Nil_iff:
  "compare_fixture_websockets X debug_terminal baseline candidate left right cadence = [] \<longleftrightarrow>
     recorded_conversations_agree X baseline candidate cadence left right"
  unfolding compare_fixture_websockets_def append_is_Nil_conv compare_all_messages_Nil_iff
  by (auto simp: recorded_conversations_agree_def list_all2_iff)

section \<open>Flows\<close>

text \<open>
  Two flows agree: their outcomes do, the candidate was in time, the response events do if they are
  compared, and the conversations do if one of them was upgraded.
\<close>

definition flows_agree ::
  "ext_lib \<Rightarrow> comparison_policy \<Rightarrow> timing_assertion option \<Rightarrow> diff_side \<Rightarrow> diff_side \<Rightarrow> flow \<Rightarrow> flow \<Rightarrow> bool" where
  "flows_agree X policy timing baseline candidate l r \<longleftrightarrow>
     outcomes_equal X policy (fl_outcome l) (fl_outcome r) (response_body_or_empty X (ds_fixture baseline) l)
       (response_body_or_empty X (ds_fixture candidate) r)
     \<and> in_time timing r
     \<and> (is_stream_enabled policy \<longrightarrow>
          (\<exists>left_events right_events. side_events baseline l = Inr left_events \<and> side_events candidate r = Inr right_events
             \<and> compare_stream_events (only_response (fl_id l) left_events) (only_response (fl_id l) right_events)
                 (cp_cadence_tolerance_ns policy) = []))
     \<and> (is_upgraded l \<or> is_upgraded r \<longrightarrow>
          rel_option (recorded_conversations_agree X (ds_fixture baseline) (ds_fixture candidate)
              (cp_websocket_cadence_tolerance_ns policy))
            (map_of (ds_websockets baseline) (fl_id l)) (map_of (ds_websockets candidate) (fl_id r)))"

lemma sort_findings_Nil [simp]: "sort_findings fs = [] \<longleftrightarrow> fs = []"
  unfolding sort_findings_def by (metis length_0_conv length_sort)

lemma flow_findings_Nil_iff:
  "rep_findings (compare_flows_with_timing_and_policy X l r bl br sched timing policy) = [] \<longleftrightarrow>
     outcomes_equal X policy (fl_outcome l) (fl_outcome r) bl br \<and> in_time timing r"
proof -
  let ?r = "compare_flows_with_timing_and_policy X l r bl br sched timing policy"
  have "rep_findings ?r = [] \<longleftrightarrow> set (rep_findings ?r) = {}" by simp
  also have "\<dots> \<longleftrightarrow> outcomes_equal X policy (fl_outcome l) (fl_outcome r) bl br \<and> in_time timing r"
    unfolding report_findings Un_empty by (simp only: set_empty compare_outcomes_Nil_iff timing_finding_Nil_iff)
  finally show ?thesis .
qed

lemma diff_pair_success:
  assumes "diff_pair X debug_terminal policy timing baseline candidate (l, r) = Inr rep"
  shows "is_success rep \<longleftrightarrow> flows_agree X policy timing baseline candidate l r"
proof -
  let ?rep = "compare_flows_with_timing_and_policy X l r (response_body_or_empty X (ds_fixture baseline) l)
    (response_body_or_empty X (ds_fixture candidate) r) Sequential timing policy"
  let ?upgraded = "is_upgraded l \<or> is_upgraded r"
  let ?conversations = "rel_option (recorded_conversations_agree X (ds_fixture baseline) (ds_fixture candidate)
      (cp_websocket_cadence_tolerance_ns policy))
    (map_of (ds_websockets baseline) (fl_id l)) (map_of (ds_websockets candidate) (fl_id r))"
  let ?events = "\<exists>left_events right_events. side_events baseline l = Inr left_events \<and> side_events candidate r = Inr right_events
    \<and> compare_stream_events (only_response (fl_id l) left_events) (only_response (fl_id l) right_events)
        (cp_cadence_tolerance_ns policy) = []"
  obtain mid where streams: "(if is_stream_enabled policy then
        rbind (side_events baseline l) (\<lambda>left_events. rbind (side_events candidate r) (\<lambda>right_events.
        Inr (?rep\<lparr>rep_findings := sort_findings (rep_findings ?rep
           @ compare_stream_events (only_response (fl_id l) left_events) (only_response (fl_id l) right_events)
               (cp_cadence_tolerance_ns policy))\<rparr>)))
      else Inr ?rep) = Inr mid"
    and websockets: "(if ?upgraded then
         (case (map_of (ds_websockets baseline) (fl_id l), map_of (ds_websockets candidate) (fl_id r)) of
            (Some left_ws, Some right_ws) \<Rightarrow>
              Inr (mid\<lparr>rep_findings := sort_findings (rep_findings mid
                @ compare_fixture_websockets X debug_terminal (ds_fixture baseline) (ds_fixture candidate) left_ws
                    right_ws (cp_websocket_cadence_tolerance_ns policy))\<rparr>)
          | _ \<Rightarrow> Inl (''fixture'', KText ''WebSocket 101 flow has missing conversation metadata''))
       else Inr mid) = Inr rep"
    using assms unfolding diff_pair_def Let_def prod.case rbind_Inr_iff by blast
  have "rep_findings mid = [] \<longleftrightarrow> rep_findings ?rep = [] \<and> (is_stream_enabled policy \<longrightarrow> ?events)"
    using streams by (auto simp: rbind_Inr_iff split: if_splits)
  moreover have "rep_findings rep = [] \<longleftrightarrow> rep_findings mid = [] \<and> (?upgraded \<longrightarrow> ?conversations)"
    using websockets by (auto simp: compare_fixture_websockets_Nil_iff split: if_splits option.splits)
  ultimately show ?thesis unfolding is_success_def flows_agree_def flow_findings_Nil_iff by blast
qed

lemma diff_pairs_success:
  assumes "collect_res (diff_pair X debug_terminal policy timing baseline candidate) (zip ls rs) = Inr reports"
  shows "list_all is_success reports \<longleftrightarrow> (\<forall>(l, r)\<in>set (zip ls rs). flows_agree X policy timing baseline candidate l r)"
proof -
  have "list_all is_success reports \<longleftrightarrow> (\<forall>p\<in>set pairs. case p of (l, r) \<Rightarrow> flows_agree X policy timing baseline candidate l r)"
    if "list_all2 (\<lambda>p rep. diff_pair X debug_terminal policy timing baseline candidate p = Inr rep) pairs reports" for pairs
    using that by induction (auto simp: diff_pair_success)
  then show ?thesis using assms by (simp add: collect_res_Inr_iff)
qed

text \<open>What \<^verbatim>\<open>diff\<close> reads beside the flows, for one side.\<close>

definition side_of :: "codec \<Rightarrow> comparison_policy \<Rightarrow> string \<Rightarrow> string \<Rightarrow> fixture \<Rightarrow> cli_failure + diff_side" where
  "side_of C policy missing invalid fx =
     rbind (fixture_websockets C fx) (\<lambda>websockets.
     rbind (requested_streams C policy missing invalid fx) (\<lambda>streams.
     Inr \<lparr>ds_fixture = fx, ds_streams = streams, ds_websockets = websockets\<rparr>))"

abbreviation baseline_side :: "codec \<Rightarrow> comparison_policy \<Rightarrow> fixture \<Rightarrow> cli_failure + diff_side" where
  "baseline_side C policy \<equiv> side_of C policy
     ''stream comparison requested but baseline fixture has no stream-events extension''
     ''invalid baseline stream-events extension''"

abbreviation candidate_side :: "codec \<Rightarrow> comparison_policy \<Rightarrow> fixture \<Rightarrow> cli_failure + diff_side" where
  "candidate_side C policy \<equiv> side_of C policy
     ''stream comparison requested but candidate fixture has no stream-events extension''
     ''invalid candidate stream-events extension''"

lemma diff_reports_by_side:
  "diff_reports C X debug_terminal policy timing baseline candidate left right = Inr reports \<longleftrightarrow>
     (\<exists>b c. baseline_side C policy baseline = Inr b \<and> candidate_side C policy candidate = Inr c
        \<and> collect_res (diff_pair X debug_terminal policy timing b c) (zip left right) = Inr reports)"
  by (auto simp: diff_reports_def side_of_def rbind_Inr_iff)

lemma diff_success_iff:
  "snd (diff C X debug_terminal fsys baseline_root candidate_root args) = Inr () \<longleftrightarrow>
     (\<exists>policy baseline candidate left right reports.
        comparison_policy_of args = Inr policy
      \<and> open_fixture C X fsys baseline_root = Inr baseline \<and> open_fixture C X fsys candidate_root = Inr candidate
      \<and> recorded_flows C baseline = Inr left \<and> recorded_flows C candidate = Inr right
      \<and> diff_reports C X debug_terminal policy (timing_assertion_of args) baseline candidate left right = Inr reports
      \<and> length left = length right \<and> list_all is_success reports
      \<and> fst (diff C X debug_terminal fsys baseline_root candidate_root args)
          = Some (fst (diff_verdict left right reports)))"
  unfolding diff_def
  by (auto simp: diff_verdict_def Let_def rbind_Inr_iff split: sum.splits if_splits)

lemma passing_verdict:
  assumes "length left = length right" and "list_all is_success reports"
  shows "fst (diff_verdict left right reports)
    = \<lparr>em_success = True, em_failure = None, em_flow_ids = map fl_id left, em_reports = reports, em_finding_count = 0\<rparr>"
proof -
  have "sum_list (map (\<lambda>rep. length (rep_findings rep)) reports) = 0"
    using assms(2) by (induction reports) (auto simp: is_success_def)
  with assms show ?thesis by (simp add: diff_verdict_def Let_def)
qed

lemma diff_pairs_agree:
  "collect_res (diff_pair X debug_terminal policy timing b c) (zip left right) = Inr reports \<Longrightarrow>
     length left = length right \<and> list_all is_success reports \<longleftrightarrow> list_all2 (flows_agree X policy timing b c) left right"
  by (simp add: diff_pairs_success list_all2_iff)

text \<open>
  Property C22: \<^verbatim>\<open>diff\<close> passes exactly when the two fixtures agree. It succeeds, and with it the
  printed verdict, if and only if the fixtures open, what is to be compared can be read, they have as
  many flows, and each flow of the baseline agrees with the flow of the candidate at its place: the
  outcomes are equal and in time, the response events are if they are compared, and the conversations
  agree message by message if one of the two was upgraded. It never succeeds without a verdict.
\<close>

theorem diff_passes_iff:
  "snd (diff C X debug_terminal fsys baseline_root candidate_root args) = Inr () \<longleftrightarrow>
     (\<exists>policy baseline candidate left right b c reports.
        comparison_policy_of args = Inr policy
      \<and> open_fixture C X fsys baseline_root = Inr baseline \<and> open_fixture C X fsys candidate_root = Inr candidate
      \<and> recorded_flows C baseline = Inr left \<and> recorded_flows C candidate = Inr right
      \<and> baseline_side C policy baseline = Inr b \<and> candidate_side C policy candidate = Inr c
      \<and> collect_res (diff_pair X debug_terminal policy (timing_assertion_of args) b c) (zip left right) = Inr reports
      \<and> list_all2 (flows_agree X policy (timing_assertion_of args) b c) left right
      \<and> fst (diff C X debug_terminal fsys baseline_root candidate_root args) = Some
          \<lparr>em_success = True, em_failure = None, em_flow_ids = map fl_id left, em_reports = reports, em_finding_count = 0\<rparr>)"
  unfolding diff_success_iff diff_reports_by_side
  by (intro iffI; elim exE conjE) (metis diff_pairs_agree passing_verdict)+

section \<open>The report\<close>

lemma test_case_passed:
  assumes "list_all is_success reports"
  shows "test_case command reports (i, flow_id)
    = ''<testcase name='' @ quoted (escape_xml flow_id) @ '' classname='' @ quoted (escape_xml command) @ ''></testcase>''"
proof -
  have "is_success rep" if "nth_opt reports i = Some rep" for rep
    using assms that by (auto simp: list_all_length nth_opt_def split: if_splits)
  then show ?thesis by (auto simp: test_case_def Let_def split: option.splits)
qed

text \<open>
  A candidate that lost its last flows: \<^verbatim>\<open>diff\<close> fails, but no report says so. The JUnit output is, to
  the byte, the one of a comparison of the baseline with itself that passes, with no failure and a test
  case for every flow, the missing ones too.
\<close>

theorem short_candidate_looks_green:
  assumes "list_all is_success reports" and "length left \<noteq> length right"
    and "list_all is_success whole" and "length left = length right'"
  shows "snd (diff_verdict left right reports) = Inl (''diff'', KText ''fixtures differ'')"
    and "snd (diff_verdict left right' whole) = Inr ()"
    and "junit_for_reports ''diff'' (em_flow_ids (fst (diff_verdict left right reports)))
           (em_reports (fst (diff_verdict left right reports)))
       = junit_for_reports ''diff'' (em_flow_ids (fst (diff_verdict left right' whole)))
           (em_reports (fst (diff_verdict left right' whole)))"
proof -
  have none: "filter (\<lambda>rep. \<not> is_success rep) reps = []" if "list_all is_success reps" for reps
    using that by (induction reps) auto
  have "test_case ''diff'' reports = test_case ''diff'' whole"
    using assms(1,3) by (auto simp: test_case_passed)
  then show "junit_for_reports ''diff'' (em_flow_ids (fst (diff_verdict left right reports)))
           (em_reports (fst (diff_verdict left right reports)))
       = junit_for_reports ''diff'' (em_flow_ids (fst (diff_verdict left right' whole)))
           (em_reports (fst (diff_verdict left right' whole)))"
    using none [OF assms(1)] none [OF assms(3)]
    by (simp add: diff_verdict_def Let_def junit_for_reports_def)
qed (use assms in \<open>simp_all add: diff_verdict_def Let_def\<close>)

text \<open>The five replacements one after the other are the replacement of each character.\<close>

definition xml_char :: "char \<Rightarrow> string" where
  "xml_char c =
     (if c = CHR ''&'' then ''&amp;'' else if c = CHR ''<'' then ''&lt;'' else if c = CHR ''>'' then ''&gt;''
      else if c = quote_char then ''&quot;'' else if c = apostrophe then ''&apos;'' else [c])"

lemma replace_char_append [simp]: "replace_char c e (xs @ ys) = replace_char c e xs @ replace_char c e ys"
  by (simp add: replace_char_def)

lemma replace_char_Cons: "replace_char c e (x # xs) = (if x = c then e else [x]) @ replace_char c e xs"
  by (simp add: replace_char_def)

lemma replace_char_Nil [simp]: "replace_char c e [] = []"
  by (simp add: replace_char_def)

lemma escape_xml_by_char: "escape_xml s = concat (map xml_char s)"
proof (induction s)
  case Nil
  then show ?case by (simp add: escape_xml_def)
next
  case (Cons c s)
  have "escape_xml (c # s) = escape_xml [c] @ escape_xml s"
    unfolding escape_xml_def by (simp only: replace_char_append [symmetric] append_Cons append_Nil)
  moreover have "escape_xml [c] = xml_char c"
    by (auto simp: escape_xml_def xml_char_def replace_char_Cons quote_char_def apostrophe_def)
  ultimately show ?case using Cons by simp
qed

text \<open>Escaped text cannot open or close an element or an attribute, and no two texts escape to one.\<close>

lemma escape_xml_is_inert:
  "CHR ''<'' \<notin> set (escape_xml s)" "CHR ''>'' \<notin> set (escape_xml s)" "quote_char \<notin> set (escape_xml s)"
  "apostrophe \<notin> set (escape_xml s)"
  unfolding escape_xml_by_char by (auto simp: xml_char_def quote_char_def apostrophe_def split: if_splits)

lemma xml_char_prefix_free:
  assumes "xml_char c @ xs = xml_char d @ ys"
  shows "c = d \<and> xs = ys"
  using assms by (auto simp: xml_char_def quote_char_def apostrophe_def split: if_splits)

lemma xml_char_not_Nil [simp]: "xml_char c \<noteq> []"
  by (simp add: xml_char_def)

lemma escape_xml_inject: "escape_xml s = escape_xml t \<longleftrightarrow> s = t"
  unfolding escape_xml_by_char
proof (induction s arbitrary: t)
  case Nil
  then show ?case by (cases t) simp_all
next
  case (Cons c s)
  then show ?case by (cases t) (auto dest: xml_char_prefix_free)
qed

section \<open>The redaction policy\<close>

text \<open>Without \<^verbatim>\<open>--unsafe-replace-redaction\<close> what a recording masks by default stays masked.\<close>

lemma redaction_policy_extends:
  assumes "redaction_policy headers queries paths profile False = (config, name)"
  shows "set (rc_headers default_secure) \<union> to_lower ` set headers = set (rc_headers config)"
    and "set (rc_query_keys default_secure) \<union> set queries = set (rc_query_keys config)"
    and "set (rc_json_paths default_secure) \<union> set paths = set (rc_json_paths config)"
  using assms by (auto simp: redaction_policy_def Let_def)

end
