(* ===== verification/Cli_Compose.thy ===== *)
theory Cli_Compose
  imports Cli_Diff_Facts Record_Request
begin

text \<open>
  Recording and testing together: a service that still answers what was recorded passes. The recorder
  writes to a staged blob and hex-encodes what is not text, the runner collects bytes and reads values
  lossily; both make a timeline and trailers of the frames of a response.
\<close>

section \<open>What the runner sees of a response\<close>

text \<open>The names are those of a header map, in lower case, and the values are text for both readers.\<close>

definition plain_entries :: "(bytes \<Rightarrow> string option) \<Rightarrow> header_entries \<Rightarrow> bool" where
  "plain_entries to_str hs \<longleftrightarrow>
     list_all (\<lambda>(name, val). to_lower name = name \<and> to_str val = Some val \<and> utf8_valid val) (flatten hs)"

fun plain_frame :: "(bytes \<Rightarrow> string option) \<Rightarrow> fetch_error + body_frame \<Rightarrow> bool" where
  "plain_frame to_str (Inr (FrTrailers trailers)) = plain_entries to_str trailers"
| "plain_frame to_str _ = True"

lemma plain_lossy_entries:
  "plain_entries to_str hs \<Longrightarrow> lossy_entries hs = fst (recorded_entries to_str hs)"
  by (auto simp: plain_entries_def lossy_entries_def recorded_entries_def entry_of_def list_all_iff utf8_lossy_valid)

lemma candidate_event_in_room:
  assumes "now \<le> 60000000000" and "\<not> is_empty_data \<lparr>se_delta_ns = elapsed_ns now, se_event = kind\<rparr>"
    and "length (cc_events c) < MAX_EVENTS_PER_DIRECTION"
  shows "observe_event c now kind
    = Inr (c\<lparr>cc_events := cc_events c @ [\<lparr>se_delta_ns = elapsed_ns now, se_event = kind\<rparr>]\<rparr>)"
  using assms elapsed_ns_delay [OF assms(1)]
  by (simp add: observe_event_def push_candidate_event_def not_less [symmetric])

definition timely :: "nat \<Rightarrow> (nat \<times> (fetch_error + body_frame)) list \<Rightarrow> bool" where
  "timely end_ns frames \<longleftrightarrow> end_ns \<le> 60000000000 \<and> list_all (\<lambda>(now, _). now \<le> 60000000000) frames"

text \<open>
  The runner reads every frame, if the body is within the limit, the events within their number and no
  frame more than a minute after the head. Only then, since it gives up otherwise.
\<close>

lemma candidate_loop_result:
  assumes "timely end_ns frames" and "sized_frames frames"
    and "list_all (\<lambda>(_, frame). plain_frame to_str frame) frames"
    and "length (cc_bytes c @ wire_bytes frames) \<le> unat limit"
    and "length (cc_events c) + length (wire_events to_str end_ns (cc_offset c) frames) \<le> MAX_EVENTS_PER_DIRECTION"
  shows "\<exists>c'. candidate_loop limit end_ns frames c = Inr c'
    \<and> cc_events c' = cc_events c @ wire_events to_str end_ns (cc_offset c) frames
    \<and> cc_trailers c' = wire_trailers to_str (cc_trailers c) frames
    \<and> cc_bytes c' = cc_bytes c @ wire_bytes frames"
  using assms
proof (induction limit end_ns frames c rule: candidate_loop.induct)
  case (1 limit end_ns c)
  then show ?case by (simp add: candidate_event_in_room timely_def is_empty_data_def)
next
  case (2 limit end_ns now err frames c)
  then show ?case by (simp add: candidate_event_in_room timely_def is_empty_data_def split_def Let_def)
next
  case (3 limit end_ns now data frames c)
  have sized: "length data < 2 ^ 64" "sized_frames frames" and timely: "timely end_ns frames" "now \<le> 60000000000"
    using 3(3,4) by (auto simp: sized_frames_def timely_def)
  show ?case
  proof (cases "data = []")
    case True
    with 3(1) [OF True timely(1) sized(2)] 3(5-) show ?thesis by simp
  next
    case False
    then have "(of_nat (length data) :: u64) \<noteq> 0"
      using u64_of_length [OF sized(1)] by (auto simp: word_unat_eq_iff)
    then have event: "observe_event (c\<lparr>cc_bytes := cc_bytes c @ data\<rparr>) now (SData (cc_offset c) (of_nat (length data)))
      = Inr (c\<lparr>cc_bytes := cc_bytes c @ data, cc_events := cc_events c
           @ [\<lparr>se_delta_ns = elapsed_ns now, se_event = SData (cc_offset c) (of_nat (length data))\<rparr>]\<rparr>)"
      using 3(7) False timely(2) by (simp add: candidate_event_in_room is_empty_data_def)
    have fits: "\<not> length (cc_bytes c) + length data > unat limit" using 3(6) by simp
    let ?c = "c\<lparr>cc_bytes := cc_bytes c @ data, cc_events := cc_events c
           @ [\<lparr>se_delta_ns = elapsed_ns now, se_event = SData (cc_offset c) (of_nat (length data))\<rparr>]\<rparr>"
    from 3(2) [OF False fits timely(1) sized(2), of ?c] 3(5-) False fits event show ?thesis by simp
  qed
next
  case (4 limit end_ns now trailers frames c)
  have sized: "sized_frames frames" and timely: "timely end_ns frames" "now \<le> 60000000000"
    using 4(2,3) by (auto simp: sized_frames_def timely_def)
  have lossy: "lossy_entries trailers = fst (recorded_entries to_str trailers)"
    using 4(4) by (simp add: plain_lossy_entries)
  have event: "observe_event (c\<lparr>cc_trailers := lossy_entries trailers\<rparr>) now (STrailers (lossy_entries trailers))
      = Inr (c\<lparr>cc_trailers := lossy_entries trailers, cc_events := cc_events c
           @ [\<lparr>se_delta_ns = elapsed_ns now, se_event = STrailers (lossy_entries trailers)\<rparr>]\<rparr>)"
    using 4(6) timely(2) by (simp add: candidate_event_in_room is_empty_data_def)
  let ?c = "c\<lparr>cc_trailers := lossy_entries trailers, cc_events := cc_events c
           @ [\<lparr>se_delta_ns = elapsed_ns now, se_event = STrailers (lossy_entries trailers)\<rparr>]\<rparr>"
  from 4(1) [OF refl timely(1) sized, of ?c] 4(4-) event show ?case by (simp add: Let_def lossy)
next
  case (5 limit end_ns now frames c)
  then show ?case by (auto simp: sized_frames_def timely_def)
qed

text \<open>What two arrivals of the same frames have in common: all but the times.\<close>

lemma frame_cases:
  obtains (Fail) err where "item = Inl err" | (Data) data where "item = Inr (FrData data)"
    | (Trailers) trailers where "item = Inr (FrTrailers trailers)" | (Other) "item = Inr FrOther"
  by (metis body_frame.exhaust sum.exhaust)

lemma same_frames:
  assumes "map snd frames' = map snd frames"
  shows "wire_bytes frames' = wire_bytes frames \<and> wire_trailers to_str found frames' = wire_trailers to_str found frames
    \<and> map se_event (wire_events to_str end_ns' offset frames') = map se_event (wire_events to_str end_ns offset frames)"
  using assms
proof (induction frames arbitrary: frames' found offset)
  case Nil
  then show ?case by simp
next
  case (Cons fr frames)
  obtain now item where fr: "fr = (now, item)" by (cases fr)
  with Cons.prems obtain now' rest where frames': "frames' = (now', item) # rest" and rest: "map snd rest = map snd frames"
    by (cases frames') auto
  note IH = Cons.IH [OF rest]
  show ?case
    unfolding fr frames' by (cases item rule: frame_cases) (simp_all add: IH)
qed

lemma same_frames_list_all:
  assumes "map snd frames' = map snd frames"
  shows "list_all (\<lambda>(_, frame). P frame) frames' \<longleftrightarrow> list_all (\<lambda>(_, frame). P frame) frames"
    and "sized_frames frames' \<longleftrightarrow> sized_frames frames"
proof -
  have snds: "snd ` set frames' = snd ` set frames" using assms by (metis list.set_map)
  have all: "list_all (\<lambda>(_, frame). P frame) fs \<longleftrightarrow> (\<forall>frame\<in>snd ` set fs. P frame)" for fs :: "(nat \<times> (fetch_error + body_frame)) list" and P
    by (auto simp: list_all_iff)
  show "list_all (\<lambda>(_, frame). P frame) frames' \<longleftrightarrow> list_all (\<lambda>(_, frame). P frame) frames"
    unfolding all snds ..
  have sized: "sized_frames fs \<longleftrightarrow> (\<forall>frame\<in>snd ` set fs. \<forall>data. frame = Inr (FrData data) \<longrightarrow> length data < 2 ^ 64)" for fs
    by (force simp: sized_frames_def)
  show "sized_frames frames' \<longleftrightarrow> sized_frames frames" unfolding sized snds ..
qed

lemma same_events_no_finding:
  assumes "map se_event ls = map se_event rs"
  shows "compare_stream_events (only_response i ls) (only_response j rs) None = []"
proof -
  have "length ls = length rs" using assms by (metis length_map)
  moreover have "list_all2 (\<lambda>a b. se_event a = se_event b) ls rs"
    using assms by (simp add: list_all2_eq list_all2_map1 list_all2_map2)
  ultimately have "\<not> (length ls \<noteq> length rs \<or> (\<exists>(a, b)\<in>set (zip ls rs). \<not> same_stream_event (se_event a) (se_event b)))"
    by (auto simp: list_all2_iff same_stream_event_refl)
  then show ?thesis
    unfolding compare_stream_events_def only_response_def Let_def flow_stream_events.simps by (simp only: if_False) simp
qed

lemma same_response_no_finding:
  assumes "is_sse_enabled policy \<Longrightarrow> spr_error (parse_sse body True) = None"
    and "resp_status e = resp_status a" "resp_headers e = resp_headers a" "resp_trailers e = resp_trailers a"
  shows "fst (compare_outcomes X (OutResponse e) (OutResponse a) body body policy) = []"
proof -
  have "compare_sse_bodies policy body body = None" if "is_sse_enabled policy"
    using assms(1) [OF that] by (simp add: compare_sse_bodies_def Let_def compare_sse_iff)
  moreover have "headers_equal policy hs hs" for hs
    by (simp add: headers_equal_def differs_def)
  ultimately show ?thesis
    unfolding compare_outcomes_Nil_iff outcomes_equal.simps responses_equal_def assms(2-4) by simp
qed


section \<open>A service that kept its answer\<close>

definition text_recorder :: recorder where
  "text_recorder = \<lparr>re_to_str = Some, re_display = (\<lambda>_. ''failed''), re_redaction = default_secure, re_profile = ''p'',
     re_max_structured = 64, re_route = None\<rparr>"

definition kept_response :: "nat \<Rightarrow> wire_response" where
  "kept_response late = \<lparr>wr_version = Http11, wr_status = 200, wr_headers = [(''x-id'', [''7''])],
     wr_frames = map (\<lambda>(now, item). (now + late, item)) sample_frames, wr_end_ns = 20 + late\<rparr>"

lemma kept_response_facts:
  "wr_frames (kept_response 0) = sample_frames" "wr_end_ns (kept_response 0) = 20"
  "wire_bytes sample_frames = ''abc''" "map snd (wr_frames (kept_response 9)) = map snd sample_frames"
  "timely (wr_end_ns (kept_response 9)) (wr_frames (kept_response 9))"
  "plain_entries (re_to_str text_recorder) (wr_headers (kept_response 0))"
  "list_all (\<lambda>(_, item). plain_frame (re_to_str text_recorder) item) sample_frames"
  "wr_status (kept_response 9) = wr_status (kept_response 0)" "wr_headers (kept_response 9) = wr_headers (kept_response 0)"
  by code_simp+

lemma kept_response_captured:
  obtains d w cap where
    "response_loop (re_to_str text_recorder) (wr_end_ns (kept_response 0)) (wr_frames (kept_response 0))
       (fst sample_staging) (snd sample_staging) capture_start = (d, w, Inr cap)"
    and "bw_hasher w = ''abc''" and "writer_ok (fst sample_staging) (snd sample_staging)"
    and "bw_hasher (snd sample_staging) = []"
proof -
  have staged: "writer_ok (fst sample_staging) (snd sample_staging)" "bw_hasher (snd sample_staging) = []"
    by (simp_all add: sample_staging_def writer_ok_def staging_not_digest blob_node_def blob_entries_def)
  have fits: "length (wire_bytes sample_frames) \<le> unat (bw_max_bytes (snd sample_staging))"
    "length (wire_events Some 20 0 sample_frames) \<le> 2048" by code_simp+
  obtain d w r where run: "response_loop Some 20 sample_frames (fst sample_staging) (snd sample_staging) capture_start
    = (d, w, r)" by (rule prod_cases3)
  from response_loop_result [OF staged(1) sized_sample _ run] fits
  obtain cap where "r = Inr cap" "bw_hasher w = wire_bytes sample_frames"
    by (auto simp: staged(2) capture_start_def MAX_EVENTS_PER_DIRECTION_def MAX_STREAM_EVENTS_PER_FLOW_def)
  with that [of d w cap] run staged show ?thesis
    by (simp add: kept_response_facts text_recorder_def)
qed


end
