(* ===== verification/Spec2Isabelle.thy ===== *)
theory Spec2Isabelle
  imports
    Record_Config Redaction Streams Scenario Websocket Report
    Proxy_Headers Proxy_Policy_File
    Store_Copy Store_Recording
    Har_Round_Trip
    Grpc_View Record_Request_Facts
    Replay_Facts Replay_Socket_Facts Replay_Locks
    Cli_Compose
begin

text \<open>
  A verification of \<^verbatim>\<open>eggreplay\<close>, which records HTTP exchanges into fixtures and replays, compares and
  intercepts them. The theories follow the crates under \<^verbatim>\<open>src/crates\<close>.

  \<^bold>\<open>The program and how its parts interact.\<close> A recording gateway (\<^verbatim>\<open>eggreplay-http\<close>) turns an
  exchange into a flow, redacts it and appends it to a session of the store (\<^verbatim>\<open>eggreplay-store\<close>), its
  bodies stored first as blobs; finishing the session publishes a fixture. A replay opens the fixture,
  turns its flows into candidates and answers each request with the one the matcher selects; a
  regression run compares what a service answers now with what was recorded. Scenarios add state to a
  replay, stream events add timing, WebSocket transcripts add conversations. An intercepting proxy
  decides by a target policy what it forwards. The core crate (\<^verbatim>\<open>eggreplay-core\<close>) holds the data and
  the decisions, and it is what most of the model is about.

  \<^bold>\<open>Which theory models what.\<close>

    \<^item> \<open>Prelude\<close>, \<open>Strings\<close>: results (a sum with the error on the left, \<open>rbind\<close> for the question mark),
      loops that stop at an error (\<open>try_fold\<close>, \<open>check_all\<close>, and the locale \<open>cursor_loop\<close> of a loop
      whose state depends on what it has accepted), checked and saturating \<^verbatim>\<open>u64\<close> arithmetic, ordered sets
      and maps as sorted lists, the string functions of the standard library.
    \<^item> \<open>Flow_Model\<close>, \<open>Record_Config\<close>: \<^verbatim>\<open>flow.rs\<close>, \<^verbatim>\<open>error.rs\<close>, \<^verbatim>\<open>config.rs\<close>: records with the fields of
      the structs, validation, modes and limits.
    \<^item> \<open>External\<close>: what is not source of the repository, as the record \<open>ext_lib\<close>: SHA-256, JSON and form
      codecs. The laws a theorem needs are named predicates (\<open>sha256_lawful\<close>, \<open>pointer_lawful\<close>), and
      \<open>demo_lib\<close> is an instance that satisfies them, at which the witnesses compute.
    \<^item> \<open>Matching\<close>, \<open>Redaction\<close>: \<^verbatim>\<open>matching.rs\<close>, \<^verbatim>\<open>security.rs\<close>.
    \<^item> \<open>Streams\<close>, \<open>Scenario\<close>, \<open>Websocket\<close>, \<open>Report\<close>: \<^verbatim>\<open>stream.rs\<close> and the timed schedule of
      \<^verbatim>\<open>eggreplay-http/src/replay.rs\<close>, \<^verbatim>\<open>scenario.rs\<close>, \<^verbatim>\<open>websocket.rs\<close>, \<^verbatim>\<open>report.rs\<close>.
    \<^item> \<open>Proxy_Policy\<close>, \<open>Proxy_Headers\<close>, \<open>Proxy_Policy_File\<close>: \<^verbatim>\<open>policy.rs\<close>, \<^verbatim>\<open>headers.rs\<close>,
      \<^verbatim>\<open>policy_file.rs\<close> of \<^verbatim>\<open>eggreplay-intercept\<close>.
    \<^item> \<open>Store_Blobs\<close>, \<open>Store_Session\<close>, \<open>Store_Writer\<close>, \<open>Store_Copy\<close>, \<open>Store_Recording\<close>:
      \<^verbatim>\<open>eggreplay-store/src/lib.rs\<close>: the directory of a fixture and its content-addressed bodies; what
      opening a fixture checks; the sequential writer; copies and merges; the concurrent recording as
      runs of schedules of atomic actions.

    \<^item> \<open>Har_Document\<close>, \<open>Har_Import\<close>, \<open>Har_Import_Facts\<close>, \<open>Har_Export\<close>, \<open>Har_Round_Trip\<close>:
      \<^verbatim>\<open>eggreplay-har/src/lib.rs\<close>: the HAR document and its decoder, the conversion of every entry (one
      definition per section of the loop body) and its publication through the writer, the export, the
      migration; what an import publishes and masks, what an export reports, and the way there and back.
    \<^item> \<open>Grpc_View\<close>, \<open>Fetch_Errors\<close>: \<^verbatim>\<open>grpc.rs\<close> of \<^verbatim>\<open>eggreplay-http\<close> (the framing of gRPC bodies and
      the status of their trailers, with \<^verbatim>\<open>from_utf8_lossy\<close>); \<^verbatim>\<open>error_classify.rs\<close> and the header check
      of \<^verbatim>\<open>h2.rs\<close>.
    \<^item> \<open>Record_Capture\<close>, \<open>Record_Capture_Facts\<close>, \<open>Record_Request\<close>, \<open>Record_Request_Facts\<close>:
      \<^verbatim>\<open>recording.rs\<close>: what is captured of the two bodies of an exchange and of their timing, and
      \<^verbatim>\<open>record_request\<close> and \<^verbatim>\<open>record_request_with_session\<close> from the request head to the appended flow.
      Both are one definition over the record \<open>store_ops\<close> of what they need of a store; the locale
      \<open>recording_store\<close> states its laws and is interpreted for the writer and for the concurrent
      session (\<open>writer_recording\<close>, \<open>session_recording\<close>).
    \<^item> \<open>Replay_Load\<close>, \<open>Replay_Serve\<close>, \<open>Replay_Handle\<close>, \<open>Replay_Socket\<close>: \<^verbatim>\<open>replay.rs\<close>: loading a fixture into
      the state of a server; requests, responses and the body streams, which are lists of emissions
      with their delays; \<^verbatim>\<open>handle_request\<close> on every branch, with the misses it records under the lock of
      their key; the WebSocket upgrade and script. \<open>Replay_Facts\<close>, \<open>Replay_Streams\<close>,
      \<open>Replay_Socket_Facts\<close>, \<open>Replay_Locks\<close> show which fixtures load, that a sealed server is a pool of
      recordings, what a client gets of a recorded body and of a cut one, that a conversation follows
      its recording, and that misses are serialised by key.
    \<^item> \<open>Candidate_Run\<close>, \<open>Candidate_Socket\<close>: \<^verbatim>\<open>regression.rs\<close>: a recorded request sent to a service under test
      and what is observed of its response; a recorded conversation run against it, the service being a
      record of how it answers.
    \<^item> \<open>Cli_Compare\<close>, \<open>Cli_Diff\<close>: of \<^verbatim>\<open>main.rs\<close> of \<^verbatim>\<open>eggreplay-cli\<close>, the commands \<^verbatim>\<open>replay\<close>, \<^verbatim>\<open>test\<close> (a run over a
      fixture in order or along its timeline, with any choice of the comparison that is done next) and
      \<^verbatim>\<open>diff\<close>, the verdicts with their exit codes, the JUnit report. \<open>Cli_Facts\<close> shows that the schedulers
      agree, \<open>Cli_Diff_Facts\<close> which fixtures \<^verbatim>\<open>diff\<close> takes for equal, \<open>Cli_Compose\<close> that a service passes the
      comparison with what the recorder of \<open>Record_Capture\<close> kept of the same answer.

  \<^bold>\<open>What the lemmas show.\<close> Each validator of a document is proved equivalent to a declarative predicate
  (\<open>stream_events_accepted_iff\<close>, \<open>transcript_accepted_iff\<close>, \<open>rules_accepted_iff\<close>, \<open>session_opens_iff\<close>,
  \<open>comparison_succeeds_iff\<close>), each decision to its specification (\<open>evaluate_most_specific_deny_wins\<close>,
  \<open>select_first_available\<close>). State machines have an invariant under every step: the matcher session, the
  scenario runtime, the writer of a fixture (\<open>staged\<close>) and the concurrent recording
  (\<open>recording_inv\<close>). Contracts several operations share are locales, interpreted on the model's own
  definitions: \<open>cursor_loop\<close> for the loops of the validators and of the flow log, \<open>confined\<close> for
  operations that write in their own directory only. Composition: a redacted recording still matches
  its request (\<open>Redaction\<close>); a service that answers as it was recorded passes (\<open>Cli_Compose\<close>); a
  published session replays in recording order (below); a recording under any interleaving is a sequential one (\<open>Store_Recording\<close>) and what a session reads is what was appended
  (\<open>Store_Writer\<close>).

  \<^bold>\<open>Bounds and conventions.\<close> Machine integers keep their width (\<^verbatim>\<open>u64\<close> and \<^verbatim>\<open>u16\<close> are words); a
  \<^verbatim>\<open>usize\<close> is a natural number with the saturation at \<open>2 ^ 64\<close> written out where the code has it.
  Strings and bytes are lists of characters, a Rust string being one that is valid UTF-8. No fuel is
  used: every loop of the model is structural or has a termination proof. Messages of errors are the
  literals of the code, or the inner error where the code only formats it.

  \<^bold>\<open>Parameters.\<close> Besides \<open>ext_lib\<close>: the \<open>codec\<close> of the store (the derived JSON encoders and decoders;
  \<open>flow_coded\<close> and \<open>manifest_coded\<close> state that an encoding has no raw newline and reads back), the
  floating-point operations of the timing modes, the parsed policy document, and the unique names
  drawn from clock and counter. The HAR crate has \<open>har_lib\<close> for the JSON text, URLs, base64 and dates,
  with the laws \<open>har_lawful\<close>; its numbers of milliseconds are computed (\<open>f64\<close>).

  \<^bold>\<open>Not modelled.\<close> Disk faults and file permissions; network input and output, TLS and certificates
  (the servers of \<^verbatim>\<open>recording.rs\<close> and \<^verbatim>\<open>inbound.rs\<close>, \<^verbatim>\<open>ca.rs\<close>, \<^verbatim>\<open>mitm.rs\<close>), which are asynchronous
  plumbing around the modelled decisions; of the command line, the commands that record, serve, inspect
  and replace fixtures, argument parsing and printing, and the interception command; the Python
  bindings; URL redaction, which rests on an external parser.
\<close>

section \<open>Replaying a recorded session\<close>

text \<open>
  A session is the list of recorded flows with the bodies their requests were made with; what is
  published are the redacted flows, in recording order.
\<close>

definition published ::
  "redaction_config \<Rightarrow> string \<Rightarrow> (flow \<times> bytes) list \<Rightarrow> match_candidate list" where
  "published config profile session =
     map (\<lambda>(fl, _). match_candidate_from_flow (redact_flow fl config profile)) session"

definition recorded_exchange :: "ext_lib \<Rightarrow> flow \<times> bytes \<Rightarrow> bool" where
  "recorded_exchange X e \<longleftrightarrow> fl_redactions (fst e) = [] \<and> recorded_body X (fl_request (fst e)) (snd e)"

lemma replay_serves_next:
  assumes matches: "candidate_matches X m request body g k (cands ! k)" and k: "k < length cands"
    and used: "ms_consumed s = {..<k}"
    and sel: "select_with_loader X m request body cands Consume_Once s (answers g) () = (r, s', u)"
  shows "r = Matched k \<and> ms_consumed s' = {..<Suc k}"
proof -
  have avail: "is_available Consume_Once s j \<longleftrightarrow> k \<le> j" for j
    by (auto simp: is_available_def used)
  note res = select_answers_result [OF sel]
  show ?thesis
  proof (cases r)
    case (Matched i)
    with res matches have "k \<le> i" "\<not> k < i" "s' = consume Consume_Once s i"
      by (auto simp: avail)
    with Matched show ?thesis by (auto simp: consume_def used)
  qed (use res matches k avail in auto)
qed

lemma replay_in_order:
  assumes "list_all (recorded_exchange X) session" and "mt_body_mode m = ExactBytes"
    and "k \<le> length session" and "ms_consumed s = {..<k}"
  shows "fst (replay_run X m (published config profile session) Consume_Once g s
           (map (\<lambda>(fl, body). (fl_request fl, body)) (drop k session)))
         = map Matched [k..<length session]"
  using assms(3,4)
proof (induction "length session - k" arbitrary: k s)
  case (Suc n)
  then have k: "k < length session" by simp
  obtain fl body where e: "session ! k = (fl, body)" by fastforce
  have "recorded_exchange X (fl, body)"
    using assms(1) k e by (metis list_all_length)
  then have m: "candidate_matches X m (fl_request fl) body g k (published config profile session ! k)"
    using k e by (simp add: published_def recorded_exchange_def redacted_candidate_matches [OF _ assms(2)])
  obtain r s' u where sel: "select_with_loader X m (fl_request fl) body (published config profile session)
      Consume_Once s (answers g) () = (r, s', u)" by (rule prod_cases3)
  have served: "r = Matched k" "ms_consumed s' = {..<Suc k}"
    using replay_serves_next [OF m _ Suc.prems(2) sel] k by (auto simp: published_def)
  have "drop k session = (fl, body) # drop (Suc k) session"
    using k e by (metis Cons_nth_drop_Suc)
  moreover have "[k..<length session] = k # [Suc k..<length session]"
    using k by (simp add: upt_conv_Cons)
  moreover have "n = length session - Suc k" "Suc k \<le> length session"
    using Suc.hyps(2) k by simp_all
  note Suc.hyps(1) [OF this served(2)]
  ultimately show ?case
    using served(1) by (simp add: sel case_prod_unfold)
qed simp



end
